(* ===== verification/Linea_Prelude.thy ===== *)
theory Linea_Prelude
  imports Complex_Main
begin

text \<open>
  Shared vocabulary of the development.

  \<^item> A result type: a thrown error is the left summand, a returned value the right one, and
    \<open>bindE\<close> runs the next statement only when the previous one returned.
  \<^item> The JavaScript \<^verbatim>\<open>Map\<close>: an association list in insertion order. Setting a key that is
    present keeps its position, setting a new key appends it.
  \<^item> Database tables: a list of rows. \<open>update_where\<close> is the SQL statement
    \<^verbatim>\<open>UPDATE .. SET .. WHERE .. RETURNING\<close> that every repository function is built from.
  \<^item> The interface \<open>keyed_store\<close> of everything that stores values under keys, and its
    insertion-ordered extension, interpreted on \<^verbatim>\<open>Map\<close> here and on plain objects in
    \<open>Js_Value\<close>.
\<close>

named_theorems store_simps "reading a store after writing it"
named_theorems res_simps "results and their sequencing"

section \<open>Results\<close>

definition bindE :: "'e + 'a \<Rightarrow> ('a \<Rightarrow> 'e + 'b) \<Rightarrow> 'e + 'b" where
  "bindE m f = (case m of Inl e \<Rightarrow> Inl e | Inr x \<Rightarrow> f x)"

lemma bindE_simps [simp, res_simps]:
  "bindE (Inl e) f = Inl e" "bindE (Inr x) f = f x"
  by (simp_all add: bindE_def)

lemma bindE_eq_Inr: "bindE m f = Inr y \<longleftrightarrow> (\<exists>x. m = Inr x \<and> f x = Inr y)"
  by (cases m) auto

lemma bindE_eq_Inl: "bindE m f = Inl e \<longleftrightarrow> m = Inl e \<or> (\<exists>x. m = Inr x \<and> f x = Inl e)"
  by (cases m) auto

text \<open>A check that throws, and a loop of checks that stops at the first one that throws.\<close>

definition throw_if :: "bool \<Rightarrow> 'e \<Rightarrow> 'e + unit" where
  "throw_if b e = (if b then Inl e else Inr ())"

lemma throw_if_eq [simp, res_simps]:
  "throw_if b e = Inr u \<longleftrightarrow> \<not> b" "throw_if b e = Inl e' \<longleftrightarrow> b \<and> e' = e"
  by (auto simp: throw_if_def)

fun for_each :: "('a \<Rightarrow> 'e + unit) \<Rightarrow> 'a list \<Rightarrow> 'e + unit" where
  "for_each f [] = Inr ()"
| "for_each f (x # xs) = bindE (f x) (\<lambda>_. for_each f xs)"

lemma for_each_Inr [res_simps]: "for_each f xs = Inr u \<longleftrightarrow> (\<forall>x \<in> set xs. f x = Inr ())"
  by (induction xs) (auto simp: bindE_eq_Inr)

text \<open>\<^verbatim>\<open>Array.every\<close> and \<^verbatim>\<open>Array.some\<close> over a callback that may throw.\<close>

fun everyE :: "('a \<Rightarrow> 'e + bool) \<Rightarrow> 'a list \<Rightarrow> 'e + bool" where
  "everyE f [] = Inr True"
| "everyE f (x # xs) = bindE (f x) (\<lambda>b. if b then everyE f xs else Inr False)"

lemma everyE_total:
  "(\<And>x. x \<in> set xs \<Longrightarrow> f x = Inr (g x)) \<Longrightarrow> everyE f xs = Inr (\<forall>x \<in> set xs. g x)"
  by (induction xs) auto

text \<open>Chaining two bounds of growing sets.\<close>

lemma subset_Un_trans: "X \<subseteq> Y \<union> B \<Longrightarrow> Y \<subseteq> Z \<union> A \<Longrightarrow> X \<subseteq> Z \<union> (A \<union> B)"
  by blast

section \<open>Keyed stores\<close>

locale keyed_store =
  fixes put :: "'k \<Rightarrow> 'v \<Rightarrow> 's \<Rightarrow> 's"
    and get :: "'s \<Rightarrow> 'k \<Rightarrow> 'v option"
    and keys_of :: "'s \<Rightarrow> 'k list"
    and invar :: "'s \<Rightarrow> bool"
  assumes get_put: "get (put k v s) = (get s)(k \<mapsto> v)"
    and keys_get: "set (keys_of s) = dom (get s)"
    and invar_distinct: "invar s \<Longrightarrow> distinct (keys_of s)"
    and invar_put: "invar s \<Longrightarrow> invar (put k v s)"
begin

lemma get_put_same: "get (put k v s) k = Some v"
  by (simp add: get_put)

lemma get_put_other: "k' \<noteq> k \<Longrightarrow> get (put k v s) k' = get s k'"
  by (simp add: get_put)

lemma set_keys_put: "set (keys_of (put k v s)) = insert k (set (keys_of s))"
  by (simp add: keys_get get_put)

lemma length_keys_put:
  assumes "invar s"
  shows "length (keys_of (put k v s)) =
    (if k \<in> set (keys_of s) then length (keys_of s) else Suc (length (keys_of s)))"
  using assms invar_put [OF assms, of k v]
  by (auto simp: distinct_card [symmetric] invar_distinct set_keys_put insert_absorb)

text \<open>Writing a list of entries: the last write to a key is the one that is read.\<close>

lemma get_fold_put:
  "get (fold (\<lambda>(k, v). put k v) kvs s) = (get s) ++ map_of (rev kvs)"
  by (induction kvs arbitrary: s) (auto simp: get_put)

end

locale insertion_ordered = keyed_store +
  assumes keys_put:
    "keys_of (put k v s) = (if k \<in> set (keys_of s) then keys_of s else keys_of s @ [k])"
begin

text \<open>Keys keep the order in which they were first written.\<close>

lemma keys_fold_put_prefix:
  "\<exists>ks. keys_of (fold (\<lambda>(k, v). put k v) kvs s) = keys_of s @ ks"
proof (induction kvs arbitrary: s)
  case Nil
  then show ?case by simp
next
  case (Cons kv kvs)
  obtain k v where kv: "kv = (k, v)" by (cases kv)
  obtain ks where "keys_of (fold (\<lambda>(k, v). put k v) kvs (put k v s)) = keys_of (put k v s) @ ks"
    using Cons.IH by blast
  then show ?case by (simp add: kv keys_put)
qed

end

subsection \<open>The JavaScript Map\<close>

type_synonym ('k, 'v) omap = "('k \<times> 'v) list"

fun omap_set :: "'k \<Rightarrow> 'v \<Rightarrow> ('k, 'v) omap \<Rightarrow> ('k, 'v) omap" where
  "omap_set k v [] = [(k, v)]"
| "omap_set k v ((k', v') # m) = (if k = k' then (k, v) # m else (k', v') # omap_set k v m)"

abbreviation omap_keys :: "('k, 'v) omap \<Rightarrow> 'k list" where
  "omap_keys m \<equiv> map fst m"

abbreviation omap_wf :: "('k, 'v) omap \<Rightarrow> bool" where
  "omap_wf m \<equiv> distinct (map fst m)"

lemma map_of_omap_set: "map_of (omap_set k v m) = (map_of m)(k \<mapsto> v)"
  by (induction k v m rule: omap_set.induct) (auto simp: fun_eq_iff)

lemma keys_omap_set:
  "omap_keys (omap_set k v m) = (if k \<in> set (omap_keys m) then omap_keys m else omap_keys m @ [k])"
  by (induction k v m rule: omap_set.induct) auto

interpretation jsmap: insertion_ordered omap_set map_of omap_keys omap_wf
proof unfold_locales
  show "\<And>s. set (omap_keys s) = dom (map_of s)"
    by (simp add: dom_map_of_conv_image_fst)
qed (auto simp: map_of_omap_set keys_omap_set)

lemma omap_set_new: "k \<notin> set (omap_keys m) \<Longrightarrow> omap_set k v m = m @ [(k, v)]"
  by (induction k v m rule: omap_set.induct) auto

lemma omap_set_same: "map_of m k = Some v \<Longrightarrow> omap_set k v m = m"
  by (induction m) (auto split: if_splits)

lemma length_omap_set:
  "length (omap_set k v m) = (if k \<in> set (omap_keys m) then length m else Suc (length m))"
  by (induction k v m rule: omap_set.induct) auto

section \<open>Tables\<close>

definition update_where :: "('r \<Rightarrow> bool) \<Rightarrow> ('r \<Rightarrow> 'r) \<Rightarrow> 'r list \<Rightarrow> 'r list \<times> 'r list" where
  "update_where p f rows = (map (\<lambda>r. if p r then f r else r) rows, map f (filter p rows))"

definition first_row :: "'r list \<Rightarrow> 'r option" where
  "first_row rows = (case rows of [] \<Rightarrow> None | r # _ \<Rightarrow> Some r)"

lemma first_row_None [simp]: "first_row rows = None \<longleftrightarrow> rows = []"
  by (auto simp: first_row_def split: list.splits)

lemma first_row_Some: "first_row rows = Some r \<Longrightarrow> r \<in> set rows"
  by (auto simp: first_row_def split: list.splits)

lemma update_where_id:
  "(\<And>r. r \<in> set rows \<Longrightarrow> \<not> p r) \<Longrightarrow> update_where p f rows = (rows, [])"
  by (auto simp: update_where_def map_idI)

lemma set_update_where:
  "set (fst (update_where p f rows)) = {r \<in> set rows. \<not> p r} \<union> f ` {r \<in> set rows. p r}"
  by (auto simp: update_where_def)

text \<open>Columns that the assignment leaves alone keep their values, row by row.\<close>

lemma map_update_where:
  "(\<And>r. r \<in> set rows \<Longrightarrow> p r \<Longrightarrow> g (f r) = g r) \<Longrightarrow> map g (fst (update_where p f rows)) = map g rows"
  by (auto simp: update_where_def)

lemma find_row_Some: "find p rows = Some r \<Longrightarrow> r \<in> set rows \<and> p r"
  by (auto simp: find_Some_iff)


lemma update_where_keeps: "m \<in> set rows \<Longrightarrow> \<not> p m \<Longrightarrow> m \<in> set (fst (update_where p f rows))"
  by (auto simp: set_update_where)

lemma distinct_rows_eq: "distinct (map f rows) \<Longrightarrow> a \<in> set rows \<Longrightarrow> b \<in> set rows \<Longrightarrow> f a = f b \<Longrightarrow> a = b"
  by (metis distinct_map inj_onD)

text \<open>An update by unique key touches one row.\<close>

lemma filter_key: "distinct (map f rows) \<Longrightarrow> c \<in> set rows \<Longrightarrow> filter (\<lambda>r. f r = f c) rows = [c]"
proof (induction rows)
  case (Cons r rows)
  show ?case
  proof (cases "r = c")
    case True
    with Cons.prems(1) have "filter (\<lambda>r. f r = f c) rows = []"
      by (fastforce simp: filter_empty_conv image_iff)
    with True show ?thesis by simp
  next
    case False
    then have "f r \<noteq> f c" using Cons.prems by auto
    with False Cons show ?thesis by simp
  qed
qed simp

lemma update_where_one:
  "distinct (map f rows) \<Longrightarrow> c \<in> set rows \<Longrightarrow> snd (update_where (\<lambda>r. f r = f c) g rows) = [g c]"
  by (simp add: update_where_def filter_key)

section \<open>Runs of a shared store\<close>

text \<open>
  Processes share a store and each transaction is one step, taken at some time by some actor
  (none for the system itself). A run is a sequence of steps in commit order.
\<close>

inductive run_steps ::
  "('t \<Rightarrow> 'w option \<Rightarrow> 'd \<Rightarrow> 'd \<Rightarrow> bool) \<Rightarrow> ('t \<times> 'w option) list \<Rightarrow> 'd \<Rightarrow> 'd \<Rightarrow> bool"
  for step where
  run_nil: "run_steps step [] d d"
| run_cons: "step t a d d' \<Longrightarrow> run_steps step as d' d'' \<Longrightarrow> run_steps step ((t, a) # as) d d''"

text \<open>
  Rows that are leased to an owner for a time: the interface shared by execution leases and
  outbox claims. A row in a final state is never written again.
\<close>

locale leased_rows =
  fixes rows :: "'d \<Rightarrow> 'r list"
    and owner :: "'r \<Rightarrow> 'w option"
    and live :: "'t :: linorder \<Rightarrow> 'r \<Rightarrow> bool"
    and final :: "'r \<Rightarrow> bool"
    and step :: "'t \<Rightarrow> 'w option \<Rightarrow> 'd \<Rightarrow> 'd \<Rightarrow> bool"
    and inv :: "'d \<Rightarrow> bool"
  assumes inv_step: "inv d \<Longrightarrow> step t a d d' \<Longrightarrow> inv d'"
    and leased: "inv d \<Longrightarrow> step t a d d' \<Longrightarrow> r \<in> set (rows d) \<Longrightarrow> live t r \<Longrightarrow> owner r \<noteq> a \<Longrightarrow>
      r \<in> set (rows d')"
    and finished: "inv d \<Longrightarrow> step t a d d' \<Longrightarrow> r \<in> set (rows d) \<Longrightarrow> final r \<Longrightarrow> r \<in> set (rows d')"
    and live_earlier: "live t r \<Longrightarrow> t' \<le> t \<Longrightarrow> live t' r"
begin

lemma run_inv: "run_steps step as d d' \<Longrightarrow> inv d \<Longrightarrow> inv d'"
  by (induction rule: run_steps.induct) (auto intro: inv_step)

lemma run_leased:
  "run_steps step as d d' \<Longrightarrow> inv d \<Longrightarrow> r \<in> set (rows d) \<Longrightarrow> live T r \<Longrightarrow>
     (\<forall>(t, a) \<in> set as. t \<le> T \<and> a \<noteq> owner r) \<Longrightarrow> r \<in> set (rows d')"
proof (induction rule: run_steps.induct)
  case (run_cons t a d d' as d'')
  then have "live t r" using live_earlier by auto
  with run_cons show ?case using leased inv_step by auto
qed

lemma run_finished: "run_steps step as d d' \<Longrightarrow> inv d \<Longrightarrow> r \<in> set (rows d) \<Longrightarrow> final r \<Longrightarrow> r \<in> set (rows d')"
  by (induction rule: run_steps.induct) (auto intro: finished inv_step)

end

end
