(* ===== verification/Js_Value.thy ===== *)
theory Js_Value
  imports Linea_Prelude
begin

text \<open>
  The JavaScript values the runtime passes between workflow nodes, and the operations of the
  language and its standard library that the code uses on them.

  Numbers are exact rationals with the two infinities and NaN: rounding of doubles is not
  modelled. Strings are lists of 8-bit characters. An object is the list of its own
  properties in the order in which the language enumerates them: integer-like keys first, in
  ascending order, then the others in insertion order (\<open>obj_set\<close> keeps that order). A property
  that is only inherited from \<^verbatim>\<open>Object.prototype\<close> or \<^verbatim>\<open>Array.prototype\<close> reads as an opaque
  \<open>JHost\<close> value, which no operation of the model looks into.
\<close>

section \<open>Numbers\<close>

datatype jsnum = Fin rat | PosInf | NegInf | NaN

fun num_less :: "jsnum \<Rightarrow> jsnum \<Rightarrow> bool" where
  "num_less NaN _ = False"
| "num_less _ NaN = False"
| "num_less (Fin a) (Fin b) = (a < b)"
| "num_less NegInf b = (b \<noteq> NegInf)"
| "num_less a PosInf = (a \<noteq> PosInf)"
| "num_less PosInf _ = False"
| "num_less _ NegInf = False"

fun num_eq :: "jsnum \<Rightarrow> jsnum \<Rightarrow> bool" where
  "num_eq NaN _ = False"
| "num_eq a b = (a = b)"

definition num_le :: "jsnum \<Rightarrow> jsnum \<Rightarrow> bool" where
  "num_le a b = (num_less a b \<or> num_eq a b)"

fun is_finite :: "jsnum \<Rightarrow> bool" where
  "is_finite (Fin _) = True"
| "is_finite _ = False"

lemma num_less_irrefl: "\<not> num_less a a"
  by (cases a) auto

lemma num_trichotomy:
  "a \<noteq> NaN \<Longrightarrow> b \<noteq> NaN \<Longrightarrow> num_less a b \<or> num_eq a b \<or> num_less b a"
  by (cases a; cases b) auto

lemma num_less_trans: "num_less a b \<Longrightarrow> num_less b c \<Longrightarrow> num_less a c"
  by (cases a; cases b; cases c) auto

lemma num_less_asym: "num_less a b \<Longrightarrow> \<not> num_less b a"
  by (cases a; cases b) auto

section \<open>Strings\<close>

text \<open>\<^verbatim>\<open>String.prototype.trim\<close>, \<^verbatim>\<open>split\<close> on one character, \<^verbatim>\<open>includes\<close> and \<^verbatim>\<open>toLowerCase\<close>.\<close>

definition is_space :: "char \<Rightarrow> bool" where
  "is_space c = (of_char c \<in> {9, 10, 11, 12, 13, 32, 160 :: nat})"

definition trim :: "string \<Rightarrow> string" where
  "trim s = rev (dropWhile is_space (rev (dropWhile is_space s)))"

definition blank :: "string \<Rightarrow> bool" where
  "blank s = (trim s = [])"

fun split_on :: "char \<Rightarrow> string \<Rightarrow> string list" where
  "split_on c [] = [[]]"
| "split_on c (x # xs) = (if x = c then [] # split_on c xs
     else (case split_on c xs of [] \<Rightarrow> [[x]] | w # ws \<Rightarrow> (x # w) # ws))"

fun is_prefix :: "string \<Rightarrow> string \<Rightarrow> bool" where
  "is_prefix [] _ = True"
| "is_prefix (_ # _) [] = False"
| "is_prefix (x # xs) (y # ys) = (x = y \<and> is_prefix xs ys)"

fun str_includes :: "string \<Rightarrow> string \<Rightarrow> bool" where
  "str_includes [] w = (w = [])"
| "str_includes (x # xs) w = (is_prefix w (x # xs) \<or> str_includes xs w)"

definition lower_char :: "char \<Rightarrow> char" where
  "lower_char c = (let n = of_char c :: nat in
     if 65 \<le> n \<and> n \<le> 90 \<or> 192 \<le> n \<and> n \<le> 222 \<and> n \<noteq> 215 then char_of (n + 32) else c)"

definition toLowerCase :: "string \<Rightarrow> string" where
  "toLowerCase s = map lower_char s"

lemma blank_iff: "blank s \<longleftrightarrow> (\<forall>c \<in> set s. is_space c)"
proof
  assume "blank s"
  then have "\<forall>c \<in> set (dropWhile is_space s). is_space c"
    by (auto simp: blank_def trim_def dropWhile_eq_Nil_conv)
  then have "dropWhile is_space s = []"
    by (metis hd_dropWhile list.set_sel(1))
  then show "\<forall>c \<in> set s. is_space c" by (simp add: dropWhile_eq_Nil_conv)
next
  assume "\<forall>c \<in> set s. is_space c"
  then have "dropWhile is_space s = []" by (simp add: dropWhile_eq_Nil_conv)
  then show "blank s" unfolding blank_def trim_def by (metis dropWhile.simps(1) rev.simps(1))
qed

lemma split_on_nonempty [simp]: "split_on c s \<noteq> []"
  by (induction c s rule: split_on.induct) (auto split: list.splits)

text \<open>Splitting and joining: the pieces with the separator between them are the string.\<close>

fun join_with :: "char \<Rightarrow> string list \<Rightarrow> string" where
  "join_with c [] = []"
| "join_with c [w] = w"
| "join_with c (w # ws) = w @ c # join_with c ws"

lemma join_with_Cons: "ws \<noteq> [] \<Longrightarrow> join_with c (w # ws) = w @ c # join_with c ws"
  by (cases ws) auto

lemma join_split: "join_with c (split_on c s) = s"
proof (induction s)
  case Nil
  then show ?case by simp
next
  case (Cons x s)
  obtain w ws where ws: "split_on c s = w # ws"
    by (cases "split_on c s") auto
  with Cons show ?case by (cases ws) (auto simp: join_with_Cons)
qed

lemma split_on_no_sep: "w \<in> set (split_on c s) \<Longrightarrow> c \<notin> set w"
  by (induction c s arbitrary: w rule: split_on.induct) (force split: list.splits if_splits)+

subsection \<open>The numeric value of a string\<close>

text \<open>
  \<^verbatim>\<open>Number(s)\<close> on a string: surrounding white space is ignored, the empty string is 0, a
  \<^verbatim>\<open>0x\<close>, \<^verbatim>\<open>0o\<close> or \<^verbatim>\<open>0b\<close> prefix selects the base, \<^verbatim>\<open>Infinity\<close> may be signed, and anything
  that is not a decimal literal is NaN.
\<close>

definition digit_val :: "char \<Rightarrow> nat option" where
  "digit_val c = (let n = of_char c :: nat in
     if 48 \<le> n \<and> n \<le> 57 then Some (n - 48)
     else if 97 \<le> n \<and> n \<le> 102 then Some (n - 87)
     else if 65 \<le> n \<and> n \<le> 70 then Some (n - 55) else None)"

fun digits_acc :: "nat \<Rightarrow> nat \<Rightarrow> string \<Rightarrow> nat option" where
  "digits_acc base acc [] = Some acc"
| "digits_acc base acc (c # cs) = (case digit_val c of None \<Rightarrow> None
     | Some d \<Rightarrow> if d < base then digits_acc base (acc * base + d) cs else None)"

definition nat_literal :: "nat \<Rightarrow> string \<Rightarrow> nat option" where
  "nat_literal base s = (if s = [] then None else digits_acc base 0 s)"

fun split_first :: "(char \<Rightarrow> bool) \<Rightarrow> string \<Rightarrow> string \<times> string option" where
  "split_first p [] = ([], None)"
| "split_first p (c # cs) = (if p c then ([], Some cs)
     else (case split_first p cs of (a, b) \<Rightarrow> (c # a, b)))"

definition scale10 :: "rat \<Rightarrow> int \<Rightarrow> rat" where
  "scale10 m e = (if 0 \<le> e then m * 10 ^ nat e else m / 10 ^ nat (- e))"

definition signed_nat :: "string \<Rightarrow> int option" where
  "signed_nat s = (case s of
       [] \<Rightarrow> None
     | c # cs \<Rightarrow> if c = CHR ''-'' then map_option (\<lambda>n. - int n) (nat_literal 10 cs)
                else if c = CHR ''+'' then map_option int (nat_literal 10 cs)
                else map_option int (nat_literal 10 s))"

definition mantissa :: "string \<Rightarrow> rat option" where
  "mantissa s = (case split_first (\<lambda>c. c = CHR ''.'') s of
       (ip, None) \<Rightarrow> map_option of_nat (nat_literal 10 ip)
     | (ip, Some fp) \<Rightarrow>
         if ip = [] \<and> fp = [] then None
         else (case (digits_acc 10 0 ip, digits_acc 10 0 fp) of
             (Some i, Some f) \<Rightarrow> Some (of_nat i + of_nat f / 10 ^ length fp)
           | _ \<Rightarrow> None))"

definition decimal :: "string \<Rightarrow> rat option" where
  "decimal s = (case split_first (\<lambda>c. c = CHR ''e'' \<or> c = CHR ''E'') s of
       (m, None) \<Rightarrow> mantissa m
     | (m, Some e) \<Rightarrow> (case (mantissa m, signed_nat e) of
           (Some r, Some k) \<Rightarrow> Some (scale10 r k)
         | _ \<Rightarrow> None))"

definition unsigned_number :: "string \<Rightarrow> jsnum" where
  "unsigned_number s = (if s = ''Infinity'' then PosInf
     else case decimal s of None \<Rightarrow> NaN | Some r \<Rightarrow> Fin r)"

fun num_neg :: "jsnum \<Rightarrow> jsnum" where
  "num_neg (Fin r) = Fin (- r)"
| "num_neg PosInf = NegInf"
| "num_neg NegInf = PosInf"
| "num_neg NaN = NaN"

definition number_of_literal :: "nat option \<Rightarrow> jsnum" where
  "number_of_literal o' = (case o' of None \<Rightarrow> NaN | Some n \<Rightarrow> Fin (of_nat n))"

definition Number_str :: "string \<Rightarrow> jsnum" where
  "Number_str raw = (let s = trim raw in
     case s of
       [] \<Rightarrow> Fin 0
     | c # cs \<Rightarrow>
         if take 2 s \<in> {''0x'', ''0X''} then number_of_literal (nat_literal 16 (drop 2 s))
         else if take 2 s \<in> {''0o'', ''0O''} then number_of_literal (nat_literal 8 (drop 2 s))
         else if take 2 s \<in> {''0b'', ''0B''} then number_of_literal (nat_literal 2 (drop 2 s))
         else if c = CHR ''-'' then num_neg (unsigned_number cs)
         else if c = CHR ''+'' then unsigned_number cs
         else unsigned_number s)"

lemma Number_str_examples:
  "Number_str '' 42 '' = Fin 42" "Number_str ''-1.5'' = Fin (- 3 / 2)"
  "Number_str ''2e3'' = Fin 2000" "Number_str ''abc'' = NaN" "Number_str [] = Fin 0"
  by code_simp+

section \<open>Values\<close>

datatype jsval =
    JUndef
  | JNull
  | JBool bool
  | JNum jsnum
  | JStr string
  | JArr "jsval list"
  | JObj "(string \<times> jsval) list"
  | JHost string

abbreviation JInt :: "int \<Rightarrow> jsval" where
  "JInt n \<equiv> JNum (Fin (of_int n))"

text \<open>Names every object, and every array, inherits from its prototype.\<close>

definition object_prototype :: "string list" where
  "object_prototype = [''constructor'', ''__defineGetter__'', ''__defineSetter__'',
     ''hasOwnProperty'', ''__lookupGetter__'', ''__lookupSetter__'', ''isPrototypeOf'',
     ''propertyIsEnumerable'', ''toString'', ''valueOf'', ''__proto__'', ''toLocaleString'']"

definition array_prototype :: "string list" where
  "array_prototype = [''at'', ''concat'', ''copyWithin'', ''fill'', ''find'', ''findIndex'',
     ''findLast'', ''findLastIndex'', ''lastIndexOf'', ''pop'', ''push'', ''reverse'', ''shift'',
     ''unshift'', ''slice'', ''sort'', ''splice'', ''includes'', ''indexOf'', ''join'', ''keys'',
     ''entries'', ''values'', ''forEach'', ''filter'', ''flat'', ''flatMap'', ''map'', ''every'',
     ''some'', ''reduce'', ''reduceRight'', ''toReversed'', ''toSorted'', ''toSpliced'', ''with'']"

text \<open>Integer-like keys: the canonical decimal form of an array index below \<open>2^32 - 1\<close>.\<close>

definition array_index :: "string \<Rightarrow> nat option" where
  "array_index s = (case nat_literal 10 s of None \<Rightarrow> None
     | Some n \<Rightarrow> if n < 4294967295 \<and> (hd s = CHR ''0'' \<longrightarrow> s = ''0'') then Some n else None)"

fun is_object :: "jsval \<Rightarrow> bool" where
  "is_object (JArr _) = True"
| "is_object (JObj _) = True"
| "is_object _ = False"

fun is_array :: "jsval \<Rightarrow> bool" where
  "is_array (JArr _) = True"
| "is_array _ = False"

definition isPlainObject :: "jsval \<Rightarrow> bool" where
  "isPlainObject v = (is_object v \<and> \<not> is_array v)"

text \<open>\<^verbatim>\<open>key in value\<close> and \<^verbatim>\<open>value[key]\<close> on objects and arrays.\<close>

fun has_prop :: "jsval \<Rightarrow> string \<Rightarrow> bool" where
  "has_prop (JObj ps) k = (k \<in> fst ` set ps \<or> k \<in> set object_prototype)"
| "has_prop (JArr xs) k = (k = ''length'' \<or>
     (case array_index k of Some i \<Rightarrow> i < length xs | None \<Rightarrow> False) \<or>
     k \<in> set array_prototype \<or> k \<in> set object_prototype)"
| "has_prop _ k = False"

definition inherited :: "string list \<Rightarrow> string \<Rightarrow> jsval" where
  "inherited names k = (if k \<in> set names then JHost k else JUndef)"

fun js_get :: "jsval \<Rightarrow> string \<Rightarrow> jsval" where
  "js_get (JObj ps) k = (case map_of ps k of Some v \<Rightarrow> v | None \<Rightarrow> inherited object_prototype k)"
| "js_get (JArr xs) k = (if k = ''length'' then JInt (int (length xs))
     else (case array_index k of
         Some i \<Rightarrow> if i < length xs then xs ! i else JUndef
       | None \<Rightarrow> inherited (array_prototype @ object_prototype) k))"
| "js_get _ k = JUndef"

text \<open>Own properties: \<^verbatim>\<open>Object.hasOwn\<close>, \<^verbatim>\<open>Object.entries\<close>, and writing one.\<close>

fun own_entries :: "jsval \<Rightarrow> (string \<times> jsval) list" where
  "own_entries (JObj ps) = ps"
| "own_entries _ = []"

fun insert_index :: "nat \<Rightarrow> string \<Rightarrow> 'v \<Rightarrow> (string \<times> 'v) list \<Rightarrow> (string \<times> 'v) list" where
  "insert_index n k v [] = [(k, v)]"
| "insert_index n k v ((k', v') # ps) = (case array_index k' of
       Some m \<Rightarrow> if m < n then (k', v') # insert_index n k v ps else (k, v) # (k', v') # ps
     | None \<Rightarrow> (k, v) # (k', v') # ps)"

definition obj_set :: "string \<Rightarrow> 'v \<Rightarrow> (string \<times> 'v) list \<Rightarrow> (string \<times> 'v) list" where
  "obj_set k v ps = (if k \<in> fst ` set ps then omap_set k v ps
     else (case array_index k of None \<Rightarrow> ps @ [(k, v)] | Some n \<Rightarrow> insert_index n k v ps))"

definition obj_from_entries :: "(string \<times> 'v) list \<Rightarrow> (string \<times> 'v) list" where
  "obj_from_entries kvs = fold (\<lambda>(k, v). obj_set k v) kvs []"

definition obj_spread :: "(string \<times> 'v) list \<Rightarrow> (string \<times> 'v) list \<Rightarrow> (string \<times> 'v) list" where
  "obj_spread ps qs = fold (\<lambda>(k, v). obj_set k v) qs ps"

lemma map_of_insert_index:
  "k \<notin> fst ` set ps \<Longrightarrow> map_of (insert_index n k v ps) = (map_of ps)(k \<mapsto> v)"
  by (induction n k v ps rule: insert_index.induct) (auto simp: fun_eq_iff split: option.splits)

lemma set_keys_insert_index:
  "fst ` set (insert_index n k v ps) = insert k (fst ` set ps)"
  by (induction n k v ps rule: insert_index.induct) (auto split: option.splits)

lemma distinct_insert_index:
  "distinct (map fst ps) \<Longrightarrow> k \<notin> fst ` set ps \<Longrightarrow> distinct (map fst (insert_index n k v ps))"
  by (induction n k v ps rule: insert_index.induct)
     (auto simp: set_keys_insert_index split: option.splits)

lemma map_of_snoc_new:
  "k \<notin> fst ` set ps \<Longrightarrow> map_of (ps @ [(k, v)]) = (map_of ps)(k \<mapsto> v)"
  by (induction ps) (auto simp: fun_eq_iff)

lemma map_of_obj_set: "map_of (obj_set k v ps) = (map_of ps)(k \<mapsto> v)"
  unfolding obj_set_def
  by (simp add: map_of_omap_set map_of_insert_index map_of_snoc_new del: map_of_append
      split: option.split)

text \<open>Plain objects are keyed stores too; unlike a \<^verbatim>\<open>Map\<close> they do not keep insertion order.\<close>

interpretation jsobj: keyed_store obj_set map_of omap_keys omap_wf
proof unfold_locales
  show "\<And>k v s. map_of (obj_set k v s) = (map_of s)(k \<mapsto> v)" by (rule map_of_obj_set)
  show "\<And>s. set (omap_keys s) = dom (map_of s)" by (simp add: dom_map_of_conv_image_fst)
  show "\<And>s k v. omap_wf s \<Longrightarrow> omap_wf (obj_set k v s)"
    by (auto simp: obj_set_def keys_omap_set distinct_insert_index split: option.splits)
qed simp

lemma obj_order_differs:
  "omap_keys (obj_set ''1'' x (obj_set ''b'' y [])) = [''1'', ''b'']"
  by (simp add: obj_set_def array_index_def nat_literal_def digit_val_def)

lemma map_of_obj_spread: "map_of (obj_spread ps qs) = map_of ps ++ map_of (rev qs)"
  unfolding obj_spread_def by (rule jsobj.get_fold_put)

lemma map_of_rev_distinct: "distinct (map fst qs) \<Longrightarrow> map_of (rev qs) = map_of qs"
  by (metis distinct_rev map_of_eqI map_of_inject_set rev_map set_rev list.set_map)

subsection \<open>Comparison\<close>

text \<open>
  \<^verbatim>\<open>===\<close> between two values that do not share objects: objects and arrays are compared by
  reference, and the two sides (a node's configuration and a runtime value) are built
  separately, so such a comparison is false.
\<close>

fun strict_eq :: "jsval \<Rightarrow> jsval \<Rightarrow> bool" where
  "strict_eq (JNum a) (JNum b) = num_eq a b"
| "strict_eq (JArr _) _ = False"
| "strict_eq (JObj _) _ = False"
| "strict_eq a b = (a = b)"

text \<open>\<^verbatim>\<open>Array.prototype.includes\<close> compares with SameValueZero, under which NaN equals itself.\<close>

definition same_value_zero :: "jsval \<Rightarrow> jsval \<Rightarrow> bool" where
  "same_value_zero a b = (strict_eq a b \<or> (a = JNum NaN \<and> b = JNum NaN))"

text \<open>Truthiness of a value.\<close>

fun truthy :: "jsval \<Rightarrow> bool" where
  "truthy JUndef = False"
| "truthy JNull = False"
| "truthy (JBool b) = b"
| "truthy (JNum n) = (n \<noteq> NaN \<and> n \<noteq> Fin 0)"
| "truthy (JStr s) = (s \<noteq> [])"
| "truthy _ = True"

text \<open>\<^verbatim>\<open>a ?? b\<close>.\<close>

definition nullish :: "jsval \<Rightarrow> bool" where
  "nullish v = (v = JUndef \<or> v = JNull)"

definition coalesce :: "jsval \<Rightarrow> jsval \<Rightarrow> jsval" where
  "coalesce a b = (if nullish a then b else a)"

subsection \<open>JSON values\<close>

text \<open>Values that survive a trip through JSON text: no undefined, no NaN or infinity.\<close>

fun is_json :: "jsval \<Rightarrow> bool" where
  "is_json JUndef = False"
| "is_json JNull = True"
| "is_json (JBool _) = True"
| "is_json (JNum n) = is_finite n"
| "is_json (JStr _) = True"
| "is_json (JArr xs) = (\<forall>x \<in> set xs. is_json x)"
| "is_json (JObj ps) = (distinct (map fst ps) \<and> (\<forall>p \<in> set ps. is_json (snd p)))"
| "is_json (JHost _) = False"

end
