(* ===== verification/Store_Schema.thy ===== *)
theory Store_Schema
  imports Js_Value
begin

text \<open>
  The tables of \<^verbatim>\<open>packages/db/src/schema\<close> that the run-time uses, as records of their columns, and
  the database as a record of tables. A table is the list of its rows; nullable columns are
  options. Timestamps are microseconds, the resolution of the database; the clock of the
  application has milliseconds. UUIDs are strings in their canonical spelling, whose
  lexicographic order is the order of the column type.

  The unique indexes, check constraints and foreign keys that the modelled statements can run
  into are definitions of their own; a statement that violates one raises a \<open>db_error\<close> and its
  transaction has no effect. Foreign keys into tables outside this record are not modelled, and
  neither are columns that no modelled operation reads or writes. The error column of a step
  holds its message.
\<close>

type_synonym uuid = string
type_synonym timestamp = int

datatype db_error =
    UniqueViolation string
  | CheckViolation string
  | ForeignKeyViolation string
  | AppError string

section \<open>Executions\<close>

datatype exec_status = Queued | Running | Paused | Succeeded | Failed | Cancelled

datatype exec_trigger = T_manual | T_schedule | T_webhook | T_api

datatype exec_origin = Native | Ingested

record run_error =
  err_message :: string
  err_stepId :: "string option"

record execution =
  ex_id :: uuid
  ex_workspaceId :: uuid
  ex_workflowId :: uuid
  ex_workflowVersionId :: uuid
  ex_environmentId :: "uuid option"
  ex_contractRevisionId :: "uuid option"
  ex_externalSubjectRecordId :: "uuid option"
  ex_conversationId :: "uuid option"
  ex_status :: exec_status
  ex_origin :: exec_origin
  ex_trigger :: exec_trigger
  ex_triggerPayload :: "jsval option"
  ex_environment :: string
  ex_triggeredByUserId :: "uuid option"
  ex_externalSubjectId :: "string option"
  ex_leasedBy :: "string option"
  ex_leaseExpiresAt :: "timestamp option"
  ex_error :: "run_error option"
  ex_costMicros :: int
  ex_costUnpriced :: "bool option"
  ex_tokensInput :: int
  ex_tokensOutput :: int
  ex_startedAt :: "timestamp option"
  ex_completedAt :: "timestamp option"
  ex_createdAt :: timestamp

section \<open>Steps and checkpoints\<close>

datatype step_status = S_running | S_succeeded | S_failed | S_skipped

record execution_step =
  st_id :: uuid
  st_executionId :: uuid
  st_workspaceId :: uuid
  st_traceId :: string
  st_spanId :: string
  st_parentSpanId :: "string option"
  st_name :: string
  st_startedAt :: timestamp
  st_endedAt :: "timestamp option"
  st_status :: step_status
  st_attributes :: "jsval option"
  st_nodeId :: string
  st_sequence :: int
  st_attempt :: int
  st_input :: "jsval option"
  st_output :: "jsval option"
  st_error :: "string option"
  st_idempotencyKey :: "string option"
  st_costMicros :: int
  st_tokensInput :: int
  st_tokensOutput :: int
  st_model :: "string option"
  st_provider :: "string option"
  st_createdAt :: timestamp
  st_isSystemEvent :: bool

record checkpoint =
  cp_id :: uuid
  cp_executionId :: uuid
  cp_sequence :: int
  cp_completedStepIds :: "string list"
  cp_context :: "(string \<times> jsval) list"
  cp_variables :: jsval
  cp_createdAt :: timestamp

section \<open>Wait timers\<close>

record wait_timer =
  wt_id :: uuid
  wt_workspaceId :: uuid
  wt_executionId :: uuid
  wt_nodeId :: string
  wt_resumeAt :: timestamp
  wt_fired :: bool
  wt_firedAt :: "timestamp option"

section \<open>Approval requests\<close>

record display =
  dp_title :: string
  dp_description :: "string option"
  dp_details :: "(string \<times> string) list option"

datatype approval_status = A_pending | A_decided | A_cancelled

datatype timeout_action = Auto_reject | Auto_approve

datatype approval_audience = Workspace_members | External_subject

record approval_request =
  ar_id :: uuid
  ar_workspaceId :: uuid
  ar_environmentId :: "uuid option"
  ar_workflowId :: uuid
  ar_executionId :: uuid
  ar_nodeId :: string
  ar_audience :: approval_audience
  ar_externalSubjectId :: "uuid option"
  ar_conversationId :: "uuid option"
  ar_status :: approval_status
  ar_version :: int
  ar_display :: display
  ar_approverEmails :: "string list option"
  ar_expiresAt :: "timestamp option"
  ar_timeoutAction :: "timeout_action option"
  ar_actionIntentDigest :: "string option"
  ar_requestedAt :: timestamp
  ar_cancelledAt :: "timestamp option"

datatype decision_outcome = D_approved | D_rejected

datatype decision_actor_kind = K_workspace_member | K_external_subject | K_system

datatype decision_reason = By_human | By_timeout

record approval_decision =
  ad_id :: uuid
  ad_workspaceId :: uuid
  ad_approvalRequestId :: uuid
  ad_outcome :: decision_outcome
  ad_actorKind :: decision_actor_kind
  ad_actorUserId :: "uuid option"
  ad_actorExternalSubjectId :: "uuid option"
  ad_endUserSessionId :: "uuid option"
  ad_reviewerAssignmentId :: "uuid option"
  ad_reason :: decision_reason
  ad_comment :: "string option"
  ad_idempotencyKey :: "string option"
  ad_decidedAt :: timestamp

section \<open>Connections and action intents\<close>

datatype connection_ownership = Personal | Environment_owned

datatype authorization_kind = Delegated_user | Github_app_installation

record connection_row =
  cn_id :: uuid
  cn_workspaceId :: uuid
  cn_environmentId :: uuid
  cn_externalSubjectId :: "uuid option"
  cn_ownership :: connection_ownership
  cn_authorizationKind :: authorization_kind
  cn_provider :: string
  cn_providerAccountId :: string
  cn_accountLabel :: string
  cn_status :: string
  cn_scopes :: "string list"
  cn_credentialEncrypted :: "string option"
  cn_credentialVersion :: int
  cn_createdAt :: timestamp
  cn_updatedAt :: timestamp
  cn_revokedAt :: "timestamp option"

record reviewer_assignment =
  cr_id :: uuid
  cr_workspaceId :: uuid
  cr_environmentId :: uuid
  cr_connectionId :: uuid
  cr_externalSubjectId :: uuid
  cr_revokedAt :: "timestamp option"

record access_grant =
  cg_id :: uuid
  cg_workspaceId :: uuid
  cg_environmentId :: uuid
  cg_connectionId :: uuid
  cg_externalSubjectId :: uuid
  cg_revokedAt :: "timestamp option"

record authorization_request =
  cq_id :: uuid
  cq_workspaceId :: uuid
  cq_environmentId :: uuid
  cq_externalSubjectId :: uuid
  cq_endUserSessionId :: "uuid option"
  cq_provider :: string
  cq_scopes :: "string list"
  cq_returnUri :: string
  cq_stateHash :: string
  cq_codeVerifierEncrypted :: "string option"
  cq_targetConnectionId :: "uuid option"
  cq_resultConnectionId :: "uuid option"
  cq_outcome :: "string option"
  cq_expiresAt :: timestamp
  cq_claimedAt :: "timestamp option"
  cq_completedAt :: "timestamp option"
  cq_createdAt :: timestamp

record read_use =
  ru_id :: uuid
  ru_workspaceId :: uuid
  ru_environmentId :: uuid
  ru_externalSubjectId :: uuid
  ru_connectionId :: uuid
  ru_executionId :: uuid
  ru_operationId :: string
  ru_outcome :: string
  ru_occurredAt :: timestamp

record revocation_delivery =
  rd_id :: uuid
  rd_workspaceId :: uuid
  rd_environmentId :: uuid
  rd_externalSubjectId :: uuid
  rd_connectionId :: "uuid option"
  rd_provider :: string
  rd_providerAccountId :: "string option"
  rd_credentialEncrypted :: "string option"
  rd_expiresAt :: timestamp
  rd_availableAt :: timestamp
  rd_attemptCount :: int
  rd_lastAttemptAt :: "timestamp option"
  rd_lastFailureClass :: "string option"
  rd_claimedBy :: "string option"
  rd_claimExpiresAt :: "timestamp option"
  rd_deliveredAt :: "timestamp option"
  rd_createdAt :: timestamp

datatype intent_status =
    I_awaiting_consent | I_ready | I_executing | I_succeeded | I_failed | I_stale | I_rejected
  | I_cancelled | I_outcome_unknown

record connector_error =
  ce_code :: string
  ce_message :: string
  ce_outcomeUnknown :: bool

record intent_envelope =
  ev_version :: int
  ev_operationRevision :: string
  ev_connectionId :: uuid
  ev_connector :: string
  ev_operation :: string
  ev_target :: jsval
  ev_parameters :: jsval
  ev_providerPreconditions :: jsval

record action_intent =
  ai_id :: uuid
  ai_workspaceId :: uuid
  ai_environmentId :: uuid
  ai_externalSubjectId :: uuid
  ai_connectionId :: uuid
  ai_connectionAccessGrantId :: "uuid option"
  ai_workflowId :: uuid
  ai_executionId :: uuid
  ai_nodeId :: string
  ai_approvalRequestId :: uuid
  ai_connector :: string
  ai_operationId :: string
  ai_operationRevision :: string
  ai_target :: jsval
  ai_normalizedParameters :: jsval
  ai_providerPreconditions :: jsval
  ai_safeDisplay :: display
  ai_digestVersion :: string
  ai_canonicalDigest :: string
  ai_canonicalEnvelope :: intent_envelope
  ai_invocationIdempotencyKey :: string
  ai_status :: intent_status
  ai_executionClaimId :: "string option"
  ai_dispatchStartedAt :: "timestamp option"
  ai_providerAttemptCount :: int
  ai_normalizedResult :: "jsval option"
  ai_normalizedError :: "connector_error option"
  ai_contentErasedAt :: "timestamp option"
  ai_createdAt :: timestamp
  ai_updatedAt :: timestamp

record audit_fact =
  cf_id :: uuid
  cf_workspaceId :: uuid
  cf_environmentId :: uuid
  cf_externalSubjectId :: "uuid option"
  cf_subjectReference :: "uuid option"
  cf_connectionId :: uuid
  cf_actionIntentId :: "uuid option"
  cf_decisionId :: "uuid option"
  cf_factType :: string
  cf_provider :: string
  cf_operationId :: "string option"
  cf_digest :: "string option"
  cf_outcome :: "string option"
  cf_failureClass :: "string option"
  cf_accountLabel :: "string option"
  cf_display :: "display option"
  cf_contentExpiresAt :: timestamp
  cf_contentErasedAt :: "timestamp option"
  cf_auditExpiresAt :: timestamp
  cf_occurredAt :: timestamp

section \<open>People\<close>

record member_row =
  mb_organizationId :: uuid
  mb_userId :: uuid

record user_row =
  us_id :: uuid
  us_email :: string

datatype subject_status = Provisioned | Verified | Disabled | Erased

record external_subject =
  xs_id :: uuid
  xs_workspaceId :: uuid
  xs_status :: subject_status
  xs_auditReference :: uuid

record end_user_session =
  eu_id :: uuid
  eu_workspaceId :: uuid
  eu_environmentId :: uuid
  eu_externalSubjectId :: uuid
  eu_expiresAt :: timestamp
  eu_revokedAt :: "timestamp option"

datatype idempotency_actor = By_environment_key | By_end_user_session

record idempotency_record =
  ip_id :: uuid
  ip_workspaceId :: uuid
  ip_environmentId :: uuid
  ip_actorKind :: idempotency_actor
  ip_actorId :: uuid
  ip_operation :: string
  ip_idempotencyKey :: string
  ip_requestHash :: string
  ip_resourceId :: "uuid option"

record audit_log =
  al_workspaceId :: uuid
  al_actorUserId :: "uuid option"
  al_actorExternalSubjectId :: "uuid option"
  al_actorEndUserSessionId :: "uuid option"
  al_actorEnvironmentKeyId :: "uuid option"
  al_action :: string
  al_resource :: string
  al_resourceId :: uuid
  al_metadata :: "(string \<times> jsval) list"

section \<open>Outbox\<close>

datatype outbox_kind = WorkflowExecution | PublicEvent

datatype outbox_status = Pending | Publishing | Published | MsgFailed

record outbox_message =
  ob_id :: uuid
  ob_workspaceId :: uuid
  ob_environmentId :: "uuid option"
  ob_externalSubjectId :: "uuid option"
  ob_kind :: outbox_kind
  ob_eventType :: "string option"
  ob_payload :: "(string \<times> jsval) list"
  ob_status :: outbox_status
  ob_attempts :: int
  ob_availableAt :: timestamp
  ob_claimedAt :: "timestamp option"
  ob_claimExpiresAt :: "timestamp option"
  ob_claimedBy :: "string option"
  ob_publishedAt :: "timestamp option"
  ob_failedAt :: "timestamp option"
  ob_lastError :: "string option"
  ob_createdAt :: timestamp

definition attempts_check :: "outbox_message \<Rightarrow> bool" where
  "attempts_check m \<longleftrightarrow> 0 \<le> ob_attempts m"

definition kind_check :: "outbox_message \<Rightarrow> bool" where
  "kind_check m \<longleftrightarrow>
     ob_kind m = WorkflowExecution \<and> ob_environmentId m = None \<and> ob_externalSubjectId m = None \<and>
       ob_eventType m = None \<or>
     ob_kind m = PublicEvent \<and> ob_environmentId m \<noteq> None \<and> ob_eventType m \<noteq> None"

definition claim_check :: "outbox_message \<Rightarrow> bool" where
  "claim_check m \<longleftrightarrow> (ob_status m = Publishing) =
     (ob_claimedAt m \<noteq> None \<and> ob_claimExpiresAt m \<noteq> None \<and> ob_claimedBy m \<noteq> None)"

definition terminal_check :: "outbox_message \<Rightarrow> bool" where
  "terminal_check m \<longleftrightarrow> (ob_status m = Published) = (ob_publishedAt m \<noteq> None) \<and>
     (ob_status m = MsgFailed) = (ob_failedAt m \<noteq> None)"

definition outbox_checks :: "outbox_message \<Rightarrow> bool" where
  "outbox_checks m \<longleftrightarrow> attempts_check m \<and> kind_check m \<and> claim_check m \<and> terminal_check m"

section \<open>Webhooks and schedules\<close>

record webhook_endpoint =
  we_id :: uuid
  we_workspaceId :: uuid
  we_environmentId :: uuid
  we_url :: string
  we_currentSecretEncrypted :: string
  we_previousSecretEncrypted :: "string option"
  we_previousSecretExpiresAt :: "timestamp option"
  we_disabledAt :: "timestamp option"
  we_createdAt :: timestamp
  we_updatedAt :: timestamp

datatype webhook_status = W_pending | W_delivering | W_retrying | W_succeeded | W_failed

datatype secret_version = Current_secret | Previous_secret

record webhook_delivery =
  wd_id :: uuid
  wd_workspaceId :: uuid
  wd_environmentId :: uuid
  wd_webhookId :: uuid
  wd_eventId :: uuid
  wd_eventType :: string
  wd_url :: string
  wd_body :: jsval
  wd_secretVersion :: secret_version
  wd_status :: webhook_status
  wd_attempts :: int
  wd_responseStatus :: "int option"
  wd_responseBody :: "string option"
  wd_lastError :: "string option"
  wd_nextAttemptAt :: "timestamp option"
  wd_deliveredAt :: "timestamp option"
  wd_failedAt :: "timestamp option"
  wd_createdAt :: timestamp
  wd_updatedAt :: timestamp

record schedule_row =
  sd_id :: uuid
  sd_workspaceId :: uuid
  sd_workflowId :: uuid
  sd_environmentId :: uuid
  sd_cronExpression :: string
  sd_timezone :: string
  sd_enabled :: bool
  sd_nextRunAt :: timestamp
  sd_lastRunAt :: "timestamp option"
  sd_externalSubjectId :: "string option"
  sd_triggerPayload :: "jsval option"

section \<open>Workflows, environments and subjects\<close>

record workflow_row =
  wf_id :: uuid
  wf_workspaceId :: uuid
  wf_applicationId :: uuid
  wf_name :: string
  wf_slug :: string
  wf_archivedAt :: "timestamp option"

record workflow_version =
  wv_id :: uuid
  wv_workflowId :: uuid
  wv_graph :: jsval
  wv_publishedAt :: "timestamp option"

record provider_policy =
  pp_provider :: string
  pp_actionFamilies :: "string list"
  pp_maxScopes :: "string list"

record environment_row =
  env_id :: uuid
  env_workspaceId :: uuid
  env_applicationId :: uuid
  env_name :: string
  env_enabled :: bool
  env_allowedRedirectOrigins :: "string list"
  env_contentRetentionDays :: int
  env_connectorAccessPolicy :: "provider_policy list"

record workflow_binding =
  wb_environmentId :: uuid
  wb_workflowId :: uuid
  wb_workflowVersionId :: uuid
  wb_contractRevisionId :: "uuid option"
  wb_enabled :: bool

record end_subject =
  es_id :: uuid
  es_workspaceId :: uuid
  es_externalId :: string
  es_label :: "string option"
  es_firstSeenAt :: timestamp
  es_lastSeenAt :: timestamp
  es_deletedAt :: "timestamp option"

record subject_environment =
  se_workspaceId :: uuid
  se_environmentId :: uuid
  se_externalSubjectId :: uuid

section \<open>Conversations\<close>

datatype conversation_status = C_active | C_closed

record conversation =
  cv_id :: uuid
  cv_workspaceId :: uuid
  cv_environmentId :: uuid
  cv_workflowId :: uuid
  cv_externalSubjectId :: uuid
  cv_externalThreadKey :: "string option"
  cv_title :: "string option"
  cv_metadata :: "(string \<times> jsval) list"
  cv_environment :: string
  cv_status :: conversation_status
  cv_lastActivityAt :: timestamp
  cv_createdAt :: timestamp
  cv_updatedAt :: timestamp

datatype chat_role = R_user | R_assistant

record chat_message =
  cm_id :: uuid
  cm_workspaceId :: uuid
  cm_conversationId :: uuid
  cm_clientMessageId :: "string option"
  cm_executionId :: "uuid option"
  cm_respondsToMessageId :: "uuid option"
  cm_sequence :: int
  cm_role :: chat_role
  cm_content :: string
  cm_createdAt :: timestamp

section \<open>The database\<close>

record db =
  executions :: "execution list"
  executionSteps :: "execution_step list"
  checkpoints :: "checkpoint list"
  waitTimers :: "wait_timer list"
  approvalRequests :: "approval_request list"
  outboxMessages :: "outbox_message list"
  workflows :: "workflow_row list"
  workflowVersions :: "workflow_version list"
  environments :: "environment_row list"
  workflowBindings :: "workflow_binding list"
  endSubjects :: "end_subject list"
  subjectEnvironments :: "subject_environment list"
  conversations :: "conversation list"
  chatMessages :: "chat_message list"
  approvalDecisions :: "approval_decision list"
  actionIntents :: "action_intent list"
  connections :: "connection_row list"
  reviewerAssignments :: "reviewer_assignment list"
  accessGrants :: "access_grant list"
  connectorAuditFacts :: "audit_fact list"
  members :: "member_row list"
  users :: "user_row list"
  externalSubjects :: "external_subject list"
  endUserSessions :: "end_user_session list"
  idempotencyRecords :: "idempotency_record list"
  auditLogs :: "audit_log list"
  connectionAuthorizationRequests :: "authorization_request list"
  connectionReadUses :: "read_use list"
  connectionRevocationDeliveries :: "revocation_delivery list"
  webhookEndpoints :: "webhook_endpoint list"
  webhookDeliveries :: "webhook_delivery list"
  schedules :: "schedule_row list"

text \<open>Comparisons with a nullable column are not true on null.\<close>

definition sql_lt :: "timestamp option \<Rightarrow> timestamp \<Rightarrow> bool" where
  "sql_lt c t = (case c of None \<Rightarrow> False | Some x \<Rightarrow> x < t)"

definition sql_lte :: "timestamp option \<Rightarrow> timestamp \<Rightarrow> bool" where
  "sql_lte c t = (case c of None \<Rightarrow> False | Some x \<Rightarrow> x \<le> t)"

definition sql_gt :: "timestamp option \<Rightarrow> timestamp \<Rightarrow> bool" where
  "sql_gt c t = (case c of None \<Rightarrow> False | Some x \<Rightarrow> t < x)"

lemma sql_cmp_simps [simp]:
  "sql_lt (Some x) t \<longleftrightarrow> x < t" "sql_lte (Some x) t \<longleftrightarrow> x \<le> t" "sql_gt (Some x) t \<longleftrightarrow> t < x"
  "\<not> sql_lt None t" "\<not> sql_lte None t" "\<not> sql_gt None t"
  by (simp_all add: sql_lt_def sql_lte_def sql_gt_def)

lemma sql_gt_not_lt: "sql_gt c t \<Longrightarrow> \<not> sql_lt c t"
  by (cases c) auto

text \<open>\<^verbatim>\<open>date_trunc('milliseconds', t)\<close>.\<close>

definition trunc_ms :: "timestamp \<Rightarrow> timestamp" where
  "trunc_ms t = t div 1000 * 1000"

lemma trunc_ms_le: "trunc_ms t \<le> t"
  by (simp add: trunc_ms_def)

end
