(* ===== verification/Outbox.thy ===== *)
theory Outbox
  imports Store_Schema "HOL-Library.Char_ord" "HOL-Library.List_Lexorder" "HOL-Library.Product_Lexorder"
begin

text \<open>
  \<^verbatim>\<open>packages/db/src/repositories/outbox-message.repository.ts\<close>: the transactional outbox.

  Inserting a message evaluates the table's check constraints. A claim locks the first
  claimable row in the order of availability that no concurrent transaction holds
  (\<^verbatim>\<open>FOR UPDATE SKIP LOCKED\<close>): \<open>locked\<close> is the set of rows held by others at that moment.
  \<open>octets\<close> stands for \<^verbatim>\<open>octet_length(payload::text)\<close>, the size of the database's own spelling of a
  JSON value.
\<close>

section \<open>Operations\<close>

definition new_message :: "uuid \<Rightarrow> timestamp \<Rightarrow> uuid \<Rightarrow> outbox_message" where
  "new_message mid now ws = \<lparr>ob_id = mid, ob_workspaceId = ws, ob_environmentId = None,
     ob_externalSubjectId = None, ob_kind = WorkflowExecution, ob_eventType = None, ob_payload = [],
     ob_status = Pending, ob_attempts = 0, ob_availableAt = now, ob_claimedAt = None,
     ob_claimExpiresAt = None, ob_claimedBy = None, ob_publishedAt = None, ob_failedAt = None,
     ob_lastError = None, ob_createdAt = now\<rparr>"

definition insert_message :: "outbox_message \<Rightarrow> db \<Rightarrow> db" where
  "insert_message m d = d\<lparr>outboxMessages := outboxMessages d @ [m]\<rparr>"

definition execution_message :: "uuid \<Rightarrow> timestamp \<Rightarrow> uuid \<Rightarrow> uuid \<Rightarrow> outbox_message" where
  "execution_message mid now ws xid =
     (new_message mid now ws)\<lparr>ob_kind := WorkflowExecution, ob_payload := [(''executionId'', JStr xid)]\<rparr>"

definition createWorkflowExecutionMessage ::
  "uuid \<Rightarrow> timestamp \<Rightarrow> uuid \<Rightarrow> uuid \<Rightarrow> db \<Rightarrow> db \<times> outbox_message" where
  "createWorkflowExecutionMessage mid now ws xid d =
     (let m = execution_message mid now ws xid in (insert_message m d, m))"

definition createPublicEvent ::
  "(jsval \<Rightarrow> nat) \<Rightarrow> uuid \<Rightarrow> timestamp \<Rightarrow> uuid \<Rightarrow> uuid \<Rightarrow> uuid option \<Rightarrow> string \<Rightarrow> (string \<times> jsval) list \<Rightarrow>
     db \<Rightarrow> db_error + (db \<times> outbox_message)" where
  "createPublicEvent octets mid now ws env subject eventType data d =
     (let audience = (\<lambda>s. find (\<lambda>r. se_workspaceId r = ws \<and> se_environmentId r = env \<and>
            se_externalSubjectId r = s) (subjectEnvironments d));
          m = (new_message mid now ws)\<lparr>ob_environmentId := Some env, ob_externalSubjectId := subject,
            ob_kind := PublicEvent, ob_eventType := Some eventType, ob_payload := data\<rparr>
      in if (case subject of None \<Rightarrow> False | Some s \<Rightarrow> audience s = None)
         then Inl (AppError ''Public event audience does not exist'')
         else if 65536 < octets (JObj data) then Inl (CheckViolation ''outbox_messages_payload_check'')
         else Inr (insert_message m d, m))"

definition claimable :: "outbox_kind \<Rightarrow> timestamp \<Rightarrow> outbox_message \<Rightarrow> bool" where
  "claimable k now m \<longleftrightarrow> ob_kind m = k \<and>
     (ob_status m = Pending \<and> trunc_ms (ob_availableAt m) \<le> now \<or>
      ob_status m = Publishing \<and> sql_lte (ob_claimExpiresAt m) now)"

definition dispatch_key :: "outbox_message \<Rightarrow> timestamp \<times> uuid" where
  "dispatch_key m = (ob_availableAt m, ob_id m)"

definition candidate :: "outbox_kind \<Rightarrow> uuid set \<Rightarrow> timestamp \<Rightarrow> db \<Rightarrow> outbox_message option" where
  "candidate k locked now d = first_row (sort_key dispatch_key
     (filter (\<lambda>m. claimable k now m \<and> ob_id m \<notin> locked) (outboxMessages d)))"

definition set_claim :: "string \<Rightarrow> timestamp \<Rightarrow> timestamp \<Rightarrow> outbox_message \<Rightarrow> outbox_message" where
  "set_claim who now expires m = m\<lparr>ob_status := Publishing, ob_attempts := ob_attempts m + 1,
     ob_claimedAt := Some now, ob_claimExpiresAt := Some expires, ob_claimedBy := Some who,
     ob_publishedAt := None, ob_failedAt := None\<rparr>"

definition claim_message ::
  "outbox_kind \<Rightarrow> uuid set \<Rightarrow> string \<Rightarrow> timestamp \<Rightarrow> timestamp \<Rightarrow> db \<Rightarrow> db \<times> outbox_message option" where
  "claim_message k locked who now expires d = (case candidate k locked now d of
       None \<Rightarrow> (d, None)
     | Some c \<Rightarrow>
         let (rows, ret) = update_where (\<lambda>m. ob_id m = ob_id c) (set_claim who now expires) (outboxMessages d)
         in (d\<lparr>outboxMessages := rows\<rparr>, first_row ret))"

definition claimWorkflowExecutionMessage ::
  "uuid set \<Rightarrow> string \<Rightarrow> timestamp \<Rightarrow> timestamp \<Rightarrow> db \<Rightarrow> db \<times> outbox_message option" where
  "claimWorkflowExecutionMessage = claim_message WorkflowExecution"

definition claimPublicEventMessage ::
  "uuid set \<Rightarrow> string \<Rightarrow> timestamp \<Rightarrow> timestamp \<Rightarrow> db \<Rightarrow> db \<times> outbox_message option" where
  "claimPublicEventMessage = claim_message PublicEvent"

definition held_by :: "uuid \<Rightarrow> string \<Rightarrow> outbox_message \<Rightarrow> bool" where
  "held_by mid who m \<longleftrightarrow> ob_id m = mid \<and> ob_status m = Publishing \<and> ob_claimedBy m = Some who"

definition markOutboxMessagePublished ::
  "uuid \<Rightarrow> string \<Rightarrow> timestamp \<Rightarrow> db \<Rightarrow> db \<times> outbox_message option" where
  "markOutboxMessagePublished mid who publishedAt d =
     (let (rows, ret) = update_where (held_by mid who)
        (\<lambda>m. m\<lparr>ob_status := Published, ob_claimedAt := None, ob_claimExpiresAt := None,
           ob_claimedBy := None, ob_publishedAt := Some publishedAt, ob_lastError := None\<rparr>)
        (outboxMessages d)
      in (d\<lparr>outboxMessages := rows\<rparr>, first_row ret))"

definition set_failure ::
  "string \<Rightarrow> timestamp \<Rightarrow> timestamp \<Rightarrow> bool \<Rightarrow> outbox_message \<Rightarrow> outbox_message" where
  "set_failure error failedAt retryAt terminal m =
     m\<lparr>ob_status := (if terminal then MsgFailed else Pending),
       ob_availableAt := (if terminal then failedAt else retryAt),
       ob_claimedAt := None, ob_claimExpiresAt := None, ob_claimedBy := None,
       ob_failedAt := (if terminal then Some failedAt else None), ob_lastError := Some error\<rparr>"

definition recordOutboxMessageFailure ::
  "uuid \<Rightarrow> string \<Rightarrow> string \<Rightarrow> timestamp \<Rightarrow> timestamp \<Rightarrow> bool \<Rightarrow> db \<Rightarrow> db \<times> outbox_message option" where
  "recordOutboxMessageFailure mid who error failedAt retryAt terminal d =
     (case find (held_by mid who) (outboxMessages d) of
        None \<Rightarrow> (d, None)
      | Some _ \<Rightarrow>
          let (rows, ret) = update_where (held_by mid who) (set_failure error failedAt retryAt terminal)
            (outboxMessages d)
          in (d\<lparr>outboxMessages := rows\<rparr>, first_row ret))"

definition getOutboxMessages :: "uuid list \<Rightarrow> db \<Rightarrow> outbox_message list" where
  "getOutboxMessages ids d =
     (if ids = [] then [] else filter (\<lambda>m. ob_id m \<in> set ids) (outboxMessages d))"

section \<open>Table invariant\<close>

text \<open>Unique ids, the check constraints, and a payload that names an execution.\<close>

definition message_ok :: "outbox_message \<Rightarrow> bool" where
  "message_ok m \<longleftrightarrow> outbox_checks m \<and>
     (ob_kind m = WorkflowExecution \<longrightarrow> (\<exists>xid. ob_payload m = [(''executionId'', JStr xid)]))"

definition outbox_inv :: "db \<Rightarrow> bool" where
  "outbox_inv d \<longleftrightarrow> distinct (map ob_id (outboxMessages d)) \<and> list_all message_ok (outboxMessages d)"

lemmas message_defs = message_ok_def outbox_checks_def attempts_check_def kind_check_def
  claim_check_def terminal_check_def

lemma ob_id_set [simp]:
  "ob_id (set_claim who now ex m) = ob_id m" "ob_id (set_failure e f r t m) = ob_id m"
  by (simp_all add: set_claim_def set_failure_def)

lemma execution_message_ok: "message_ok (execution_message mid now ws xid)"
  by (simp add: message_defs execution_message_def new_message_def)

lemma set_claim_ok: "message_ok m \<Longrightarrow> message_ok (set_claim who now expires m)"
  by (auto simp: message_defs set_claim_def)

lemma set_failure_ok:
  "message_ok m \<Longrightarrow> ob_status m = Publishing \<Longrightarrow> message_ok (set_failure e f r t m)"
  by (auto simp: message_defs set_failure_def)

lemma outbox_inv_update:
  assumes "outbox_inv d" "\<And>m. m \<in> set (outboxMessages d) \<Longrightarrow> p m \<Longrightarrow> message_ok m \<Longrightarrow> message_ok (f m)"
    "\<And>m. ob_id (f m) = ob_id m"
  shows "outbox_inv (d\<lparr>outboxMessages := fst (update_where p f (outboxMessages d))\<rparr>)"
  using assms map_update_where [of "outboxMessages d" p ob_id f]
  by (auto simp: outbox_inv_def list_all_iff set_update_where)

lemma outbox_inv_insert:
  "outbox_inv d \<Longrightarrow> message_ok m \<Longrightarrow> ob_id m \<notin> ob_id ` set (outboxMessages d) \<Longrightarrow>
     outbox_inv (insert_message m d)"
  by (auto simp: outbox_inv_def insert_message_def)

lemma claim_message_inv: "outbox_inv d \<Longrightarrow> outbox_inv (fst (claim_message k locked who now ex d))"
  by (auto simp: claim_message_def Let_def split_beta set_claim_ok intro!: outbox_inv_update
      split: option.splits)

section \<open>The outbox as a transition system\<close>

text \<open>One committed operation of any process, with the actor that performs it.\<close>

inductive outbox_step :: "timestamp \<Rightarrow> string option \<Rightarrow> db \<Rightarrow> db \<Rightarrow> bool" for now where
  step_execution_message:
    "mid \<notin> ob_id ` set (outboxMessages d) \<Longrightarrow>
     outbox_step now None d (fst (createWorkflowExecutionMessage mid now ws xid d))"
| step_public_event:
    "mid \<notin> ob_id ` set (outboxMessages d) \<Longrightarrow>
     createPublicEvent octets mid now ws env subject ty data d = Inr (d', m) \<Longrightarrow>
     outbox_step now None d d'"
| step_claim:
    "outbox_step now (Some who) d (fst (claim_message k locked who now ex d))"
| step_published:
    "outbox_step now (Some who) d (fst (markOutboxMessagePublished mid who pubAt d))"
| step_failure:
    "outbox_step now (Some who) d (fst (recordOutboxMessageFailure mid who e f r t d))"

lemma outbox_step_inv_step:
  assumes "outbox_inv d" "outbox_step now actor d d'"
  shows "outbox_inv d'"
  using assms(2,1)
proof cases
  case (step_execution_message mid ws xid)
  then show ?thesis using assms(1)
    by (auto simp: createWorkflowExecutionMessage_def Let_def message_defs
        execution_message_def new_message_def intro!: outbox_inv_insert)
next
  case (step_public_event mid octets ws env subject ty data m)
  then show ?thesis using assms(1)
    by (auto simp: createPublicEvent_def Let_def message_defs new_message_def
        intro!: outbox_inv_insert split: if_splits)
next
  case (step_claim who k locked ex)
  then show ?thesis using assms(1) claim_message_inv by simp
next
  case (step_published who mid pubAt)
  then show ?thesis using assms(1)
    by (auto simp: markOutboxMessagePublished_def Let_def split_beta held_by_def message_defs
        intro!: outbox_inv_update)
next
  case (step_failure who mid e f r t)
  then show ?thesis using assms(1)
    by (auto simp: recordOutboxMessageFailure_def Let_def split_beta held_by_def set_failure_ok
        intro!: outbox_inv_update split: option.splits)
qed

text \<open>A row that no operation of the step may touch stays as it is.\<close>

lemma candidate_claimable:
  "candidate k locked now d = Some c \<Longrightarrow>
     c \<in> set (outboxMessages d) \<and> claimable k now c \<and> ob_id c \<notin> locked"
  by (auto simp: candidate_def dest!: first_row_Some)

lemma outbox_step_keeps:
  assumes "outbox_inv d" "outbox_step now actor d d'" "m \<in> set (outboxMessages d)"
    and "\<And>k. \<not> claimable k now m"
    and "ob_status m = Publishing \<Longrightarrow> ob_claimedBy m \<noteq> actor"
  shows "m \<in> set (outboxMessages d')"
  using assms(2)
proof cases
  case (step_claim who k locked ex)
  show ?thesis
  proof (cases "candidate k locked now d")
    case (Some c)
    then have "c \<in> set (outboxMessages d)" "claimable k now c"
      using candidate_claimable [OF Some] by auto
    then have "ob_id m \<noteq> ob_id c"
      using distinct_rows_eq [of ob_id "outboxMessages d" m c] assms(1,3,4) by (auto simp: outbox_inv_def)
    with Some assms(3) step_claim show ?thesis
      by (simp add: claim_message_def split_beta update_where_keeps)
  qed (use step_claim assms(3) in \<open>simp add: claim_message_def\<close>)
next
  case (step_failure who mid e f r t)
  then show ?thesis using assms(3,5)
    by (cases "find (held_by mid who) (outboxMessages d)")
       (auto simp: recordOutboxMessageFailure_def split_beta held_by_def intro!: update_where_keeps)
qed (use assms(3,5) in \<open>auto simp: createWorkflowExecutionMessage_def createPublicEvent_def Let_def
      insert_message_def markOutboxMessagePublished_def split_beta held_by_def
      intro!: update_where_keeps split: if_splits\<close>)

definition claim_live :: "timestamp \<Rightarrow> outbox_message \<Rightarrow> bool" where
  "claim_live now m \<longleftrightarrow> ob_status m = Publishing \<and> sql_gt (ob_claimExpiresAt m) now"

definition delivered_or_dead :: "outbox_message \<Rightarrow> bool" where
  "delivered_or_dead m \<longleftrightarrow> ob_status m = Published \<or> ob_status m = MsgFailed"

interpretation outbox_claims: leased_rows outboxMessages ob_claimedBy claim_live delivered_or_dead
  outbox_step outbox_inv
proof unfold_locales
  fix d d' t a m t'
  assume step: "outbox_inv d" "outbox_step t a d d'"
  then show "outbox_inv d'" by (rule outbox_step_inv_step)
  assume m: "m \<in> set (outboxMessages d)"
  show "m \<in> set (outboxMessages d')" if "claim_live t m" "ob_claimedBy m \<noteq> a"
  proof (rule outbox_step_keeps [OF step m])
    show "\<not> claimable k t m" for k
      using that(1) by (cases "ob_claimExpiresAt m") (auto simp: claimable_def claim_live_def)
  qed (use that(2) in simp)
  show "m \<in> set (outboxMessages d')" if "delivered_or_dead m"
    using outbox_step_keeps [OF step m] that by (auto simp: claimable_def delivered_or_dead_def)
next
  fix t t' m
  show "claim_live t m \<Longrightarrow> t' \<le> t \<Longrightarrow> claim_live t' m"
    by (cases "ob_claimExpiresAt m") (auto simp: claim_live_def)
qed

text \<open>
  C14. Whatever sequence of operations the dispatchers and producers run, the outbox keeps its
  table constraints, so no statement ever fails on a check of the database; a message that
  was published or failed for good never changes again; and until its claim expires a
  claimed message is changed by nobody but the claimant.
\<close>

theorem outbox_run_safe:
  assumes "outbox_inv d" "run_steps outbox_step as d d'"
  shows "outbox_inv d' \<and>
    (\<forall>m \<in> set (outboxMessages d). delivered_or_dead m \<longrightarrow> m \<in> set (outboxMessages d')) \<and>
    (\<forall>m \<in> set (outboxMessages d). \<forall>T. claim_live T m \<longrightarrow>
       (\<forall>(t, a) \<in> set as. t \<le> T \<and> a \<noteq> ob_claimedBy m) \<longrightarrow> m \<in> set (outboxMessages d'))"
  using outbox_claims.run_inv [OF assms(2,1)] outbox_claims.run_finished [OF assms(2,1)]
    outbox_claims.run_leased [OF assms(2,1)]
  by blast

definition empty_db :: db where
  "empty_db = \<lparr>executions = [], executionSteps = [], checkpoints = [], waitTimers = [],
     approvalRequests = [], outboxMessages = [], workflows = [], workflowVersions = [], environments = [],
     workflowBindings = [], endSubjects = [], subjectEnvironments = [], conversations = [], chatMessages = [],
     approvalDecisions = [], actionIntents = [], connections = [], reviewerAssignments = [], accessGrants = [],
     connectorAuditFacts = [], members = [], users = [], externalSubjects = [], endUserSessions = [],
     idempotencyRecords = [], auditLogs = [], connectionAuthorizationRequests = [],
     connectionReadUses = [], connectionRevocationDeliveries = [], webhookEndpoints = [], webhookDeliveries = [],
     schedules = []\<rparr>"

definition claimed_db :: db where
  "claimed_db = fst (claim_message WorkflowExecution {} ''w1'' 10 40
     (fst (createWorkflowExecutionMessage ''m1'' 5 ''ws'' ''x1'' empty_db)))"

theorem outbox_run_safe_witness:
  "\<exists>m \<in> set (outboxMessages claimed_db). ob_claimedBy m = Some ''w1'' \<and>
     m \<in> set (outboxMessages (fst (claim_message WorkflowExecution {} ''w2'' 20 50 claimed_db)))"
proof -
  have inv: "outbox_inv empty_db" by (simp add: outbox_inv_def empty_db_def)
  then have "outbox_inv (fst (createWorkflowExecutionMessage ''m1'' 5 ''ws'' ''x1'' empty_db))"
    by (rule outbox_step_inv_step) (rule step_execution_message, simp add: empty_db_def)
  then have inv2: "outbox_inv claimed_db" unfolding claimed_db_def by (rule claim_message_inv)
  have "run_steps outbox_step [(20, Some ''w2'')] claimed_db
      (fst (claim_message WorkflowExecution {} ''w2'' 20 50 claimed_db))"
    by (rule run_cons [of outbox_step, OF step_claim]) (rule run_nil)
  note safe = outbox_run_safe [OF inv2 this]
  have "list_ex (\<lambda>m. claim_live 20 m \<and> ob_claimedBy m = Some ''w1'') (outboxMessages claimed_db)"
    by code_simp
  then obtain m where m: "m \<in> set (outboxMessages claimed_db)" "claim_live 20 m"
    "ob_claimedBy m = Some ''w1''"
    by (auto simp: list_ex_iff)
  have "\<forall>(t, a) \<in> set [(20 :: timestamp, Some ''w2'')]. t \<le> 20 \<and> a \<noteq> ob_claimedBy m"
    using m(3) by simp
  with safe m have "m \<in> set (outboxMessages (fst (claim_message WorkflowExecution {} ''w2'' 20 50 claimed_db)))"
    by blast
  with m show ?thesis by blast
qed

section \<open>What a claim returns\<close>

lemma first_row_sort_key:
  "first_row (sort_key f xs) = Some x \<Longrightarrow> x \<in> set xs \<and> (\<forall>y \<in> set xs. f x \<le> f y)"
proof -
  assume "first_row (sort_key f xs) = Some x"
  then obtain ys where ys: "sort_key f xs = x # ys" by (auto simp: first_row_def split: list.splits)
  have "sorted (map f (sort_key f xs))" by simp
  then have "\<forall>y \<in> set (sort_key f xs). f x \<le> f y" unfolding ys by simp
  moreover have "x \<in> set (sort_key f xs)" unfolding ys by simp
  ultimately show ?thesis by simp
qed

text \<open>
  C15. A claim takes the longest available message of its kind: it returns nothing exactly when
  no row that is claimable at that moment is left unlocked, and otherwise the claimed version
  of the row that comes first in dispatch order, which it also stores.
\<close>

theorem claim_message_first:
  assumes "outbox_inv d" "claim_message k locked who now ex d = (d', r)"
  shows "case r of
      None \<Rightarrow> d' = d \<and> (\<forall>m \<in> set (outboxMessages d). claimable k now m \<longrightarrow> ob_id m \<in> locked)
    | Some m \<Rightarrow> (\<exists>c \<in> set (outboxMessages d). claimable k now c \<and> ob_id c \<notin> locked \<and>
        m = set_claim who now ex c \<and> m \<in> set (outboxMessages d') \<and>
        (\<forall>m' \<in> set (outboxMessages d). claimable k now m' \<longrightarrow> ob_id m' \<notin> locked \<longrightarrow>
           dispatch_key c \<le> dispatch_key m'))"
proof (cases "candidate k locked now d")
  case None
  then have "set (sort_key dispatch_key
      (filter (\<lambda>m. claimable k now m \<and> ob_id m \<notin> locked) (outboxMessages d))) = {}"
    unfolding candidate_def by simp
  then have "filter (\<lambda>m. claimable k now m \<and> ob_id m \<notin> locked) (outboxMessages d) = []"
    unfolding set_sort by simp
  with None assms(2) show ?thesis by (auto simp: claim_message_def filter_empty_conv)
next
  case (Some c)
  note cand = candidate_claimable [OF Some]
  have least: "\<forall>m' \<in> set (outboxMessages d). claimable k now m' \<longrightarrow> ob_id m' \<notin> locked \<longrightarrow>
      dispatch_key c \<le> dispatch_key m'"
    using first_row_sort_key [OF Some [unfolded candidate_def]] by auto
  have "snd (update_where (\<lambda>m. ob_id m = ob_id c) (set_claim who now ex) (outboxMessages d)) =
      [set_claim who now ex c]"
    using assms(1) cand by (intro update_where_one) (auto simp: outbox_inv_def)
  then have r: "r = Some (set_claim who now ex c)" and
    d': "outboxMessages d' = fst (update_where (\<lambda>m. ob_id m = ob_id c) (set_claim who now ex) (outboxMessages d))"
    using assms(2) Some by (auto simp: claim_message_def split_beta first_row_def)
  have "set_claim who now ex c \<in> set (outboxMessages d')"
    unfolding d' set_update_where using cand by blast
  with r cand least show ?thesis by auto
qed

theorem claim_message_first_witness:
  "\<exists>c \<in> set (outboxMessages (fst (createWorkflowExecutionMessage ''m1'' 5 ''ws'' ''x1'' empty_db))).
     ob_id c = ''m1'' \<and> ob_attempts (set_claim ''w1'' 10 40 c) = 1"
proof -
  define d where "d = fst (createWorkflowExecutionMessage ''m1'' 5 ''ws'' ''x1'' empty_db)"
  have "outbox_inv empty_db" by (simp add: outbox_inv_def empty_db_def)
  then have inv: "outbox_inv d" unfolding d_def
    by (rule outbox_step_inv_step) (rule step_execution_message, simp add: empty_db_def)
  have res: "map_option (\<lambda>m. (ob_id m, ob_attempts m)) (snd (claim_message WorkflowExecution {} ''w1'' 10 40 d))
      = Some (''m1'', 1)"
    unfolding d_def by code_simp
  obtain d' m where cm: "claim_message WorkflowExecution {} ''w1'' 10 40 d = (d', Some m)"
    using res by (cases "claim_message WorkflowExecution {} ''w1'' 10 40 d") auto
  from claim_message_first [OF inv cm] res cm show ?thesis unfolding d_def by auto
qed

end
