(* ===== verification/Execution_Store.thy ===== *)
theory Execution_Store
  imports Outbox
begin

text \<open>
  The repositories that own executions: \<^verbatim>\<open>execution.repository.ts\<close>, \<^verbatim>\<open>checkpoint.repository.ts\<close>,
  \<^verbatim>\<open>wait-timer.repository.ts\<close> and \<^verbatim>\<open>end-subject.repository.ts\<close> of \<^verbatim>\<open>packages/db/src/repositories\<close>.

  Every function takes the database to the database and its result. \<open>now\<close> is what
  \<^verbatim>\<open>new Date()\<close> and the column default \<^verbatim>\<open>now()\<close> read in that call, and identifiers the database
  generates are arguments (record \<open>fresh_ids\<close>). A transaction that throws is a left summand: the
  database keeps its state.
\<close>

record fresh_ids =
  new_execution :: uuid
  new_message_id :: uuid
  new_subject :: uuid
  new_step :: uuid
  new_checkpoint :: uuid
  new_span :: string

section \<open>End subjects\<close>

definition upsertEndSubject ::
  "uuid \<Rightarrow> timestamp \<Rightarrow> uuid \<Rightarrow> string \<Rightarrow> string option \<Rightarrow> db \<Rightarrow> db" where
  "upsertEndSubject sid now ws extId label d =
    (if list_ex (\<lambda>s. es_workspaceId s = ws \<and> es_externalId s = extId) (endSubjects d)
     then d\<lparr>endSubjects := fst (update_where (\<lambda>s. es_workspaceId s = ws \<and> es_externalId s = extId)
            (\<lambda>s. s\<lparr>es_lastSeenAt := now,
               es_label := (case label of None \<Rightarrow> es_label s | Some l \<Rightarrow> Some l)\<rparr>) (endSubjects d))\<rparr>
     else d\<lparr>endSubjects := endSubjects d @ [\<lparr>es_id = sid, es_workspaceId = ws, es_externalId = extId,
            es_label = label, es_firstSeenAt = now, es_lastSeenAt = now, es_deletedAt = None\<rparr>]\<rparr>)"

section \<open>Creating executions\<close>

record create_input =
  ci_workspaceId :: uuid
  ci_workflowId :: uuid
  ci_workflowVersionId :: uuid
  ci_environmentId :: "uuid option"
  ci_contractRevisionId :: "uuid option"
  ci_externalSubjectRecordId :: "uuid option"
  ci_trigger :: exec_trigger
  ci_triggerPayload :: "jsval option"
  ci_origin :: "exec_origin option"
  ci_triggeredByUserId :: "uuid option"
  ci_externalSubjectId :: "string option"

text \<open>A row with the defaults of the table.\<close>

definition new_row :: "uuid \<Rightarrow> timestamp \<Rightarrow> uuid \<Rightarrow> uuid \<Rightarrow> uuid \<Rightarrow> uuid \<Rightarrow> exec_trigger \<Rightarrow> execution" where
  "new_row xid now ws wfid ver env trig = \<lparr>ex_id = xid, ex_workspaceId = ws, ex_workflowId = wfid,
     ex_workflowVersionId = ver, ex_environmentId = Some env, ex_contractRevisionId = None,
     ex_externalSubjectRecordId = None, ex_conversationId = None, ex_status = Queued,
     ex_origin = Native, ex_trigger = trig, ex_triggerPayload = None, ex_environment = ''dev'',
     ex_triggeredByUserId = None, ex_externalSubjectId = None, ex_leasedBy = None,
     ex_leaseExpiresAt = None, ex_error = None, ex_costMicros = 0, ex_costUnpriced = None,
     ex_tokensInput = 0, ex_tokensOutput = 0, ex_startedAt = None, ex_completedAt = None,
     ex_createdAt = now\<rparr>"

definition execution_fks :: "execution \<Rightarrow> db \<Rightarrow> db_error + unit" where
  "execution_fks x d =
    (if \<not> list_ex (\<lambda>w. wf_id w = ex_workflowId x \<and> wf_workspaceId w = ex_workspaceId x) (workflows d)
     then Inl (ForeignKeyViolation ''executions_workflow_workspace_fkey'')
     else if \<not> list_ex (\<lambda>v. wv_id v = ex_workflowVersionId x \<and> wv_workflowId v = ex_workflowId x)
       (workflowVersions d)
     then Inl (ForeignKeyViolation ''executions_workflow_version_fkey'')
     else if (case ex_environmentId x of None \<Rightarrow> False
       | Some e \<Rightarrow> \<not> list_ex (\<lambda>r. env_id r = e \<and> env_workspaceId r = ex_workspaceId x) (environments d))
     then Inl (ForeignKeyViolation ''executions_environment_fkey'')
     else Inr ())"

text \<open>Inserting the row and its outbox message, the tail of all three ways to start a run.\<close>

definition insert_execution :: "fresh_ids \<Rightarrow> timestamp \<Rightarrow> execution \<Rightarrow> db \<Rightarrow> db_error + (db \<times> execution)" where
  "insert_execution f now x d = bindE (execution_fks x d) (\<lambda>_.
     let d' = d\<lparr>executions := executions d @ [x]\<rparr>;
         d'' = fst (createWorkflowExecutionMessage (new_message_id f) now (ex_workspaceId x) (ex_id x) d')
     in Inr (d'', x))"

text \<open>\<^verbatim>\<open>externalSubjectId || undefined\<close>: the empty string is no value.\<close>

definition truthy_string :: "string option \<Rightarrow> string option" where
  "truthy_string s = (case s of Some [] \<Rightarrow> None | _ \<Rightarrow> s)"

definition see_subject :: "fresh_ids \<Rightarrow> timestamp \<Rightarrow> uuid \<Rightarrow> string option \<Rightarrow> db \<Rightarrow> db" where
  "see_subject f now ws s d = (case s of
     None \<Rightarrow> d | Some e \<Rightarrow> upsertEndSubject (new_subject f) now ws e None d)"

definition getWorkflowEnvironment :: "uuid \<Rightarrow> uuid \<Rightarrow> string \<Rightarrow> db \<Rightarrow> environment_row option" where
  "getWorkflowEnvironment ws wfid name d = first_row (concat (map (\<lambda>e. concat (map (\<lambda>w.
     if wf_applicationId w = env_applicationId e \<and> wf_workspaceId w = env_workspaceId e \<and>
        wf_id w = wfid \<and> wf_workspaceId w = ws \<and> env_name e = name then [e] else [])
     (workflows d))) (environments d)))"

definition createExecution ::
  "fresh_ids \<Rightarrow> timestamp \<Rightarrow> create_input \<Rightarrow> db \<Rightarrow> db_error + (db \<times> execution)" where
  "createExecution f now input d =
    (let subj = truthy_string (ci_externalSubjectId input);
         d1 = see_subject f now (ci_workspaceId input) subj d;
         environmentId = (case ci_environmentId input of
             Some e \<Rightarrow> if e = [] then None else Some e
           | None \<Rightarrow> map_option env_id (getWorkflowEnvironment (ci_workspaceId input) (ci_workflowId input) ''dev'' d1))
     in case environmentId of
          None \<Rightarrow> Inl (AppError ''Workflow Development Environment not found'')
        | Some e \<Rightarrow> insert_execution f now
            ((new_row (new_execution f) now (ci_workspaceId input) (ci_workflowId input)
               (ci_workflowVersionId input) e (ci_trigger input))\<lparr>
              ex_contractRevisionId := ci_contractRevisionId input,
              ex_externalSubjectRecordId := ci_externalSubjectRecordId input,
              ex_triggerPayload := ci_triggerPayload input,
              ex_origin := (case ci_origin input of None \<Rightarrow> Native | Some og \<Rightarrow> og),
              ex_triggeredByUserId := ci_triggeredByUserId input,
              ex_externalSubjectId := subj\<rparr>) d1)"

datatype trigger_lookup = ById uuid | BySlug string uuid

datatype trigger_result = Created execution | NotFound | Archived | Unpublished

record trigger_input =
  ti_trigger :: exec_trigger
  ti_triggerPayload :: "jsval option"
  ti_environment :: "string option"
  ti_environmentId :: "uuid option"
  ti_triggeredByUserId :: "uuid option"
  ti_externalSubjectId :: "string option"

definition lookup_workflow :: "uuid \<Rightarrow> trigger_lookup \<Rightarrow> db \<Rightarrow> workflow_row option" where
  "lookup_workflow ws lk d = find (\<lambda>w. wf_workspaceId w = ws \<and> (case lk of
       ById i \<Rightarrow> wf_id w = i
     | BySlug s app \<Rightarrow> wf_slug w = s \<and> wf_applicationId w = app)) (workflows d)"

definition deployments ::
  "uuid \<Rightarrow> workflow_row \<Rightarrow> trigger_input \<Rightarrow> db \<Rightarrow> (environment_row \<times> workflow_binding) list" where
  "deployments ws w input d = concat (map (\<lambda>e. concat (map (\<lambda>b. concat (map (\<lambda>v.
     if wb_environmentId b = env_id e \<and> wb_workflowId b = wf_id w \<and> wb_enabled b \<and>
        wv_id v = wb_workflowVersionId b \<and> wv_publishedAt v \<noteq> None \<and>
        env_workspaceId e = ws \<and> env_applicationId e = wf_applicationId w \<and>
        (case truthy_string (ti_environmentId input) of
           Some i \<Rightarrow> env_id e = i
         | None \<Rightarrow> env_name e = (if ti_environment input = Some ''production'' then ''production'' else ''dev'')) \<and>
        env_enabled e
     then [(e, b)] else []) (workflowVersions d))) (workflowBindings d))) (environments d))"

definition triggerWorkflowExecution ::
  "fresh_ids \<Rightarrow> timestamp \<Rightarrow> uuid \<Rightarrow> trigger_lookup \<Rightarrow> trigger_input \<Rightarrow> db \<Rightarrow> db_error + (db \<times> trigger_result)" where
  "triggerWorkflowExecution f now ws lk input d =
    (case lookup_workflow ws lk d of
       None \<Rightarrow> Inr (d, NotFound)
     | Some w \<Rightarrow>
         if wf_archivedAt w \<noteq> None then Inr (d, Archived)
         else (case first_row (deployments ws w input d) of
             None \<Rightarrow> Inr (d, Unpublished)
           | Some (e, b) \<Rightarrow>
               let subj = truthy_string (ti_externalSubjectId input);
                   d1 = see_subject f now ws subj d
               in bindE (insert_execution f now
                   ((new_row (new_execution f) now ws (wf_id w) (wb_workflowVersionId b) (env_id e)
                      (ti_trigger input))\<lparr>
                     ex_contractRevisionId := wb_contractRevisionId b,
                     ex_triggerPayload := ti_triggerPayload input,
                     ex_triggeredByUserId := ti_triggeredByUserId input,
                     ex_externalSubjectId := subj,
                     ex_environment := env_name e\<rparr>) d1)
                 (\<lambda>(d2, x). Inr (d2, Created x))))"

definition triggerWorkflowExecutionForVersion ::
  "fresh_ids \<Rightarrow> timestamp \<Rightarrow> uuid \<Rightarrow> uuid \<Rightarrow> uuid \<Rightarrow> trigger_input \<Rightarrow> db \<Rightarrow> db_error + (db \<times> trigger_result)" where
  "triggerWorkflowExecutionForVersion f now ws wfid ver input d =
    (case lookup_workflow ws (ById wfid) d of
       None \<Rightarrow> Inr (d, NotFound)
     | Some w \<Rightarrow>
         if wf_archivedAt w \<noteq> None then Inr (d, Archived)
         else (case getWorkflowEnvironment ws wfid ''dev'' d of
             None \<Rightarrow> Inl (AppError ''Workflow Development Environment not found'')
           | Some e \<Rightarrow>
               let subj = truthy_string (ti_externalSubjectId input);
                   d1 = see_subject f now ws subj d
               in bindE (insert_execution f now
                   ((new_row (new_execution f) now ws (wf_id w) ver (env_id e) (ti_trigger input))\<lparr>
                     ex_triggerPayload := ti_triggerPayload input,
                     ex_triggeredByUserId := ti_triggeredByUserId input,
                     ex_externalSubjectId := subj,
                     ex_environment := (case ti_environment input of None \<Rightarrow> ''dev'' | Some n \<Rightarrow> n)\<rparr>) d1)
                 (\<lambda>(d2, x). Inr (d2, Created x))))"

section \<open>Leases and status changes\<close>

definition update_executions :: "(execution \<Rightarrow> bool) \<Rightarrow> (execution \<Rightarrow> execution) \<Rightarrow> db \<Rightarrow> db \<times> execution option" where
  "update_executions p f d =
     (let (rows, ret) = update_where p f (executions d) in (d\<lparr>executions := rows\<rparr>, first_row ret))"

definition terminalStatuses :: "exec_status list" where
  "terminalStatuses = [Succeeded, Failed, Cancelled]"

definition startExecution ::
  "timestamp \<Rightarrow> uuid \<Rightarrow> string \<Rightarrow> timestamp \<Rightarrow> db \<Rightarrow> db \<times> execution option" where
  "startExecution now xid who expires = update_executions
     (\<lambda>x. ex_id x = xid \<and> (ex_status x = Queued \<or> ex_status x = Running \<and> sql_lt (ex_leaseExpiresAt x) now))
     (\<lambda>x. x\<lparr>ex_status := Running, ex_leasedBy := Some who, ex_leaseExpiresAt := Some expires,
        ex_startedAt := Some now\<rparr>)"

definition renewLease ::
  "timestamp \<Rightarrow> uuid \<Rightarrow> string \<Rightarrow> timestamp \<Rightarrow> db \<Rightarrow> db \<times> execution option" where
  "renewLease now xid who expires = update_executions
     (\<lambda>x. ex_id x = xid \<and> ex_status x = Running \<and> ex_leasedBy x = Some who \<and> sql_gt (ex_leaseExpiresAt x) now)
     (\<lambda>x. x\<lparr>ex_leaseExpiresAt := Some expires\<rparr>)"

datatype final_status = F_succeeded | F_failed | F_cancelled

definition final_exec_status :: "final_status \<Rightarrow> exec_status" where
  "final_exec_status s = (case s of F_succeeded \<Rightarrow> Succeeded | F_failed \<Rightarrow> Failed | F_cancelled \<Rightarrow> Cancelled)"

record complete_input =
  co_status :: final_status
  co_error :: "run_error option"
  co_costMicros :: int
  co_costUnpriced :: "bool option"
  co_tokensInput :: int
  co_tokensOutput :: int

definition lease_guard :: "timestamp \<Rightarrow> uuid \<Rightarrow> string \<Rightarrow> execution \<Rightarrow> bool" where
  "lease_guard now xid who x \<longleftrightarrow> ex_id x = xid \<and> ex_leasedBy x = Some who \<and>
     sql_gt (ex_leaseExpiresAt x) now \<and> ex_status x \<notin> set terminalStatuses"

text \<open>An \<^verbatim>\<open>undefined\<close> error leaves the column alone.\<close>

definition finalize :: "timestamp \<Rightarrow> complete_input \<Rightarrow> execution \<Rightarrow> execution" where
  "finalize now input x = x\<lparr>ex_status := final_exec_status (co_status input),
     ex_error := (case co_error input of None \<Rightarrow> ex_error x | Some e \<Rightarrow> Some e),
     ex_costMicros := co_costMicros input, ex_costUnpriced := co_costUnpriced input,
     ex_tokensInput := co_tokensInput input, ex_tokensOutput := co_tokensOutput input,
     ex_completedAt := Some now\<rparr>"

definition completion_data :: "execution \<Rightarrow> (string \<times> jsval) list" where
  "completion_data x = [(''executionId'', JStr (ex_id x)),
     (''status'', JStr (if ex_status x = Succeeded then ''succeeded'' else ''failed''))] @
     (case ex_conversationId x of None \<Rightarrow> [] | Some c \<Rightarrow> [(''conversationId'', JStr c)])"

definition completeExecution ::
  "(jsval \<Rightarrow> nat) \<Rightarrow> uuid \<Rightarrow> timestamp \<Rightarrow> uuid \<Rightarrow> string \<Rightarrow> complete_input \<Rightarrow> db \<Rightarrow>
     db_error + (db \<times> execution option)" where
  "completeExecution octets mid now xid who input d =
    (case update_executions (lease_guard now xid who) (finalize now input) d of
       (d', None) \<Rightarrow> Inr (d', None)
     | (d', Some x) \<Rightarrow>
         (case ex_environmentId x of
            None \<Rightarrow> Inr (d', Some x)
          | Some env \<Rightarrow>
              if ex_status x = Succeeded \<or> ex_status x = Failed then
                bindE (createPublicEvent octets mid now (ex_workspaceId x) env (ex_externalSubjectRecordId x)
                    (if ex_status x = Succeeded then ''execution.completed'' else ''execution.failed'')
                    (completion_data x) d')
                  (\<lambda>(d'', _). Inr (d'', Some x))
              else Inr (d', Some x)))"

definition pauseExecution :: "timestamp \<Rightarrow> uuid \<Rightarrow> string \<Rightarrow> db \<Rightarrow> db \<times> execution option" where
  "pauseExecution now xid who = update_executions (lease_guard now xid who)
     (\<lambda>x. x\<lparr>ex_status := Paused, ex_leasedBy := None, ex_leaseExpiresAt := None\<rparr>)"

definition failQueuedExecution :: "timestamp \<Rightarrow> uuid \<Rightarrow> string \<Rightarrow> db \<Rightarrow> db \<times> execution option" where
  "failQueuedExecution now xid msg = update_executions
     (\<lambda>x. ex_id x = xid \<and> ex_status x = Queued)
     (\<lambda>x. x\<lparr>ex_status := Failed, ex_error := Some \<lparr>err_message = msg, err_stepId = None\<rparr>,
        ex_completedAt := Some now\<rparr>)"

definition getExecutionById :: "uuid \<Rightarrow> db \<Rightarrow> execution option" where
  "getExecutionById xid d = find (\<lambda>x. ex_id x = xid) (executions d)"

definition getLeaseOwner :: "uuid \<Rightarrow> db \<Rightarrow> string option option" where
  "getLeaseOwner xid d = map_option ex_leasedBy (getExecutionById xid d)"

definition isLeaseValid :: "timestamp \<Rightarrow> uuid \<Rightarrow> string \<Rightarrow> db \<Rightarrow> bool" where
  "isLeaseValid now xid who d = (case getExecutionById xid d of
     None \<Rightarrow> False
   | Some x \<Rightarrow> ex_leasedBy x = Some who \<and> sql_gt (ex_leaseExpiresAt x) now)"

section \<open>Steps and checkpoints\<close>

record checkpoint_input =
  ck_sequence :: int
  ck_completedStepIds :: "string list"
  ck_context :: "(string \<times> jsval) list"
  ck_variables :: jsval

definition insert_step :: "execution_step \<Rightarrow> db \<Rightarrow> db_error + db" where
  "insert_step s d =
    (if \<not> list_ex (\<lambda>x. ex_id x = st_executionId s \<and> ex_workspaceId x = st_workspaceId s) (executions d)
     then Inl (ForeignKeyViolation ''execution_steps_execution_workspace_fkey'')
     else if st_idempotencyKey s \<noteq> None \<and> list_ex (\<lambda>r. st_executionId r = st_executionId s \<and>
       st_idempotencyKey r = st_idempotencyKey s) (executionSteps d)
     then Inl (UniqueViolation ''execution_steps_idempotency_uidx'')
     else Inr (d\<lparr>executionSteps := executionSteps d @ [s]\<rparr>))"

definition insert_checkpoint :: "checkpoint \<Rightarrow> db \<Rightarrow> db_error + db" where
  "insert_checkpoint c d =
    (if list_ex (\<lambda>r. cp_executionId r = cp_executionId c \<and> cp_sequence r = cp_sequence c) (checkpoints d)
     then Inl (UniqueViolation ''checkpoints_execution_sequence_uidx'')
     else Inr (d\<lparr>checkpoints := checkpoints d @ [c]\<rparr>))"

definition writeStepAndCheckpoint ::
  "fresh_ids \<Rightarrow> timestamp \<Rightarrow> string \<Rightarrow> execution_step \<Rightarrow> checkpoint_input \<Rightarrow> db \<Rightarrow>
     db_error + (db \<times> (execution_step \<times> checkpoint) option)" where
  "writeStepAndCheckpoint f now who step ck d =
    (if \<not> isLeaseValid now (st_executionId step) who d then Inr (d, None)
     else
       let s = step\<lparr>st_id := new_step f, st_createdAt := now\<rparr>;
           c = \<lparr>cp_id = new_checkpoint f, cp_executionId = st_executionId step,
              cp_sequence = ck_sequence ck, cp_completedStepIds = ck_completedStepIds ck,
              cp_context = ck_context ck, cp_variables = ck_variables ck, cp_createdAt = now\<rparr>
       in bindE (insert_step s d) (\<lambda>d1. bindE (insert_checkpoint c d1) (\<lambda>d2. Inr (d2, Some (s, c)))))"

definition getLatestCheckpoint :: "uuid \<Rightarrow> db \<Rightarrow> checkpoint option" where
  "getLatestCheckpoint xid d = first_row (rev (sort_key cp_sequence
     (filter (\<lambda>c. cp_executionId c = xid) (checkpoints d))))"

definition getStepsForExecution :: "uuid \<Rightarrow> db \<Rightarrow> execution_step list" where
  "getStepsForExecution xid d = sort_key st_sequence
     (filter (\<lambda>s. st_executionId s = xid) (executionSteps d))"

definition RESUME_EVENT_NODE_ID :: string where
  "RESUME_EVENT_NODE_ID = ''__resumed__''"

definition recordResumeEvent ::
  "fresh_ids \<Rightarrow> timestamp \<Rightarrow> uuid \<Rightarrow> uuid \<Rightarrow> string \<Rightarrow> db \<Rightarrow> db_error + (db \<times> execution_step option)" where
  "recordResumeEvent f now xid ws who d =
    (if \<not> isLeaseValid now xid who d then Inr (d, None)
     else
       let prior = filter (\<lambda>s. st_executionId s = xid \<and> st_isSystemEvent s) (executionSteps d);
           s = \<lparr>st_id = new_step f, st_executionId = xid, st_workspaceId = ws, st_traceId = xid,
             st_spanId = new_span f, st_parentSpanId = None, st_name = ''resumed'', st_startedAt = now,
             st_endedAt = Some now, st_status = S_succeeded, st_attributes = None,
             st_nodeId = RESUME_EVENT_NODE_ID, st_sequence = - (int (length prior) + 1),
             st_attempt = int (length prior) + 2, st_input = None, st_output = None, st_error = None,
             st_idempotencyKey = None, st_costMicros = 0, st_tokensInput = 0, st_tokensOutput = 0,
             st_model = None, st_provider = None, st_createdAt = now, st_isSystemEvent = True\<rparr>
       in bindE (insert_step s d) (\<lambda>d1. Inr (d1, Some s)))"

section \<open>Wait timers\<close>

definition createWaitTimer :: "wait_timer \<Rightarrow> db \<Rightarrow> db \<times> wait_timer option" where
  "createWaitTimer t d =
    (if list_ex (\<lambda>r. wt_executionId r = wt_executionId t \<and> wt_nodeId r = wt_nodeId t) (waitTimers d)
     then (d, None) else (d\<lparr>waitTimers := waitTimers d @ [t]\<rparr>, Some t))"

definition getWaitTimer :: "uuid \<Rightarrow> uuid \<Rightarrow> string \<Rightarrow> db \<Rightarrow> wait_timer option" where
  "getWaitTimer ws xid node d = find (\<lambda>t. wt_workspaceId t = ws \<and> wt_executionId t = xid \<and>
     wt_nodeId t = node) (waitTimers d)"

definition getPendingWaitTimerForExecution :: "uuid \<Rightarrow> db \<Rightarrow> wait_timer option" where
  "getPendingWaitTimerForExecution xid d =
     find (\<lambda>t. wt_executionId t = xid \<and> \<not> wt_fired t) (waitTimers d)"

datatype claim_pause = PauseDone | AlreadyResolved | LeaseLost

definition claimPauseForPendingWait ::
  "timestamp \<Rightarrow> uuid \<Rightarrow> uuid \<Rightarrow> string \<Rightarrow> string \<Rightarrow> db \<Rightarrow> db \<times> claim_pause" where
  "claimPauseForPendingWait now ws xid node who d = (case getWaitTimer ws xid node d of
       None \<Rightarrow> (d, AlreadyResolved)
     | Some t \<Rightarrow>
         if wt_fired t then (d, AlreadyResolved)
         else (case pauseExecution now xid who d of
             (d', None) \<Rightarrow> (d', LeaseLost)
           | (d', Some _) \<Rightarrow> (d', PauseDone)))"

definition due_timer :: "timestamp \<Rightarrow> wait_timer \<Rightarrow> bool" where
  "due_timer now t \<longleftrightarrow> \<not> wt_fired t \<and> wt_resumeAt t \<le> now"

text \<open>\<open>locked\<close> are the timers that concurrent transactions hold when the poller looks.\<close>

definition claimAndResolveDueWaitTimer ::
  "uuid \<Rightarrow> uuid set \<Rightarrow> timestamp \<Rightarrow> db \<Rightarrow> db \<times> wait_timer option" where
  "claimAndResolveDueWaitTimer mid locked now d =
    (case find (\<lambda>t. due_timer now t \<and> wt_id t \<notin> locked) (waitTimers d) of
       None \<Rightarrow> (d, None)
     | Some due \<Rightarrow>
         let (timers, fired) = update_where (\<lambda>t. wt_id t = wt_id due)
               (\<lambda>t. t\<lparr>wt_fired := True, wt_firedAt := Some now\<rparr>) (waitTimers d);
             d1 = d\<lparr>waitTimers := timers\<rparr>
         in (case first_row fired of
              None \<Rightarrow> (d1, None)
            | Some t \<Rightarrow>
                (case update_executions (\<lambda>x. ex_id x = wt_executionId t \<and> ex_status x = Paused)
                    (\<lambda>x. x\<lparr>ex_status := Queued\<rparr>) d1 of
                   (d2, None) \<Rightarrow> (d2, Some t)
                 | (d2, Some _) \<Rightarrow>
                     (fst (createWorkflowExecutionMessage mid now (wt_workspaceId t) (wt_executionId t) d2),
                      Some t))))"


section \<open>Pausing on an approval\<close>

text \<open>\<^verbatim>\<open>claimPauseForPendingApprovalRequest\<close> of \<^verbatim>\<open>approval-request.repository.ts\<close>.\<close>

definition claimPauseForPendingApprovalRequest ::
  "timestamp \<Rightarrow> uuid \<Rightarrow> uuid \<Rightarrow> string \<Rightarrow> string \<Rightarrow> db \<Rightarrow> db \<times> claim_pause" where
  "claimPauseForPendingApprovalRequest now ws xid node who d =
    (case find (\<lambda>r. ar_workspaceId r = ws \<and> ar_executionId r = xid \<and> ar_nodeId r = node) (approvalRequests d) of
       None \<Rightarrow> (d, AlreadyResolved)
     | Some r \<Rightarrow>
         if ar_status r \<noteq> A_pending then (d, AlreadyResolved)
         else (case pauseExecution now xid who d of
             (d', None) \<Rightarrow> (d', LeaseLost)
           | (d', Some _) \<Rightarrow> (d', PauseDone)))"

end
