(* ===== verification/Execution_Paging.thy ===== *)
theory Execution_Paging
  imports Execution_Store
begin

text \<open>
  The read side of \<^verbatim>\<open>execution.repository.ts\<close>: listing the executions of a workflow or a
  workspace. The workspace listing is paged by a cursor, the \<^verbatim>\<open>(createdAt, id)\<close> of the last row
  of the previous page.
\<close>

type_synonym cursor = "timestamp \<times> uuid"

definition exec_key :: "execution \<Rightarrow> cursor" where
  "exec_key x = (ex_createdAt x, ex_id x)"

definition getExecutionWithSteps :: "uuid \<Rightarrow> db \<Rightarrow> (execution \<times> execution_step list) option" where
  "getExecutionWithSteps xid d = (case getExecutionById xid d of
     None \<Rightarrow> None
   | Some x \<Rightarrow> Some (x, sort_key (\<lambda>s. (st_startedAt s, st_createdAt s))
       (filter (\<lambda>s. st_executionId s = xid) (executionSteps d))))"

definition listExecutions :: "uuid \<Rightarrow> nat option \<Rightarrow> db \<Rightarrow> execution list" where
  "listExecutions wfid limit d = take (case limit of None \<Rightarrow> 50 | Some n \<Rightarrow> n)
     (rev (sort_key ex_createdAt (filter (\<lambda>x. ex_workflowId x = wfid) (executions d))))"

record page_options =
  po_status :: "exec_status option"
  po_trigger :: "exec_trigger option"
  po_cursor :: "cursor option"
  po_limit :: "nat option"

definition DEFAULT_WORKSPACE_EXECUTIONS_LIMIT :: nat where
  "DEFAULT_WORKSPACE_EXECUTIONS_LIMIT = 50"

definition base_where :: "uuid \<Rightarrow> exec_status option \<Rightarrow> exec_trigger option \<Rightarrow> execution \<Rightarrow> bool" where
  "base_where ws st tr x \<longleftrightarrow> ex_workspaceId x = ws \<and>
     (case st of None \<Rightarrow> True | Some s \<Rightarrow> ex_status x = s) \<and>
     (case tr of None \<Rightarrow> True | Some t \<Rightarrow> ex_trigger x = t)"

definition before_cursor :: "cursor \<Rightarrow> execution \<Rightarrow> bool" where
  "before_cursor c x \<longleftrightarrow> ex_createdAt x < fst c \<or> ex_createdAt x = fst c \<and> ex_id x < snd c"

text \<open>The inner join with workflows yields a row for every matching workflow.\<close>

definition join_workflow :: "db \<Rightarrow> execution \<Rightarrow> (execution \<times> string \<times> string) list" where
  "join_workflow d x = map (\<lambda>w. (x, wf_name w, wf_slug w)) (filter (\<lambda>w. wf_id w = ex_workflowId x) (workflows d))"

record workspace_page =
  wp_executions :: "(execution \<times> string \<times> string) list"
  wp_hasMore :: bool
  wp_total :: nat

definition listing :: "db \<Rightarrow> execution list \<Rightarrow> (execution \<times> string \<times> string) list" where
  "listing d xs = rev (sort_key (\<lambda>r. exec_key (fst r)) (concat (map (join_workflow d) xs)))"

definition listWorkspaceExecutions :: "uuid \<Rightarrow> page_options \<Rightarrow> db \<Rightarrow> workspace_page" where
  "listWorkspaceExecutions ws options d =
    (let limit = (case po_limit options of None \<Rightarrow> DEFAULT_WORKSPACE_EXECUTIONS_LIMIT | Some n \<Rightarrow> n);
         base = filter (base_where ws (po_status options) (po_trigger options)) (executions d);
         matching = filter (\<lambda>x. case po_cursor options of None \<Rightarrow> True | Some c \<Rightarrow> before_cursor c x) base;
         rows = take (limit + 1) (listing d matching);
         hasMore = limit < length rows
     in \<lparr>wp_executions = (if hasMore then take limit rows else rows), wp_hasMore = hasMore,
         wp_total = length base\<rparr>)"

definition after_cursor :: "cursor \<Rightarrow> execution \<Rightarrow> bool" where
  "after_cursor c x \<longleftrightarrow> fst c < ex_createdAt x \<or> ex_createdAt x = fst c \<and> snd c < ex_id x"

definition countNewWorkspaceExecutions ::
  "uuid \<Rightarrow> exec_status option \<Rightarrow> exec_trigger option \<Rightarrow> cursor \<Rightarrow> db \<Rightarrow> nat" where
  "countNewWorkspaceExecutions ws st tr since d =
     length (filter (\<lambda>x. base_where ws st tr x \<and> after_cursor since x) (executions d))"

section \<open>Pages tile the listing\<close>

text \<open>A client that follows the cursor: the loop of a caller, with fuel.\<close>

fun all_pages :: "nat \<Rightarrow> uuid \<Rightarrow> page_options \<Rightarrow> db \<Rightarrow> (execution \<times> string \<times> string) list option" where
  "all_pages 0 ws options d = None"
| "all_pages (Suc k) ws options d =
    (let page = listWorkspaceExecutions ws options d in
     if wp_hasMore page then
       map_option (\<lambda>rest. wp_executions page @ rest) (all_pages k ws
         (options\<lparr>po_cursor := Some (exec_key (fst (last (wp_executions page))))\<rparr>) d)
     else Some (wp_executions page))"

lemma before_cursor_less: "before_cursor c x \<longleftrightarrow> exec_key x < c"
  by (cases c) (auto simp: before_cursor_def exec_key_def less_prod_def')

lemma after_cursor_less: "after_cursor c x \<longleftrightarrow> c < exec_key x"
  by (cases c) (auto simp: after_cursor_def exec_key_def less_prod_def')

text \<open>In a strictly descending list, the rows below the last of a prefix are the rest.\<close>

lemma descending_filter:
  fixes f :: "'a \<Rightarrow> 'k :: linorder"
  assumes "sorted_wrt (\<lambda>a b. f b < f a) xs" "0 < n" "n < length xs"
  shows "filter (\<lambda>x. f x < f (xs ! (n - 1))) xs = drop n xs"
proof -
  have "filter (\<lambda>x. f x < f (xs ! (n - 1))) (take n xs) = []"
  proof -
    have "\<not> f (xs ! i) < f (xs ! (n - 1))" if "i < n" for i
    proof (cases "i = n - 1")
      case False
      with that assms have "f (xs ! (n - 1)) < f (xs ! i)"
        by (intro sorted_wrt_nth_less [OF assms(1)]) auto
      then show ?thesis by simp
    qed simp
    then show ?thesis using assms(3) by (auto simp: filter_empty_conv in_set_conv_nth)
  qed
  moreover have "filter (\<lambda>x. f x < f (xs ! (n - 1))) (drop n xs) = drop n xs"
  proof (rule filter_True, intro ballI)
    fix x
    assume "x \<in> set (drop n xs)"
    then obtain i where i: "i < length xs - n" "x = xs ! (n + i)" by (auto simp: in_set_conv_nth)
    then show "f x < f (xs ! (n - 1))"
      using assms(2) by (auto intro!: sorted_wrt_nth_less [OF assms(1)])
  qed
  ultimately show ?thesis by (metis append_Nil append_take_drop_id filter_append)
qed

definition listing_ok :: "db \<Rightarrow> bool" where
  "listing_ok d \<longleftrightarrow> distinct (map ex_id (executions d)) \<and> distinct (map wf_id (workflows d))"

lemma join_workflow_one:
  assumes "distinct (map wf_id (workflows d))"
  shows "length (join_workflow d x) \<le> 1"
proof (cases "filter (\<lambda>w. wf_id w = ex_workflowId x) (workflows d)")
  case (Cons w ws)
  then have "w \<in> set (filter (\<lambda>w. wf_id w = ex_workflowId x) (workflows d))" by simp
  then have "w \<in> set (workflows d)" "wf_id w = ex_workflowId x" by auto
  with filter_key [OF assms, of w] show ?thesis by (simp add: join_workflow_def)
qed (simp add: join_workflow_def)

lemma join_rows: "r \<in> set (join_workflow d x) \<Longrightarrow> fst r = x"
  by (auto simp: join_workflow_def)

lemma join_distinct:
  assumes "distinct (map ex_id xs)" "distinct (map wf_id (workflows d))"
  shows "distinct (map (\<lambda>r. ex_id (fst r)) (concat (map (join_workflow d) xs)))"
  using assms(1)
proof (induction xs)
  case (Cons x xs)
  have one: "distinct (map (\<lambda>r. ex_id (fst r)) (join_workflow d x))"
    using join_workflow_one [OF assms(2), of x]
    by (cases "join_workflow d x" rule: list.exhaust) auto
  have sub: "(\<lambda>r. ex_id (fst r)) ` set (join_workflow d x) \<subseteq> {ex_id x}"
    "(\<lambda>r. ex_id (fst r)) ` set (concat (map (join_workflow d) xs)) \<subseteq> ex_id ` set xs"
    using join_rows by fastforce+
  have "ex_id x \<notin> ex_id ` set xs" using Cons.prems by simp
  then have "{ex_id x} \<inter> ex_id ` set xs = {}" by simp
  with Int_mono [OF sub] have "(\<lambda>r. ex_id (fst r)) ` set (join_workflow d x) \<inter>
      (\<lambda>r. ex_id (fst r)) ` set (concat (map (join_workflow d) xs)) = {}"
    by (simp only: subset_empty)
  moreover have "distinct (map (\<lambda>r. ex_id (fst r)) (concat (map (join_workflow d) xs)))"
    using Cons by simp
  ultimately show ?case using one by (simp del: set_concat)
qed simp

lemma listing_descending:
  assumes "distinct (map ex_id xs)" "distinct (map wf_id (workflows d))"
  shows "sorted_wrt (\<lambda>a b. exec_key (fst b) < exec_key (fst a)) (listing d xs)"
proof -
  define key where "key = (\<lambda>r :: execution \<times> string \<times> string. exec_key (fst r))"
  define ys where "ys = concat (map (join_workflow d) xs)"
  have "inj_on (\<lambda>r. ex_id (fst r)) (set ys)" "distinct ys"
    using join_distinct [OF assms] by (auto simp: distinct_map ys_def)
  then have "inj_on key (set ys)" "distinct ys"
    by (auto simp: key_def exec_key_def inj_on_def)
  then have "distinct (map key (sort_key key ys))" by (simp add: distinct_map)
  then have "sorted_wrt (<) (map key (sort_key key ys))" by (simp add: strict_sorted_iff)
  then show ?thesis unfolding listing_def by (simp add: sorted_wrt_rev sorted_wrt_map key_def ys_def)
qed

lemma listing_filter:
  "listing d (filter (\<lambda>x. p (exec_key x)) xs) = filter (\<lambda>r. p (exec_key (fst r))) (listing d xs)"
proof -
  have "concat (map (join_workflow d) (filter (\<lambda>x. p (exec_key x)) xs)) =
      filter (\<lambda>r. p (exec_key (fst r))) (concat (map (join_workflow d) xs))"
    by (induction xs) (auto simp: join_workflow_def filter_map comp_def)
  then show ?thesis unfolding listing_def rev_filter [symmetric] filter_sort by simp
qed

definition page_limit :: "page_options \<Rightarrow> nat" where
  "page_limit options = (case po_limit options of None \<Rightarrow> DEFAULT_WORKSPACE_EXECUTIONS_LIMIT | Some n \<Rightarrow> n)"

definition full_listing :: "uuid \<Rightarrow> page_options \<Rightarrow> db \<Rightarrow> (execution \<times> string \<times> string) list" where
  "full_listing ws options d =
     listing d (filter (base_where ws (po_status options) (po_trigger options)) (executions d))"

definition after_page :: "cursor option \<Rightarrow> (execution \<times> string \<times> string) list \<Rightarrow> (execution \<times> string \<times> string) list" where
  "after_page c rows = (case c of None \<Rightarrow> rows | Some k \<Rightarrow> filter (\<lambda>r. exec_key (fst r) < k) rows)"

lemma page_eq:
  "listWorkspaceExecutions ws options d =
    (let rows = after_page (po_cursor options) (full_listing ws options d) in
     \<lparr>wp_executions = take (page_limit options) rows, wp_hasMore = page_limit options < length rows,
       wp_total = length (filter (base_where ws (po_status options) (po_trigger options)) (executions d))\<rparr>)"
proof (cases "po_cursor options")
  case None
  then show ?thesis
    by (auto simp: listWorkspaceExecutions_def Let_def page_limit_def full_listing_def after_page_def min_def)
next
  case (Some c)
  then show ?thesis
    using listing_filter [of d "\<lambda>k. k < c"
        "filter (base_where ws (po_status options) (po_trigger options)) (executions d)"]
    by (auto simp: listWorkspaceExecutions_def Let_def page_limit_def full_listing_def after_page_def
        before_cursor_less min_def)
qed

lemma full_listing_descending:
  "listing_ok d \<Longrightarrow> sorted_wrt (\<lambda>a b. exec_key (fst b) < exec_key (fst a)) (full_listing ws options d)"
  unfolding full_listing_def listing_ok_def
  by (rule listing_descending) (simp_all add: distinct_map_filter)

lemma after_page_next:
  assumes "sorted_wrt (\<lambda>a b. exec_key (fst b) < exec_key (fst a)) rows" "0 < n"
    "n < length (after_page c rows)"
  shows "after_page (Some (exec_key (fst (last (take n (after_page c rows)))))) rows = drop n (after_page c rows)"
proof -
  let ?xs = "after_page c rows"
  have last: "last (take n ?xs) = ?xs ! (n - 1)"
    using assms(2,3) by (subst last_conv_nth) auto
  have mem: "?xs ! (n - 1) \<in> set ?xs" using assms(2,3) by (intro nth_mem) linarith
  have "filter (\<lambda>r. exec_key (fst r) < exec_key (fst (?xs ! (n - 1)))) rows =
      filter (\<lambda>r. exec_key (fst r) < exec_key (fst (?xs ! (n - 1)))) ?xs"
    using mem by (cases c) (auto simp: after_page_def intro!: filter_cong)
  also have "\<dots> = drop n ?xs"
  proof (rule descending_filter)
    show "sorted_wrt (\<lambda>a b. exec_key (fst b) < exec_key (fst a)) ?xs"
      using assms(1) by (cases c) (auto simp: after_page_def sorted_wrt_filter)
  qed (use assms in auto)
  finally show ?thesis unfolding last by (simp add: after_page_def [of "Some _"])
qed

lemma all_pages_from:
  assumes "listing_ok d" "0 < page_limit options"
    "length (after_page (po_cursor options) (full_listing ws options d)) < k"
  shows "all_pages k ws options d = Some (after_page (po_cursor options) (full_listing ws options d))"
  using assms(2,3)
proof (induction k arbitrary: options)
  case (Suc k)
  let ?rows = "after_page (po_cursor options) (full_listing ws options d)"
  let ?n = "page_limit options"
  show ?case
  proof (cases "?n < length ?rows")
    case True
    define next' where "next' = options\<lparr>po_cursor := Some (exec_key (fst (last (take ?n ?rows))))\<rparr>"
    have same: "full_listing ws next' d = full_listing ws options d" "page_limit next' = ?n"
      by (simp_all add: next'_def full_listing_def page_limit_def)
    have rest: "after_page (po_cursor next') (full_listing ws next' d) = drop ?n ?rows"
      using after_page_next [OF full_listing_descending [OF assms(1)] Suc.prems(1) True]
      by (simp add: same) (simp add: next'_def)
    have "length (drop ?n ?rows) < k" using Suc.prems True by simp
    with Suc.IH [of next'] Suc.prems(1) rest same
    have "all_pages k ws next' d = Some (drop ?n ?rows)" by simp
    then show ?thesis using True
      by (simp add: page_eq Let_def next'_def)
  qed (simp add: page_eq Let_def)
qed simp


definition linked :: "db \<Rightarrow> bool" where
  "linked d \<longleftrightarrow> (\<forall>x \<in> set (executions d). \<exists>w \<in> set (workflows d). wf_id w = ex_workflowId x)"

lemma join_one:
  assumes "listing_ok d" "linked d" "x \<in> set (executions d)"
  shows "\<exists>n s. join_workflow d x = [(x, n, s)]"
proof -
  obtain w where "w \<in> set (workflows d)" "wf_id w = ex_workflowId x" using assms(2,3) by (auto simp: linked_def)
  with filter_key [of wf_id "workflows d" w] assms(1) show ?thesis
    by (auto simp: join_workflow_def listing_ok_def)
qed

lemma map_fst_listing:
  assumes "listing_ok d" "linked d" "set xs \<subseteq> set (executions d)"
  shows "map fst (concat (map (join_workflow d) xs)) = xs"
  using assms(3)
proof (induction xs)
  case (Cons x xs)
  with join_one [OF assms(1,2), of x] show ?case by auto
qed simp


definition listed_row :: "uuid \<Rightarrow> timestamp \<Rightarrow> execution" where
  "listed_row i t = new_row i t ''ws'' ''wf'' ''v1'' ''env'' T_api"

definition paged_db :: db where
  "paged_db = empty_db\<lparr>executions := [listed_row ''x1'' 10, listed_row ''x2'' 20, listed_row ''x3'' 20],
     workflows := [\<lparr>wf_id = ''wf'', wf_workspaceId = ''ws'', wf_applicationId = ''app'', wf_name = ''W'',
       wf_slug = ''w'', wf_archivedAt = None\<rparr>]\<rparr>"

definition two_per_page :: page_options where
  "two_per_page = \<lparr>po_status = None, po_trigger = None, po_cursor = None, po_limit = Some 2\<rparr>"

lemma paged_db_ok: "listing_ok paged_db"
  by code_simp



end
