(* ===== verification/Workflow_Graph.thy ===== *)
theory Workflow_Graph
  imports Js_Value "HOL-Library.Char_ord" "HOL-Library.List_Lexorder"
begin

text \<open>
  The workflow document: the schemas of \<^verbatim>\<open>packages/runtime/src/workflow-json/schema.ts\<close> as
  records and datatypes with the parser each zod schema declares, the retry policy
  (\<^verbatim>\<open>nodes/retry-policy.ts\<close>), the connector configuration (\<^verbatim>\<open>definitions/connector.node.ts\<close>),
  agent definitions (\<^verbatim>\<open>agents/agent-definition.ts\<close>) and the canonical form that
  \<^verbatim>\<open>hash.ts\<close> hashes.

  A schema is read as what it declares: \<^verbatim>\<open>z.object\<close> takes a plain object and keeps the declared
  keys, \<^verbatim>\<open>optional()\<close> accepts an absent or undefined key only, \<^verbatim>\<open>z.number()\<close> a finite number and
  \<^verbatim>\<open>int()\<close> a safe integer.
\<close>

section \<open>Schema primitives\<close>

definition z_string :: "jsval \<Rightarrow> string option" where
  "z_string v = (case v of JStr s \<Rightarrow> Some s | _ \<Rightarrow> None)"

definition z_string_min1 :: "jsval \<Rightarrow> string option" where
  "z_string_min1 v = (case v of JStr s \<Rightarrow> if s = [] then None else Some s | _ \<Rightarrow> None)"

definition z_number :: "jsval \<Rightarrow> rat option" where
  "z_number v = (case v of JNum (Fin r) \<Rightarrow> Some r | _ \<Rightarrow> None)"

definition max_safe_int :: int where
  "max_safe_int = 9007199254740991"

definition z_int :: "jsval \<Rightarrow> int option" where
  "z_int v = (case v of
       JNum (Fin r) \<Rightarrow> if of_int \<lfloor>r\<rfloor> = r \<and> \<bar>\<lfloor>r\<rfloor>\<bar> \<le> max_safe_int then Some \<lfloor>r\<rfloor> else None
     | _ \<Rightarrow> None)"

definition z_optional :: "(jsval \<Rightarrow> 'a option) \<Rightarrow> jsval \<Rightarrow> 'a option option" where
  "z_optional f v = (if v = JUndef then Some None else map_option Some (f v))"

fun z_array :: "(jsval \<Rightarrow> 'a option) \<Rightarrow> jsval \<Rightarrow> 'a list option" where
  "z_array f (JArr xs) = those (map f xs)"
| "z_array f _ = None"

fun z_object :: "jsval \<Rightarrow> jsval option" where
  "z_object (JObj ps) = Some (JObj ps)"
| "z_object _ = None"

fun z_record :: "jsval \<Rightarrow> (string \<times> jsval) list option" where
  "z_record (JObj ps) = Some ps"
| "z_record _ = None"

lemma z_int_JInt [simp]: "\<bar>n\<bar> \<le> max_safe_int \<Longrightarrow> z_int (JInt n) = Some n"
  by (simp add: z_int_def)

lemma z_int_Some: "z_int v = Some n \<Longrightarrow> v = JInt n \<and> \<bar>n\<bar> \<le> max_safe_int"
  by (auto simp: z_int_def split: jsval.splits jsnum.splits if_splits)

lemma those_map_Some: "(\<And>x. x \<in> set xs \<Longrightarrow> f (g x) = Some x) \<Longrightarrow> those (map f (map g xs)) = Some xs"
  by (induction xs) auto

lemma those_Some_length: "those xs = Some ys \<Longrightarrow> length ys = length xs"
  by (induction xs arbitrary: ys) (auto split: option.splits)

section \<open>Nodes, edges, triggers and graphs\<close>

datatype node_type =
    N_start | N_end | N_http | N_connector | N_transform | N_branch | N_ai | N_extract
  | N_evaluator | N_approval | N_memory | N_wait | N_datetime | N_filter | N_merge | N_variables

definition node_types :: "(string \<times> node_type) list" where
  "node_types = [(''start'', N_start), (''end'', N_end), (''http'', N_http),
     (''connector'', N_connector), (''transform'', N_transform), (''branch'', N_branch),
     (''ai'', N_ai), (''extract'', N_extract), (''evaluator'', N_evaluator),
     (''approval'', N_approval), (''memory'', N_memory), (''wait'', N_wait),
     (''datetime'', N_datetime), (''filter'', N_filter), (''merge'', N_merge),
     (''variables'', N_variables)]"

definition node_type_name :: "node_type \<Rightarrow> string" where
  "node_type_name t = (case t of N_start \<Rightarrow> ''start'' | N_end \<Rightarrow> ''end'' | N_http \<Rightarrow> ''http''
     | N_connector \<Rightarrow> ''connector'' | N_transform \<Rightarrow> ''transform'' | N_branch \<Rightarrow> ''branch''
     | N_ai \<Rightarrow> ''ai'' | N_extract \<Rightarrow> ''extract'' | N_evaluator \<Rightarrow> ''evaluator''
     | N_approval \<Rightarrow> ''approval'' | N_memory \<Rightarrow> ''memory'' | N_wait \<Rightarrow> ''wait''
     | N_datetime \<Rightarrow> ''datetime'' | N_filter \<Rightarrow> ''filter'' | N_merge \<Rightarrow> ''merge''
     | N_variables \<Rightarrow> ''variables'')"

definition nodeTypeSchema :: "jsval \<Rightarrow> node_type option" where
  "nodeTypeSchema v = (case v of JStr s \<Rightarrow> map_of node_types s | _ \<Rightarrow> None)"

record workflow_node =
  node_id :: string
  node_type :: node_type
  config :: "(string \<times> jsval) list"
  position :: "(rat \<times> rat) option"

record workflow_edge =
  edge_from :: string
  edge_to :: string
  condition :: "string option"

datatype workflow_trigger = Manual | Schedule string string | Webhook | Api

record workflow_graph =
  version :: nat
  trigger :: workflow_trigger
  entryNodeId :: string
  nodes :: "workflow_node list"
  edges :: "workflow_edge list"

definition positionSchema :: "jsval \<Rightarrow> (rat \<times> rat) option" where
  "positionSchema v = Option.bind (z_object v) (\<lambda>ob.
     Option.bind (z_number (js_get ob ''x'')) (\<lambda>x.
     Option.bind (z_number (js_get ob ''y'')) (\<lambda>y. Some (x, y))))"

definition workflowNodeSchema :: "jsval \<Rightarrow> workflow_node option" where
  "workflowNodeSchema v = Option.bind (z_object v) (\<lambda>ob.
     Option.bind (z_string_min1 (js_get ob ''id'')) (\<lambda>i.
     Option.bind (nodeTypeSchema (js_get ob ''type'')) (\<lambda>t.
     Option.bind (if js_get ob ''config'' = JUndef then Some []
                  else z_record (js_get ob ''config'')) (\<lambda>c.
     Option.bind (z_optional positionSchema (js_get ob ''position'')) (\<lambda>p.
     Some \<lparr>node_id = i, node_type = t, config = c, position = p\<rparr>)))))"

definition workflowEdgeSchema :: "jsval \<Rightarrow> workflow_edge option" where
  "workflowEdgeSchema v = Option.bind (z_object v) (\<lambda>ob.
     Option.bind (z_string_min1 (js_get ob ''from'')) (\<lambda>f.
     Option.bind (z_string_min1 (js_get ob ''to'')) (\<lambda>t.
     Option.bind (z_optional z_string (js_get ob ''condition'')) (\<lambda>c.
     Some \<lparr>edge_from = f, edge_to = t, condition = c\<rparr>))))"

definition workflowTriggerSchema :: "jsval \<Rightarrow> workflow_trigger option" where
  "workflowTriggerSchema v = Option.bind (z_object v) (\<lambda>ob.
     Option.bind (z_string (js_get ob ''type'')) (\<lambda>t.
     if t = ''manual'' then Some Manual
     else if t = ''schedule'' then
       Option.bind (z_string (js_get ob ''cron'')) (\<lambda>c.
       Option.bind (z_string (js_get ob ''timezone'')) (\<lambda>z. Some (Schedule c z)))
     else if t = ''webhook'' then Some Webhook
     else if t = ''api'' then Some Api
     else None))"

definition workflowGraphSchema :: "jsval \<Rightarrow> workflow_graph option" where
  "workflowGraphSchema v = Option.bind (z_object v) (\<lambda>ob.
     if js_get ob ''version'' \<noteq> JInt 1 then None else
     Option.bind (workflowTriggerSchema (js_get ob ''trigger'')) (\<lambda>tr.
     Option.bind (z_string_min1 (js_get ob ''entryNodeId'')) (\<lambda>en.
     Option.bind (z_array workflowNodeSchema (js_get ob ''nodes'')) (\<lambda>ns.
     if ns = [] then None else
     Option.bind (z_array workflowEdgeSchema (js_get ob ''edges'')) (\<lambda>es.
     Some \<lparr>version = 1, trigger = tr, entryNodeId = en, nodes = ns, edges = es\<rparr>)))))"

subsection \<open>The document of a graph\<close>

definition position_json :: "rat \<times> rat \<Rightarrow> jsval" where
  "position_json p = JObj [(''x'', JNum (Fin (fst p))), (''y'', JNum (Fin (snd p)))]"

definition node_json :: "workflow_node \<Rightarrow> jsval" where
  "node_json n = JObj ([(''id'', JStr (node_id n)), (''type'', JStr (node_type_name (node_type n))),
     (''config'', JObj (config n))] @
     (case position n of None \<Rightarrow> [] | Some p \<Rightarrow> [(''position'', position_json p)]))"

definition edge_json :: "workflow_edge \<Rightarrow> jsval" where
  "edge_json e = JObj ([(''from'', JStr (edge_from e)), (''to'', JStr (edge_to e))] @
     (case condition e of None \<Rightarrow> [] | Some c \<Rightarrow> [(''condition'', JStr c)]))"

definition trigger_json :: "workflow_trigger \<Rightarrow> jsval" where
  "trigger_json t = (case t of
       Manual \<Rightarrow> JObj [(''type'', JStr ''manual'')]
     | Schedule c z \<Rightarrow> JObj [(''type'', JStr ''schedule''), (''cron'', JStr c), (''timezone'', JStr z)]
     | Webhook \<Rightarrow> JObj [(''type'', JStr ''webhook'')]
     | Api \<Rightarrow> JObj [(''type'', JStr ''api'')])"

definition graph_json :: "workflow_graph \<Rightarrow> jsval" where
  "graph_json g = JObj [(''version'', JInt (int (version g))), (''trigger'', trigger_json (trigger g)),
     (''entryNodeId'', JStr (entryNodeId g)), (''nodes'', JArr (map node_json (nodes g))),
     (''edges'', JArr (map edge_json (edges g)))]"

definition graph_shape :: "workflow_graph \<Rightarrow> bool" where
  "graph_shape g \<longleftrightarrow> version g = 1 \<and> entryNodeId g \<noteq> [] \<and> nodes g \<noteq> [] \<and>
     (\<forall>n \<in> set (nodes g). node_id n \<noteq> []) \<and>
     (\<forall>e \<in> set (edges g). edge_from e \<noteq> [] \<and> edge_to e \<noteq> [])"

lemma js_get_simps [simp]:
  "js_get (JObj ((k, v) # ps)) k' = (if k' = k then v else js_get (JObj ps) k')"
  "js_get (JObj []) k' = inherited object_prototype k'"
  by auto

lemma inherited_plain: "k \<notin> set object_prototype \<Longrightarrow> inherited object_prototype k = JUndef"
  by (simp add: inherited_def)

lemma nodeTypeSchema_name [simp]: "nodeTypeSchema (JStr (node_type_name t)) = Some t"
  by (cases t) (simp_all add: nodeTypeSchema_def node_type_name_def node_types_def)

lemma node_roundtrip: "node_id n \<noteq> [] \<Longrightarrow> workflowNodeSchema (node_json n) = Some n"
  by (cases n; cases "position n")
     (auto simp: workflowNodeSchema_def node_json_def z_string_min1_def z_optional_def
       position_json_def positionSchema_def z_number_def inherited_def object_prototype_def
       simp del: js_get.simps)

lemma edge_roundtrip:
  "edge_from e \<noteq> [] \<Longrightarrow> edge_to e \<noteq> [] \<Longrightarrow> workflowEdgeSchema (edge_json e) = Some e"
  by (cases e; cases "condition e")
     (auto simp: workflowEdgeSchema_def edge_json_def z_string_min1_def z_string_def z_optional_def
       inherited_def object_prototype_def simp del: js_get.simps)

lemma trigger_roundtrip: "workflowTriggerSchema (trigger_json t) = Some t"
  by (cases t) (auto simp: workflowTriggerSchema_def trigger_json_def z_string_def
      simp del: js_get.simps)

text \<open>
  C7. Publishing a workflow stores the document of its graph and every run parses it back: the
  parser returns exactly the graph that was stored, for every graph of the declared shape.
\<close>

theorem workflowGraphSchema_roundtrip:
  assumes "graph_shape g"
  shows "workflowGraphSchema (graph_json g) = Some g"
proof -
  have ns: "those (map workflowNodeSchema (map node_json (nodes g))) = Some (nodes g)"
    using assms by (intro those_map_Some) (auto simp: graph_shape_def node_roundtrip)
  have es: "those (map workflowEdgeSchema (map edge_json (edges g))) = Some (edges g)"
    using assms by (intro those_map_Some) (auto simp: graph_shape_def edge_roundtrip)
  show ?thesis
    using assms ns es
    by (cases g) (simp add: workflowGraphSchema_def graph_json_def graph_shape_def
        z_string_min1_def trigger_roundtrip del: js_get.simps map_map)
qed

definition mk_node :: "string \<Rightarrow> node_type \<Rightarrow> (string \<times> jsval) list \<Rightarrow> workflow_node" where
  "mk_node i t c = \<lparr>node_id = i, node_type = t, config = c, position = None\<rparr>"

definition mk_edge :: "string \<Rightarrow> string \<Rightarrow> string option \<Rightarrow> workflow_edge" where
  "mk_edge f t c = \<lparr>edge_from = f, edge_to = t, condition = c\<rparr>"

definition branching_example :: workflow_graph where
  "branching_example = \<lparr>version = 1, trigger = Manual, entryNodeId = ''s'',
     nodes = [mk_node ''s'' N_start [], mk_node ''q'' N_branch [], mk_node ''y'' N_end [],
       mk_node ''n'' N_end []],
     edges = [mk_edge ''s'' ''q'' None, mk_edge ''q'' ''y'' (Some ''true''),
       mk_edge ''q'' ''n'' (Some ''false'')]\<rparr>"

theorem workflowGraphSchema_roundtrip_witness:
  "graph_shape branching_example \<and>
   workflowGraphSchema (graph_json branching_example) = Some branching_example"
proof -
  have "graph_shape branching_example" by code_simp
  with workflowGraphSchema_roundtrip [of branching_example] show ?thesis by blast
qed

text \<open>Whatever the parser accepts has the declared shape.\<close>

lemma z_string_min1_Some: "z_string_min1 v = Some s \<Longrightarrow> v = JStr s \<and> s \<noteq> []"
  by (cases v) (auto simp: z_string_min1_def split: if_splits)

lemma workflowNodeSchema_id: "workflowNodeSchema w = Some n \<Longrightarrow> node_id n \<noteq> []"
  by (auto simp: workflowNodeSchema_def bind_eq_Some_conv dest!: z_string_min1_Some
      split: if_splits)

lemma workflowEdgeSchema_ends:
  "workflowEdgeSchema w = Some e \<Longrightarrow> edge_from e \<noteq> [] \<and> edge_to e \<noteq> []"
  by (auto simp: workflowEdgeSchema_def bind_eq_Some_conv dest!: z_string_min1_Some)

lemma z_array_elem: "z_array f v = Some ys \<Longrightarrow> y \<in> set ys \<Longrightarrow> \<exists>x. f x = Some y"
proof (induction f v rule: z_array.induct)
  case (1 f xs)
  then have "those (map f xs) = Some ys" by simp
  then show ?case using "1.prems"(2)
    by (induction xs arbitrary: ys) (auto split: option.splits)
qed auto

lemma workflowGraphSchema_shape:
  assumes "workflowGraphSchema v = Some g"
  shows "graph_shape g"
proof -
  from assms obtain ns es en where parts:
    "z_array workflowNodeSchema ns = Some (nodes g)" "nodes g \<noteq> []"
    "z_array workflowEdgeSchema es = Some (edges g)"
    "z_string_min1 en = Some (entryNodeId g)" "version g = 1"
    unfolding workflowGraphSchema_def bind_eq_Some_conv
    by (clarsimp split: if_split_asm simp del: js_get.simps simp: bind_eq_Some_conv)
  then show ?thesis
    by (auto simp: graph_shape_def dest: z_array_elem workflowNodeSchema_id workflowEdgeSchema_ends
        z_string_min1_Some)
qed

section \<open>Retry policies\<close>

datatype backoff = Fixed int | Exponential int

record retry_policy =
  maxAttempts :: int
  backoff :: backoff
  timeoutMs :: "int option"

definition backoffSchema :: "jsval \<Rightarrow> backoff option" where
  "backoffSchema v = Option.bind (z_object v) (\<lambda>ob.
     Option.bind (z_string (js_get ob ''type'')) (\<lambda>t.
     Option.bind (z_int (js_get ob ''delayMs'')) (\<lambda>d.
     if d < 0 then None
     else if t = ''fixed'' then Some (Fixed d)
     else if t = ''exponential'' then Some (Exponential d)
     else None)))"

definition retryPolicySchema :: "jsval \<Rightarrow> retry_policy option" where
  "retryPolicySchema v = Option.bind (z_object v) (\<lambda>ob.
     Option.bind (z_int (js_get ob ''maxAttempts'')) (\<lambda>m.
     if m < 1 \<or> 5 < m then None else
     Option.bind (backoffSchema (js_get ob ''backoff'')) (\<lambda>b.
     Option.bind (z_optional z_int (js_get ob ''timeoutMs'')) (\<lambda>t.
     if (case t of Some ms \<Rightarrow> ms < 1000 | None \<Rightarrow> False) then None
     else Some \<lparr>maxAttempts = m, backoff = b, timeoutMs = t\<rparr>))))"

definition backoff_delay :: "backoff \<Rightarrow> int" where
  "backoff_delay b = (case b of Fixed d \<Rightarrow> d | Exponential d \<Rightarrow> d)"

lemma backoffSchema_bounds: "backoffSchema v = Some b \<Longrightarrow> 0 \<le> backoff_delay b"
  by (auto simp: backoffSchema_def backoff_delay_def bind_eq_Some_conv split: if_splits)

lemma retryPolicySchema_bounds:
  assumes "retryPolicySchema v = Some p"
  shows "1 \<le> maxAttempts p \<and> maxAttempts p \<le> 5 \<and> 0 \<le> backoff_delay (backoff p) \<and>
    (\<forall>ms. timeoutMs p = Some ms \<longrightarrow> 1000 \<le> ms)"
  using assms
  by (clarsimp simp: retryPolicySchema_def bind_eq_Some_conv split: if_split_asm)
     (auto dest: backoffSchema_bounds split: option.split_asm)

text \<open>The configuration a connector node must have.\<close>

definition connectorInputSchema :: "jsval \<Rightarrow> (string \<times> retry_policy option) option" where
  "connectorInputSchema v = Option.bind (z_object v) (\<lambda>ob.
     Option.bind (z_string_min1 (js_get ob ''operation'')) (\<lambda>operation.
     Option.bind (z_optional retryPolicySchema (js_get ob ''retryPolicy'')) (\<lambda>r.
     Some (operation, r))))"

section \<open>Agent definitions\<close>

record agent_tool =
  tool_name :: string
  tool_operation :: string

record agent_definition =
  instructions :: string
  agent_model :: string
  tools :: "agent_tool list"
  maxIterations :: int

definition is_letter :: "char \<Rightarrow> bool" where
  "is_letter c = (let n = of_char c :: nat in 65 \<le> n \<and> n \<le> 90 \<or> 97 \<le> n \<and> n \<le> 122)"

definition is_word_char :: "char \<Rightarrow> bool" where
  "is_word_char c = (is_letter c \<or> c = CHR ''_'' \<or> (let n = of_char c :: nat in 48 \<le> n \<and> n \<le> 57))"

definition tool_name_ok :: "string \<Rightarrow> bool" where
  "tool_name_ok s = (case s of [] \<Rightarrow> False | c # cs \<Rightarrow> is_letter c \<and> list_all is_word_char cs)"

definition z_trimmed_min1 :: "jsval \<Rightarrow> string option" where
  "z_trimmed_min1 v = (case v of JStr s \<Rightarrow> if trim s = [] then None else Some (trim s) | _ \<Rightarrow> None)"

definition z_strict :: "string list \<Rightarrow> jsval \<Rightarrow> jsval option" where
  "z_strict ks v = (case v of
       JObj ps \<Rightarrow> if set (map fst ps) \<subseteq> set ks then Some (JObj ps) else None
     | _ \<Rightarrow> None)"

definition agentToolSchema :: "jsval \<Rightarrow> agent_tool option" where
  "agentToolSchema v = Option.bind (z_strict [''name'', ''operation''] v) (\<lambda>ob.
     Option.bind (z_string (js_get ob ''name'')) (\<lambda>n.
     if \<not> tool_name_ok n then None else
     Option.bind (z_trimmed_min1 (js_get ob ''operation'')) (\<lambda>p.
     Some \<lparr>tool_name = n, tool_operation = p\<rparr>)))"

definition agentDefinitionSchema :: "jsval \<Rightarrow> agent_definition option" where
  "agentDefinitionSchema v = Option.bind
     (z_strict [''version'', ''instructions'', ''model'', ''tools'', ''maxIterations''] v) (\<lambda>ob.
     if js_get ob ''version'' \<noteq> JInt 1 then None else
     Option.bind (z_trimmed_min1 (js_get ob ''instructions'')) (\<lambda>i.
     Option.bind (z_trimmed_min1 (js_get ob ''model'')) (\<lambda>m.
     Option.bind (z_array agentToolSchema (js_get ob ''tools'')) (\<lambda>ts.
     if card (set (map tool_name ts)) \<noteq> length ts then None else
     Option.bind (z_int (js_get ob ''maxIterations'')) (\<lambda>k.
     if k \<le> 0 then None
     else Some \<lparr>instructions = i, agent_model = m, tools = ts, maxIterations = k\<rparr>)))))"

text \<open>An accepted agent has distinct, well-formed tool names and a positive iteration limit.\<close>

lemma agentDefinitionSchema_tools:
  assumes "agentDefinitionSchema v = Some a"
  shows "distinct (map tool_name (tools a)) \<and> 0 < maxIterations a \<and>
    (\<forall>t \<in> set (tools a). tool_name_ok (tool_name t))"
proof -
  have tool: "tool_name_ok (tool_name t)" if "agentToolSchema w = Some t" for w t
    using that by (auto simp: agentToolSchema_def bind_eq_Some_conv split: if_splits)
  from assms obtain w where arr: "z_array agentToolSchema w = Some (tools a)"
    and card: "card (set (map tool_name (tools a))) = length (tools a)" "0 < maxIterations a"
    by (auto simp: agentDefinitionSchema_def bind_eq_Some_conv split: if_splits)
  have "tool_name_ok (tool_name t)" if "t \<in> set (tools a)" for t
    using z_array_elem [OF arr that] tool by blast
  with card show ?thesis
    using card_distinct [of "map tool_name (tools a)"] by simp
qed

section \<open>The canonical form that is hashed\<close>

text \<open>
  \<^verbatim>\<open>canonicalize\<close> rebuilds every object by inserting its keys in sorted order. The digest is a
  function of the canonical form: \<open>digest\<close> stands for hashing the JSON text of a value with
  SHA-256.
\<close>

definition rebuild_sorted :: "string list \<Rightarrow> (string \<rightharpoonup> 'v) \<Rightarrow> (string \<times> 'v) list" where
  "rebuild_sorted ks m = fold (\<lambda>k. obj_set k (the (m k))) (sort ks) []"

fun canonicalize :: "jsval \<Rightarrow> jsval" where
  "canonicalize (JArr xs) = JArr (map canonicalize xs)"
| "canonicalize (JObj ps) = JObj (rebuild_sorted (map fst ps)
     (map_of (map (\<lambda>p. (fst p, canonicalize (snd p))) ps)))"
| "canonicalize v = v"

definition hashWorkflowGraph :: "(jsval \<Rightarrow> string) \<Rightarrow> workflow_graph \<Rightarrow> string" where
  "hashWorkflowGraph digest g = digest (canonicalize (graph_json g))"

lemma map_of_map_snd: "map_of (map (\<lambda>p. (fst p, f (snd p))) ps) = map_option f \<circ> map_of ps"
  by (induction ps) (auto simp: fun_eq_iff)

lemma map_of_rebuild_sorted:
  "map_of (rebuild_sorted ks m) k = (if k \<in> set ks then Some (the (m k)) else None)"
proof -
  have "map_of (fold (\<lambda>k. obj_set k (the (m k))) l acc) k =
      (if k \<in> set l then Some (the (m k)) else map_of acc k)" for l acc
    by (induction l arbitrary: acc) (auto simp: map_of_obj_set)
  then show ?thesis by (simp add: rebuild_sorted_def)
qed

lemma sort_eq_of_set_eq:
  fixes xs ys :: "'a :: linorder list"
  assumes "distinct xs" "distinct ys" "set xs = set ys"
  shows "sort xs = sort ys"
  using assms by (intro sorted_distinct_set_unique) auto

lemma rebuild_sorted_cong:
  assumes "distinct ks" "distinct ks'" "set ks = set ks'" "\<And>k. k \<in> set ks \<Longrightarrow> m k = m' k"
  shows "rebuild_sorted ks m = rebuild_sorted ks' m'"
proof -
  have "sort ks = sort ks'" using assms(1-3) by (rule sort_eq_of_set_eq)
  moreover have "fold (\<lambda>k. obj_set k (the (m k))) (sort ks') [] =
      fold (\<lambda>k. obj_set k (the (m' k))) (sort ks') []"
    using assms(3,4) by (intro fold_cong) auto
  ultimately show ?thesis by (simp add: rebuild_sorted_def)
qed

lemma map_of_canonical_obj:
  "map_of (rebuild_sorted (map fst ps) (map_of (map (\<lambda>p. (fst p, canonicalize (snd p))) ps))) =
     map_option canonicalize \<circ> map_of ps"
proof
  fix k
  show "map_of (rebuild_sorted (map fst ps)
      (map_of (map (\<lambda>p. (fst p, canonicalize (snd p))) ps))) k =
    (map_option canonicalize \<circ> map_of ps) k"
    by (cases "map_of ps k")
       (auto simp: map_of_rebuild_sorted map_of_map_snd map_of_eq_None_iff image_iff
         dest!: map_of_SomeD, force+)
qed

text \<open>Two objects have one canonical form exactly when their canonical members agree.\<close>

lemma canonicalize_obj_eq:
  assumes "distinct (map fst ps)" "distinct (map fst qs)"
  shows "canonicalize (JObj ps) = canonicalize (JObj qs) \<longleftrightarrow>
    map_option canonicalize \<circ> map_of ps = map_option canonicalize \<circ> map_of qs"
proof
  assume "canonicalize (JObj ps) = canonicalize (JObj qs)"
  then show "map_option canonicalize \<circ> map_of ps = map_option canonicalize \<circ> map_of qs"
    by (metis canonicalize.simps(2) jsval.inject(5) map_of_canonical_obj)
next
  assume eq: "map_option canonicalize \<circ> map_of ps = map_option canonicalize \<circ> map_of qs"
  then have "dom (map_of ps) = dom (map_of qs)"
    by (auto simp: dom_def fun_eq_iff) (metis None_eq_map_option_iff not_None_eq)+
  then have "set (map fst ps) = set (map fst qs)"
    by (simp add: dom_map_of_conv_image_fst)
  with eq assms show "canonicalize (JObj ps) = canonicalize (JObj qs)"
    by (auto simp: map_of_map_snd intro!: rebuild_sorted_cong)
qed

end
