(* ===== verification/Node_Configs.thy ===== *)
theory Node_Configs
  imports Workflow_Graph
begin

text \<open>
  The configuration schemas of extract and evaluator nodes
  (\<^verbatim>\<open>packages/runtime/src/nodes/definitions/extract.node.ts\<close> and \<^verbatim>\<open>evaluator.node.ts\<close>).

  Three things they call are parameters, collected in the record \<open>config_libs\<close>: the JSON-schema
  compiler of zod (\<open>json_schema_ok\<close>: it accepts the schema without throwing), whether
  \<^verbatim>\<open>new RegExp(pattern, flags)\<close> accepts a pattern (\<open>regexp_ok\<close>), and the package safe-regex2
  (\<open>safe_regex\<close>).
\<close>

record config_libs =
  json_schema_ok :: "(string \<times> jsval) list \<Rightarrow> bool"
  regexp_ok :: "string \<Rightarrow> string option \<Rightarrow> bool"
  safe_regex :: "string \<Rightarrow> bool"

section \<open>Extract\<close>

record extract_config =
  extract_model :: string
  extract_instructions :: string
  sourcePath :: "string option"
  extract_schema :: "(string \<times> jsval) list"
  extract_retryPolicy :: "retry_policy option"

datatype schema_error = NotAnObjectSchema | InvalidExtractionSchema

definition parseExtractionSchema :: "config_libs \<Rightarrow> (string \<times> jsval) list \<Rightarrow> schema_error + unit" where
  "parseExtractionSchema L schema =
    (if js_get (JObj schema) ''type'' \<noteq> JStr ''object'' then Inl NotAnObjectSchema
     else if json_schema_ok L schema then Inr () else Inl InvalidExtractionSchema)"

definition extractInputSchema :: "config_libs \<Rightarrow> jsval \<Rightarrow> extract_config option" where
  "extractInputSchema L v = Option.bind (z_object v) (\<lambda>ob.
     Option.bind (z_string (js_get ob ''model'')) (\<lambda>m.
     Option.bind (z_string_min1 (js_get ob ''instructions'')) (\<lambda>i.
     Option.bind (z_optional z_string (js_get ob ''sourcePath'')) (\<lambda>p.
     Option.bind (z_record (js_get ob ''schema'')) (\<lambda>s.
     Option.bind (z_optional retryPolicySchema (js_get ob ''retryPolicy'')) (\<lambda>r.
     if isl (parseExtractionSchema L s) then None
     else Some \<lparr>extract_model = m, extract_instructions = i, sourcePath = p, extract_schema = s,
       extract_retryPolicy = r\<rparr>))))))"

section \<open>Evaluator\<close>

datatype eval_param = P_input | P_actualOutput | P_expectedOutput | P_context | P_retrievalContext

definition eval_params :: "(string \<times> eval_param) list" where
  "eval_params = [(''input'', P_input), (''actualOutput'', P_actualOutput),
     (''expectedOutput'', P_expectedOutput), (''context'', P_context),
     (''retrievalContext'', P_retrievalContext)]"

definition evaluationParameterSchema :: "jsval \<Rightarrow> eval_param option" where
  "evaluationParameterSchema v = (case v of JStr s \<Rightarrow> map_of eval_params s | _ \<Rightarrow> None)"

datatype metric_rule =
    Contains string
  | NotContains string
  | Regex string "string option"
  | GEval rat "string option" "string list option" "eval_param list"

record eval_metric =
  metric_id :: string
  revision :: int
  metric_name :: string
  rule :: metric_rule

definition z_positive :: "jsval \<Rightarrow> int option" where
  "z_positive v = Option.bind (z_int v) (\<lambda>n. if 0 < n then Some n else None)"

definition z_unit_interval :: "jsval \<Rightarrow> rat option" where
  "z_unit_interval v = Option.bind (z_number v) (\<lambda>r. if 0 \<le> r \<and> r \<le> 1 then Some r else None)"

definition z_nonempty :: "'a list option \<Rightarrow> 'a list option" where
  "z_nonempty r = Option.bind r (\<lambda>xs. if xs = [] then None else Some xs)"

text \<open>\<^verbatim>\<open>.default(d)\<close>: an undefined value is replaced, any other value is parsed.\<close>

definition z_default :: "'a \<Rightarrow> (jsval \<Rightarrow> 'a option) \<Rightarrow> jsval \<Rightarrow> 'a option" where
  "z_default d f v = (if v = JUndef then Some d else f v)"

definition gEvalMetricSchema :: "jsval \<Rightarrow> metric_rule option" where
  "gEvalMetricSchema ob =
     Option.bind (z_default (4 / 5) z_unit_interval (js_get ob ''threshold'')) (\<lambda>t.
     Option.bind (z_optional z_string_min1 (js_get ob ''criteria'')) (\<lambda>c.
     Option.bind (z_optional (\<lambda>v. z_nonempty (z_array z_string_min1 v)) (js_get ob ''evaluationSteps'')) (\<lambda>s.
     Option.bind (z_default [P_actualOutput] (\<lambda>v. z_nonempty (z_array evaluationParameterSchema v))
        (js_get ob ''evaluationParams'')) (\<lambda>ps.
     if (c = None) = (s = None) \<or> P_actualOutput \<notin> set ps then None
     else Some (GEval t c s ps)))))"

definition metricRuleSchema :: "string \<Rightarrow> jsval \<Rightarrow> metric_rule option" where
  "metricRuleSchema ty ob =
     (if ty = ''contains'' then map_option Contains (z_string_min1 (js_get ob ''value''))
      else if ty = ''not_contains'' then map_option NotContains (z_string_min1 (js_get ob ''value''))
      else if ty = ''regex'' then
        Option.bind (z_string_min1 (js_get ob ''pattern'')) (\<lambda>p.
          map_option (Regex p) (z_optional z_string (js_get ob ''flags'')))
      else if ty = ''g_eval'' then gEvalMetricSchema ob
      else None)"

definition evaluationMetricSchema :: "jsval \<Rightarrow> eval_metric option" where
  "evaluationMetricSchema v = Option.bind (z_object v) (\<lambda>ob.
     Option.bind (z_string_min1 (js_get ob ''id'')) (\<lambda>i.
     Option.bind (z_default 1 z_positive (js_get ob ''revision'')) (\<lambda>rev.
     Option.bind (z_string_min1 (js_get ob ''name'')) (\<lambda>n.
     Option.bind (z_string (js_get ob ''type'')) (\<lambda>ty.
     Option.bind (metricRuleSchema ty ob) (\<lambda>r.
     Some \<lparr>metric_id = i, revision = rev, metric_name = n, rule = r\<rparr>))))))"

record sample_bindings =
  inputPath :: "string option"
  actualOutputPath :: "string option"
  expectedOutputPath :: "string option"
  contextPath :: "string option"
  retrievalContextPath :: "string option"

definition no_bindings :: sample_bindings where
  "no_bindings = \<lparr>inputPath = None, actualOutputPath = None, expectedOutputPath = None,
     contextPath = None, retrievalContextPath = None\<rparr>"

definition evaluationSampleBindingsSchema :: "jsval \<Rightarrow> sample_bindings option" where
  "evaluationSampleBindingsSchema v = Option.bind (z_object v) (\<lambda>ob.
     Option.bind (z_optional z_string_min1 (js_get ob ''inputPath'')) (\<lambda>i.
     Option.bind (z_optional z_string_min1 (js_get ob ''actualOutputPath'')) (\<lambda>a.
     Option.bind (z_optional z_string_min1 (js_get ob ''expectedOutputPath'')) (\<lambda>e.
     Option.bind (z_optional z_string_min1 (js_get ob ''contextPath'')) (\<lambda>c.
     Option.bind (z_optional z_string_min1 (js_get ob ''retrievalContextPath'')) (\<lambda>r.
     Some \<lparr>inputPath = i, actualOutputPath = a, expectedOutputPath = e, contextPath = c,
       retrievalContextPath = r\<rparr>))))))"

record evaluator_config =
  sample :: sample_bindings
  metrics :: "eval_metric list"
  judge_model :: "string option"
  evaluator_retryPolicy :: "retry_policy option"

definition isSafeEvaluationRegex :: "config_libs \<Rightarrow> string \<Rightarrow> bool" where
  "isSafeEvaluationRegex L pattern = safe_regex L pattern"

definition is_g_eval :: "eval_metric \<Rightarrow> bool" where
  "is_g_eval m = (case rule m of GEval _ _ _ _ \<Rightarrow> True | _ \<Rightarrow> False)"

definition regex_usable :: "config_libs \<Rightarrow> eval_metric \<Rightarrow> bool" where
  "regex_usable L m = (case rule m of
     Regex p f \<Rightarrow> regexp_ok L p f \<and> isSafeEvaluationRegex L p | _ \<Rightarrow> True)"

definition evaluatorInputSchema :: "config_libs \<Rightarrow> jsval \<Rightarrow> evaluator_config option" where
  "evaluatorInputSchema L v = Option.bind (z_object v) (\<lambda>ob.
     Option.bind (z_default no_bindings evaluationSampleBindingsSchema (js_get ob ''sample'')) (\<lambda>s.
     Option.bind (z_nonempty (z_array evaluationMetricSchema (js_get ob ''metrics''))) (\<lambda>ms.
     Option.bind (z_optional z_string_min1 (js_get ob ''model'')) (\<lambda>m.
     Option.bind (z_optional retryPolicySchema (js_get ob ''retryPolicy'')) (\<lambda>r.
     if card (set (map metric_id ms)) \<noteq> length ms \<or>
        list_ex is_g_eval ms \<and> m = None \<or>
        \<not> list_all (regex_usable L) ms then None
     else Some \<lparr>sample = s, metrics = ms, judge_model = m, evaluator_retryPolicy = r\<rparr>)))))"

section \<open>What an accepted evaluator guarantees\<close>

definition g_eval_ok :: "metric_rule \<Rightarrow> bool" where
  "g_eval_ok r = (case r of
     GEval t c s ps \<Rightarrow> 0 \<le> t \<and> t \<le> 1 \<and> (c = None \<longleftrightarrow> s \<noteq> None) \<and> P_actualOutput \<in> set ps | _ \<Rightarrow> True)"

lemma gEvalMetricSchema_ok: "gEvalMetricSchema v = Some r \<Longrightarrow> g_eval_ok r"
  by (clarsimp simp: gEvalMetricSchema_def bind_eq_Some_conv g_eval_ok_def z_default_def
      split: if_split_asm)
     (auto simp: z_unit_interval_def bind_eq_Some_conv split: if_split_asm)

lemma metricRuleSchema_ok: "metricRuleSchema ty v = Some r \<Longrightarrow> g_eval_ok r"
  using gEvalMetricSchema_ok [of v r]
  by (auto simp: metricRuleSchema_def g_eval_ok_def [of "Contains _"] g_eval_ok_def [of "NotContains _"]
       g_eval_ok_def [of "Regex _ _"] bind_eq_Some_conv simp del: js_get.simps split: if_split_asm)

lemma z_positive_default: "z_default 1 z_positive v = Some n \<Longrightarrow> 0 < n"
  by (auto simp: z_default_def z_positive_def bind_eq_Some_conv split: if_split_asm)

lemma evaluationMetricSchema_ok:
  assumes "evaluationMetricSchema v = Some m"
  shows "0 < revision m \<and> g_eval_ok (rule m)"
proof -
  from assms obtain w ty where "z_default 1 z_positive w = Some (revision m)"
    "metricRuleSchema ty v = Some (rule m)"
    by (cases v) (auto simp: evaluationMetricSchema_def bind_eq_Some_conv simp del: js_get.simps)
  then show ?thesis using z_positive_default metricRuleSchema_ok by blast
qed

lemma evaluatorInputSchema_metrics:
  assumes "evaluatorInputSchema L v = Some c"
  shows "metrics c \<noteq> [] \<and> distinct (map metric_id (metrics c)) \<and>
    (list_ex is_g_eval (metrics c) \<longrightarrow> judge_model c \<noteq> None) \<and>
    (\<forall>m \<in> set (metrics c). 0 < revision m \<and> g_eval_ok (rule m) \<and> regex_usable L m)"
proof -
  from assms obtain w where arr: "z_array evaluationMetricSchema w = Some (metrics c)"
    and ne: "metrics c \<noteq> []" and card: "card (set (map metric_id (metrics c))) = length (metrics c)"
    and judge: "list_ex is_g_eval (metrics c) \<longrightarrow> judge_model c \<noteq> None"
    and usable: "list_all (regex_usable L) (metrics c)"
    by (auto simp: evaluatorInputSchema_def z_nonempty_def bind_eq_Some_conv split: if_split_asm)
  have "0 < revision m \<and> g_eval_ok (rule m)" if "m \<in> set (metrics c)" for m
    using z_array_elem [OF arr that] evaluationMetricSchema_ok by blast
  with ne judge usable card_distinct [of "map metric_id (metrics c)"] card show ?thesis
    by (auto simp: list_all_iff)
qed

end
