(* ===== verification/Validate_Graph.thy ===== *)
theory Validate_Graph
  imports Node_Configs
begin

text \<open>
  \<^verbatim>\<open>packages/runtime/src/workflow-json/validate-graph.ts\<close>: the structural checks a graph passes
  before it is published, triggered or executed, in the order of the source. Each block of
  \<^verbatim>\<open>validateGraphStructure\<close> is one definition; the whole function runs them in sequence and stops
  at the first error.

  The depth-first search and the backward computation of branch choices recurse over the
  graph; both carry fuel, one unit per recursion level, and running out is the error
  \<open>OutOfFuel\<close>. One unit more than the number of nodes is enough: no graph makes the
  validator run out (\<open>validateGraphStructure_errors\<close>).

  The third-party functions that the configuration schemas call are the parameter
  \<open>L :: config_libs\<close> of \<open>Node_Configs\<close>.
\<close>

datatype graph_error =
    NodeIdsNotUnique
  | EntryUnknown string
  | EdgeUnknown string
  | EntryHasIncoming string
  | WrongIncoming string nat nat
  | MergeSameSource string string
  | EndHasOutgoing string
  | StrayCondition string string
  | InvalidRetryPolicy string
  | InvalidExtract string
  | InvalidConnector string
  | InvalidEvaluator string
  | BranchNoCondition string
  | BranchDuplicateCondition string
  | CycleAt string
  | Unreachable string
  | MergeConflict string string string string
  | ReservedNodeId string
  | GraphTypeError
  | OutOfFuel

section \<open>The checks\<close>

definition RESERVED_NODE_IDS :: "string set" where
  "RESERVED_NODE_IDS = {''__resumed__''}"

definition assertNoReservedNodeIds :: "workflow_graph \<Rightarrow> graph_error + unit" where
  "assertNoReservedNodeIds g =
     for_each (\<lambda>n. throw_if (node_id n \<in> RESERVED_NODE_IDS) (ReservedNodeId (node_id n))) (nodes g)"

definition node_ids :: "workflow_graph \<Rightarrow> string list" where
  "node_ids g = map node_id (nodes g)"

definition in_edges :: "workflow_graph \<Rightarrow> string \<Rightarrow> workflow_edge list" where
  "in_edges g n = filter (\<lambda>e. edge_to e = n) (edges g)"

definition out_edges :: "workflow_graph \<Rightarrow> string \<Rightarrow> workflow_edge list" where
  "out_edges g n = filter (\<lambda>e. edge_from e = n) (edges g)"

definition check_ids :: "workflow_graph \<Rightarrow> graph_error + unit" where
  "check_ids g = throw_if (card (set (node_ids g)) \<noteq> length (nodes g)) NodeIdsNotUnique"

definition check_entry :: "workflow_graph \<Rightarrow> graph_error + unit" where
  "check_entry g = throw_if (entryNodeId g \<notin> set (node_ids g)) (EntryUnknown (entryNodeId g))"

definition check_edges :: "workflow_graph \<Rightarrow> graph_error + unit" where
  "check_edges g = for_each (\<lambda>e.
     bindE (throw_if (edge_from e \<notin> set (node_ids g)) (EdgeUnknown (edge_from e))) (\<lambda>_.
       throw_if (edge_to e \<notin> set (node_ids g)) (EdgeUnknown (edge_to e)))) (edges g)"

definition incomingCount :: "workflow_graph \<Rightarrow> (string, nat) omap" where
  "incomingCount g = fold (\<lambda>e m.
     omap_set (edge_to e) ((case map_of m (edge_to e) of None \<Rightarrow> 0 | Some c \<Rightarrow> c) + 1) m) (edges g) []"

definition check_node_degree :: "workflow_graph \<Rightarrow> workflow_node \<Rightarrow> graph_error + unit" where
  "check_node_degree g n =
    (let count = (case map_of (incomingCount g) (node_id n) of None \<Rightarrow> 0 | Some c \<Rightarrow> c) in
     bindE
       (if node_id n = entryNodeId g
        then throw_if (count \<noteq> 0) (EntryHasIncoming (node_id n))
        else
          let expected = (if node_type n = N_merge then 2 else 1) in
          bindE (throw_if (count \<noteq> expected) (WrongIncoming (node_id n) expected count)) (\<lambda>_.
            if node_type n = N_merge
            then let sources = map edge_from (in_edges g (node_id n)) in
              throw_if (card (set sources) \<noteq> length sources)
                (MergeSameSource (node_id n) (case sources of [] \<Rightarrow> [] | s # _ \<Rightarrow> s))
            else Inr ()))
       (\<lambda>_. throw_if (node_type n = N_end \<and> out_edges g (node_id n) \<noteq> []) (EndHasOutgoing (node_id n))))"

definition check_degrees :: "workflow_graph \<Rightarrow> graph_error + unit" where
  "check_degrees g = for_each (check_node_degree g) (nodes g)"

definition check_stray_conditions :: "workflow_graph \<Rightarrow> graph_error + unit" where
  "check_stray_conditions g = for_each (\<lambda>n.
     if node_type n = N_branch then Inr ()
     else (case find (\<lambda>e. edge_from e = node_id n \<and> condition e \<noteq> None) (edges g) of
         None \<Rightarrow> Inr ()
       | Some stray \<Rightarrow> Inl (StrayCondition (node_id n) (edge_to stray)))) (nodes g)"

definition check_retry_policies :: "workflow_graph \<Rightarrow> graph_error + unit" where
  "check_retry_policies g = for_each (\<lambda>n.
     let r = js_get (JObj (config n)) ''retryPolicy'' in
     if r = JUndef then Inr ()
     else throw_if (retryPolicySchema r = None) (InvalidRetryPolicy (node_id n))) (nodes g)"

definition check_extract_configs :: "config_libs \<Rightarrow> workflow_graph \<Rightarrow> graph_error + unit" where
  "check_extract_configs L g = for_each (\<lambda>n.
     throw_if (node_type n = N_extract \<and> extractInputSchema L (JObj (config n)) = None)
       (InvalidExtract (node_id n))) (nodes g)"

definition check_connector_configs :: "workflow_graph \<Rightarrow> graph_error + unit" where
  "check_connector_configs g = for_each (\<lambda>n.
     throw_if (node_type n = N_connector \<and> connectorInputSchema (JObj (config n)) = None)
       (InvalidConnector (node_id n))) (nodes g)"

definition check_evaluator_configs :: "config_libs \<Rightarrow> workflow_graph \<Rightarrow> graph_error + unit" where
  "check_evaluator_configs L g = for_each (\<lambda>n.
     throw_if (node_type n = N_evaluator \<and> evaluatorInputSchema L (JObj (config n)) = None)
       (InvalidEvaluator (node_id n))) (nodes g)"

definition check_branch_conditions :: "workflow_graph \<Rightarrow> graph_error + unit" where
  "check_branch_conditions g = for_each (\<lambda>n.
     if node_type n \<noteq> N_branch then Inr ()
     else
       let conditions = map condition (out_edges g (node_id n)) in
       bindE (throw_if (None \<in> set conditions) (BranchNoCondition (node_id n))) (\<lambda>_.
         throw_if (card (set conditions) \<noteq> length conditions)
           (BranchDuplicateCondition (node_id n)))) (nodes g)"

subsection \<open>Cycles and reachability\<close>

text \<open>The search state: the nodes on the current path, and the finished ones, latest first.\<close>

type_synonym search = "string set \<times> string list"

fun visit :: "workflow_graph \<Rightarrow> nat \<Rightarrow> string \<Rightarrow> search \<Rightarrow> graph_error + search"
  and visit_edges :: "workflow_graph \<Rightarrow> nat \<Rightarrow> workflow_edge list \<Rightarrow> search \<Rightarrow> graph_error + search"
where
  "visit g 0 n s = Inl OutOfFuel"
| "visit g (Suc k) n (visiting, visited) =
     (if n \<in> set visited then Inr (visiting, visited)
      else if n \<in> visiting then Inl (CycleAt n)
      else bindE (visit_edges g k (out_edges g n) (insert n visiting, visited))
        (\<lambda>(visiting', visited'). Inr (visiting' - {n}, n # visited')))"
| "visit_edges g k [] s = Inr s"
| "visit_edges g k (e # es) s = bindE (visit g k (edge_to e) s) (visit_edges g k es)"

definition graph_fuel :: "workflow_graph \<Rightarrow> nat" where
  "graph_fuel g = Suc (length (nodes g))"

definition search_from_entry :: "workflow_graph \<Rightarrow> graph_error + string list" where
  "search_from_entry g = bindE (visit g (graph_fuel g) (entryNodeId g) ({}, [])) (\<lambda>s. Inr (snd s))"

definition check_reachable :: "workflow_graph \<Rightarrow> string list \<Rightarrow> graph_error + unit" where
  "check_reachable g visited =
     for_each (\<lambda>n. throw_if (node_id n \<notin> set visited) (Unreachable (node_id n))) (nodes g)"

subsection \<open>Branch choices\<close>

type_synonym branch_choices = "(string, string) omap"

definition withEdge :: "workflow_graph \<Rightarrow> branch_choices \<Rightarrow> workflow_edge \<Rightarrow> branch_choices" where
  "withEdge g choices e = (case find (\<lambda>n. node_id n = edge_from e) (nodes g) of
       Some fromNode \<Rightarrow> (if node_type fromNode \<noteq> N_branch then choices
         else (case condition e of None \<Rightarrow> choices | Some c \<Rightarrow> omap_set (edge_from e) c choices))
     | None \<Rightarrow> choices)"

fun combine_into :: "string \<Rightarrow> branch_choices \<Rightarrow> (string \<times> string) list \<Rightarrow> graph_error + branch_choices" where
  "combine_into m combined [] = Inr combined"
| "combine_into m combined ((b, c) # rest) = (case map_of combined b of
       Some existing \<Rightarrow> if existing \<noteq> c then Inl (MergeConflict m b existing c)
         else combine_into m (omap_set b c combined) rest
     | None \<Rightarrow> combine_into m (omap_set b c combined) rest)"

definition combineChoices :: "branch_choices \<Rightarrow> branch_choices \<Rightarrow> string \<Rightarrow> graph_error + branch_choices" where
  "combineChoices a b mergeNodeId = combine_into mergeNodeId a b"

type_synonym choices_cache = "(string, branch_choices) omap"

fun requiredChoices ::
  "workflow_graph \<Rightarrow> nat \<Rightarrow> string \<Rightarrow> choices_cache \<Rightarrow> graph_error + branch_choices \<times> choices_cache"
where
  "requiredChoices g 0 n cache = Inl OutOfFuel"
| "requiredChoices g (Suc k) n cache = (case map_of cache n of
       Some cached \<Rightarrow> Inr (cached, cache)
     | None \<Rightarrow>
        if n = entryNodeId g then Inr ([], omap_set n [] cache)
        else (case in_edges g n of
            [] \<Rightarrow> Inl GraphTypeError
          | [e] \<Rightarrow> bindE (requiredChoices g k (edge_from e) cache) (\<lambda>(c, cache').
              let result = withEdge g c e in Inr (result, omap_set n result cache'))
          | e1 # e2 # _ \<Rightarrow>
              bindE (requiredChoices g k (edge_from e1) cache) (\<lambda>(c1, cache1).
              bindE (requiredChoices g k (edge_from e2) cache1) (\<lambda>(c2, cache2).
              bindE (combineChoices (withEdge g c1 e1) (withEdge g c2 e2) n) (\<lambda>result.
                Inr (result, omap_set n result cache2))))))"

fun choices_loop :: "workflow_graph \<Rightarrow> workflow_node list \<Rightarrow> choices_cache \<Rightarrow> graph_error + unit" where
  "choices_loop g [] cache = Inr ()"
| "choices_loop g (n # ns) cache =
     bindE (requiredChoices g (graph_fuel g) (node_id n) cache) (\<lambda>(_, cache'). choices_loop g ns cache')"

section \<open>The whole validator\<close>

definition validateGraphStructure :: "config_libs \<Rightarrow> workflow_graph \<Rightarrow> graph_error + unit" where
  "validateGraphStructure L g =
     bindE (check_ids g) (\<lambda>_.
     bindE (check_entry g) (\<lambda>_.
     bindE (check_edges g) (\<lambda>_.
     bindE (check_degrees g) (\<lambda>_.
     bindE (check_stray_conditions g) (\<lambda>_.
     bindE (check_retry_policies g) (\<lambda>_.
     bindE (check_extract_configs L g) (\<lambda>_.
     bindE (check_connector_configs g) (\<lambda>_.
     bindE (check_evaluator_configs L g) (\<lambda>_.
     bindE (check_branch_conditions g) (\<lambda>_.
     bindE (search_from_entry g) (\<lambda>visited.
     bindE (check_reachable g visited) (\<lambda>_.
     choices_loop g (nodes g) []))))))))))))"

section \<open>What the counters count\<close>

lemma incomingCount_eq:
  "(case map_of (incomingCount g) n of None \<Rightarrow> 0 | Some c \<Rightarrow> c) = length (in_edges g n)"
proof -
  have "(case map_of (fold (\<lambda>e m.
       omap_set (edge_to e) ((case map_of m (edge_to e) of None \<Rightarrow> 0 | Some c \<Rightarrow> c) + 1) m) es m0) n
       of None \<Rightarrow> 0 | Some c \<Rightarrow> c) =
     (case map_of m0 n of None \<Rightarrow> 0 | Some c \<Rightarrow> c) + length (filter (\<lambda>e. edge_to e = n) es)"
    for es and m0 :: "(string, nat) omap"
    by (induction es arbitrary: m0) (auto simp: map_of_omap_set)
  from this [of "edges g" "[]"] show ?thesis by (simp add: incomingCount_def in_edges_def)
qed

definition edge_rel :: "workflow_graph \<Rightarrow> (string \<times> string) set" where
  "edge_rel g = (\<lambda>e. (edge_from e, edge_to e)) ` set (edges g)"

lemma out_edges_rel: "e \<in> set (out_edges g n) \<Longrightarrow> (n, edge_to e) \<in> edge_rel g"
  by (auto simp: out_edges_def edge_rel_def)

lemma edge_rel_out: "(n, m) \<in> edge_rel g \<longleftrightarrow> m \<in> edge_to ` set (out_edges g n)"
  by (force simp: out_edges_def edge_rel_def)

lemma edge_rel_in: "(n, m) \<in> edge_rel g \<longleftrightarrow> n \<in> edge_from ` set (in_edges g m)"
  by (force simp: in_edges_def edge_rel_def)

section \<open>Depth-first search\<close>

text \<open>The finished nodes, latest first, list every node before all its successors.\<close>

fun topo :: "workflow_graph \<Rightarrow> string list \<Rightarrow> bool" where
  "topo g [] = True"
| "topo g (v # vs) = (edge_to ` set (out_edges g v) \<subseteq> set vs \<and> v \<notin> set vs \<and> topo g vs)"

lemma visit_restores_path:
  "visit g k n s = Inr s' \<Longrightarrow> fst s' = fst s"
  "visit_edges g k es s = Inr s' \<Longrightarrow> fst s' = fst s"
  by (induction g k n s and g k es s arbitrary: s' and s' rule: visit_visit_edges.induct)
     (fastforce simp: bindE_eq_Inr split: if_splits)+

lemma visit_sound:
  "visit g k n (vg, vd) = Inr (vg', vd') \<Longrightarrow> topo g vd \<Longrightarrow> vg \<inter> set vd = {} \<Longrightarrow>
     n \<in> set vd' \<and> topo g vd' \<and> vg \<inter> set vd' = {} \<and> set vd \<subseteq> set vd' \<and>
     set vd' \<subseteq> set vd \<union> (edge_rel g)\<^sup>* `` {n}"
  "visit_edges g k es (vg, vd) = Inr (vg', vd') \<Longrightarrow> topo g vd \<Longrightarrow> vg \<inter> set vd = {} \<Longrightarrow>
     edge_to ` set es \<subseteq> set vd' \<and> topo g vd' \<and> vg \<inter> set vd' = {} \<and> set vd \<subseteq> set vd' \<and>
     set vd' \<subseteq> set vd \<union> (edge_rel g)\<^sup>* `` (edge_to ` set es)"
proof (induction g k n "(vg, vd)" and g k es "(vg, vd)" arbitrary: vg vd vg' vd' and vg vd vg' vd'
    rule: visit_visit_edges.induct)
  case (2 g k n vg vd)
  show ?case
  proof (cases "n \<in> set vd")
    case True
    with "2.prems" show ?thesis by auto
  next
    case False
    with "2.prems"(1) have nv: "n \<notin> vg" by (auto split: if_splits)
    from False nv "2.prems"(1) obtain vg1 vd1 where
      es: "visit_edges g k (out_edges g n) (insert n vg, vd) = Inr (vg1, vd1)"
      and res: "vd' = n # vd1"
      by (auto simp: bindE_eq_Inr)
    have disj: "insert n vg \<inter> set vd = {}" using "2.prems"(3) False by auto
    note out = "2.hyps" [OF False nv es "2.prems"(2) disj]
    have "(edge_rel g)\<^sup>* `` (edge_to ` set (out_edges g n)) \<subseteq> (edge_rel g)\<^sup>* `` {n}"
      by (auto intro: converse_rtrancl_into_rtrancl out_edges_rel)
    with out have "set vd1 \<subseteq> set vd \<union> (edge_rel g)\<^sup>* `` {n}"
      by (meson Un_mono order_refl order_trans)
    with out nv show ?thesis by (auto simp: res)
  qed
next
  case (4 g k e es vg vd)
  then obtain vg1 vd1 where v: "visit g k (edge_to e) (vg, vd) = Inr (vg1, vd1)"
    and es: "visit_edges g k es (vg1, vd1) = Inr (vg', vd')"
    by (auto simp: bindE_eq_Inr)
  have [simp]: "vg1 = vg" using visit_restores_path(1) [OF v] by simp
  note one = "4.hyps"(1) [OF v "4.prems"(2,3)]
  have disj: "vg1 \<inter> set vd1 = {}" using one by simp
  note rest = "4.hyps"(2) [OF es conjunct1 [OF conjunct2 [OF one]] disj]
  have img: "(edge_rel g)\<^sup>* `` (edge_to ` set (e # es)) =
      (edge_rel g)\<^sup>* `` {edge_to e} \<union> (edge_rel g)\<^sup>* `` (edge_to ` set es)"
    by auto
  have "set vd' \<subseteq> set vd \<union> (edge_rel g)\<^sup>* `` (edge_to ` set (e # es))"
    unfolding img
  proof (rule subset_Un_trans)
    show "set vd' \<subseteq> set vd1 \<union> (edge_rel g)\<^sup>* `` (edge_to ` set es)" using rest by simp
    show "set vd1 \<subseteq> set vd \<union> (edge_rel g)\<^sup>* `` {edge_to e}" using one by simp
  qed
  moreover have "edge_to e \<in> set vd'" "set vd \<subseteq> set vd'"
    using one rest by (meson subsetD, meson subset_trans)
  ultimately show ?case using rest by simp
qed auto

lemma visit_fuel:
  "n \<in> V \<Longrightarrow> edge_to ` set (edges g) \<subseteq> V \<Longrightarrow> finite V \<Longrightarrow> card (V - fst s) < k \<Longrightarrow>
     visit g k n s \<noteq> Inl OutOfFuel"
  "edge_to ` set es \<subseteq> V \<Longrightarrow> edge_to ` set (edges g) \<subseteq> V \<Longrightarrow> finite V \<Longrightarrow> card (V - fst s) < k \<Longrightarrow>
     visit_edges g k es s \<noteq> Inl OutOfFuel"
proof (induction g k n s and g k es s rule: visit_visit_edges.induct)
  case (2 g k n vg vd)
  show ?case
  proof (cases "n \<in> set vd \<or> n \<in> vg")
    case False
    with "2.prems" have "card (V - insert n vg) < card (V - vg)"
      by (intro psubset_card_mono) auto
    with "2.prems" have "card (V - insert n vg) < k" by simp
    moreover have "edge_to ` set (out_edges g n) \<subseteq> V"
      using "2.prems"(2) by (auto simp: out_edges_def)
    ultimately have "visit_edges g k (out_edges g n) (insert n vg, vd) \<noteq> Inl OutOfFuel"
      using "2.IH" False "2.prems"(2,3) by auto
    with False show ?thesis by (auto simp: bindE_eq_Inl)
  qed auto
next
  case (4 g k e es s)
  have "visit g k (edge_to e) s \<noteq> Inl OutOfFuel"
    using 4 by auto
  moreover have "visit_edges g k es s' \<noteq> Inl OutOfFuel" if "visit g k (edge_to e) s = Inr s'" for s'
    using 4 visit_restores_path(1) [OF that] by auto
  ultimately show ?case by (auto simp: bindE_eq_Inl)
qed auto

text \<open>A reported cycle is one: the search only meets a node of its own path.\<close>

lemma visit_cycle:
  "visit g k n s = Inl (CycleAt m) \<Longrightarrow> \<forall>v \<in> fst s. (v, n) \<in> (edge_rel g)\<^sup>+ \<Longrightarrow>
     (m, m) \<in> (edge_rel g)\<^sup>+"
  "visit_edges g k es s = Inl (CycleAt m) \<Longrightarrow>
     \<forall>v \<in> fst s. \<forall>e \<in> set es. (v, edge_to e) \<in> (edge_rel g)\<^sup>+ \<Longrightarrow> (m, m) \<in> (edge_rel g)\<^sup>+"
proof (induction g k n s and g k es s rule: visit_visit_edges.induct)
  case (2 g k n vg vd)
  show ?case
  proof (cases "n \<in> set vd \<or> n \<in> vg")
    case True
    with "2.prems" show ?thesis by (auto split: if_splits)
  next
    case False
    have "\<forall>v \<in> insert n vg. \<forall>e \<in> set (out_edges g n). (v, edge_to e) \<in> (edge_rel g)\<^sup>+"
      using "2.prems"(2) out_edges_rel by (fastforce intro: trancl_into_trancl)
    with False "2.prems"(1) "2.IH" show ?thesis by (auto simp: bindE_eq_Inl)
  qed
next
  case (4 g k e es s)
  show ?case
  proof (cases "visit g k (edge_to e) s")
    case (Inl err)
    with 4 show ?thesis by auto
  next
    case (Inr s')
    with 4 visit_restores_path(1) [OF Inr] show ?thesis by auto
  qed
qed auto

lemma topo_closed: "topo g vs \<Longrightarrow> v \<in> set vs \<Longrightarrow> (v, w) \<in> edge_rel g \<Longrightarrow> w \<in> set vs"
  by (induction vs) (auto simp: edge_rel_out)

lemma topo_closed_rtrancl: "(v, w) \<in> (edge_rel g)\<^sup>* \<Longrightarrow> topo g vs \<Longrightarrow> v \<in> set vs \<Longrightarrow> w \<in> set vs"
  by (induction rule: rtrancl_induct) (auto intro: topo_closed)

lemma topo_not_self: "topo g vs \<Longrightarrow> v \<in> set vs \<Longrightarrow> (v, v) \<notin> (edge_rel g)\<^sup>+"
proof (induction vs)
  case (Cons x xs)
  have "(x, x) \<notin> (edge_rel g)\<^sup>+"
  proof
    assume "(x, x) \<in> (edge_rel g)\<^sup>+"
    then obtain y where y: "(x, y) \<in> edge_rel g" "(y, x) \<in> (edge_rel g)\<^sup>*"
      by (meson tranclD)
    then have "y \<in> set xs" using Cons.prems by (auto simp: edge_rel_out)
    then have "x \<in> set xs" using y(2) Cons.prems topo_closed_rtrancl by auto
    then show False using Cons.prems by simp
  qed
  with Cons show ?case by auto
qed auto

lemma visit_errors:
  "visit g k n s = Inl err \<Longrightarrow> err = OutOfFuel \<or> (\<exists>m. err = CycleAt m)"
  "visit_edges g k es s = Inl err \<Longrightarrow> err = OutOfFuel \<or> (\<exists>m. err = CycleAt m)"
  by (induction g k n s and g k es s arbitrary: err and err rule: visit_visit_edges.induct)
     (fastforce simp: bindE_eq_Inl split: if_splits)+

lemma finite_edge_rel [simp]: "finite (edge_rel g)"
  by (simp add: edge_rel_def)

definition edges_within :: "workflow_graph \<Rightarrow> bool" where
  "edges_within g \<longleftrightarrow> entryNodeId g \<in> set (node_ids g) \<and>
     (\<forall>e \<in> set (edges g). edge_from e \<in> set (node_ids g) \<and> edge_to e \<in> set (node_ids g))"

lemma search_from_entry_fuel:
  assumes "edges_within g"
  shows "search_from_entry g \<noteq> Inl OutOfFuel"
proof -
  have "card (set (node_ids g) - {}) < graph_fuel g"
    using card_length [of "node_ids g"] by (simp add: graph_fuel_def node_ids_def)
  then have "visit g (graph_fuel g) (entryNodeId g) ({}, []) \<noteq> Inl OutOfFuel"
    using assms by (intro visit_fuel(1) [of _ "set (node_ids g)"]) (auto simp: edges_within_def)
  then show ?thesis by (auto simp: search_from_entry_def bindE_eq_Inl)
qed

text \<open>
  The search succeeds exactly when no cycle is reachable from the entry, and it then
  returns the reachable nodes.
\<close>

lemma search_from_entry_sound:
  assumes "search_from_entry g = Inr vs"
  shows "topo g vs \<and> set vs = (edge_rel g)\<^sup>* `` {entryNodeId g}"
proof -
  from assms obtain vg where v: "visit g (graph_fuel g) (entryNodeId g) ({}, []) = Inr (vg, vs)"
    by (auto simp: search_from_entry_def bindE_eq_Inr)
  note r = visit_sound(1) [OF v]
  then have "topo g vs" "entryNodeId g \<in> set vs" "set vs \<subseteq> (edge_rel g)\<^sup>* `` {entryNodeId g}"
    by auto
  moreover have "(edge_rel g)\<^sup>* `` {entryNodeId g} \<subseteq> set vs"
    using calculation(1,2) topo_closed_rtrancl by blast
  ultimately show ?thesis by blast
qed

lemma search_from_entry_complete:
  assumes "edges_within g" and "acyclic (edge_rel g)"
  shows "\<exists>vs. search_from_entry g = Inr vs"
proof (cases "search_from_entry g")
  case (Inl err)
  then have v: "visit g (graph_fuel g) (entryNodeId g) ({}, []) = Inl err"
    by (auto simp: search_from_entry_def bindE_eq_Inl)
  have "err \<noteq> OutOfFuel" using Inl search_from_entry_fuel [OF assms(1)] by auto
  then obtain m where "err = CycleAt m" using visit_errors(1) [OF v] by auto
  then have "(m, m) \<in> (edge_rel g)\<^sup>+" using visit_cycle(1) v by auto
  with assms(2) show ?thesis by (simp add: acyclic_def)
qed auto

section \<open>Branch requirements\<close>

text \<open>
  Reaching a node requires a branch to take a condition when some path to the node leaves the
  branch by the edge with that condition.
\<close>

definition node_of :: "workflow_graph \<Rightarrow> string \<Rightarrow> workflow_node option" where
  "node_of g n = find (\<lambda>m. node_id m = n) (nodes g)"

definition is_branch :: "workflow_graph \<Rightarrow> string \<Rightarrow> bool" where
  "is_branch g n \<longleftrightarrow> (\<exists>m. node_of g n = Some m \<and> node_type m = N_branch)"

inductive requires :: "workflow_graph \<Rightarrow> string \<Rightarrow> string \<Rightarrow> string \<Rightarrow> bool" for g where
  requires_edge: "e \<in> set (in_edges g n) \<Longrightarrow> is_branch g (edge_from e) \<Longrightarrow> condition e = Some c \<Longrightarrow>
     requires g n (edge_from e) c"
| requires_step: "e \<in> set (in_edges g n) \<Longrightarrow> requires g (edge_from e) b c \<Longrightarrow> requires g n b c"

inductive_simps requires_iff: "requires g n b c"

definition consistent_branches :: "workflow_graph \<Rightarrow> bool" where
  "consistent_branches g \<longleftrightarrow>
     (\<forall>n b c c'. requires g n b c \<longrightarrow> requires g n b c' \<longrightarrow> c = c')"

lemma requires_ancestor: "requires g n b c \<Longrightarrow> (b, n) \<in> (edge_rel g)\<^sup>+"
proof (induction rule: requires.induct)
  case (requires_edge e n c)
  then show ?case by (auto simp: in_edges_def edge_rel_def)
next
  case (requires_step e n b c)
  then have "(edge_from e, n) \<in> edge_rel g" by (auto simp: in_edges_def edge_rel_def)
  with requires_step.IH show ?case by (rule trancl_into_trancl)
qed

definition choices_ok :: "workflow_graph \<Rightarrow> string \<Rightarrow> branch_choices \<Rightarrow> bool" where
  "choices_ok g n c \<longleftrightarrow> distinct (map fst c) \<and> (\<forall>b x. (b, x) \<in> set c \<longleftrightarrow> requires g n b x)"

definition edge_choices :: "workflow_graph \<Rightarrow> workflow_edge \<Rightarrow> (string \<times> string) set" where
  "edge_choices g e = {(b, x). requires g (edge_from e) b x} \<union>
     {(b, x). b = edge_from e \<and> is_branch g b \<and> condition e = Some x}"

lemma requires_by_edges:
  "{(b, x). requires g n b x} = (\<Union>e \<in> set (in_edges g n). edge_choices g e)"
  unfolding edge_choices_def by (subst requires_iff) auto

lemma withEdge_ok:
  assumes "acyclic (edge_rel g)" "choices_ok g (edge_from e) c"
  shows "distinct (map fst (withEdge g c e)) \<and> set (withEdge g c e) = edge_choices g e"
proof -
  have "edge_from e \<notin> fst ` set c"
    using assms requires_ancestor by (fastforce simp: choices_ok_def acyclic_def)
  with assms(2) show ?thesis
    by (auto simp: withEdge_def choices_ok_def edge_choices_def is_branch_def node_of_def
        omap_set_new split: option.split)
qed

lemma combine_into_Inr:
  "combine_into m a b = Inr r \<Longrightarrow> distinct (map fst a) \<Longrightarrow>
     distinct (map fst r) \<and> set r = set a \<union> set b"
proof (induction m a b arbitrary: r rule: combine_into.induct)
  case (2 m a k c rest)
  show ?case
  proof (cases "map_of a k")
    case None
    then have new: "k \<notin> fst ` set a" by (simp add: map_of_eq_None_iff)
    with 2 None show ?thesis by (auto simp: omap_set_new)
  next
    case (Some c')
    with "2.prems" have [simp]: "c' = c" by (auto split: if_splits)
    have "omap_set k c a = a" "(k, c) \<in> set a"
      using Some by (auto simp: omap_set_same dest: map_of_SomeD)
    with 2 Some show ?thesis by auto
  qed
qed auto

lemma combine_into_Inl:
  "combine_into m a b = Inl err \<Longrightarrow>
     \<exists>k x y. err = MergeConflict m k x y \<and> (k, x) \<in> set a \<union> set b \<and> (k, y) \<in> set b \<and> x \<noteq> y"
proof (induction m a b rule: combine_into.induct)
  case (2 m a k c rest)
  have sub: "set (omap_set k c a) \<subseteq> insert (k, c) (set a)"
    by (induction k c a rule: omap_set.induct) auto
  show ?case
  proof (cases "\<exists>c'. map_of a k = Some c' \<and> c' \<noteq> c")
    case True
    then obtain c' where c': "map_of a k = Some c'" "c' \<noteq> c" by blast
    then have "(k, c') \<in> set a" by (simp add: map_of_SomeD)
    with c' "2.prems" show ?thesis by auto
  next
    case False
    then have "combine_into m (omap_set k c a) rest = Inl err"
      using "2.prems" by (auto split: option.splits)
    then obtain k' x y where "err = MergeConflict m k' x y"
      "(k', x) \<in> set (omap_set k c a) \<union> set rest" "(k', y) \<in> set rest" "x \<noteq> y"
      using "2.IH" False by (cases "map_of a k") auto
    with sub show ?thesis by auto
  qed
qed auto

definition backward_ok :: "workflow_graph \<Rightarrow> bool" where
  "backward_ok g \<longleftrightarrow> acyclic (edge_rel g) \<and> edges_within g \<and> in_edges g (entryNodeId g) = [] \<and>
     (\<forall>n \<in> set (node_ids g). n \<noteq> entryNodeId g \<longrightarrow> length (in_edges g n) \<in> {1, 2})"

definition cache_ok :: "workflow_graph \<Rightarrow> choices_cache \<Rightarrow> bool" where
  "cache_ok g cache \<longleftrightarrow> (\<forall>n c. map_of cache n = Some c \<longrightarrow> choices_ok g n c)"

definition real_conflict :: "workflow_graph \<Rightarrow> graph_error \<Rightarrow> bool" where
  "real_conflict g err \<longleftrightarrow> (\<exists>m b x y. err = MergeConflict m b x y \<and>
     requires g m b x \<and> requires g m b y \<and> x \<noteq> y)"

lemma cache_ok_set: "cache_ok g cache \<Longrightarrow> choices_ok g n c \<Longrightarrow> cache_ok g (omap_set n c cache)"
  by (auto simp: cache_ok_def map_of_omap_set)

lemma choices_ok_one:
  assumes "acyclic (edge_rel g)" "in_edges g n = [e]" "choices_ok g (edge_from e) c"
  shows "choices_ok g n (withEdge g c e)"
proof -
  have "set (withEdge g c e) = {(b, x). requires g n b x}"
    using withEdge_ok [OF assms(1,3)] requires_by_edges [of g n] assms(2) by simp
  then show ?thesis using withEdge_ok [OF assms(1,3)] by (auto simp: choices_ok_def)
qed

lemma choices_ok_two:
  assumes "acyclic (edge_rel g)" "in_edges g n = [e1, e2]"
    "choices_ok g (edge_from e1) c1" "choices_ok g (edge_from e2) c2"
  shows "combineChoices (withEdge g c1 e1) (withEdge g c2 e2) n = Inr r \<Longrightarrow> choices_ok g n r"
    and "combineChoices (withEdge g c1 e1) (withEdge g c2 e2) n = Inl err \<Longrightarrow> real_conflict g err"
proof -
  note w1 = withEdge_ok [OF assms(1,3)] and w2 = withEdge_ok [OF assms(1,4)]
  have req: "{(b, x). requires g n b x} = edge_choices g e1 \<union> edge_choices g e2"
    using requires_by_edges [of g n] assms(2) by simp
  { assume "combineChoices (withEdge g c1 e1) (withEdge g c2 e2) n = Inr r"
    then have "distinct (map fst r) \<and> set r = edge_choices g e1 \<union> edge_choices g e2"
      using combine_into_Inr w1 w2 unfolding combineChoices_def by metis
    with req show "choices_ok g n r" by (auto simp: choices_ok_def) }
  { assume "combineChoices (withEdge g c1 e1) (withEdge g c2 e2) n = Inl err"
    then obtain k x y where "err = MergeConflict n k x y"
      "(k, x) \<in> {(b, x). requires g n b x}" "(k, y) \<in> {(b, x). requires g n b x}" "x \<noteq> y"
      using combine_into_Inl w1 w2 unfolding combineChoices_def req by (metis UnCI)
    then show "real_conflict g err" by (auto simp: real_conflict_def) }
qed

lemma in_edges_source: "edges_within g \<Longrightarrow> e \<in> set (in_edges g n) \<Longrightarrow> edge_from e \<in> set (node_ids g)"
  by (auto simp: edges_within_def in_edges_def)

lemma in_edges_cases:
  assumes "backward_ok g" "n \<in> set (node_ids g)" "n \<noteq> entryNodeId g"
  obtains (one) e where "in_edges g n = [e]" | (two) e1 e2 where "in_edges g n = [e1, e2]"
proof -
  have "length (in_edges g n) \<in> {1, 2}" using assms by (auto simp: backward_ok_def)
  then show ?thesis
    using one two by (auto simp: length_Suc_conv numeral_2_eq_2)
qed

lemma choices_ok_entry:
  assumes "in_edges g n = []"
  shows "choices_ok g n []"
proof -
  have "\<not> requires g n b x" for b x
    using assms by (subst requires_iff) auto
  then show ?thesis by (auto simp: choices_ok_def)
qed

text \<open>
  The memoised computation returns the requirements of the node, keeps the cache right, and
  reports only conflicts that exist. The postcondition is threaded through \<open>bindE\<close>.
\<close>

definition choices_post ::
  "workflow_graph \<Rightarrow> string \<Rightarrow> graph_error + branch_choices \<times> choices_cache \<Rightarrow> bool" where
  "choices_post g n r = (case r of
       Inr (c, cache) \<Rightarrow> choices_ok g n c \<and> cache_ok g cache
     | Inl err \<Rightarrow> err = OutOfFuel \<or> real_conflict g err)"

lemma choices_post_Inr: "choices_ok g n c \<Longrightarrow> cache_ok g cache \<Longrightarrow> choices_post g n (Inr (c, cache))"
  by (simp add: choices_post_def)

lemma choices_post_bind:
  assumes "choices_post g p m"
    and "\<And>c cache. choices_ok g p c \<Longrightarrow> cache_ok g cache \<Longrightarrow> choices_post g n (f (c, cache))"
  shows "choices_post g n (bindE m f)"
  using assms by (cases m) (auto simp: choices_post_def)

lemma choices_post_two:
  assumes "acyclic (edge_rel g)" "in_edges g n = [e1, e2]" "choices_ok g (edge_from e1) c1"
    "choices_ok g (edge_from e2) c2" "cache_ok g cache"
  shows "choices_post g n (bindE (combineChoices (withEdge g c1 e1) (withEdge g c2 e2) n)
    (\<lambda>result. Inr (result, omap_set n result cache)))"
  using choices_ok_two [OF assms(1-4)] assms(5)
  by (cases "combineChoices (withEdge g c1 e1) (withEdge g c2 e2) n")
     (auto simp: choices_post_def intro: cache_ok_set)

lemma requiredChoices_correct:
  assumes "backward_ok g"
  shows "n \<in> set (node_ids g) \<Longrightarrow> cache_ok g cache \<Longrightarrow> choices_post g n (requiredChoices g k n cache)"
proof (induction k arbitrary: n cache)
  case 0
  then show ?case by (simp add: choices_post_def)
next
  case (Suc k)
  have acyc: "acyclic (edge_rel g)" and src: "\<And>e. e \<in> set (in_edges g n) \<Longrightarrow> edge_from e \<in> set (node_ids g)"
    using assms in_edges_source by (auto simp: backward_ok_def)
  show ?case
  proof (cases "map_of cache n")
    case (Some c)
    with Suc.prems show ?thesis by (auto simp: choices_post_def cache_ok_def)
  next
    case fresh: None
    show ?thesis
    proof (cases "n = entryNodeId g")
      case True
      then have "in_edges g n = []" using assms by (simp add: backward_ok_def)
      with True fresh Suc.prems choices_ok_entry show ?thesis
        by (auto simp: choices_post_def intro: cache_ok_set)
    next
      case False
      from assms Suc.prems(1) False show ?thesis
      proof (cases rule: in_edges_cases)
        case (one e)
        have "choices_post g (edge_from e) (requiredChoices g k (edge_from e) cache)"
          using Suc src one by simp
        then show ?thesis
          using fresh False one choices_ok_one [OF acyc one]
          by (auto simp: Let_def intro!: choices_post_bind choices_post_Inr cache_ok_set)
      next
        case (two e1 e2)
        have IH: "choices_post g (edge_from e) (requiredChoices g k (edge_from e) ch)"
          if "e \<in> {e1, e2}" "cache_ok g ch" for e ch
          using Suc.IH src two that by auto
        show ?thesis
          using fresh False two Suc.prems(2)
          by (auto intro!: choices_post_bind [OF IH] choices_post_two [OF acyc two])
      qed
    qed
  qed
qed

text \<open>Fuel: every recursive call goes to a node with strictly fewer ancestors.\<close>

definition ancestors :: "workflow_graph \<Rightarrow> string \<Rightarrow> string set" where
  "ancestors g n = {m. (m, n) \<in> (edge_rel g)\<^sup>+}"

lemma finite_ancestors: "finite (ancestors g n)"
proof -
  have "ancestors g n \<subseteq> Domain (edge_rel g)"
    by (auto simp: ancestors_def dest: tranclD)
  then show ?thesis by (rule finite_subset) (simp add: finite_Domain)
qed

lemma ancestors_source_less:
  assumes "acyclic (edge_rel g)" "e \<in> set (in_edges g n)"
  shows "card (ancestors g (edge_from e)) < card (ancestors g n)"
proof (intro psubset_card_mono psubsetI)
  have edge: "(edge_from e, n) \<in> edge_rel g" using assms(2) by (auto simp: in_edges_def edge_rel_def)
  then show "ancestors g (edge_from e) \<subseteq> ancestors g n"
    by (auto simp: ancestors_def intro: trancl_into_trancl)
  have "edge_from e \<in> ancestors g n" "edge_from e \<notin> ancestors g (edge_from e)"
    using edge assms(1) by (auto simp: ancestors_def acyclic_def)
  then show "ancestors g (edge_from e) \<noteq> ancestors g n" by blast
qed (rule finite_ancestors)

lemma requiredChoices_fuel:
  assumes "acyclic (edge_rel g)"
  shows "card (ancestors g n) < k \<Longrightarrow> requiredChoices g k n cache \<noteq> Inl OutOfFuel"
proof (induction k arbitrary: n cache)
  case (Suc k)
  have IH: "requiredChoices g k (edge_from e) ch \<noteq> Inl OutOfFuel" if "e \<in> set (in_edges g n)" for e ch
    using Suc ancestors_source_less [OF assms that] by simp
  have comb: "combineChoices a b m \<noteq> Inl OutOfFuel" for a b m
    using combine_into_Inl unfolding combineChoices_def by blast
  show ?case
    using IH comb
    by (cases "in_edges g n" rule: remdups_adj.cases)
       (auto simp: bindE_eq_Inl Let_def split: option.splits)
qed simp

lemma ancestors_bound:
  assumes "edges_within g"
  shows "card (ancestors g n) < graph_fuel g"
proof -
  have "ancestors g n \<subseteq> set (node_ids g)"
    using assms by (force simp: ancestors_def edges_within_def edge_rel_def dest: tranclD)
  then have "card (ancestors g n) \<le> card (set (node_ids g))" by (intro card_mono) auto
  also have "\<dots> \<le> length (nodes g)" using card_length [of "node_ids g"] by (simp add: node_ids_def)
  finally show ?thesis by (simp add: graph_fuel_def)
qed

section \<open>The accepted graphs\<close>

definition degrees_ok :: "workflow_graph \<Rightarrow> bool" where
  "degrees_ok g \<longleftrightarrow> in_edges g (entryNodeId g) = [] \<and>
     (\<forall>n \<in> set (nodes g). node_id n \<noteq> entryNodeId g \<longrightarrow>
        length (in_edges g (node_id n)) = (if node_type n = N_merge then 2 else 1) \<and>
        (node_type n = N_merge \<longrightarrow> distinct (map edge_from (in_edges g (node_id n))))) \<and>
     (\<forall>n \<in> set (nodes g). node_type n = N_end \<longrightarrow> out_edges g (node_id n) = [])"

definition conditions_ok :: "workflow_graph \<Rightarrow> bool" where
  "conditions_ok g \<longleftrightarrow> (\<forall>n \<in> set (nodes g).
     let conditions = map condition (out_edges g (node_id n)) in
     if node_type n = N_branch then None \<notin> set conditions \<and> distinct conditions
     else set conditions \<subseteq> {None})"

definition configs_ok :: "config_libs \<Rightarrow> workflow_graph \<Rightarrow> bool" where
  "configs_ok L g \<longleftrightarrow> (\<forall>n \<in> set (nodes g).
     (js_get (JObj (config n)) ''retryPolicy'' = JUndef \<or>
        retryPolicySchema (js_get (JObj (config n)) ''retryPolicy'') \<noteq> None) \<and>
     (node_type n = N_extract \<longrightarrow> extractInputSchema L (JObj (config n)) \<noteq> None) \<and>
     (node_type n = N_connector \<longrightarrow> connectorInputSchema (JObj (config n)) \<noteq> None) \<and>
     (node_type n = N_evaluator \<longrightarrow> evaluatorInputSchema L (JObj (config n)) \<noteq> None))"

definition wf_graph :: "config_libs \<Rightarrow> workflow_graph \<Rightarrow> bool" where
  "wf_graph L g \<longleftrightarrow> distinct (node_ids g) \<and> edges_within g \<and> degrees_ok g \<and> conditions_ok g \<and>
     configs_ok L g \<and> acyclic (edge_rel g) \<and>
     (\<forall>n \<in> set (node_ids g). (entryNodeId g, n) \<in> (edge_rel g)\<^sup>*)"

lemma set_size_differs: "(card (set xs) \<noteq> length xs) = (\<not> distinct xs)"
  using card_distinct distinct_card by blast

lemma find_none_case:
  "(case find p xs of None \<Rightarrow> Inr () | Some x \<Rightarrow> Inl (f x)) = Inr () \<longleftrightarrow> (\<forall>x \<in> set xs. \<not> p x)"
  by (auto simp: find_None_iff split: option.splits dest: find_row_Some)

lemma check_ids_iff: "check_ids g = Inr u \<longleftrightarrow> distinct (node_ids g)"
  using set_size_differs [of "node_ids g"] by (simp add: check_ids_def node_ids_def)

lemma check_entry_edges_iff:
  "check_entry g = Inr u \<and> check_edges g = Inr v \<longleftrightarrow> edges_within g"
  by (auto simp: check_entry_def check_edges_def edges_within_def for_each_Inr bindE_eq_Inr)

lemma check_degrees_iff:
  assumes "entryNodeId g \<in> set (node_ids g)"
  shows "check_degrees g = Inr u \<longleftrightarrow> degrees_ok g"
proof -
  from assms obtain m where m: "m \<in> set (nodes g)" "node_id m = entryNodeId g"
    by (auto simp: node_ids_def)
  have one: "check_node_degree g n = Inr () \<longleftrightarrow>
     (node_id n = entryNodeId g \<longrightarrow> in_edges g (entryNodeId g) = []) \<and>
     (node_id n \<noteq> entryNodeId g \<longrightarrow>
        length (in_edges g (node_id n)) = (if node_type n = N_merge then 2 else 1) \<and>
        (node_type n = N_merge \<longrightarrow> distinct (map edge_from (in_edges g (node_id n))))) \<and>
     (node_type n = N_end \<longrightarrow> out_edges g (node_id n) = [])" for n
    unfolding check_node_degree_def Let_def incomingCount_eq set_size_differs
    by (simp add: bindE_eq_Inr)
  have "check_degrees g = Inr u \<longleftrightarrow> (\<forall>n \<in> set (nodes g). check_node_degree g n = Inr ())"
    by (simp add: check_degrees_def for_each_Inr)
  also have "\<dots> \<longleftrightarrow> degrees_ok g"
  proof
    assume h: "\<forall>n \<in> set (nodes g). check_node_degree g n = Inr ()"
    then have "in_edges g (entryNodeId g) = []" using m by (simp add: one)
    then show "degrees_ok g" unfolding degrees_ok_def using h [unfolded one] by blast
  next
    assume "degrees_ok g"
    then show "\<forall>n \<in> set (nodes g). check_node_degree g n = Inr ()"
      unfolding degrees_ok_def one by blast
  qed
  finally show ?thesis .
qed

lemma check_conditions_iff:
  "check_stray_conditions g = Inr u \<and> check_branch_conditions g = Inr v \<longleftrightarrow> conditions_ok g"
proof -
  have stray: "check_stray_conditions g = Inr u \<longleftrightarrow> (\<forall>n \<in> set (nodes g). node_type n \<noteq> N_branch \<longrightarrow>
      condition ` set (out_edges g (node_id n)) \<subseteq> {None})"
    unfolding check_stray_conditions_def for_each_Inr
    by (auto simp: find_none_case out_edges_def)
  have branch: "check_branch_conditions g = Inr v \<longleftrightarrow> (\<forall>n \<in> set (nodes g). node_type n = N_branch \<longrightarrow>
      None \<notin> condition ` set (out_edges g (node_id n)) \<and>
      distinct (map condition (out_edges g (node_id n))))"
    unfolding check_branch_conditions_def for_each_Inr Let_def set_size_differs
    by (simp add: bindE_eq_Inr)
  show ?thesis
    unfolding stray branch conditions_ok_def Let_def by auto
qed

lemma check_configs_iff:
  "check_retry_policies g = Inr u1 \<and> check_extract_configs L g = Inr u2 \<and>
   check_connector_configs g = Inr u3 \<and> check_evaluator_configs L g = Inr u4 \<longleftrightarrow> configs_ok L g"
  by (auto simp: check_retry_policies_def check_extract_configs_def check_connector_configs_def
      check_evaluator_configs_def configs_ok_def for_each_Inr Let_def)

lemma search_reachable_iff:
  assumes "edges_within g"
  shows "(\<exists>vs. search_from_entry g = Inr vs \<and> check_reachable g vs = Inr ()) \<longleftrightarrow>
    acyclic (edge_rel g) \<and> (\<forall>n \<in> set (node_ids g). (entryNodeId g, n) \<in> (edge_rel g)\<^sup>*)"
    (is "?L \<longleftrightarrow> ?R")
proof
  assume ?L
  then obtain vs where vs: "search_from_entry g = Inr vs" "set (node_ids g) \<subseteq> set vs"
    by (auto simp: check_reachable_def for_each_Inr node_ids_def)
  note sound = search_from_entry_sound [OF vs(1)]
  have "(x, x) \<notin> (edge_rel g)\<^sup>+" for x
  proof
    assume cyc: "(x, x) \<in> (edge_rel g)\<^sup>+"
    then obtain y where "(x, y) \<in> edge_rel g" by (meson tranclD)
    then have "x \<in> set vs" using assms vs(2) by (auto simp: edges_within_def edge_rel_def)
    then show False using cyc topo_not_self sound by blast
  qed
  with sound vs(2) show ?R by (auto simp: acyclic_def)
next
  assume R: ?R
  then obtain vs where vs: "search_from_entry g = Inr vs"
    using search_from_entry_complete assms by blast
  with search_from_entry_sound [OF vs] R show ?L
    by (auto simp: check_reachable_def for_each_Inr node_ids_def)
qed


lemma wf_graph_backward_ok:
  assumes "edges_within g" "degrees_ok g" "acyclic (edge_rel g)"
  shows "backward_ok g"
proof -
  have "length (in_edges g n) \<in> {1, 2}" if "n \<in> set (node_ids g)" "n \<noteq> entryNodeId g" for n
  proof -
    from that(1) obtain m where "m \<in> set (nodes g)" "n = node_id m" by (auto simp: node_ids_def)
    with assms(2) that(2) show ?thesis by (auto simp: degrees_ok_def)
  qed
  with assms show ?thesis by (auto simp: backward_ok_def degrees_ok_def)
qed

lemma choices_loop_errors:
  assumes "backward_ok g"
  shows "set (map node_id ns) \<subseteq> set (node_ids g) \<Longrightarrow> cache_ok g cache \<Longrightarrow>
    choices_loop g ns cache = Inl err \<Longrightarrow> real_conflict g err"
proof (induction ns arbitrary: cache)
  case (Cons n ns)
  have post: "choices_post g (node_id n) (requiredChoices g (graph_fuel g) (node_id n) cache)"
    using requiredChoices_correct [OF assms] Cons.prems by simp
  have "requiredChoices g (graph_fuel g) (node_id n) cache \<noteq> Inl OutOfFuel"
    using assms by (intro requiredChoices_fuel ancestors_bound) (auto simp: backward_ok_def)
  with post Cons show ?case
    by (cases "requiredChoices g (graph_fuel g) (node_id n) cache") (auto simp: choices_post_def)
qed auto

lemma choices_loop_ok:
  assumes "backward_ok g"
  shows "set (map node_id ns) \<subseteq> set (node_ids g) \<Longrightarrow> cache_ok g cache \<Longrightarrow>
    choices_loop g ns cache = Inr () \<Longrightarrow> n \<in> set ns \<Longrightarrow> \<exists>c. choices_ok g (node_id n) c"
proof (induction ns arbitrary: cache)
  case (Cons m ns)
  have "choices_post g (node_id m) (requiredChoices g (graph_fuel g) (node_id m) cache)"
    using requiredChoices_correct [OF assms] Cons.prems by simp
  with Cons show ?case
    by (auto simp: choices_post_def bindE_eq_Inr)
qed auto

lemma choices_ok_unique:
  "choices_ok g n c \<Longrightarrow> requires g n b x \<Longrightarrow> requires g n b y \<Longrightarrow> x = y"
  unfolding choices_ok_def by (metis eq_key_imp_eq_value)

lemma requires_node: "edges_within g \<Longrightarrow> requires g n b x \<Longrightarrow> n \<in> set (node_ids g)"
  by (erule requires.cases) (auto simp: in_edges_def edges_within_def)

lemma choices_loop_iff:
  assumes "backward_ok g"
  shows "choices_loop g (nodes g) [] = Inr () \<longleftrightarrow> consistent_branches g"
proof
  assume ok: "choices_loop g (nodes g) [] = Inr ()"
  have "x = y" if "requires g n b x" "requires g n b y" for n b x y
  proof -
    have "n \<in> set (node_ids g)" using that assms requires_node by (auto simp: backward_ok_def)
    then obtain m where "m \<in> set (nodes g)" "n = node_id m" by (auto simp: node_ids_def)
    then obtain c where "choices_ok g n c"
      using choices_loop_ok [OF assms _ _ ok] by (auto simp: cache_ok_def node_ids_def)
    then show ?thesis using that by (rule choices_ok_unique)
  qed
  then show "consistent_branches g" by (auto simp: consistent_branches_def)
next
  assume "consistent_branches g"
  then have "\<not> real_conflict g err" for err
    by (auto simp: consistent_branches_def real_conflict_def)
  then show "choices_loop g (nodes g) [] = Inr ()"
    using choices_loop_errors [OF assms, of "nodes g" "[]"]
    by (cases "choices_loop g (nodes g) []") (auto simp: cache_ok_def node_ids_def)
qed

lemma validated_iff:
  "validateGraphStructure L g = Inr () \<longleftrightarrow> wf_graph L g \<and> consistent_branches g"
proof -
  have split: "validateGraphStructure L g = Inr () \<longleftrightarrow>
     check_ids g = Inr () \<and> (check_entry g = Inr () \<and> check_edges g = Inr ()) \<and>
     check_degrees g = Inr () \<and>
     (check_stray_conditions g = Inr () \<and> check_branch_conditions g = Inr ()) \<and>
     (check_retry_policies g = Inr () \<and> check_extract_configs L g = Inr () \<and>
      check_connector_configs g = Inr () \<and> check_evaluator_configs L g = Inr ()) \<and>
     (\<exists>vs. search_from_entry g = Inr vs \<and> check_reachable g vs = Inr ()) \<and>
     choices_loop g (nodes g) [] = Inr ()"
    unfolding validateGraphStructure_def by (auto simp: bindE_eq_Inr)
  show ?thesis
  proof (cases "edges_within g")
    case True
    then have entry: "entryNodeId g \<in> set (node_ids g)" by (simp add: edges_within_def)
    show ?thesis
      unfolding split check_ids_iff check_entry_edges_iff check_degrees_iff [OF entry]
        check_conditions_iff check_configs_iff search_reachable_iff [OF True] wf_graph_def
      using choices_loop_iff wf_graph_backward_ok True by blast
  next
    case False
    then show ?thesis unfolding split check_entry_edges_iff wf_graph_def by blast
  qed
qed

text \<open>
  C1. The validator accepts a graph exactly when the graph is well formed (unique ids, edges
  between existing nodes, one predecessor per node and two distinct ones per merge, no edge
  out of an end node, conditions exactly on the edges of branches and distinct there, valid
  configurations, no cycle, everything reachable from the entry) and no node requires one
  branch to take two different conditions.
\<close>

theorem validateGraphStructure_iff:
  "validateGraphStructure L g = Inr () \<longleftrightarrow> wf_graph L g \<and> consistent_branches g"
  by (rule validated_iff)

section \<open>Errors\<close>

lemma for_each_Inl: "for_each f xs = Inl e \<Longrightarrow> \<exists>x \<in> set xs. f x = Inl e"
  by (induction xs) (auto simp: bindE_eq_Inl)

definition search_error :: "graph_error \<Rightarrow> bool" where
  "search_error err \<longleftrightarrow> err = OutOfFuel \<or> err = GraphTypeError \<or>
     (\<exists>m. err = CycleAt m) \<or> (\<exists>m b x y. err = MergeConflict m b x y)"

lemma local_checks_no_search_error:
  assumes "search_error err"
  shows "check_ids g \<noteq> Inl err" "check_entry g \<noteq> Inl err" "check_edges g \<noteq> Inl err"
    "check_degrees g \<noteq> Inl err" "check_stray_conditions g \<noteq> Inl err"
    "check_retry_policies g \<noteq> Inl err" "check_extract_configs L g \<noteq> Inl err"
    "check_connector_configs g \<noteq> Inl err" "check_evaluator_configs L g \<noteq> Inl err"
    "check_branch_conditions g \<noteq> Inl err" "check_reachable g vs \<noteq> Inl err"
  using assms
  by (auto simp: search_error_def check_ids_def check_entry_def check_edges_def check_degrees_def
      check_node_degree_def check_stray_conditions_def check_retry_policies_def
      check_extract_configs_def check_connector_configs_def check_evaluator_configs_def
      check_branch_conditions_def check_reachable_def Let_def bindE_eq_Inl
      dest!: for_each_Inl split: if_splits option.splits)

lemma validate_search_error:
  assumes "validateGraphStructure L g = Inl err" "search_error err"
  shows "edges_within g \<and> (search_from_entry g = Inl err \<or>
    (backward_ok g \<and> choices_loop g (nodes g) [] = Inl err))"
proof -
  note local = local_checks_no_search_error [OF assms(2)]
  from assms(1) local have pass: "check_entry g = Inr () \<and> check_edges g = Inr ()"
    "check_degrees g = Inr ()"
    and rest: "search_from_entry g = Inl err \<or> (\<exists>vs. search_from_entry g = Inr vs \<and>
      check_reachable g vs = Inr () \<and> choices_loop g (nodes g) [] = Inl err)"
    unfolding validateGraphStructure_def by (auto simp: bindE_eq_Inl)
  then have within: "edges_within g" using check_entry_edges_iff by blast
  then have "degrees_ok g" using pass(2) check_degrees_iff by (auto simp: edges_within_def)
  with within rest show ?thesis
    using search_reachable_iff [OF within] wf_graph_backward_ok by blast
qed

text \<open>
  C6. Validation always ends with a verdict: it never runs out of fuel and never dereferences
  a missing predecessor. The two global errors are truthful: a reported cycle is a cycle of
  the graph, and a reported merge conflict names a branch whose two conditions are both
  required.
\<close>

theorem validateGraphStructure_errors:
  assumes "validateGraphStructure L g = Inl err"
  shows "err \<noteq> OutOfFuel \<and> err \<noteq> GraphTypeError \<and>
    (\<forall>m. err = CycleAt m \<longrightarrow> (m, m) \<in> (edge_rel g)\<^sup>+) \<and>
    (\<forall>m b x y. err = MergeConflict m b x y \<longrightarrow> requires g m b x \<and> requires g m b y \<and> x \<noteq> y)"
proof (cases "search_error err")
  case True
  note v = validate_search_error [OF assms True]
  show ?thesis
  proof (cases "search_from_entry g = Inl err")
    case s: True
    then have v': "visit g (graph_fuel g) (entryNodeId g) ({}, []) = Inl err"
      by (auto simp: search_from_entry_def bindE_eq_Inl)
    have "err \<noteq> OutOfFuel" using s v search_from_entry_fuel by metis
    then obtain m where "err = CycleAt m" using visit_errors(1) [OF v'] by auto
    then show ?thesis using visit_cycle(1) v' by auto
  next
    case False
    with v have "real_conflict g err"
      using choices_loop_errors [of g "nodes g" "[]" err] by (auto simp: cache_ok_def node_ids_def)
    then show ?thesis by (auto simp: real_conflict_def)
  qed
qed (auto simp: search_error_def)

definition cyclic_example :: workflow_graph where
  "cyclic_example = \<lparr>version = 1, trigger = Manual, entryNodeId = ''a'',
     nodes = [mk_node ''a'' N_start [], mk_node ''b'' N_merge [], mk_node ''c'' N_transform []],
     edges = [mk_edge ''a'' ''b'' None, mk_edge ''b'' ''c'' None, mk_edge ''c'' ''b'' None]\<rparr>"

definition any_config :: config_libs where
  "any_config = \<lparr>json_schema_ok = (\<lambda>_. True), regexp_ok = (\<lambda>_ _. True), safe_regex = (\<lambda>_. True)\<rparr>"

lemma cyclic_example_rejected: "validateGraphStructure any_config cyclic_example = Inl (CycleAt ''b'')"
  by code_simp

theorem validateGraphStructure_errors_witness:
  "validateGraphStructure any_config cyclic_example = Inl (CycleAt ''b'') \<and>
   (''b'', ''b'') \<in> (edge_rel cyclic_example)\<^sup>+"
  using validateGraphStructure_errors [OF cyclic_example_rejected] cyclic_example_rejected by blast

end
