(* ===== verification/Walker.thy ===== *)
theory Walker
  imports Validate_Graph
begin

text \<open>
  \<^verbatim>\<open>packages/runtime/src/interpreter/walker.ts\<close>: the generator that decides which node runs next.

  The generator's local variables are the record \<open>walk_state\<close>. What one call of \<^verbatim>\<open>next\<close> hands
  back is a \<open>walk_event\<close>: a step to execute together with the suspended state, the final
  result, or a thrown error. \<open>walk_start\<close> is the code before the loop, \<open>walk_loop\<close> the loop up to
  its \<^verbatim>\<open>yield\<close>, \<open>walk_resume\<close> the part from the \<^verbatim>\<open>yield\<close> on. \<open>walk_all\<close> is a caller that executes
  every step with a handler and keeps its own map of completed outputs, the way the
  interpreter does; it carries fuel, and \<open>graph_fuel\<close> units are enough for a validated graph.
\<close>

datatype walk_error =
    UnknownNode string
  | IncomingEdges string nat
  | UnmatchedBranch string
  | WalkTypeError

datatype walk_result = WCompleted | WFailed string string

record step_to_execute =
  step_node :: string
  step_type :: node_type
  step_input :: jsval

datatype step_result = StepOutput jsval | StepError string

type_synonym outputs = "(string, jsval) omap"

record walk_state =
  completed :: outputs
  queued :: "string set"
  ready :: "string list"

datatype walk_event = Yield step_to_execute walk_state | Return walk_result | Throw walk_error

definition getNode :: "workflow_graph \<Rightarrow> string \<Rightarrow> walk_error + workflow_node" where
  "getNode g i = (case find (\<lambda>n. node_id n = i) (nodes g) of
     None \<Rightarrow> Inl (UnknownNode i) | Some n \<Rightarrow> Inr n)"

definition incomingEdges :: "workflow_graph \<Rightarrow> string \<Rightarrow> workflow_edge list" where
  "incomingEdges g n = filter (\<lambda>e. edge_to e = n) (edges g)"

text \<open>Reading \<^verbatim>\<open>.branch\<close> of an output throws on null and undefined.\<close>

definition branch_of :: "jsval \<Rightarrow> walk_error + jsval" where
  "branch_of v = (if nullish v then Inl WalkTypeError else Inr (js_get v ''branch''))"

definition condition_value :: "workflow_edge \<Rightarrow> jsval" where
  "condition_value e = (case condition e of None \<Rightarrow> JUndef | Some c \<Rightarrow> JStr c)"

definition get_output :: "outputs \<Rightarrow> string \<Rightarrow> jsval" where
  "get_output m n = (case map_of m n of None \<Rightarrow> JUndef | Some v \<Rightarrow> v)"

definition isEdgeActivated :: "workflow_graph \<Rightarrow> outputs \<Rightarrow> workflow_edge \<Rightarrow> walk_error + bool" where
  "isEdgeActivated g m e =
    (if edge_from e \<notin> set (omap_keys m) then Inr False
     else bindE (getNode g (edge_from e)) (\<lambda>src.
       if node_type src \<noteq> N_branch then Inr True
       else bindE (branch_of (get_output m (edge_from e))) (\<lambda>b.
         Inr (strict_eq b (condition_value e)))))"

definition isReady :: "workflow_graph \<Rightarrow> outputs \<Rightarrow> string \<Rightarrow> walk_error + bool" where
  "isReady g m n = everyE (isEdgeActivated g m) (incomingEdges g n)"

definition resolveInput ::
  "workflow_graph \<Rightarrow> workflow_node \<Rightarrow> outputs \<Rightarrow> jsval \<Rightarrow> walk_error + jsval" where
  "resolveInput g n m triggerPayload =
    (if node_id n = entryNodeId g then Inr triggerPayload
     else
       let incoming = incomingEdges g (node_id n) in
       if node_type n = N_merge then Inr (JArr (map (\<lambda>e. get_output m (edge_from e)) incoming))
       else (case incoming of
           [e] \<Rightarrow> Inr (get_output m (edge_from e))
         | _ \<Rightarrow> Inl (IncomingEdges (node_id n) (length incoming))))"

definition nextNodeIds :: "workflow_graph \<Rightarrow> workflow_node \<Rightarrow> jsval \<Rightarrow> walk_error + string list" where
  "nextNodeIds g n out =
    (let outgoing = filter (\<lambda>e. edge_from e = node_id n) (edges g) in
     if outgoing = [] then Inr []
     else if node_type n = N_branch then
       bindE (branch_of out) (\<lambda>b.
         (case find (\<lambda>e. strict_eq (condition_value e) b) outgoing of
            None \<Rightarrow> Inl (UnmatchedBranch (node_id n))
          | Some matched \<Rightarrow> Inr [edge_to matched]))
     else Inr (map edge_to outgoing))"

definition enqueue :: "workflow_graph \<Rightarrow> string \<Rightarrow> walk_state \<Rightarrow> walk_error + walk_state" where
  "enqueue g n st =
    (if n \<in> set (omap_keys (completed st)) \<or> n \<in> queued st then Inr st
     else bindE (isReady g (completed st) n) (\<lambda>r.
       if r then Inr (st\<lparr>queued := insert n (queued st), ready := ready st @ [n]\<rparr>) else Inr st))"

fun enqueue_all :: "workflow_graph \<Rightarrow> string list \<Rightarrow> walk_state \<Rightarrow> walk_error + walk_state" where
  "enqueue_all g [] st = Inr st"
| "enqueue_all g (n # ns) st = bindE (enqueue g n st) (enqueue_all g ns)"

fun walk_loop ::
  "workflow_graph \<Rightarrow> jsval \<Rightarrow> outputs \<Rightarrow> string set \<Rightarrow> string list \<Rightarrow> walk_event" where
  "walk_loop g trig m q [] = Return WCompleted"
| "walk_loop g trig m q (n # ns) =
    (if n \<in> set (omap_keys m) then walk_loop g trig m (q - {n}) ns
     else (case bindE (getNode g n) (\<lambda>node.
             bindE (resolveInput g node m trig) (\<lambda>i.
               Inr \<lparr>step_node = node_id node, step_type = node_type node, step_input = i\<rparr>)) of
         Inl e \<Rightarrow> Throw e
       | Inr s \<Rightarrow> Yield s \<lparr>completed = m, queued = q - {n}, ready = ns\<rparr>))"

definition walk_from :: "workflow_graph \<Rightarrow> jsval \<Rightarrow> walk_error + walk_state \<Rightarrow> walk_event" where
  "walk_from g trig r = (case r of
     Inl e \<Rightarrow> Throw e | Inr st \<Rightarrow> walk_loop g trig (completed st) (queued st) (ready st))"

definition walk_start :: "workflow_graph \<Rightarrow> jsval \<Rightarrow> outputs \<Rightarrow> walk_event" where
  "walk_start g trig m = walk_from g trig
     (enqueue_all g (map node_id (nodes g)) \<lparr>completed = m, queued = {}, ready = []\<rparr>)"

definition walk_resume ::
  "workflow_graph \<Rightarrow> jsval \<Rightarrow> step_to_execute \<Rightarrow> walk_state \<Rightarrow> step_result \<Rightarrow> walk_event" where
  "walk_resume g trig s st r = (case r of
       StepError msg \<Rightarrow> Return (WFailed (step_node s) msg)
     | StepOutput out \<Rightarrow>
         let m = omap_set (step_node s) out (completed st) in
         walk_from g trig (bindE (getNode g (step_node s)) (\<lambda>node.
           bindE (nextNodeIds g node out) (\<lambda>ids. enqueue_all g ids (st\<lparr>completed := m\<rparr>)))))"

text \<open>A caller that executes every step with one handler.\<close>

type_synonym handler = "string \<Rightarrow> jsval \<Rightarrow> step_result"

definition record_output :: "step_to_execute \<Rightarrow> step_result \<Rightarrow> outputs \<Rightarrow> outputs" where
  "record_output s r m = (case r of StepOutput out \<Rightarrow> omap_set (step_node s) out m | StepError _ \<Rightarrow> m)"

fun drive ::
  "workflow_graph \<Rightarrow> jsval \<Rightarrow> handler \<Rightarrow> nat \<Rightarrow> walk_event \<Rightarrow> outputs \<Rightarrow>
     (outputs \<times> (walk_error + walk_result)) option" where
  "drive g trig f 0 ev m = None"
| "drive g trig f (Suc k) ev m = (case ev of
       Return r \<Rightarrow> Some (m, Inr r)
     | Throw e \<Rightarrow> Some (m, Inl e)
     | Yield s st \<Rightarrow> (let r = f (step_node s) (step_input s) in
         drive g trig f k (walk_resume g trig s st r) (record_output s r m)))"

definition walk_all ::
  "workflow_graph \<Rightarrow> jsval \<Rightarrow> handler \<Rightarrow> outputs \<Rightarrow> (outputs \<times> (walk_error + walk_result)) option" where
  "walk_all g trig f m = drive g trig f (graph_fuel g) (walk_start g trig m) m"

section \<open>Readiness\<close>

text \<open>
  An edge is active when its source has completed and, if the source is a branch, its output
  selected the edge. The frontier of a set of outputs is the nodes that are ready to run.
\<close>

definition edge_active :: "workflow_graph \<Rightarrow> outputs \<Rightarrow> workflow_edge \<Rightarrow> bool" where
  "edge_active g m e \<longleftrightarrow> edge_from e \<in> set (omap_keys m) \<and>
     (is_branch g (edge_from e) \<longrightarrow>
        strict_eq (js_get (get_output m (edge_from e)) ''branch'') (condition_value e))"

definition active :: "workflow_graph \<Rightarrow> outputs \<Rightarrow> string \<Rightarrow> bool" where
  "active g m n \<longleftrightarrow> (\<forall>e \<in> set (in_edges g n). edge_active g m e)"

definition frontier :: "workflow_graph \<Rightarrow> outputs \<Rightarrow> string set" where
  "frontier g m = {n \<in> set (node_ids g). n \<notin> set (omap_keys m) \<and> active g m n}"

text \<open>Outputs a branch node may have: the handler returns an object naming an outgoing edge.\<close>

definition good_output :: "workflow_graph \<Rightarrow> string \<Rightarrow> jsval \<Rightarrow> bool" where
  "good_output g n out \<longleftrightarrow> (is_branch g n \<longrightarrow> \<not> nullish out \<and>
     (out_edges g n = [] \<or> (\<exists>e \<in> set (out_edges g n). strict_eq (js_get out ''branch'') (condition_value e))))"

definition outputs_ok :: "workflow_graph \<Rightarrow> outputs \<Rightarrow> bool" where
  "outputs_ok g m \<longleftrightarrow> omap_wf m \<and> set (omap_keys m) \<subseteq> set (node_ids g) \<and>
     (\<forall>n v. map_of m n = Some v \<longrightarrow> is_branch g n \<longrightarrow> \<not> nullish v)"

lemma strict_eq_commute: "strict_eq a b = strict_eq b a"
  by (cases a; cases b; auto) (metis num_eq.elims(2) num_eq.simps)+

lemma incomingEdges_eq: "incomingEdges g n = in_edges g n"
  by (simp add: incomingEdges_def in_edges_def)

lemma node_of_Some: "n \<in> set (node_ids g) \<Longrightarrow> \<exists>m. node_of g n = Some m \<and> node_id m = n \<and> m \<in> set (nodes g)"
  by (cases "node_of g n")
     (auto simp: node_of_def node_ids_def find_None_iff dest: find_row_Some)

lemma getNode_eq: "n \<in> set (node_ids g) \<Longrightarrow> \<exists>m. getNode g n = Inr m \<and> node_of g n = Some m \<and> node_id m = n \<and> m \<in> set (nodes g)"
  using node_of_Some [of n g] by (auto simp: getNode_def node_of_def)

lemma isEdgeActivated_eq:
  assumes "outputs_ok g m"
  shows "isEdgeActivated g m e = Inr (edge_active g m e)"
proof (cases "edge_from e \<in> set (omap_keys m)")
  case True
  then have "edge_from e \<in> set (node_ids g)" using assms by (auto simp: outputs_ok_def)
  then obtain src where src: "getNode g (edge_from e) = Inr src" "node_of g (edge_from e) = Some src"
    using getNode_eq by blast
  obtain v where v: "map_of m (edge_from e) = Some v"
    using True by (metis in_set_conv_nth map_of_eq_None_iff list.set_map not_None_eq)
  show ?thesis
  proof (cases "node_type src = N_branch")
    case br: True
    then have "\<not> nullish v" using assms v src(2) by (auto simp: outputs_ok_def is_branch_def)
    then show ?thesis
      using True src v br
      by (simp add: isEdgeActivated_def edge_active_def branch_of_def is_branch_def get_output_def)
  qed (use True src v in \<open>auto simp: isEdgeActivated_def edge_active_def is_branch_def\<close>)
qed (auto simp: isEdgeActivated_def edge_active_def)

lemma isReady_eq: "outputs_ok g m \<Longrightarrow> isReady g m n = Inr (active g m n)"
  unfolding isReady_def incomingEdges_eq active_def
  by (intro everyE_total) (simp add: isEdgeActivated_eq)


section \<open>The queue holds exactly the frontier\<close>

lemma enqueue_eq:
  assumes "outputs_ok g (completed st)"
  shows "enqueue g n st = Inr (if n \<in> set (omap_keys (completed st)) \<or> n \<in> queued st \<or>
      \<not> active g (completed st) n then st
    else st\<lparr>queued := insert n (queued st), ready := ready st @ [n]\<rparr>)"
  by (simp add: enqueue_def isReady_eq [OF assms])

definition queue_ok :: "walk_state \<Rightarrow> bool" where
  "queue_ok st \<longleftrightarrow> distinct (ready st) \<and> queued st = set (ready st)"

lemma enqueue_all_ok:
  assumes "outputs_ok g (completed st)" "queue_ok st"
  shows "\<exists>st'. enqueue_all g ns st = Inr st' \<and> queue_ok st' \<and> completed st' = completed st \<and>
    set (ready st') = set (ready st) \<union>
      {n \<in> set ns. n \<notin> set (omap_keys (completed st)) \<and> active g (completed st) n}"
  using assms
proof (induction ns arbitrary: st)
  case (Cons n ns)
  define st1 where "st1 = (if n \<in> set (omap_keys (completed st)) \<or> n \<in> queued st \<or>
      \<not> active g (completed st) n then st
    else st\<lparr>queued := insert n (queued st), ready := ready st @ [n]\<rparr>)"
  have enq: "enqueue g n st = Inr st1" using enqueue_eq [OF Cons.prems(1)] by (simp add: st1_def)
  have c1: "completed st1 = completed st" and q1: "queue_ok st1"
    using Cons.prems(2) by (auto simp: st1_def queue_ok_def)
  have r1: "set (ready st1) = set (ready st) \<union>
      (if n \<notin> set (omap_keys (completed st)) \<and> active g (completed st) n then {n} else {})"
    using Cons.prems(2) by (auto simp: st1_def queue_ok_def)
  obtain st' where st': "enqueue_all g ns st1 = Inr st'" "queue_ok st'" "completed st' = completed st1"
    "set (ready st') = set (ready st1) \<union>
       {n \<in> set ns. n \<notin> set (omap_keys (completed st1)) \<and> active g (completed st1) n}"
    using Cons.IH [OF _ q1] Cons.prems(1) by (auto simp: c1)
  have "enqueue_all g (n # ns) st = Inr st'" using enq st'(1) by simp
  moreover have "set (ready st') = set (ready st) \<union>
      {k \<in> set (n # ns). k \<notin> set (omap_keys (completed st)) \<and> active g (completed st) k}"
    unfolding st'(4) r1 c1 by auto
  ultimately show ?case using st'(2,3) c1 by auto
qed simp

text \<open>The invariant of the walk: its queue is the frontier of what has completed.\<close>

definition walk_inv :: "workflow_graph \<Rightarrow> walk_state \<Rightarrow> bool" where
  "walk_inv g st \<longleftrightarrow> outputs_ok g (completed st) \<and> queue_ok st \<and>
     set (ready st) = frontier g (completed st)"

lemma walk_start_inv:
  assumes "outputs_ok g m"
  shows "\<exists>st. walk_start g trig m = walk_loop g trig m (queued st) (ready st) \<and>
    completed st = m \<and> walk_inv g st"
proof -
  obtain st where st: "enqueue_all g (map node_id (nodes g))
      \<lparr>completed = m, queued = {}, ready = []\<rparr> = Inr st"
    "queue_ok st" "completed st = m"
    "set (ready st) = {n \<in> set (map node_id (nodes g)). n \<notin> set (omap_keys m) \<and> active g m n}"
    using enqueue_all_ok [of g "\<lparr>completed = m, queued = {}, ready = []\<rparr>" "map node_id (nodes g)"]
      assms
    by (fastforce simp: queue_ok_def)
  then have "walk_inv g st" using assms by (simp add: walk_inv_def frontier_def node_ids_def)
  with st show ?thesis by (auto simp: walk_start_def walk_from_def)
qed

subsection \<open>Completing one node\<close>

lemma get_output_set: "get_output (omap_set n v m) k = (if k = n then v else get_output m k)"
  by (simp add: get_output_def map_of_omap_set)

lemma keys_set [simp]: "fst ` set (omap_set n v m) = insert n (fst ` set m)"
  using jsmap.set_keys_put [of n v m] by simp

lemma edge_active_other:
  "edge_from e \<noteq> n \<Longrightarrow> edge_active g (omap_set n v m) e = edge_active g m e"
  by (simp add: edge_active_def get_output_set)

lemma active_mono: "active g m k \<Longrightarrow> n \<notin> set (omap_keys m) \<Longrightarrow> active g (omap_set n v m) k"
  by (metis active_def edge_active_def edge_active_other)

lemma outputs_ok_set:
  assumes "outputs_ok g m" "n \<in> set (node_ids g)" "good_output g n v"
  shows "outputs_ok g (omap_set n v m)"
  using assms by (auto simp: outputs_ok_def map_of_omap_set keys_omap_set good_output_def
      split: if_splits)

lemma conditions_distinct:
  assumes "conditions_ok g" "is_branch g n" "e \<in> set (out_edges g n)" "e' \<in> set (out_edges g n)"
    "strict_eq b (condition_value e)" "strict_eq b (condition_value e')"
  shows "edge_to e = edge_to e'"
proof -
  from assms(2) obtain m where m: "m \<in> set (nodes g)" "node_id m = n" "node_type m = N_branch"
    by (auto simp: is_branch_def node_of_def dest: find_row_Some)
  with assms(1) have d: "distinct (map condition (out_edges g n))"
    and some: "None \<notin> condition ` set (out_edges g n)"
    by (auto simp: conditions_ok_def Let_def)
  obtain c c' where "condition e = Some c" "condition e' = Some c'"
    using some assms(3,4) by (metis image_eqI not_None_eq)
  with assms(5,6) have "condition e = condition e'"
    by (cases b) (auto simp: condition_value_def)
  with d assms(3,4) show ?thesis by (metis distinct_map inj_onD)
qed

text \<open>The nodes a completed node hands on are the targets of its active edges.\<close>

lemma nextNodeIds_ok:
  assumes "conditions_ok g" "node_of g n = Some node" "node_id node = n" "good_output g n v"
  shows "\<exists>ids. nextNodeIds g node v = Inr ids \<and>
    set ids = edge_to ` {e \<in> set (out_edges g n). edge_active g (omap_set n v m) e}"
proof -
  have act: "edge_active g (omap_set n v m) e \<longleftrightarrow>
      (is_branch g n \<longrightarrow> strict_eq (js_get v ''branch'') (condition_value e))"
    if "e \<in> set (out_edges g n)" for e
    using that by (auto simp: out_edges_def edge_active_def get_output_set)
  have br: "is_branch g n \<longleftrightarrow> node_type node = N_branch" using assms(2) by (simp add: is_branch_def)
  have out: "filter (\<lambda>e. edge_from e = node_id node) (edges g) = out_edges g n"
    by (simp add: out_edges_def assms(3))
  show ?thesis
  proof (cases "node_type node = N_branch \<and> out_edges g n \<noteq> []")
    case True
    with assms(4) br obtain e where e: "e \<in> set (out_edges g n)"
      "strict_eq (js_get v ''branch'') (condition_value e)" and nn: "\<not> nullish v"
      by (auto simp: good_output_def)
    then obtain e' where e': "find (\<lambda>e. strict_eq (condition_value e) (js_get v ''branch''))
        (out_edges g n) = Some e'"
      by (cases "find (\<lambda>e. strict_eq (condition_value e) (js_get v ''branch'')) (out_edges g n)")
         (auto simp: find_None_iff strict_eq_commute)
    then have e'2: "e' \<in> set (out_edges g n)" "strict_eq (js_get v ''branch'') (condition_value e')"
      by (auto dest!: find_row_Some simp: strict_eq_commute)
    have "edge_to ` {e \<in> set (out_edges g n). edge_active g (omap_set n v m) e} = {edge_to e'}"
      using act e'2 br True conditions_distinct [OF assms(1)] by blast
    with True e' nn show ?thesis
      by (simp add: nextNodeIds_def out branch_of_def)
  next
    case False
    then have "nextNodeIds g node v = Inr (map edge_to (out_edges g n))"
      by (auto simp: nextNodeIds_def out Let_def)
    moreover have "{e \<in> set (out_edges g n). edge_active g (omap_set n v m) e} = set (out_edges g n)"
      using act br False by auto
    ultimately show ?thesis by simp
  qed
qed


lemma frontier_step:
  assumes "n \<in> frontier g m" "edges_within g"
  shows "frontier g (omap_set n v m) = (frontier g m - {n}) \<union>
    {k \<in> edge_to ` {e \<in> set (out_edges g n). edge_active g (omap_set n v m) e}.
       k \<notin> set (omap_keys (omap_set n v m)) \<and> active g (omap_set n v m) k}"
    (is "?L = ?R")
proof
  have nk: "n \<notin> set (omap_keys m)" using assms(1) by (simp add: frontier_def)
  show "?L \<subseteq> ?R"
  proof
    fix k
    assume k: "k \<in> ?L"
    show "k \<in> ?R"
    proof (cases "\<exists>e \<in> set (in_edges g k). edge_from e = n")
      case True
      then obtain e where e: "e \<in> set (in_edges g k)" "edge_from e = n" by blast
      then have "e \<in> set (out_edges g n)" "edge_to e = k" by (auto simp: in_edges_def out_edges_def)
      with k e show ?thesis by (auto simp: frontier_def active_def)
    next
      case False
      then have "active g m k" using k edge_active_other by (auto simp: frontier_def active_def)
      with k show ?thesis by (auto simp: frontier_def)
    qed
  qed
  show "?R \<subseteq> ?L"
    using assms nk active_mono [of g m _ n v]
    by (auto simp: frontier_def edges_within_def out_edges_def)
qed

section \<open>Suspended walks\<close>

text \<open>What holds at every \<^verbatim>\<open>yield\<close>: the step is a frontier node with its resolved input.\<close>

definition suspended :: "workflow_graph \<Rightarrow> jsval \<Rightarrow> step_to_execute \<Rightarrow> walk_state \<Rightarrow> bool" where
  "suspended g trig s st \<longleftrightarrow> outputs_ok g (completed st) \<and> queue_ok st \<and>
     step_node s \<notin> set (ready st) \<and>
     insert (step_node s) (set (ready st)) = frontier g (completed st) \<and>
     (\<exists>node. node_of g (step_node s) = Some node \<and> node_id node = step_node s \<and>
        step_type s = node_type node \<and>
        resolveInput g node (completed st) trig = Inr (step_input s))"

lemma resolveInput_ok:
  assumes "degrees_ok g" "node \<in> set (nodes g)"
  shows "\<exists>i. resolveInput g node m trig = Inr i"
proof (cases "node_id node = entryNodeId g \<or> node_type node = N_merge")
  case False
  with assms have "length (in_edges g (node_id node)) = 1" by (auto simp: degrees_ok_def)
  with False show ?thesis
    by (auto simp: resolveInput_def incomingEdges_eq length_Suc_conv)
qed (auto simp: resolveInput_def Let_def)

lemma walk_loop_suspended:
  assumes "degrees_ok g" "walk_inv g st"
  shows "(ready st = [] \<and> walk_loop g trig (completed st) (queued st) (ready st) = Return WCompleted) \<or>
    (\<exists>s st'. walk_loop g trig (completed st) (queued st) (ready st) = Yield s st' \<and>
       completed st' = completed st \<and> suspended g trig s st')"
proof (cases "ready st")
  case (Cons n ns)
  have front: "frontier g (completed st) = insert n (set ns)" and dist: "n \<notin> set ns" "distinct ns"
    and q: "queued st - {n} = set ns"
    using assms(2) Cons by (auto simp: walk_inv_def queue_ok_def)
  then have n: "n \<in> set (node_ids g)" "n \<notin> set (omap_keys (completed st))"
    by (auto simp: frontier_def)
  then obtain node where node: "getNode g n = Inr node" "node_of g n = Some node" "node_id node = n"
    "node \<in> set (nodes g)"
    using getNode_eq by blast
  obtain i where "resolveInput g node (completed st) trig = Inr i"
    using resolveInput_ok [OF assms(1) node(4)] by blast
  with assms(2) Cons n node front dist q show ?thesis
    by (auto simp: suspended_def walk_inv_def queue_ok_def)
qed simp

lemma walk_resume_inv:
  assumes "edges_within g" "conditions_ok g" "suspended g trig s st" "good_output g (step_node s) v"
  shows "\<exists>st'. walk_resume g trig s st (StepOutput v) =
      walk_loop g trig (completed st') (queued st') (ready st') \<and>
    completed st' = omap_set (step_node s) v (completed st) \<and> walk_inv g st'"
proof -
  define m' where "m' = omap_set (step_node s) v (completed st)"
  from assms(3) obtain node where node: "node_of g (step_node s) = Some node"
    "node_id node = step_node s" by (auto simp: suspended_def)
  have front: "step_node s \<in> frontier g (completed st)" and
    rest: "frontier g (completed st) - {step_node s} = set (ready st)"
    using assms(3) by (auto simp: suspended_def)
  have n: "step_node s \<in> set (node_ids g)" using front by (simp add: frontier_def)
  have get: "getNode g (step_node s) = Inr node" using node(1) by (simp add: getNode_def node_of_def)
  obtain ids where ids: "nextNodeIds g node v = Inr ids"
    "set ids = edge_to ` {e \<in> set (out_edges g (step_node s)). edge_active g m' e}"
    using nextNodeIds_ok [OF assms(2) node assms(4)] m'_def by blast
  have ok: "outputs_ok g m'"
    using assms(3,4) n by (auto simp: m'_def suspended_def intro: outputs_ok_set)
  moreover have "queue_ok (st\<lparr>completed := m'\<rparr>)" using assms(3) by (simp add: suspended_def queue_ok_def)
  ultimately obtain st' where st': "enqueue_all g ids (st\<lparr>completed := m'\<rparr>) = Inr st'" "queue_ok st'"
    "completed st' = m'" "set (ready st') = set (ready st) \<union>
       {k \<in> set ids. k \<notin> set (omap_keys m') \<and> active g m' k}"
    using enqueue_all_ok [of g "st\<lparr>completed := m'\<rparr>" ids] by auto
  have "set (ready st') = frontier g m'"
    using frontier_step [OF front assms(1), of v] st'(4) ids(2) rest by (simp add: m'_def)
  then have inv: "walk_inv g st'" using st' ok by (simp add: walk_inv_def)
  have "walk_resume g trig s st (StepOutput v) =
      walk_loop g trig (completed st') (queued st') (ready st')"
    using st'(1) get ids(1) by (simp add: walk_resume_def walk_from_def m'_def Let_def)
  with inv st'(3) show ?thesis unfolding m'_def by blast
qed

section \<open>Runs with a handler\<close>

text \<open>
  Outputs are explained by a handler when every one of them is what the handler returns for
  a node that was ready, on the input resolved from the outputs themselves.
\<close>

definition explained :: "workflow_graph \<Rightarrow> jsval \<Rightarrow> handler \<Rightarrow> outputs \<Rightarrow> bool" where
  "explained g trig f m \<longleftrightarrow> outputs_ok g m \<and>
     (\<forall>n v. map_of m n = Some v \<longrightarrow> active g m n \<and>
        (\<exists>node i. node_of g n = Some node \<and> resolveInput g node m trig = Inr i \<and> f n i = StepOutput v))"

lemma get_output_eq:
  "(\<And>e. e \<in> set (in_edges g n) \<Longrightarrow> map_of m (edge_from e) = map_of m' (edge_from e)) \<Longrightarrow>
     e \<in> set (in_edges g n) \<Longrightarrow> get_output m (edge_from e) = get_output m' (edge_from e)"
  by (simp add: get_output_def)

lemma resolveInput_cong:
  assumes "\<And>e. e \<in> set (in_edges g (node_id node)) \<Longrightarrow> map_of m (edge_from e) = map_of m' (edge_from e)"
  shows "resolveInput g node m trig = resolveInput g node m' trig"
proof -
  have "map (\<lambda>e. get_output m (edge_from e)) (in_edges g (node_id node)) =
      map (\<lambda>e. get_output m' (edge_from e)) (in_edges g (node_id node))"
    using get_output_eq [of g "node_id node" m m'] assms by auto
  then show ?thesis by (auto simp: resolveInput_def incomingEdges_eq Let_def split: list.splits)
qed

lemma active_cong:
  assumes "\<And>e. e \<in> set (in_edges g n) \<Longrightarrow> map_of m (edge_from e) = map_of m' (edge_from e)"
  shows "active g m n = active g m' n"
proof -
  have "edge_active g m e = edge_active g m' e" if "e \<in> set (in_edges g n)" for e
    using assms [OF that] get_output_eq [of g n m m' e] that assms
    by (simp add: edge_active_def) (metis list.set_map map_of_eq_None_iff)
  then show ?thesis by (simp add: active_def)
qed

lemma active_sources:
  assumes "active g m n" "k \<notin> set (omap_keys m)" "e \<in> set (in_edges g n)"
  shows "map_of (omap_set k v m) (edge_from e) = map_of m (edge_from e)"
  using assms by (auto simp: active_def edge_active_def map_of_omap_set)

lemma explained_step:
  assumes "explained g trig f m" "suspended g trig s st" "completed st = m"
    "f (step_node s) (step_input s) = StepOutput v" "good_output g (step_node s) v"
  shows "explained g trig f (omap_set (step_node s) v m)"
proof -
  define m' where "m' = omap_set (step_node s) v m"
  have n: "step_node s \<in> set (node_ids g)" "step_node s \<notin> set (omap_keys m)" "active g m (step_node s)"
    using assms(2,3) by (auto simp: suspended_def frontier_def)
  have keep: "active g m' k \<and> resolveInput g node m' trig = resolveInput g node m trig"
    if "active g m k" "node_id node = k" for k node
    using active_mono [OF that(1) n(2)] active_sources [OF that(1) n(2)] that(2)
    by (auto simp: m'_def intro!: resolveInput_cong)
  have "active g m' k \<and> (\<exists>node i. node_of g k = Some node \<and> resolveInput g node m' trig = Inr i \<and>
      f k i = StepOutput w)" if "map_of m' k = Some w" for k w
  proof (cases "k = step_node s")
    case True
    with that assms(2-4) keep n(3) show ?thesis
      by (auto simp: m'_def map_of_omap_set suspended_def)
  next
    case False
    then have "map_of m k = Some w" using that by (simp add: m'_def map_of_omap_set)
    with assms(1) obtain node i where "active g m k" "node_of g k = Some node"
      "resolveInput g node m trig = Inr i" "f k i = StepOutput w"
      unfolding explained_def by blast
    moreover then have "node_id node = k" by (auto simp: node_of_def dest: find_row_Some)
    ultimately show ?thesis using keep by auto
  qed
  moreover have "outputs_ok g m'"
    using assms(1,5) n(1) by (auto simp: m'_def explained_def intro: outputs_ok_set)
  ultimately show ?thesis by (auto simp: explained_def m'_def)
qed

subsection \<open>Driving the walk to its end\<close>

definition good_handler :: "workflow_graph \<Rightarrow> handler \<Rightarrow> bool" where
  "good_handler g f \<longleftrightarrow> (\<forall>n i v. n \<in> set (node_ids g) \<longrightarrow> f n i = StepOutput v \<longrightarrow> good_output g n v)"

text \<open>What a finished run reports: nothing is left to run, or a ready node failed.\<close>

definition run_result :: "workflow_graph \<Rightarrow> jsval \<Rightarrow> handler \<Rightarrow> outputs \<Rightarrow> walk_result \<Rightarrow> bool" where
  "run_result g trig f m r \<longleftrightarrow> (case r of
       WCompleted \<Rightarrow> frontier g m = {}
     | WFailed n msg \<Rightarrow> n \<in> frontier g m \<and> (\<exists>node i. node_of g n = Some node \<and>
         resolveInput g node m trig = Inr i \<and> f n i = StepError msg))"

lemma keys_less:
  assumes "outputs_ok g m" "n \<in> set (node_ids g)" "n \<notin> set (omap_keys m)"
  shows "card (set (node_ids g)) - card (set (omap_keys (omap_set n v m)))
    < card (set (node_ids g)) - card (set (omap_keys m))"
proof -
  have "insert n (set (omap_keys m)) \<subseteq> set (node_ids g)" using assms by (auto simp: outputs_ok_def)
  then have "card (insert n (set (omap_keys m))) \<le> card (set (node_ids g))"
    by (intro card_mono) auto
  moreover have "card (insert n (set (omap_keys m))) = Suc (card (set (omap_keys m)))"
    using assms(3) by (intro card_insert_disjoint) auto
  ultimately show ?thesis by simp
qed

lemma drive_correct:
  assumes g: "edges_within g" "conditions_ok g" "degrees_ok g" "good_handler g f"
    and inv: "walk_inv g st" "explained g trig f (completed st)"
    and fuel: "Suc (card (set (node_ids g)) - card (set (omap_keys (completed st)))) \<le> k"
  shows "\<exists>m' ext r. drive g trig f k (walk_loop g trig (completed st) (queued st) (ready st)) (completed st)
      = Some (m', Inr r) \<and> m' = completed st @ ext \<and>
      (\<forall>j. explained g trig f (completed st @ take j ext)) \<and> run_result g trig f m' r"
  using inv fuel
proof (induction k arbitrary: st)
  case (Suc k)
  let ?m = "completed st"
  from walk_loop_suspended [OF g(3) Suc.prems(1), of trig] show ?case
  proof (elim disjE exE conjE)
    assume "ready st = []" "walk_loop g trig ?m (queued st) (ready st) = Return WCompleted"
    then show ?thesis using Suc.prems(1,2) by (simp add: run_result_def walk_inv_def)
  next
    fix s st'
    assume y: "walk_loop g trig ?m (queued st) (ready st) = Yield s st'" "completed st' = ?m"
      "suspended g trig s st'"
    have n: "step_node s \<in> set (node_ids g)" "step_node s \<notin> set (omap_keys ?m)"
      "step_node s \<in> frontier g ?m"
      using y by (auto simp: suspended_def frontier_def)
    show ?thesis
    proof (cases "f (step_node s) (step_input s)")
      case (StepError msg)
      have "0 < k" using Suc.prems(3) keys_less [of g ?m "step_node s"] n Suc.prems(1)
        by (auto simp: walk_inv_def)
      then have "drive g trig f (Suc k) (Yield s st') ?m = Some (?m, Inr (WFailed (step_node s) msg))"
        using StepError by (cases k) (auto simp: walk_resume_def record_output_def)
      moreover have "run_result g trig f ?m (WFailed (step_node s) msg)"
        using y StepError n(3) by (auto simp: run_result_def suspended_def)
      ultimately show ?thesis using y(1) Suc.prems(2) by auto
    next
      case (StepOutput v)
      have good: "good_output g (step_node s) v" using g(4) n(1) StepOutput by (auto simp: good_handler_def)
      obtain st2 where st2: "walk_resume g trig s st' (StepOutput v) =
          walk_loop g trig (completed st2) (queued st2) (ready st2)"
        "completed st2 = omap_set (step_node s) v ?m" "walk_inv g st2"
        using walk_resume_inv [OF g(1,2) y(3) good] y(2) by auto
      have ex: "explained g trig f (completed st2)"
        using explained_step [OF Suc.prems(2) y(3,2) StepOutput good] st2(2) by simp
      have "Suc (card (set (node_ids g)) - card (set (omap_keys (completed st2)))) \<le> k"
        using keys_less [of g ?m "step_node s" v] n Suc.prems(1,3) st2(2) by (auto simp: walk_inv_def)
      from Suc.IH [OF st2(3) ex this] obtain m' ext r where d:
        "drive g trig f k (walk_loop g trig (completed st2) (queued st2) (ready st2)) (completed st2)
           = Some (m', Inr r)" "m' = completed st2 @ ext"
        "\<And>j. explained g trig f (completed st2 @ take j ext)" "run_result g trig f m' r"
        by blast
      have "drive g trig f (Suc k) (walk_loop g trig ?m (queued st) (ready st)) ?m = Some (m', Inr r)"
        using d(1) y(1) StepOutput st2(1,2) by (simp add: record_output_def)
      moreover have c2: "completed st2 = ?m @ [(step_node s, v)]"
        using st2(2) omap_set_new [OF n(2)] by simp
      moreover have "explained g trig f (?m @ take j ((step_node s, v) # ext))" for j
        using d(3) [of "j - 1"] Suc.prems(2) c2 by (cases j) auto
      ultimately show ?thesis using d(2,4) by auto
    qed
  qed
qed simp

lemma walk_all_run:
  assumes "validateGraphStructure L g = Inr ()" "good_handler g f" "explained g trig f m"
  shows "\<exists>ext r. walk_all g trig f m = Some (m @ ext, Inr r) \<and>
    (\<forall>j. explained g trig f (m @ take j ext)) \<and> run_result g trig f (m @ ext) r"
proof -
  have g: "edges_within g" "conditions_ok g" "degrees_ok g"
    using assms(1) unfolding validated_iff wf_graph_def by auto
  obtain st where st: "walk_start g trig m = walk_loop g trig m (queued st) (ready st)"
    "completed st = m" "walk_inv g st"
    using walk_start_inv assms(3) unfolding explained_def by blast
  have fuel: "Suc (card (set (node_ids g)) - card (set (omap_keys m))) \<le> graph_fuel g"
    using card_length [of "node_ids g"] by (simp add: graph_fuel_def node_ids_def)
  from drive_correct [OF g assms(2) st(3), of trig "graph_fuel g"] assms(3) fuel st
  show ?thesis unfolding walk_all_def by auto
qed

subsection \<open>Finished runs agree\<close>

lemma node_of_id: "node_of g n = Some node \<Longrightarrow> node_id node = n \<and> n \<in> set (node_ids g)"
  by (auto simp: node_of_def node_ids_def dest: find_row_Some)

lemma settled_runs_node:
  assumes "active g m' n" "node_of g n = Some node" "resolveInput g node m' trig = Inr i"
    and "explained g trig f m" "frontier g m = {}"
    and kept: "\<And>e w. e \<in> set (in_edges g n) \<Longrightarrow> map_of m' (edge_from e) = Some w \<Longrightarrow>
      map_of m (edge_from e) = Some w"
  shows "\<exists>w. map_of m n = Some w \<and> f n i = StepOutput w"
proof -
  have same: "map_of m' (edge_from e) = map_of m (edge_from e)" if e: "e \<in> set (in_edges g n)" for e
  proof -
    have "edge_from e \<in> set (omap_keys m')" using assms(1) e by (simp add: active_def edge_active_def)
    then obtain w where "map_of m' (edge_from e) = Some w"
      by (metis list.set_map map_of_eq_None_iff not_None_eq)
    with kept [OF e] show ?thesis by simp
  qed
  note id = node_of_id [OF assms(2)]
  have "active g m n" using active_cong [of g n m' m] same assms(1) by simp
  with id assms(5) have "n \<in> set (omap_keys m)" by (auto simp: frontier_def)
  then obtain w where w: "map_of m n = Some w" by (metis list.set_map map_of_eq_None_iff not_None_eq)
  with assms(4) obtain node' i' where "node_of g n = Some node'" "resolveInput g node' m trig = Inr i'"
    "f n i' = StepOutput w" unfolding explained_def by blast
  moreover have "resolveInput g node m' trig = resolveInput g node m trig"
    using resolveInput_cong [of g node m' m trig] same id by blast
  ultimately show ?thesis using w assms(2,3) by simp
qed

lemma explained_le_settled:
  assumes "acyclic (edge_rel g)" "explained g trig f m'" "explained g trig f m" "frontier g m = {}"
  shows "map_of m' k = Some v \<Longrightarrow> map_of m k = Some v"
proof (induction k arbitrary: v rule: wf_induct_rule [OF finite_acyclic_wf [OF finite_edge_rel assms(1)]])
  case (1 n)
  from assms(2) 1(2) obtain node i where act: "active g m' n" and node: "node_of g n = Some node"
    "resolveInput g node m' trig = Inr i" "f n i = StepOutput v"
    unfolding explained_def by blast
  have "map_of m (edge_from e) = Some w"
    if "e \<in> set (in_edges g n)" "map_of m' (edge_from e) = Some w" for e w
    using 1(1) [of "edge_from e" w] that by (auto simp: edge_rel_in)
  from settled_runs_node [OF act node(1,2) assms(3,4) this] node(3) show ?case by auto
qed

lemma settled_unique:
  assumes "acyclic (edge_rel g)" "explained g trig f m'" "explained g trig f m"
    "frontier g m = {}" "frontier g m' = {}"
  shows "map_of m' = map_of m"
  using explained_le_settled [OF assms(1-4)] explained_le_settled [OF assms(1,3,2,5)]
  by (metis (no_types, opaque_lifting) ext not_None_eq)

text \<open>A run that stopped at a failing node cannot have a finished counterpart.\<close>

lemma failed_not_settled:
  assumes "acyclic (edge_rel g)" "explained g trig f m'" "explained g trig f m" "frontier g m = {}"
    "run_result g trig f m' (WFailed n msg)"
  shows False
proof -
  from assms(5) obtain node i where act: "active g m' n"
    and node: "node_of g n = Some node" "resolveInput g node m' trig = Inr i" "f n i = StepError msg"
    by (auto simp: run_result_def frontier_def)
  from settled_runs_node [OF act node(1,2) assms(3,4)] explained_le_settled [OF assms(1-4)] node(3)
  show False by auto
qed

lemma explained_Nil [simp]: "explained g trig f []"
  by (simp add: explained_def outputs_ok_def)



definition example_handler :: handler where
  "example_handler n i =
     StepOutput (if n = ''q'' then JObj [(''branch'', JStr ''true'')] else JStr n)"

lemma branching_example_valid: "validateGraphStructure any_config branching_example = Inr ()"
  by code_simp

lemma example_branch: "is_branch branching_example n \<longleftrightarrow> n = ''q''"
  by (auto simp: is_branch_def node_of_def branching_example_def mk_node_def)

lemma example_branch_output:
  "good_output branching_example ''q'' (JObj [(''branch'', JStr ''true'')])"
proof -
  have "\<exists>e \<in> set (out_edges branching_example ''q'').
      strict_eq (js_get (JObj [(''branch'', JStr ''true'')]) ''branch'') (condition_value e)"
    by code_simp
  then show ?thesis by (simp add: good_output_def nullish_def)
qed

lemma example_handler_good: "good_handler branching_example example_handler"
proof -
  have "good_output branching_example n (JStr n)" if "n \<noteq> ''q''" for n
    using that by (simp add: good_output_def example_branch)
  then show ?thesis using example_branch_output
    by (simp add: good_handler_def example_handler_def)
qed

definition example_outputs :: outputs where
  "example_outputs = [(''s'', JStr ''s''), (''q'', JObj [(''branch'', JStr ''true'')]), (''y'', JStr ''y'')]"

lemma example_run:
  "walk_all branching_example JNull example_handler [] = Some (example_outputs, Inr WCompleted)"
  by code_simp



subsection \<open>Any environment\<close>

text \<open>
  The walk as a transition system: whoever calls the generator may answer each step with any
  acceptable output. The trace lists the steps handed out so far with their results.
\<close>

type_synonym trace = "(string \<times> step_result) list"

inductive walk_steps ::
  "workflow_graph \<Rightarrow> jsval \<Rightarrow> outputs \<Rightarrow> trace \<Rightarrow> walk_event \<Rightarrow> bool"
  for g trig m0 where
  walk_begin: "walk_steps g trig m0 [] (walk_start g trig m0)"
| walk_answer: "walk_steps g trig m0 tr (Yield s st) \<Longrightarrow>
    (\<And>v. r = StepOutput v \<Longrightarrow> good_output g (step_node s) v) \<Longrightarrow>
    walk_steps g trig m0 (tr @ [(step_node s, r)]) (walk_resume g trig s st r)"

definition trace_outputs :: "outputs \<Rightarrow> trace \<Rightarrow> outputs" where
  "trace_outputs m tr =
     fold (\<lambda>(n, r) m. case r of StepOutput v \<Rightarrow> omap_set n v m | StepError _ \<Rightarrow> m) tr m"

definition event_ok :: "workflow_graph \<Rightarrow> jsval \<Rightarrow> outputs \<Rightarrow> trace \<Rightarrow> walk_event \<Rightarrow> bool" where
  "event_ok g trig m0 tr ev \<longleftrightarrow> (case ev of
       Yield s st \<Rightarrow> suspended g trig s st \<and> completed st = trace_outputs m0 tr \<and>
         set (map fst tr) \<subseteq> set (omap_keys (trace_outputs m0 tr))
     | Return WCompleted \<Rightarrow> frontier g (trace_outputs m0 tr) = {}
     | Return (WFailed n msg) \<Rightarrow> (n, StepError msg) \<in> set tr
     | Throw e \<Rightarrow> False)"

lemma trace_outputs_keys: "set (omap_keys m0) \<subseteq> set (omap_keys (trace_outputs m0 tr))"
proof (induction tr arbitrary: m0)
  case (Cons x tr)
  obtain n r where x: "x = (n, r)" by (cases x)
  show ?case
  proof (cases r)
    case (StepOutput v)
    with x Cons.IH [of "omap_set n v m0"] show ?thesis by (simp add: trace_outputs_def)
  next
    case (StepError msg)
    with x Cons.IH [of m0] show ?thesis by (simp add: trace_outputs_def)
  qed
qed (simp add: trace_outputs_def)

lemma walk_loop_event:
  assumes "degrees_ok g" "walk_inv g st" "completed st = trace_outputs m0 tr"
    "set (map fst tr) \<subseteq> set (omap_keys (completed st))"
  shows "event_ok g trig m0 tr (walk_loop g trig (completed st) (queued st) (ready st))"
  using walk_loop_suspended [OF assms(1,2), of trig]
proof (elim disjE exE conjE)
  assume "ready st = []" "walk_loop g trig (completed st) (queued st) (ready st) = Return WCompleted"
  with assms(2,3) show ?thesis by (auto simp: event_ok_def walk_inv_def)
qed (use assms(3,4) in \<open>auto simp: event_ok_def\<close>)

lemma suspended_fresh:
  assumes "event_ok g trig m0 tr (Yield s st)"
  shows "step_node s \<notin> set (map fst tr) \<union> set (omap_keys m0)"
proof -
  have "step_node s \<in> frontier g (completed st)"
    using assms by (auto simp: event_ok_def suspended_def)
  then have "step_node s \<notin> set (omap_keys (completed st))"
    unfolding frontier_def by blast
  moreover have "set (map fst tr) \<union> set (omap_keys m0) \<subseteq> set (omap_keys (completed st))"
    using assms trace_outputs_keys [of m0 tr] by (simp add: event_ok_def)
  ultimately show ?thesis by blast
qed

lemma walk_steps_ok:
  assumes "validateGraphStructure L g = Inr ()" "outputs_ok g m0" "walk_steps g trig m0 tr ev"
  shows "distinct (map fst tr) \<and> set (map fst tr) \<inter> set (omap_keys m0) = {} \<and> event_ok g trig m0 tr ev"
  using assms(3)
proof (induction rule: walk_steps.induct)
  case walk_begin
  obtain st where "walk_start g trig m0 = walk_loop g trig m0 (queued st) (ready st)"
    "completed st = m0" "walk_inv g st"
    using walk_start_inv [OF assms(2)] by blast
  then show ?case using walk_loop_event [of g st m0 "[]" trig] assms(1)
    by (auto simp: validated_iff wf_graph_def trace_outputs_def)
next
  case (walk_answer tr s st r)
  then have s: "suspended g trig s st" "completed st = trace_outputs m0 tr"
    "set (map fst tr) \<subseteq> set (omap_keys (completed st))"
    by (simp_all add: event_ok_def)
  have fresh: "step_node s \<notin> set (map fst tr) \<union> set (omap_keys m0)"
    using walk_answer.IH suspended_fresh by blast
  show ?case
  proof (cases r)
    case (StepOutput v)
    obtain st' where st': "walk_resume g trig s st (StepOutput v) =
        walk_loop g trig (completed st') (queued st') (ready st')"
      "completed st' = omap_set (step_node s) v (completed st)" "walk_inv g st'"
      using walk_resume_inv [of g trig s st v] assms(1) s(1) walk_answer.hyps(2) [OF StepOutput]
      by (auto simp: validated_iff wf_graph_def)
    have c: "completed st' = trace_outputs m0 (tr @ [(step_node s, r)])"
      using st'(2) s(2) StepOutput by (simp add: trace_outputs_def)
    have "set (map fst (tr @ [(step_node s, r)])) \<subseteq> set (omap_keys (completed st'))"
      using st'(2) s(3) by auto
    from walk_loop_event [OF _ st'(3) c this, of trig] assms(1) walk_answer.IH fresh st'(1) StepOutput
    show ?thesis by (auto simp: validated_iff wf_graph_def)
  qed (use walk_answer.IH fresh in \<open>auto simp: walk_resume_def event_ok_def\<close>)
qed


definition example_step :: step_to_execute where
  "example_step = \<lparr>step_node = ''q'', step_type = N_branch, step_input = JStr ''s''\<rparr>"

definition example_suspended :: walk_state where
  "example_suspended = \<lparr>completed = [(''s'', JStr ''s'')], queued = {}, ready = []\<rparr>"

lemma example_walk:
  "walk_steps branching_example JNull [(''s'', JStr ''s'')]
     [(''q'', StepOutput (JObj [(''branch'', JStr ''true'')]))]
     (walk_resume branching_example JNull example_step example_suspended
        (StepOutput (JObj [(''branch'', JStr ''true'')])))"
proof -
  have "walk_start branching_example JNull [(''s'', JStr ''s'')] = Yield example_step example_suspended"
    by code_simp
  then have "walk_steps branching_example JNull [(''s'', JStr ''s'')] [] (Yield example_step example_suspended)"
    using walk_begin [of branching_example JNull "[(''s'', JStr ''s'')]"] by simp
  from walk_answer [OF this, of "StepOutput (JObj [(''branch'', JStr ''true'')])"] example_branch_output
  show ?thesis by (simp add: example_step_def)
qed


section \<open>Every node can run\<close>

lemma requires_down: "(n, k) \<in> (edge_rel g)\<^sup>* \<Longrightarrow> requires g n b c \<Longrightarrow> requires g k b c"
proof (induction rule: rtrancl_induct)
  case (step y z)
  then obtain e where "e \<in> set (in_edges g z)" "edge_from e = y" by (auto simp: edge_rel_in)
  with step show ?case by (auto intro: requires_step)
qed

lemma requires_condition:
  "requires g n b c \<Longrightarrow> is_branch g b \<and> (\<exists>e \<in> set (out_edges g b). condition e = Some c)"
  by (induction rule: requires.induct) (auto simp: in_edges_def out_edges_def)

text \<open>The handler that steers every branch towards one target node.\<close>

definition steer :: "workflow_graph \<Rightarrow> string \<Rightarrow> handler" where
  "steer g target n i = StepOutput (if is_branch g n then JObj [(''branch'',
      (if \<exists>c. requires g target n c then JStr (THE c. requires g target n c)
       else if out_edges g n = [] then JNull else condition_value (hd (out_edges g n))))] else JNull)"

lemma steer_required:
  assumes "consistent_branches g" "requires g target b c" "is_branch g b"
  shows "steer g target b i = StepOutput (JObj [(''branch'', JStr c)])"
proof -
  have "(THE c. requires g target b c) = c"
    using assms(1,2) by (intro the_equality) (auto simp: consistent_branches_def)
  with assms(2,3) show ?thesis by (auto simp: steer_def)
qed

lemma explained_value: "explained g trig f m \<Longrightarrow> map_of m n = Some v \<Longrightarrow> \<exists>i. f n i = StepOutput v"
  unfolding explained_def by blast

lemma get_branch_field: "js_get (JObj [(''branch'', v)]) ''branch'' = v"
  by (simp add: object_prototype_def inherited_def)

lemma strict_eq_condition: "strict_eq (condition_value e) (condition_value e)"
  by (cases "condition e") (auto simp: condition_value_def)

lemma steer_good:
  assumes "consistent_branches g"
  shows "good_handler g (steer g target)"
  unfolding good_handler_def
proof (intro allI impI)
  fix n i v
  assume out: "steer g target n i = StepOutput v"
  show "good_output g n v"
  proof (cases "\<exists>c. is_branch g n \<and> requires g target n c")
    case True
    then obtain c e where c: "is_branch g n" "requires g target n c" "e \<in> set (out_edges g n)"
      "condition e = Some c"
      using requires_condition by blast
    then have "v = JObj [(''branch'', JStr c)]" using steer_required [OF assms c(2,1)] out by simp
    moreover have "condition_value e = JStr c" using c(4) by (simp add: condition_value_def)
    ultimately show ?thesis using c(3) get_branch_field [of "JStr c"]
      by (auto simp: good_output_def nullish_def intro!: bexI [of _ e])
  next
    case False
    show ?thesis
    proof (cases "is_branch g n \<and> out_edges g n \<noteq> []")
      case True
      then have v: "v = JObj [(''branch'', condition_value (hd (out_edges g n)))]"
        using False out by (auto simp: steer_def)
      have "strict_eq (js_get v ''branch'') (condition_value (hd (out_edges g n)))"
        unfolding v get_branch_field by (rule strict_eq_condition)
      moreover have "\<not> nullish v" by (simp add: v nullish_def)
      ultimately show ?thesis using True hd_in_set [of "out_edges g n"] unfolding good_output_def by blast
    qed (use out in \<open>auto simp: good_output_def steer_def nullish_def\<close>)
  qed
qed

lemma steer_reaches:
  assumes g: "edges_within g" "conditions_ok g" "consistent_branches g" "acyclic (edge_rel g)"
    and m: "explained g trig (steer g target) m" "frontier g m = {}"
    and t: "target \<in> set (node_ids g)"
  shows "(k, target) \<in> (edge_rel g)\<^sup>* \<Longrightarrow> k \<in> set (omap_keys m)"
proof (induction k rule: wf_induct_rule [OF finite_acyclic_wf [OF finite_edge_rel g(4)]])
  case (1 k)
  have act: "edge_active g m e" if e: "e \<in> set (in_edges g k)" for e
  proof -
    have rel: "(edge_from e, k) \<in> edge_rel g" using e by (auto simp: edge_rel_in)
    then have key: "edge_from e \<in> set (omap_keys m)"
      using 1 by (meson converse_rtrancl_into_rtrancl)
    then obtain v where v: "map_of m (edge_from e) = Some v"
      by (metis list.set_map map_of_eq_None_iff not_None_eq)
    have "strict_eq (js_get v ''branch'') (condition_value e)" if br: "is_branch g (edge_from e)"
    proof -
      from br obtain node where node: "node \<in> set (nodes g)" "node_id node = edge_from e"
        "node_type node = N_branch"
        by (auto simp: is_branch_def node_of_def dest: find_row_Some)
      moreover have "e \<in> set (out_edges g (edge_from e))" using e by (auto simp: in_edges_def out_edges_def)
      ultimately obtain c where c: "condition e = Some c"
        using g(2) unfolding conditions_ok_def Let_def by (metis image_eqI image_set not_None_eq)
      then have "requires g target (edge_from e) c"
        using requires_down [OF "1.prems"] requires_edge [OF e br] by blast
      from steer_required [OF g(3) this br] have "v = JObj [(''branch'', JStr c)]"
        using explained_value [OF m(1) v] by auto
      with c show ?thesis using get_branch_field [of "JStr c"] by (simp add: condition_value_def)
    qed
    with key v show ?thesis by (simp add: edge_active_def get_output_def)
  qed
  have "k \<in> set (node_ids g)"
    using "1.prems" t g(1) by (cases rule: converse_rtranclE) (auto simp: edges_within_def edge_rel_def)
  with act m(2) show ?case by (auto simp: frontier_def active_def)
qed

text \<open>
  C5. A validated graph has no dead node: for every node there is a way for the branches to
  decide under which the run completes with that node among the executed ones. In particular
  no merge waits for two predecessors that exclude each other.
\<close>

theorem validated_no_dead_node:
  assumes "validateGraphStructure L g = Inr ()" "n \<in> set (node_ids g)"
  shows "\<exists>f m. good_handler g f \<and> walk_all g trig f [] = Some (m, Inr WCompleted) \<and>
    n \<in> set (omap_keys m)"
proof -
  have g: "edges_within g" "conditions_ok g" "consistent_branches g" "acyclic (edge_rel g)"
    using assms(1) unfolding validated_iff wf_graph_def by auto
  note good = steer_good [OF g(3), of n]
  from walk_all_run [OF assms(1) good explained_Nil] obtain m r where
    m: "walk_all g trig (steer g n) [] = Some (m, Inr r)" "\<forall>j. explained g trig (steer g n) (take j m)"
    "run_result g trig (steer g n) m r"
    unfolding append_Nil by blast
  have ex: "explained g trig (steer g n) m" using m(2) [rule_format, of "length m"] by simp
  have r: "r = WCompleted" using m(3) by (cases r) (auto simp: run_result_def steer_def)
  then have "n \<in> set (omap_keys m)"
    using steer_reaches [OF g ex _ assms(2), of n] m(3) by (simp add: run_result_def)
  with good m(1) r show ?thesis by blast
qed

theorem validated_no_dead_node_witness:
  "\<exists>f m. good_handler branching_example f \<and>
     walk_all branching_example JNull f [] = Some (m, Inr WCompleted) \<and> ''n'' \<in> set (omap_keys m)"
proof -
  have "''n'' \<in> set (node_ids branching_example)" by code_simp
  from validated_no_dead_node [OF branching_example_valid this, of JNull] show ?thesis .
qed

end
