(* ===== verification/Checkpoints.thy ===== *)
theory Checkpoints
  imports Execution_Store Walker
begin

text \<open>
  \<^verbatim>\<open>apps/execution-worker/src/checkpoints/checkpoints.service.ts\<close>: what a worker records after each
  step and what it reads back when it resumes.

  A worker shares the database with other processes. Its \<open>world\<close> is the database, the clock,
  whether the abort signal of the run was raised, and a counter of its own actions. Before
  each action the environment moves (\<open>tick\<close>): other processes commit transactions, time
  passes, the signal may be raised. The environment is a parameter, and so is the supply of
  generated identifiers, indexed by the counter.

  JSON columns: \<open>jsonb\<close> is what comes back from a column of type \<^verbatim>\<open>jsonb\<close>: members that are
  undefined are dropped, numbers that JSON cannot spell become null, and object keys come back
  in the order of the database.
\<close>

section \<open>JSON columns\<close>

definition jsonb_key :: "string \<times> 'v \<Rightarrow> nat \<times> string" where
  "jsonb_key p = (length (fst p), fst p)"

fun jsonb :: "jsval \<Rightarrow> jsval option" where
  "jsonb JUndef = None"
| "jsonb (JHost _) = None"
| "jsonb (JNum n) = Some (if is_finite n then JNum n else JNull)"
| "jsonb (JArr xs) = Some (JArr (map (\<lambda>x. case jsonb x of None \<Rightarrow> JNull | Some v \<Rightarrow> v) xs))"
| "jsonb (JObj ps) = Some (JObj (obj_from_entries (sort_key jsonb_key
     (concat (map (\<lambda>p. case jsonb (snd p) of None \<Rightarrow> [] | Some v \<Rightarrow> [(fst p, v)]) ps)))))"
| "jsonb v = Some v"

text \<open>A value in a nullable column: null and undefined are stored as no value.\<close>

definition jsonb_column :: "jsval \<Rightarrow> jsval option" where
  "jsonb_column v = (if nullish v then None else jsonb v)"

lemma map_of_obj_from_entries: "map_of (obj_from_entries kvs) = map_of (rev kvs)"
  unfolding obj_from_entries_def using jsobj.get_fold_put [of kvs "[]"] by simp

lemma distinct_obj_from_entries: "distinct (map fst (obj_from_entries kvs))"
proof -
  have "distinct (map fst (fold (\<lambda>(k, v). obj_set k v) kvs ps))" if "distinct (map fst ps)" for ps
    using that by (induction kvs arbitrary: ps) (auto intro: jsobj.invar_put)
  then show ?thesis by (simp add: obj_from_entries_def)
qed

lemma map_of_sort_key_distinct:
  assumes "distinct (map fst kvs)"
  shows "map_of (sort_key f kvs) = map_of kvs"
  using assms by (intro map_of_eqI) (auto simp: map_of_eq_Some_iff distinct_map)

text \<open>Through a column and back, a JSON value is the same up to the order of keys.\<close>

lemma jsonb_canonical: "is_json v \<Longrightarrow> \<exists>w. jsonb v = Some w \<and> canonicalize w = canonicalize v \<and> is_json w"
proof (induction v rule: jsonb.induct)
  case (4 xs)
  let ?f = "\<lambda>x. case jsonb x of None \<Rightarrow> JNull | Some v \<Rightarrow> v"
  have "canonicalize (?f x) = canonicalize x \<and> is_json (?f x)" if "x \<in> set xs" for x
    using 4 that by fastforce
  then show ?case by auto
next
  case (5 ps)
  define g where "g = (\<lambda>v. case jsonb v of None \<Rightarrow> JNull | Some w \<Rightarrow> w)"
  define qs where "qs = map (\<lambda>p. (fst p, g (snd p))) ps"
  have mem: "jsonb (snd p) = Some (g (snd p)) \<and> canonicalize (g (snd p)) = canonicalize (snd p) \<and> is_json (g (snd p))"
    if "p \<in> set ps" for p
    using "5.IH" [of p] "5.prems" that by (fastforce simp: g_def)
  have eq: "concat (map (\<lambda>p. case jsonb (snd p) of None \<Rightarrow> [] | Some v \<Rightarrow> [(fst p, v)]) ps) = qs"
    unfolding qs_def using mem by (induction ps) auto
  have dq: "distinct (map fst qs)" using "5.prems" by (simp add: qs_def comp_def)
  define rs where "rs = obj_from_entries (sort_key jsonb_key qs)"
  have "distinct (map fst (sort_key jsonb_key qs))"
    using dq by (simp add: distinct_map)
  then have rs: "map_of rs = map_of qs"
    unfolding rs_def map_of_obj_from_entries using dq
    by (simp add: map_of_rev_distinct map_of_sort_key_distinct)
  have dr: "distinct (map fst rs)" unfolding rs_def by (rule distinct_obj_from_entries)
  have "map_option canonicalize \<circ> map_of rs = map_option canonicalize \<circ> map_of ps"
  proof
    fix k
    have "map_of qs k = map_option g (map_of ps k)"
      unfolding qs_def by (simp add: map_of_map_snd)
    then show "(map_option canonicalize \<circ> map_of rs) k = (map_option canonicalize \<circ> map_of ps) k"
      using mem map_of_SomeD [of ps k] by (cases "map_of ps k") (force simp: rs)+
  qed
  moreover have "is_json (snd p)" if "p \<in> set rs" for p
  proof -
    have "map_of rs (fst p) = Some (snd p)" using that dr by simp
    then have "(fst p, snd p) \<in> set qs" unfolding rs by (rule map_of_SomeD)
    then show ?thesis using mem by (auto simp: qs_def)
  qed
  ultimately show ?case
    using canonicalize_obj_eq [OF dr, of ps] "5.prems" dr eq by (auto simp: rs_def)
qed auto

section \<open>The world of a worker\<close>

record world =
  store :: db
  wnow :: timestamp
  ticks :: nat
  aborted :: bool
  sent :: "(string \<times> jsval) list"

type_synonym env = "world \<Rightarrow> world"
type_synonym id_supply = "nat \<Rightarrow> fresh_ids"

definition tick :: "env \<Rightarrow> world \<Rightarrow> world" where
  "tick env w = env (w\<lparr>ticks := Suc (ticks w)\<rparr>)"

text \<open>
  What a node handler may throw. \<open>NonRetryable\<close> and \<open>Plain\<close> carry the token usage of
  \<^verbatim>\<open>UsageError\<close> and \<^verbatim>\<open>RetryableUsageError\<close>; a failing database call is \<open>Plain\<close>.
\<close>

datatype node_error =
    LeaseLostError
  | PauseExecutionError string
  | NonRetryable string "(jsnum \<times> jsnum) option"
  | Plain string "(jsnum \<times> jsnum) option"

definition getErrorTokenUsage :: "node_error \<Rightarrow> (jsnum \<times> jsnum) option" where
  "getErrorTokenUsage e = (case e of NonRetryable _ u \<Rightarrow> u | Plain _ u \<Rightarrow> u | _ \<Rightarrow> None)"

definition error_message :: "node_error \<Rightarrow> string" where
  "error_message e = (case e of
       LeaseLostError \<Rightarrow> ''Lost the lease''
     | PauseExecutionError n \<Rightarrow> ''Execution paused at node '' @ n
     | NonRetryable m _ \<Rightarrow> m
     | Plain m _ \<Rightarrow> m)"

definition db_message :: "db_error \<Rightarrow> string" where
  "db_message e = (case e of
       UniqueViolation c \<Rightarrow> ''duplicate key value violates unique constraint '' @ c
     | CheckViolation c \<Rightarrow> ''new row violates check constraint '' @ c
     | ForeignKeyViolation c \<Rightarrow> ''insert violates foreign key constraint '' @ c
     | AppError m \<Rightarrow> m)"

section \<open>Costs\<close>

text \<open>A nullable boolean: \<open>None\<close> is null, the unknown of an old step.\<close>

definition mergeCostUnpriced :: "bool option \<Rightarrow> bool option \<Rightarrow> bool option" where
  "mergeCostUnpriced a b =
    (if a = Some True \<or> b = Some True then Some True
     else if a = None \<or> b = None then None else Some False)"

definition stepCostUnpricedState :: "execution_step \<Rightarrow> bool option" where
  "stepCostUnpricedState s =
    (if st_name s \<noteq> ''ai'' \<or> st_status s \<noteq> S_succeeded then Some False
     else
       let c = (case st_attributes s of None \<Rightarrow> JUndef | Some a \<Rightarrow> js_get a ''costUnpriced'') in
       if c = JBool True then Some True
       else if c = JBool False then Some False
       else None)"

definition buildStepAttributes :: "bool option \<Rightarrow> nat option \<Rightarrow> jsval option" where
  "buildStepAttributes costUnpriced retryAttempts =
    (let attributes =
       (case costUnpriced of None \<Rightarrow> [] | Some b \<Rightarrow> [(''costUnpriced'', JBool b)]) @
       (case retryAttempts of None \<Rightarrow> [] | Some n \<Rightarrow> [(''retryAttempts'', JInt (int n))])
     in if attributes = [] then None else Some (JObj attributes))"

section \<open>Recording a step\<close>

record record_input =
  ri_executionId :: uuid
  ri_workspaceId :: uuid
  ri_leasedBy :: string
  ri_nodeId :: string
  ri_nodeType :: string
  ri_input :: jsval
  ri_output :: jsval
  ri_error :: "string option"
  ri_startedAt :: timestamp
  ri_endedAt :: timestamp
  ri_costMicros :: "int option"
  ri_costUnpriced :: "bool option"
  ri_tokensInput :: "jsnum option"
  ri_tokensOutput :: "jsnum option"
  ri_model :: "string option"
  ri_provider :: "string option"
  ri_retryAttempts :: "nat option"
  ri_completed :: outputs
  ri_variables :: jsval

text \<open>An \<^verbatim>\<open>integer\<close> column takes whole numbers of 32 bits.\<close>

definition int_column :: "jsnum option \<Rightarrow> int option" where
  "int_column n = (case n of
       None \<Rightarrow> Some 0
     | Some (Fin r) \<Rightarrow> if of_int \<lfloor>r\<rfloor> = r \<and> - 2147483648 \<le> \<lfloor>r\<rfloor> \<and> \<lfloor>r\<rfloor> \<le> 2147483647 then Some \<lfloor>r\<rfloor> else None
     | Some _ \<Rightarrow> None)"

definition step_status_of :: "record_input \<Rightarrow> step_status" where
  "step_status_of input = (if ri_error input = None then S_succeeded else S_failed)"

definition step_sequence :: "record_input \<Rightarrow> int" where
  "step_sequence input = (if ri_error input = None then int (length (ri_completed input))
     else int (length (ri_completed input)) + 1)"

definition step_row :: "fresh_ids \<Rightarrow> record_input \<Rightarrow> int \<Rightarrow> int \<Rightarrow> execution_step" where
  "step_row f input tin tout = \<lparr>st_id = new_step f, st_executionId = ri_executionId input,
     st_workspaceId = ri_workspaceId input, st_traceId = ri_executionId input, st_spanId = new_span f,
     st_parentSpanId = None, st_name = ri_nodeType input, st_startedAt = ri_startedAt input,
     st_endedAt = Some (ri_endedAt input), st_status = step_status_of input,
     st_attributes = buildStepAttributes (ri_costUnpriced input) (ri_retryAttempts input),
     st_nodeId = ri_nodeId input, st_sequence = step_sequence input, st_attempt = 1,
     st_input = jsonb_column (ri_input input), st_output = jsonb_column (ri_output input),
     st_error = ri_error input,
     st_idempotencyKey = Some (ri_executionId input @ '':'' @ ri_nodeId input),
     st_costMicros = (case ri_costMicros input of None \<Rightarrow> 0 | Some c \<Rightarrow> c),
     st_tokensInput = tin, st_tokensOutput = tout, st_model = ri_model input,
     st_provider = ri_provider input, st_createdAt = 0, st_isSystemEvent = False\<rparr>"

definition checkpoint_of :: "record_input \<Rightarrow> checkpoint_input" where
  "checkpoint_of input = \<lparr>ck_sequence = step_sequence input,
     ck_completedStepIds = map fst (ri_completed input),
     ck_context = (case jsonb (JObj (obj_from_entries (ri_completed input))) of Some (JObj ps) \<Rightarrow> ps | _ \<Rightarrow> []),
     ck_variables = (case jsonb (ri_variables input) of None \<Rightarrow> JObj [] | Some v \<Rightarrow> v)\<rparr>"

definition recordStep :: "env \<Rightarrow> id_supply \<Rightarrow> record_input \<Rightarrow> world \<Rightarrow> world \<times> (node_error + unit)" where
  "recordStep env ids input w0 =
    (let w = tick env w0 in
     case (int_column (ri_tokensInput input), int_column (ri_tokensOutput input)) of
       (Some tin, Some tout) \<Rightarrow>
         (case writeStepAndCheckpoint (ids (ticks w)) (wnow w) (ri_leasedBy input)
             (step_row (ids (ticks w)) input tin tout) (checkpoint_of input) (store w) of
            Inl e \<Rightarrow> (w, Inl (Plain (db_message e) None))
          | Inr (d, None) \<Rightarrow> (w\<lparr>store := d\<rparr>, Inl LeaseLostError)
          | Inr (d, Some _) \<Rightarrow> (w\<lparr>store := d\<rparr>, Inr ()))
     | _ \<Rightarrow> (w, Inl (Plain ''invalid input syntax for type integer'' None)))"

definition assertOwnsLease :: "env \<Rightarrow> uuid \<Rightarrow> string \<Rightarrow> world \<Rightarrow> world \<times> (node_error + unit)" where
  "assertOwnsLease env xid who w0 =
    (let w = tick env w0 in
     (w, if isLeaseValid (wnow w) xid who (store w) then Inr () else Inl LeaseLostError))"

section \<open>Resuming\<close>

text \<open>Building a \<^verbatim>\<open>Map\<close> from entries: the last entry of a key wins.\<close>

definition map_from_entries :: "(string \<times> 'v) list \<Rightarrow> (string, 'v) omap" where
  "map_from_entries kvs = fold (\<lambda>(k, v). omap_set k v) kvs []"

definition getResumeState :: "uuid \<Rightarrow> db \<Rightarrow> outputs" where
  "getResumeState xid d = (case getLatestCheckpoint xid d of
       None \<Rightarrow> []
     | Some c \<Rightarrow> map_from_entries (map (\<lambda>n. (n, js_get (JObj (cp_context c)) n)) (cp_completedStepIds c)))"

definition getResumeVariables :: "uuid \<Rightarrow> db \<Rightarrow> jsval" where
  "getResumeVariables xid d = (case getLatestCheckpoint xid d of
       None \<Rightarrow> JObj [] | Some c \<Rightarrow> coalesce (cp_variables c) (JObj []))"

definition recordResumeEvent_service ::
  "env \<Rightarrow> id_supply \<Rightarrow> uuid \<Rightarrow> uuid \<Rightarrow> string \<Rightarrow> world \<Rightarrow> world \<times> (node_error + unit)" where
  "recordResumeEvent_service env ids xid ws who w0 =
    (let w = tick env w0 in
     case recordResumeEvent (ids (ticks w)) (wnow w) xid ws who (store w) of
       Inl e \<Rightarrow> (w, Inl (Plain (db_message e) None))
     | Inr (d, None) \<Rightarrow> (w\<lparr>store := d\<rparr>, Inl LeaseLostError)
     | Inr (d, Some _) \<Rightarrow> (w\<lparr>store := d\<rparr>, Inr ()))"

record token_totals =
  tt_tokensInput :: int
  tt_tokensOutput :: int
  tt_costMicros :: int
  tt_costUnpriced :: "bool option"

definition add_step_totals :: "token_totals \<Rightarrow> execution_step \<Rightarrow> token_totals" where
  "add_step_totals t s = \<lparr>tt_tokensInput = tt_tokensInput t + st_tokensInput s,
     tt_tokensOutput = tt_tokensOutput t + st_tokensOutput s,
     tt_costMicros = tt_costMicros t + st_costMicros s,
     tt_costUnpriced = mergeCostUnpriced (tt_costUnpriced t) (stepCostUnpricedState s)\<rparr>"

definition getResumeTokenTotals :: "uuid \<Rightarrow> db \<Rightarrow> token_totals" where
  "getResumeTokenTotals xid d = foldl add_step_totals
     \<lparr>tt_tokensInput = 0, tt_tokensOutput = 0, tt_costMicros = 0, tt_costUnpriced = Some False\<rparr>
     (getStepsForExecution xid d)"


section \<open>A recorded step is what the next worker resumes from\<close>

text \<open>
  What a resumed worker sees of an output: the value as the column stores it. An output that
  JSON cannot hold is missing from the stored object, so the lookup finds what objects inherit.
\<close>

definition stored_output :: "string \<Rightarrow> jsval \<Rightarrow> jsval" where
  "stored_output n v = (case jsonb v of Some x \<Rightarrow> x | None \<Rightarrow> inherited object_prototype n)"

definition stored_outputs :: "outputs \<Rightarrow> outputs" where
  "stored_outputs m = map (\<lambda>p. (fst p, stored_output (fst p) (snd p))) m"

definition stored_variables :: "jsval \<Rightarrow> jsval" where
  "stored_variables v = coalesce (case jsonb v of None \<Rightarrow> JObj [] | Some x \<Rightarrow> x) (JObj [])"

lemma map_of_filtered:
  assumes "distinct (map fst ps)"
  shows "map_of (concat (map (\<lambda>p. case f (snd p) of None \<Rightarrow> [] | Some v \<Rightarrow> [(fst p, v)]) ps)) k =
    Option.bind (map_of ps k) f"
  using assms
proof (induction ps)
  case (Cons p ps)
  have "k \<notin> fst ` set ps \<Longrightarrow> map_of ps k = None" for k by (simp add: map_of_eq_None_iff)
  with Cons show ?case by (auto split: option.splits)
qed simp

lemma distinct_filtered:
  "distinct (map fst ps) \<Longrightarrow>
     distinct (map fst (concat (map (\<lambda>p. case f (snd p) of None \<Rightarrow> [] | Some v \<Rightarrow> [(fst p, v)]) ps)))"
  by (induction ps) (force split: option.splits)+

text \<open>The members of a stored object are the stored members.\<close>

lemma jsonb_members:
  assumes "distinct (map fst qs)"
  obtains ps where "jsonb (JObj qs) = Some (JObj ps)" "distinct (map fst ps)"
    "\<And>k. map_of ps k = Option.bind (map_of qs k) jsonb"
proof -
  define rs where "rs = concat (map (\<lambda>p. case jsonb (snd p) of None \<Rightarrow> [] | Some v \<Rightarrow> [(fst p, v)]) qs)"
  have d: "distinct (map fst rs)" unfolding rs_def by (rule distinct_filtered [OF assms])
  then have "distinct (map fst (sort_key jsonb_key rs))" by (simp add: distinct_map)
  then have "map_of (obj_from_entries (sort_key jsonb_key rs)) = map_of rs"
    using d by (simp add: map_of_obj_from_entries map_of_rev_distinct map_of_sort_key_distinct)
  then show thesis
    using that [of "obj_from_entries (sort_key jsonb_key rs)"] map_of_filtered [OF assms, of jsonb]
    by (simp add: rs_def distinct_obj_from_entries)
qed

lemma lookup_stored:
  assumes "omap_wf m" "jsonb (JObj (obj_from_entries m)) = Some (JObj ps)"
  shows "map (\<lambda>n. (n, js_get (JObj ps) n)) (map fst m) = stored_outputs m"
proof -
  have "distinct (map fst (obj_from_entries m))" by (rule distinct_obj_from_entries)
  from jsonb_members [OF this] assms(2) have ps: "map_of ps k = Option.bind (map_of (obj_from_entries m) k) jsonb" for k
    by (metis jsval.inject(5) option.inject)
  have "js_get (JObj ps) (fst p) = stored_output (fst p) (snd p)" if "p \<in> set m" for p
  proof -
    have "map_of (obj_from_entries m) (fst p) = Some (snd p)"
      using that assms(1) by (simp add: map_of_obj_from_entries map_of_rev_distinct)
    then show ?thesis by (simp add: ps stored_output_def split: option.split)
  qed
  then show ?thesis by (simp add: stored_outputs_def)
qed

text \<open>For JSON values nothing is lost: up to the order of keys the stored value is the value.\<close>

lemma stored_output_json: "is_json v \<Longrightarrow> canonicalize (stored_output n v) = canonicalize v"
  using jsonb_canonical by (fastforce simp: stored_output_def)

lemma map_from_entries_distinct:
  "distinct (map fst kvs) \<Longrightarrow> map_from_entries kvs = kvs"
proof -
  have "fold (\<lambda>(k, v). omap_set k v) kvs m = m @ kvs" if "distinct (map fst (m @ kvs))" for m
    using that
  proof (induction kvs arbitrary: m)
    case (Cons p kvs)
    then show ?case by (cases p) (auto simp: omap_set_new)
  qed simp
  from this [of "[]"] show "distinct (map fst kvs) \<Longrightarrow> map_from_entries kvs = kvs"
    by (simp add: map_from_entries_def)
qed

lemma sort_key_snoc:
  fixes f :: "'a \<Rightarrow> 'b :: linorder"
  assumes "\<forall>y \<in> set ys. f y \<le> f x"
  shows "sort_key f (ys @ [x]) = sort_key f ys @ [x]"
proof -
  have "insort_key f a (zs @ [x]) = insort_key f a zs @ [x]" if "f a \<le> f x" for a zs
    using that by (induction zs) auto
  then show ?thesis using assms by (induction ys) auto
qed

lemma latest_checkpoint_new:
  assumes "\<forall>c \<in> set cs. cp_executionId c = cp_executionId new \<longrightarrow> cp_sequence c < cp_sequence new"
  shows "getLatestCheckpoint (cp_executionId new) (d\<lparr>checkpoints := cs @ [new]\<rparr>) = Some new"
proof -
  have "\<forall>c \<in> set (filter (\<lambda>c. cp_executionId c = cp_executionId new) cs). cp_sequence c \<le> cp_sequence new"
    using assms by (auto simp: less_imp_le)
  from sort_key_snoc [OF this] show ?thesis
    by (auto simp: getLatestCheckpoint_def first_row_def)
qed


text \<open>The rows that a successful \<open>recordStep\<close> adds.\<close>

definition stored_step :: "fresh_ids \<Rightarrow> timestamp \<Rightarrow> record_input \<Rightarrow> int \<Rightarrow> int \<Rightarrow> execution_step" where
  "stored_step f now input tin tout = (step_row f input tin tout)\<lparr>st_id := new_step f, st_createdAt := now\<rparr>"

definition stored_checkpoint :: "fresh_ids \<Rightarrow> timestamp \<Rightarrow> record_input \<Rightarrow> checkpoint" where
  "stored_checkpoint f now input = (let c = checkpoint_of input in
     \<lparr>cp_id = new_checkpoint f, cp_executionId = ri_executionId input, cp_sequence = ck_sequence c,
      cp_completedStepIds = ck_completedStepIds c, cp_context = ck_context c,
      cp_variables = ck_variables c, cp_createdAt = now\<rparr>)"

lemma recordStep_Inr:
  assumes "recordStep env ids input w0 = (w, Inr u)"
  obtains w1 tin tout where "w1 = tick env w0"
    "isLeaseValid (wnow w1) (ri_executionId input) (ri_leasedBy input) (store w1)"
    "int_column (ri_tokensInput input) = Some tin" "int_column (ri_tokensOutput input) = Some tout"
    "w = w1\<lparr>store := (store w1)\<lparr>
       executionSteps := executionSteps (store w1) @ [stored_step (ids (ticks w1)) (wnow w1) input tin tout],
       checkpoints := checkpoints (store w1) @ [stored_checkpoint (ids (ticks w1)) (wnow w1) input]\<rparr>\<rparr>"
    "\<forall>s \<in> set (executionSteps (store w1)). st_executionId s = ri_executionId input \<longrightarrow>
       st_idempotencyKey s \<noteq> Some (ri_executionId input @ '':'' @ ri_nodeId input)"
    "\<forall>c \<in> set (checkpoints (store w1)). cp_executionId c = ri_executionId input \<longrightarrow>
       cp_sequence c \<noteq> step_sequence input"
  using assms
  by (auto simp: recordStep_def Let_def writeStepAndCheckpoint_def stored_step_def stored_checkpoint_def
      insert_step_def insert_checkpoint_def bindE_eq_Inr list_ex_iff checkpoint_of_def step_row_def
      split: option.splits sum.splits if_splits)

lemma recordStep_resumes:
  assumes "recordStep env ids input w0 = (w, Inr u)" and wf: "omap_wf (ri_completed input)"
    and seq: "\<forall>c \<in> set (checkpoints (store (tick env w0))). cp_executionId c = ri_executionId input \<longrightarrow>
      cp_sequence c < step_sequence input"
  shows "getResumeState (ri_executionId input) (store w) = stored_outputs (ri_completed input)"
    "getResumeVariables (ri_executionId input) (store w) = stored_variables (ri_variables input)"
proof -
  from recordStep_Inr [OF assms(1)] obtain w1 tin tout where w1: "w1 = tick env w0"
    and w: "w = w1\<lparr>store := (store w1)\<lparr>
       executionSteps := executionSteps (store w1) @ [stored_step (ids (ticks w1)) (wnow w1) input tin tout],
       checkpoints := checkpoints (store w1) @ [stored_checkpoint (ids (ticks w1)) (wnow w1) input]\<rparr>\<rparr>" by metis
  define c where "c = stored_checkpoint (ids (ticks w1)) (wnow w1) input"
  have c: "cp_executionId c = ri_executionId input" "cp_sequence c = step_sequence input"
    by (simp_all add: c_def stored_checkpoint_def checkpoint_of_def Let_def)
  have latest: "getLatestCheckpoint (ri_executionId input) (store w) = Some c"
    using latest_checkpoint_new [of "checkpoints (store w1)" c "(store w1)\<lparr>executionSteps :=
      executionSteps (store w1) @ [stored_step (ids (ticks w1)) (wnow w1) input tin tout]\<rparr>"] seq c
    unfolding w by (simp add: w1 [symmetric] c_def)
  obtain ps where ps: "jsonb (JObj (obj_from_entries (ri_completed input))) = Some (JObj ps)"
    using jsonb_members [OF distinct_obj_from_entries] by metis
  have keys: "cp_completedStepIds c = map fst (ri_completed input)" and ctx: "cp_context c = ps"
    using ps by (simp_all add: c_def stored_checkpoint_def checkpoint_of_def Let_def)
  have "getResumeState (ri_executionId input) (store w) =
      map (\<lambda>n. (n, js_get (JObj ps) n)) (map fst (ri_completed input))"
    using wf map_from_entries_distinct [of "map (\<lambda>n. (n, js_get (JObj ps) n)) (map fst (ri_completed input))"]
    by (simp add: getResumeState_def latest keys ctx comp_def)
  then show "getResumeState (ri_executionId input) (store w) = stored_outputs (ri_completed input)"
    using lookup_stored [OF wf ps] by simp
  show "getResumeVariables (ri_executionId input) (store w) = stored_variables (ri_variables input)"
    by (simp add: getResumeVariables_def latest stored_variables_def c_def stored_checkpoint_def checkpoint_of_def Let_def)
qed

end
