(* ===== verification/Ai_Registry.thy ===== *)
theory Ai_Registry
  imports Js_Value
begin

text \<open>
  The model tables of \<^verbatim>\<open>packages/ai\<close>: \<^verbatim>\<open>src/registry.ts\<close> (which provider serves a model and which
  key it needs) and \<^verbatim>\<open>src/pricing/pricing-table.ts\<close> (what its tokens cost).

  The tables are plain objects indexed by a model name, so a name every object inherits, such
  as \<^verbatim>\<open>toString\<close>, is found too: \<open>lookup\<close> tells an own entry from an inherited property. Arithmetic
  is exact: token counts and prices are small enough that the rounding of double precision
  does not show in the rounded result of the modelled products.
\<close>

datatype 'a lookup = Own 'a | Inherited | Missing

definition table_get :: "(string \<times> 'a) list \<Rightarrow> string \<Rightarrow> 'a lookup" where
  "table_get t k = (case map_of t k of
     Some v \<Rightarrow> Own v | None \<Rightarrow> if k \<in> set object_prototype then Inherited else Missing)"

section \<open>Providers\<close>

datatype provider = Anthropic | OpenAI | Groq | XAI

definition registry :: "(string \<times> provider) list" where
  "registry = [(''claude-opus-5'', Anthropic), (''claude-sonnet-5'', Anthropic),
     (''claude-fable-5'', Anthropic), (''claude-haiku-4-5-20251001'', Anthropic),
     (''gpt-5'', OpenAI), (''gpt-5-mini'', OpenAI), (''gpt-4.1'', OpenAI), (''gpt-4o'', OpenAI),
     (''openai/gpt-oss-120b'', Groq), (''openai/gpt-oss-20b'', Groq), (''groq/compound'', Groq),
     (''groq/compound-mini'', Groq), (''grok-4.5'', XAI)]"

datatype registry_error = UnknownModel string | NoKeyName string | NotAProvider string

text \<open>An inherited property passes the truthiness test and is returned as if it were an adapter.\<close>

definition resolveProvider :: "string \<Rightarrow> registry_error + provider" where
  "resolveProvider model = (case table_get registry model of
     Own p \<Rightarrow> Inr p | Inherited \<Rightarrow> Inl (NotAProvider model) | Missing \<Rightarrow> Inl (UnknownModel model))"

definition keyNameByModel :: "(string \<times> string) list" where
  "keyNameByModel = [(''claude-opus-5'', ''ANTHROPIC_API_KEY''), (''claude-sonnet-5'', ''ANTHROPIC_API_KEY''),
     (''claude-fable-5'', ''ANTHROPIC_API_KEY''), (''claude-haiku-4-5-20251001'', ''ANTHROPIC_API_KEY''),
     (''gpt-5'', ''OPENAI_API_KEY''), (''gpt-5-mini'', ''OPENAI_API_KEY''), (''gpt-4.1'', ''OPENAI_API_KEY''),
     (''gpt-4o'', ''OPENAI_API_KEY''), (''openai/gpt-oss-120b'', ''GROQ_API_KEY''),
     (''openai/gpt-oss-20b'', ''GROQ_API_KEY''), (''groq/compound'', ''GROQ_API_KEY''),
     (''groq/compound-mini'', ''GROQ_API_KEY''), (''grok-4.5'', ''XAI_API_KEY'')]"

definition resolveKeyName :: "string \<Rightarrow> registry_error + string" where
  "resolveKeyName model = (case table_get keyNameByModel model of
     Own k \<Rightarrow> Inr k | Inherited \<Rightarrow> Inl (NotAProvider model) | Missing \<Rightarrow> Inl (NoKeyName model))"

definition providers :: "(string \<times> string) list" where
  "providers = [(''anthropic'', ''ANTHROPIC_API_KEY''), (''openai'', ''OPENAI_API_KEY''),
     (''groq'', ''GROQ_API_KEY''), (''xai'', ''XAI_API_KEY'')]"

definition resolveProviderId :: "string \<Rightarrow> string option" where
  "resolveProviderId model = (case table_get keyNameByModel model of
     Own k \<Rightarrow> map_option fst (find (\<lambda>p. snd p = k) providers) | _ \<Rightarrow> None)"

definition provider_id :: "provider \<Rightarrow> string" where
  "provider_id p = (case p of Anthropic \<Rightarrow> ''anthropic'' | OpenAI \<Rightarrow> ''openai'' | Groq \<Rightarrow> ''groq'' | XAI \<Rightarrow> ''xai'')"

section \<open>Prices\<close>

record model_price =
  inputMicrosPerToken :: rat
  outputMicrosPerToken :: rat

definition price :: "rat \<Rightarrow> rat \<Rightarrow> model_price" where
  "price i p = \<lparr>inputMicrosPerToken = i, outputMicrosPerToken = p\<rparr>"

definition modelPricing :: "(string \<times> model_price) list" where
  "modelPricing = [(''claude-opus-5'', price 5 25), (''claude-sonnet-5'', price 2 10),
     (''claude-fable-5'', price 10 50), (''claude-haiku-4-5-20251001'', price 1 5),
     (''gpt-5'', price (5/4) 10), (''gpt-5-mini'', price (1/4) 2), (''gpt-4.1'', price 2 8),
     (''gpt-4o'', price (5/2) 10), (''openai/gpt-oss-120b'', price (3/20) (3/5)),
     (''openai/gpt-oss-20b'', price (3/40) (3/10))]"

definition GROK_4_5_TIER_THRESHOLD_TOKENS :: rat where
  "GROK_4_5_TIER_THRESHOLD_TOKENS = 200000"

definition getModelPrice :: "string \<Rightarrow> rat \<Rightarrow> model_price lookup" where
  "getModelPrice model tokensInput =
    (if model = ''grok-4.5'' then
       Own (if GROK_4_5_TIER_THRESHOLD_TOKENS \<le> tokensInput then price 4 12 else price 2 6)
     else table_get modelPricing model)"

text \<open>\<^verbatim>\<open>Math.round\<close> rounds half up.\<close>

definition math_round :: "rat \<Rightarrow> int" where
  "math_round r = \<lfloor>r + 1/2\<rfloor>"

datatype cost_result = Cost int | Unpriced | CostRangeError

definition calculateCostMicros :: "string \<Rightarrow> rat \<Rightarrow> rat \<Rightarrow> cost_result" where
  "calculateCostMicros model tokensInput tokensOutput = (case getModelPrice model tokensInput of
       Missing \<Rightarrow> Unpriced
     | Inherited \<Rightarrow> CostRangeError
     | Own p \<Rightarrow> Cost (math_round (tokensInput * inputMicrosPerToken p + tokensOutput * outputMicrosPerToken p)))"

section \<open>The tables agree\<close>

lemma table_get_Own: "table_get t k = Own v \<longleftrightarrow> map_of t k = Some v"
  by (auto simp: table_get_def split: option.splits)

lemma table_all:
  assumes "list_all (\<lambda>(k, v). P k v) t" "table_get t k = Own v"
  shows "P k v"
  using assms map_of_SomeD [of t k v] by (auto simp: table_get_Own list_all_iff)

lemma registry_entry:
  "list_all (\<lambda>(m, p). resolveProviderId m = Some (provider_id p) \<and>
     resolveKeyName m = Inr (the (map_of providers (provider_id p))) \<and>
     (getModelPrice m 0 = Missing \<longleftrightarrow> m \<in> {''groq/compound'', ''groq/compound-mini''})) registry"
  by code_simp

lemma pricing_entry:
  "list_all (\<lambda>(m, p). 0 < inputMicrosPerToken p \<and> 0 < outputMicrosPerToken p \<and>
     \<not> isl (resolveProvider m)) modelPricing"
  by code_simp

lemma keys_entry: "list_all (\<lambda>(m, k). \<not> isl (resolveProvider m)) keyNameByModel"
  by code_simp

lemma math_round_nonneg: "0 \<le> r \<Longrightarrow> 0 \<le> math_round r"
  by (simp add: math_round_def)

lemma math_round_close: "\<bar>of_int (math_round r) - r\<bar> \<le> 1/2"
proof -
  have "of_int (math_round r) \<le> r + 1/2" "r + 1/2 < of_int (math_round r) + 1"
    unfolding math_round_def by linarith+
  then show ?thesis by linarith
qed

lemma price_positive:
  assumes "getModelPrice m t = Own p"
  shows "0 < inputMicrosPerToken p \<and> 0 < outputMicrosPerToken p"
  using assms table_all [OF pricing_entry]
  by (auto simp: getModelPrice_def price_def split: if_splits)

text \<open>
  C18. The model tables agree with each other: a model that has an adapter has the key name and
  the provider id of that adapter's provider, and it has a price unless it is one of the two
  models without a fixed rate; a model with a key name has an adapter. A computed cost is
  never negative and within half a micro of the exact price at positive rates.
\<close>

theorem model_tables_agree:
  "(\<forall>p. resolveProvider m = Inr p \<longrightarrow> resolveProviderId m = Some (provider_id p) \<and>
      map_of providers (provider_id p) = Some (projr (resolveKeyName m)) \<and>
      (calculateCostMicros m 0 0 = Unpriced \<longleftrightarrow> m = ''groq/compound'' \<or> m = ''groq/compound-mini'')) \<and>
   (\<forall>k. resolveKeyName m = Inr k \<longrightarrow> \<not> isl (resolveProvider m)) \<and>
   (\<forall>i u c. 0 \<le> i \<longrightarrow> 0 \<le> u \<longrightarrow> calculateCostMicros m i u = Cost c \<longrightarrow> 0 \<le> c \<and>
      (\<exists>p. getModelPrice m i = Own p \<and> 0 < inputMicrosPerToken p \<and> 0 < outputMicrosPerToken p \<and>
        \<bar>of_int c - (i * inputMicrosPerToken p + u * outputMicrosPerToken p)\<bar> \<le> 1/2))"
proof (intro conjI allI impI)
  fix p
  assume "resolveProvider m = Inr p"
  then have reg: "table_get registry m = Own p" by (simp add: resolveProvider_def split: lookup.splits)
  note e = table_all [OF registry_entry reg]
  show "resolveProviderId m = Some (provider_id p)" using e by blast
  have "map_of providers (provider_id p) \<noteq> None" by (cases p) (simp_all add: providers_def provider_id_def)
  with e show "map_of providers (provider_id p) = Some (projr (resolveKeyName m))" by auto
  have "calculateCostMicros m 0 0 = Unpriced \<longleftrightarrow> getModelPrice m 0 = Missing"
    by (simp add: calculateCostMicros_def split: lookup.splits)
  with e show "calculateCostMicros m 0 0 = Unpriced \<longleftrightarrow> m = ''groq/compound'' \<or> m = ''groq/compound-mini''"
    by blast
next
  fix k
  assume "resolveKeyName m = Inr k"
  then have "table_get keyNameByModel m = Own k" by (simp add: resolveKeyName_def split: lookup.splits)
  from table_all [OF keys_entry this] show "\<not> isl (resolveProvider m)" .
next
  fix i u :: rat and c
  assume "0 \<le> i" "0 \<le> u" "calculateCostMicros m i u = Cost c"
  then obtain p where p: "getModelPrice m i = Own p"
    "c = math_round (i * inputMicrosPerToken p + u * outputMicrosPerToken p)"
    by (auto simp: calculateCostMicros_def split: lookup.splits)
  note pos = price_positive [OF p(1)]
  show "0 \<le> c" unfolding p(2) using pos \<open>0 \<le> i\<close> \<open>0 \<le> u\<close> by (intro math_round_nonneg) simp
  show "\<exists>p. getModelPrice m i = Own p \<and> 0 < inputMicrosPerToken p \<and> 0 < outputMicrosPerToken p \<and>
      \<bar>of_int c - (i * inputMicrosPerToken p + u * outputMicrosPerToken p)\<bar> \<le> 1/2"
    using p pos math_round_close by blast
qed

theorem model_tables_agree_witness:
  "calculateCostMicros ''gpt-5-mini'' 1000 10 = Cost 270 \<and> resolveProviderId ''gpt-5-mini'' = Some ''openai''"
proof -
  have "resolveProvider ''gpt-5-mini'' = Inr OpenAI" "calculateCostMicros ''gpt-5-mini'' 1000 10 = Cost 270"
    by code_simp+
  with model_tables_agree [of "''gpt-5-mini''"] show ?thesis by (auto simp: provider_id_def)
qed

end
