(* ===== verification/Datetime.thy ===== *)
theory Datetime
  imports Node_Configs Ai_Registry
begin

text \<open>
  The datetime node: \<^verbatim>\<open>apps/execution-worker/src/graph/nodes/datetime.node.ts\<close> and its input schema
  \<^verbatim>\<open>packages/runtime/src/nodes/definitions/datetime.node.ts\<close>.

  A date is its time value: milliseconds since 1970 in UTC. The calendar functions of the
  language (\<^verbatim>\<open>getUTCFullYear\<close> and its siblings, \<^verbatim>\<open>setUTCMonth\<close>, \<^verbatim>\<open>Date.UTC\<close>, \<^verbatim>\<open>toISOString\<close>) are defined
  here by the formulas of its specification. Two services of the platform are parameters, in the
  record \<open>date_libs\<close>: parsing the text of a date, which the language leaves open for most
  formats, and the wall-clock fields of a time in a named zone.
\<close>

section \<open>The calendar of the language\<close>

definition msPerDay :: int where
  "msPerDay = 86400000"

definition Day :: "int \<Rightarrow> int" where
  "Day t = t div msPerDay"

definition TimeWithinDay :: "int \<Rightarrow> int" where
  "TimeWithinDay t = t mod msPerDay"

definition DayFromYear :: "int \<Rightarrow> int" where
  "DayFromYear y = 365 * (y - 1970) + (y - 1969) div 4 - (y - 1901) div 100 + (y - 1601) div 400"

definition is_leap :: "int \<Rightarrow> bool" where
  "is_leap y \<longleftrightarrow> y mod 4 = 0 \<and> (y mod 100 \<noteq> 0 \<or> y mod 400 = 0)"

definition DaysInYear :: "int \<Rightarrow> int" where
  "DaysInYear y = (if is_leap y then 366 else 365)"

text \<open>The year of a day: an estimate from the mean length of a year is off by at most one.\<close>

definition year_of_day :: "int \<Rightarrow> int" where
  "year_of_day d = (let e = 1970 + (400 * d) div 146097 in
     if DayFromYear (e + 1) \<le> d then e + 1 else if DayFromYear e \<le> d then e else e - 1)"

definition month_start :: "bool \<Rightarrow> nat \<Rightarrow> int" where
  "month_start leap m = [0, 31, 59, 90, 120, 151, 181, 212, 243, 273, 304, 334] ! m +
     (if leap \<and> 2 \<le> m then 1 else 0)"

definition month_of_day :: "bool \<Rightarrow> int \<Rightarrow> nat" where
  "month_of_day leap n = length (filter (\<lambda>m. month_start leap m \<le> n) [1..<12])"

definition YearFromTime :: "int \<Rightarrow> int" where
  "YearFromTime t = year_of_day (Day t)"

definition DayWithinYear :: "int \<Rightarrow> int" where
  "DayWithinYear t = Day t - DayFromYear (YearFromTime t)"

definition MonthFromTime :: "int \<Rightarrow> int" where
  "MonthFromTime t = int (month_of_day (is_leap (YearFromTime t)) (DayWithinYear t))"

definition DateFromTime :: "int \<Rightarrow> int" where
  "DateFromTime t = DayWithinYear t - month_start (is_leap (YearFromTime t)) (nat (MonthFromTime t)) + 1"

definition HourFromTime :: "int \<Rightarrow> int" where
  "HourFromTime t = t div 3600000 mod 24"

definition MinFromTime :: "int \<Rightarrow> int" where
  "MinFromTime t = t div 60000 mod 60"

definition SecFromTime :: "int \<Rightarrow> int" where
  "SecFromTime t = t div 1000 mod 60"

definition WeekDay :: "int \<Rightarrow> int" where
  "WeekDay t = (Day t + 4) mod 7"

definition MakeDay :: "int \<Rightarrow> int \<Rightarrow> int \<Rightarrow> int" where
  "MakeDay y m dt = (let ym = y + m div 12 in
     DayFromYear ym + month_start (is_leap ym) (nat (m mod 12)) + dt - 1)"

definition MakeDate :: "int \<Rightarrow> int \<Rightarrow> int" where
  "MakeDate d t = d * msPerDay + t"

text \<open>Numbers are truncated toward zero when they become a time; a time out of range is invalid.\<close>

definition to_integer :: "rat \<Rightarrow> int" where
  "to_integer r = (if 0 \<le> r then \<lfloor>r\<rfloor> else \<lceil>r\<rceil>)"

definition TimeClip :: "int \<Rightarrow> int option" where
  "TimeClip t = (if \<bar>t\<bar> \<le> 8640000000000000 then Some t else None)"

section \<open>Correctness of the calendar\<close>

lemma div_bounds:
  fixes a :: int
  shows "4 * (a div 4) \<le> a" "a \<le> 4 * (a div 4) + 3" "100 * (a div 100) \<le> a" "a \<le> 100 * (a div 100) + 99"
    "400 * (a div 400) \<le> a" "a \<le> 400 * (a div 400) + 399"
    "146097 * (a div 146097) \<le> a" "a \<le> 146097 * (a div 146097) + 146096"
  using pos_mod_bound [of 4 a] pos_mod_bound [of 100 a] pos_mod_bound [of 400 a] pos_mod_bound [of 146097 a]
  by (simp_all add: minus_mod_eq_mult_div [symmetric])

lemma day_from_year_bounds:
  fixes y a b c :: int
  assumes "4 * a \<le> y - 1969" "y - 1969 \<le> 4 * a + 3" "100 * b \<le> y - 1901" "y - 1901 \<le> 100 * b + 99"
    "400 * c \<le> y - 1601" "y - 1601 \<le> 400 * c + 399"
  shows "146097 * (y - 1970) - 1200 \<le> 400 * (365 * (y - 1970) + a - b + c) \<and>
    400 * (365 * (y - 1970) + a - b + c) \<le> 146097 * (y - 1970) + 1200"
  using assms by (simp add: algebra_simps)

lemma DayFromYear_approx:
  "146097 * (y - 1970) - 1200 \<le> 400 * DayFromYear y \<and> 400 * DayFromYear y \<le> 146097 * (y - 1970) + 1200"
  unfolding DayFromYear_def by (rule day_from_year_bounds) (rule div_bounds)+

lemma div_next:
  fixes a k :: int
  assumes "0 < k"
  shows "(a + 1) div k = a div k + (if (a + 1) mod k = 0 then 1 else 0)"
proof (cases "(a + 1) mod k = 0")
  case True
  then obtain q where q: "a + 1 = k * q" by fastforce
  have "a = (k - 1) + (q - 1) * k" using q by (simp add: algebra_simps)
  then have "a div k = (k - 1) div k + (q - 1)" using assms by (metis div_mult_self1 less_irrefl add.commute)
  then show ?thesis using q assms True by simp
next
  case False
  have "0 \<le> a mod k" "a mod k < k" using assms by simp_all
  moreover have "a mod k \<noteq> k - 1"
  proof
    assume *: "a mod k = k - 1"
    have "(a + 1) mod k = (a mod k + 1) mod k" by (simp add: mod_simps)
    with * False show False by simp
  qed
  ultimately have "(a mod k + 1) div k = 0" by simp
  moreover have "a + 1 = (a mod k + 1) + (a div k) * k" by simp
  ultimately have "(a + 1) div k = a div k" using assms by (metis div_mult_self1 less_irrefl add.right_neutral)
  then show ?thesis using False by simp
qed

lemma year_mods:
  fixes y :: int
  shows "(y - 1969 + 1) mod 4 = y mod 4" "(y - 1901 + 1) mod 100 = y mod 100" "(y - 1601 + 1) mod 400 = y mod 400"
  using mod_mult_self1 [of y "- 492" 4] mod_mult_self1 [of y "- 19" 100] mod_mult_self1 [of y "- 4" 400] by simp_all

lemma leap_count:
  "(q \<Longrightarrow> p) \<Longrightarrow> (r \<Longrightarrow> q) \<Longrightarrow> (if p then 1 else 0) - (if q then 1 else 0) + (if r then 1 else 0) =
     (if p \<and> (\<not> q \<or> r) then 366 else 365) - (365 :: int)"
  by (cases p; cases q; cases r; simp)

lemma DayFromYear_Suc: "DayFromYear (y + 1) = DayFromYear y + DaysInYear y"
proof -
  have m: "y mod 400 = 0 \<Longrightarrow> y mod 100 = 0" "y mod 100 = 0 \<Longrightarrow> y mod 4 = 0"
    by (auto simp: mod_eq_0_iff_dvd elim!: dvd_trans [rotated])
  have e: "y + 1 - 1969 = y - 1969 + 1" "y + 1 - 1901 = y - 1901 + 1" "y + 1 - 1601 = y - 1601 + 1" by simp_all
  have "DayFromYear (y + 1) = DayFromYear y + 365 + ((if y mod 4 = 0 then 1 else 0) -
      (if y mod 100 = 0 then 1 else 0) + (if y mod 400 = 0 then 1 else 0))"
    unfolding DayFromYear_def e div_next [OF zero_less_numeral] year_mods by simp
  also have "(if y mod 4 = 0 then 1 else 0) - (if y mod 100 = 0 then 1 else 0) + (if y mod 400 = 0 then 1 else 0) =
      DaysInYear y - 365"
    unfolding DaysInYear_def is_leap_def by (rule leap_count) (erule m)+
  finally show ?thesis by simp
qed

lemma year_of_day_bounds: "DayFromYear (year_of_day d) \<le> d \<and> d < DayFromYear (year_of_day d + 1)"
proof -
  define e where "e = 1970 + (400 * d) div 146097"
  have e: "146097 * (e - 1970) \<le> 400 * d" "400 * d \<le> 146097 * (e - 1970) + 146096"
    using div_bounds(7,8) [of "400 * d"] by (simp_all add: e_def)
  have "DayFromYear (e - 1) \<le> d" using DayFromYear_approx [of "e - 1"] e by simp
  moreover have "d < DayFromYear (e + 2)" using DayFromYear_approx [of "e + 2"] e by simp
  ultimately show ?thesis by (simp add: year_of_day_def Let_def add.assoc flip: e_def)
qed

definition month_length :: "bool \<Rightarrow> nat \<Rightarrow> int" where
  "month_length leap m = [31, if leap then 29 else 28, 31, 30, 31, 30, 31, 31, 30, 31, 30, 31] ! m"

definition in_month :: "bool \<Rightarrow> int \<Rightarrow> nat \<Rightarrow> bool" where
  "in_month leap n m \<longleftrightarrow> month_start leap m \<le> n \<and> n < month_start leap m + month_length leap m"

lemma month_table:
  "list_all (\<lambda>leap. list_all (\<lambda>n. list_all (\<lambda>m. in_month leap n m = (month_of_day leap n = m)) [0..<12] \<and>
     month_of_day leap n < 12) [0..(if leap then 365 else 364)]) [True, False]"
  by code_simp

lemma month_ends:
  "list_all (\<lambda>leap. list_all (\<lambda>m. 0 \<le> month_start leap m \<and>
     month_start leap m + month_length leap m \<le> (if leap then 366 else 365)) [0..<12]) [True, False]"
  by code_simp

text \<open>A day of the year lies in exactly one month, the one the formula gives.\<close>

lemma month_of_day_iff:
  assumes "m < 12"
  shows "in_month leap n m \<longleftrightarrow> 0 \<le> n \<and> n < (if leap then 366 else 365) \<and> month_of_day leap n = m"
proof -
  have "0 \<le> month_start leap m \<and> month_start leap m + month_length leap m \<le> (if leap then 366 else 365)"
    using month_ends assms by (cases leap) (auto simp: list_all_iff)
  then have "in_month leap n m \<Longrightarrow> 0 \<le> n \<and> n < (if leap then 366 else 365)"
    by (auto simp: in_month_def)
  moreover have "in_month leap n m = (month_of_day leap n = m)" if "0 \<le> n" "n < (if leap then 366 else 365)"
    using month_table assms that by (cases leap) (auto simp: list_all_iff)
  ultimately show ?thesis by blast
qed

lemma month_of_day_less:
  assumes "0 \<le> n" "n < (if leap then 366 else 365)"
  shows "month_of_day leap n < 12"
  using month_table assms by (cases leap) (auto simp: list_all_iff)


lemma DayWithinYear_bounds: "0 \<le> DayWithinYear t \<and> DayWithinYear t < DaysInYear (YearFromTime t)"
  using year_of_day_bounds [of "Day t"] by (simp add: DayWithinYear_def YearFromTime_def DayFromYear_Suc)

lemma DayFromYear_mono: "y \<le> z \<Longrightarrow> DayFromYear y \<le> DayFromYear z"
proof (induction z rule: int_ge_induct [of y])
  case (step z)
  then show ?case by (simp add: DayFromYear_Suc DaysInYear_def)
qed simp_all

text \<open>A year is found from any day inside it.\<close>

lemma year_of_day_unique:
  assumes "DayFromYear y \<le> d" "d < DayFromYear (y + 1)"
  shows "year_of_day d = y"
proof -
  have "\<not> year_of_day d + 1 \<le> y" "\<not> y + 1 \<le> year_of_day d"
    using DayFromYear_mono [of "year_of_day d + 1" y] DayFromYear_mono [of "y + 1" "year_of_day d"]
      year_of_day_bounds [of d] assms by linarith+
  then show ?thesis by simp
qed

lemma MonthFromTime_bounds: "0 \<le> MonthFromTime t \<and> MonthFromTime t \<le> 11"
  using month_of_day_less [of "DayWithinYear t" "is_leap (YearFromTime t)"] DayWithinYear_bounds [of t]
  by (simp add: MonthFromTime_def DaysInYear_def split: if_splits)

lemma in_month_of_time: "in_month (is_leap (YearFromTime t)) (DayWithinYear t) (nat (MonthFromTime t))"
  using month_of_day_iff [of "nat (MonthFromTime t)" "is_leap (YearFromTime t)" "DayWithinYear t"]
    MonthFromTime_bounds [of t] DayWithinYear_bounds [of t]
  by (auto simp: MonthFromTime_def DaysInYear_def split: if_splits)

lemma DateFromTime_bounds:
  "1 \<le> DateFromTime t \<and> DateFromTime t \<le> month_length (is_leap (YearFromTime t)) (nat (MonthFromTime t))"
  using in_month_of_time [of t] by (simp add: DateFromTime_def in_month_def)

lemma Day_MakeDate: "0 \<le> u \<Longrightarrow> u < msPerDay \<Longrightarrow> Day (MakeDate d u) = d \<and> TimeWithinDay (MakeDate d u) = u"
  by (simp add: Day_def TimeWithinDay_def MakeDate_def msPerDay_def)

lemma TimeWithinDay_bounds: "0 \<le> TimeWithinDay t \<and> TimeWithinDay t < msPerDay"
  by (simp add: TimeWithinDay_def msPerDay_def)

lemma MakeDate_fields: "MakeDate (Day t) (TimeWithinDay t) = t"
  by (simp add: MakeDate_def Day_def TimeWithinDay_def)

text \<open>Reading the fields of a time and putting them together again gives the time back.\<close>

lemma MakeDay_fields: "MakeDay (YearFromTime t) (MonthFromTime t) (DateFromTime t) = Day t"
  using MonthFromTime_bounds [of t]
  by (simp add: MakeDay_def Let_def DateFromTime_def DayWithinYear_def)

text \<open>A day that exists in its month is read back with the fields it was made from.\<close>

lemma fields_of_MakeDay:
  assumes t: "Day t = MakeDay y m dt"
    and dt: "1 \<le> dt" "dt \<le> month_length (is_leap (y + m div 12)) (nat (m mod 12))"
  shows "YearFromTime t = y + m div 12 \<and> MonthFromTime t = m mod 12 \<and> DateFromTime t = dt"
proof -
  let ?y = "y + m div 12" and ?m = "nat (m mod 12)"
  have m: "?m < 12" by simp
  let ?n = "month_start (is_leap ?y) ?m + dt - 1"
  have n: "in_month (is_leap ?y) ?n ?m" using dt by (simp add: in_month_def)
  then have bounds: "0 \<le> ?n" "?n < DaysInYear ?y" "month_of_day (is_leap ?y) ?n = ?m"
    using month_of_day_iff [OF m] by (simp_all add: DaysInYear_def split: if_splits)
  have "Day t = DayFromYear ?y + ?n" using t by (simp add: MakeDay_def Let_def)
  moreover from this have "YearFromTime t = ?y"
    unfolding YearFromTime_def using bounds(1,2) by (intro year_of_day_unique) (simp_all add: DayFromYear_Suc)
  ultimately show ?thesis using bounds(3)
    by (simp add: MonthFromTime_def DateFromTime_def DayWithinYear_def)
qed


section \<open>Text of numbers and dates\<close>

fun nat_str :: "nat \<Rightarrow> string" where
  "nat_str n = (if n < 10 then [char_of (48 + n)] else nat_str (n div 10) @ [char_of (48 + n mod 10)])"

declare nat_str.simps [simp del]

definition pad :: "nat \<Rightarrow> int \<Rightarrow> string" where
  "pad w n = (let s = nat_str (nat n) in replicate (w - length s) (CHR ''0'') @ s)"

definition iso_year :: "int \<Rightarrow> string" where
  "iso_year y = (if 0 \<le> y \<and> y \<le> 9999 then pad 4 y
     else (if y < 0 then CHR ''-'' else CHR ''+'') # pad 6 \<bar>y\<bar>)"

definition toISOString :: "int \<Rightarrow> string" where
  "toISOString t = iso_year (YearFromTime t) @ ''-'' @ pad 2 (MonthFromTime t + 1) @ ''-'' @
     pad 2 (DateFromTime t) @ ''T'' @ pad 2 (HourFromTime t) @ '':'' @ pad 2 (MinFromTime t) @ '':'' @
     pad 2 (SecFromTime t) @ ''.'' @ pad 3 (t mod 1000) @ ''Z''"

section \<open>The operations of the node\<close>

record date_libs =
  parse_date :: "string \<Rightarrow> int option"
  zone_parts :: "string \<Rightarrow> int \<Rightarrow> (string \<Rightarrow> string option) option"

definition MS_PER_UNIT :: "(string \<times> int) list" where
  "MS_PER_UNIT = [(''seconds'', 1000), (''minutes'', 60000), (''hours'', 3600000), (''days'', 86400000),
     (''weeks'', 604800000)]"

definition new_Date :: "rat \<Rightarrow> int option" where
  "new_Date r = (if \<bar>r\<bar> \<le> 8640000000000000 then Some (to_integer r) else None)"

text \<open>The inner option is an invalid date.\<close>

definition addToDate :: "int \<Rightarrow> string \<Rightarrow> rat \<Rightarrow> string + int option" where
  "addToDate t unit amount =
    (if unit = ''months'' then
       Inr (TimeClip (MakeDate (MakeDay (YearFromTime t) (to_integer (of_int (MonthFromTime t) + amount))
         (DateFromTime t)) (TimeWithinDay t)))
     else if unit = ''years'' then
       Inr (TimeClip (MakeDate (MakeDay (to_integer (of_int (YearFromTime t) + amount)) (MonthFromTime t)
         (DateFromTime t)) (TimeWithinDay t)))
     else (case table_get MS_PER_UNIT unit of
         Own ms \<Rightarrow> Inr (new_Date (of_int t + amount * of_int ms))
       | Inherited \<Rightarrow> Inr None
       | Missing \<Rightarrow> Inl ''Datetime node: unknown unit''))"

definition diffInUnit :: "int \<Rightarrow> int \<Rightarrow> string \<Rightarrow> string + jsnum" where
  "diffInUnit startMs endMs unit =
    (if unit = ''months'' \<or> unit = ''years'' then
       let totalMonths = (YearFromTime endMs - YearFromTime startMs) * 12 +
             (MonthFromTime endMs - MonthFromTime startMs)
       in Inr (Fin (of_int (if unit = ''years'' then to_integer (of_int totalMonths / 12) else totalMonths)))
     else (case table_get MS_PER_UNIT unit of
         Own ms \<Rightarrow> Inr (Fin (of_int (to_integer (of_int (endMs - startMs) / of_int ms))))
       | Inherited \<Rightarrow> Inr NaN
       | Missing \<Rightarrow> Inl ''Datetime node: unknown unit''))"

function replace_tokens :: "(string \<Rightarrow> string) \<Rightarrow> string \<Rightarrow> string" where
  "replace_tokens f [] = []"
| "replace_tokens f (c # cs) =
    (if take 4 (c # cs) = ''YYYY'' then f ''YYYY'' @ replace_tokens f (drop 3 cs)
     else if take 2 (c # cs) \<in> {''MM'', ''DD'', ''HH'', ''mm'', ''ss''}
     then f (take 2 (c # cs)) @ replace_tokens f (drop 1 cs)
     else c # replace_tokens f cs)"
  by pat_completeness auto

termination by (relation "measure (\<lambda>(f, s). length s)") auto

definition formatWithTokens :: "date_libs \<Rightarrow> int \<Rightarrow> string \<Rightarrow> string option \<Rightarrow> string + string" where
  "formatWithTokens L t format timezone =
    (case zone_parts L (case timezone of None \<Rightarrow> ''UTC'' | Some z \<Rightarrow> z) t of
       None \<Rightarrow> Inl ''Invalid time zone specified''
     | Some parts \<Rightarrow>
         let get = (\<lambda>ty. case parts ty of None \<Rightarrow> ''00'' | Some v \<Rightarrow> v);
             tokens = [(''YYYY'', get ''year''), (''MM'', get ''month''), (''DD'', get ''day''),
               (''HH'', get ''hour''), (''mm'', get ''minute''), (''ss'', get ''second'')]
         in Inr (replace_tokens (\<lambda>tok. case map_of tokens tok of None \<Rightarrow> tok | Some v \<Rightarrow> v) format))"

definition extractDatePart :: "int \<Rightarrow> string \<Rightarrow> string + int" where
  "extractDatePart t part =
    (if part = ''year'' then Inr (YearFromTime t)
     else if part = ''month'' then Inr (MonthFromTime t + 1)
     else if part = ''day'' then Inr (DateFromTime t)
     else if part = ''hour'' then Inr (HourFromTime t)
     else if part = ''minute'' then Inr (MinFromTime t)
     else if part = ''second'' then Inr (SecFromTime t)
     else if part = ''dayOfWeek'' then Inr (WeekDay t)
     else if part = ''dayOfYear'' then
       Inr ((t - MakeDate (MakeDay (YearFromTime t) 0 1) 0) div 86400000 + 1)
     else Inl ''Datetime node: unknown part'')"

definition parseDate :: "date_libs \<Rightarrow> string option \<Rightarrow> string \<Rightarrow> string + int" where
  "parseDate L v label = (case v of
       None \<Rightarrow> Inl (''Datetime node is missing '' @ label)
     | Some s \<Rightarrow> if s = [] then Inl (''Datetime node is missing '' @ label)
         else (case parse_date L s of None \<Rightarrow> Inl (''Datetime node could not parse '' @ label) | Some t \<Rightarrow> Inr t))"

section \<open>The node\<close>

record datetime_config =
  dt_operation :: string
  dt_date :: "string option"
  dt_startDate :: "string option"
  dt_endDate :: "string option"
  dt_unit :: "string option"
  dt_amount :: "rat option"
  dt_part :: "string option"
  dt_format :: "string option"
  dt_timezone :: "string option"

definition z_enum :: "string list \<Rightarrow> jsval \<Rightarrow> string option" where
  "z_enum opts v = (case v of JStr s \<Rightarrow> if s \<in> set opts then Some s else None | _ \<Rightarrow> None)"

definition amountSchema :: "jsval \<Rightarrow> rat option option" where
  "amountSchema v = (case v of
       JUndef \<Rightarrow> Some None
     | JNull \<Rightarrow> Some None
     | JStr s \<Rightarrow> if blank s then Some None
         else (case Number_str s of Fin r \<Rightarrow> Some (Some r) | _ \<Rightarrow> None)
     | _ \<Rightarrow> map_option Some (z_number v))"

definition datetimeInputSchema :: "jsval \<Rightarrow> datetime_config option" where
  "datetimeInputSchema ob =
     Option.bind (z_enum [''add'', ''subtract'', ''extractPart'', ''format'', ''getCurrentDate'', ''difference'']
       (js_get ob ''operation'')) (\<lambda>op.
     Option.bind (z_optional z_string (js_get ob ''date'')) (\<lambda>d.
     Option.bind (z_optional z_string (js_get ob ''startDate'')) (\<lambda>sd.
     Option.bind (z_optional z_string (js_get ob ''endDate'')) (\<lambda>ed.
     Option.bind (z_optional (z_enum [''seconds'', ''minutes'', ''hours'', ''days'', ''weeks'', ''months'', ''years''])
       (js_get ob ''unit'')) (\<lambda>u.
     Option.bind (amountSchema (js_get ob ''amount'')) (\<lambda>am.
     Option.bind (z_optional (z_enum [''year'', ''month'', ''day'', ''hour'', ''minute'', ''second'', ''dayOfWeek'', ''dayOfYear''])
       (js_get ob ''part'')) (\<lambda>pt.
     Option.bind (z_optional z_string (js_get ob ''format'')) (\<lambda>f.
     Option.bind (z_optional z_string (js_get ob ''timezone'')) (\<lambda>z.
     Some \<lparr>dt_operation = op, dt_date = d, dt_startDate = sd, dt_endDate = ed, dt_unit = u, dt_amount = am,
       dt_part = pt, dt_format = f, dt_timezone = z\<rparr>)))))))))"

definition nonempty :: "string option \<Rightarrow> string option" where
  "nonempty v = (case v of Some [] \<Rightarrow> None | _ \<Rightarrow> v)"

definition iso_result :: "int option \<Rightarrow> string + jsval" where
  "iso_result t = (case t of None \<Rightarrow> Inl ''Invalid time value'' | Some u \<Rightarrow> Inr (JStr (toISOString u)))"

definition datetime_operation :: "date_libs \<Rightarrow> int \<Rightarrow> datetime_config \<Rightarrow> string option \<Rightarrow> string + jsval" where
  "datetime_operation L now c primaryDate =
    (if dt_operation c = ''getCurrentDate'' then
       (if nonempty (dt_timezone c) \<noteq> None \<or> nonempty (dt_format c) \<noteq> None
        then bindE (formatWithTokens L now (case nonempty (dt_format c) of None \<Rightarrow> ''YYYY-MM-DDTHH:mm:ss'' | Some f \<Rightarrow> f)
          (dt_timezone c)) (\<lambda>s. Inr (JStr s))
        else iso_result (Some now))
     else if dt_operation c = ''add'' \<or> dt_operation c = ''subtract'' then
       bindE (parseDate L primaryDate ''date'') (\<lambda>t.
         case dt_unit c of None \<Rightarrow> Inl ''Datetime node is missing unit'' | Some unit \<Rightarrow>
           (case dt_amount c of None \<Rightarrow> Inl ''Datetime node is missing amount'' | Some amount \<Rightarrow>
             bindE (addToDate t unit (if dt_operation c = ''subtract'' then - amount else amount)) iso_result))
     else if dt_operation c = ''extractPart'' then
       bindE (parseDate L primaryDate ''date'') (\<lambda>t.
         case dt_part c of None \<Rightarrow> Inl ''Datetime node is missing part'' | Some part \<Rightarrow>
           bindE (extractDatePart t part) (\<lambda>n. Inr (JInt n)))
     else if dt_operation c = ''format'' then
       bindE (parseDate L primaryDate ''date'') (\<lambda>t.
         case nonempty (dt_format c) of
           Some f \<Rightarrow> bindE (formatWithTokens L t f (dt_timezone c)) (\<lambda>s. Inr (JStr s))
         | None \<Rightarrow> iso_result (Some t))
     else
       bindE (parseDate L (dt_startDate c) ''startDate'') (\<lambda>start.
       bindE (parseDate L (dt_endDate c) ''endDate'') (\<lambda>end'.
         case dt_unit c of None \<Rightarrow> Inl ''Datetime node is missing unit'' | Some unit \<Rightarrow>
           bindE (diffInUnit start end' unit) (\<lambda>n. Inr (JNum n)))))"

definition datetime_execute :: "date_libs \<Rightarrow> int \<Rightarrow> (string \<times> jsval) list \<Rightarrow> jsval \<Rightarrow> string + jsval" where
  "datetime_execute L now cfg i = (case datetimeInputSchema (JObj cfg) of
       None \<Rightarrow> Inl ''Invalid input''
     | Some c \<Rightarrow>
         bindE (datetime_operation L now c
             (case nonempty (dt_date c) of Some d \<Rightarrow> Some d | None \<Rightarrow> (case i of JStr s \<Rightarrow> Some s | _ \<Rightarrow> None)))
           (\<lambda>r. Inr (JObj [(''result'', r)])))"


section \<open>Adding and taking differences\<close>

lemma to_integer_of_int [simp]: "to_integer (of_int n) = n"
  by (simp add: to_integer_def)

lemma month_length_28: "m < 12 \<Longrightarrow> 28 \<le> month_length leap m"
proof -
  have "list_all (\<lambda>leap. list_all (\<lambda>m. 28 \<le> month_length leap m) [0..<12]) [True, False]" by code_simp
  then show "m < 12 \<Longrightarrow> 28 \<le> month_length leap m" by (cases leap) (auto simp: list_all_iff)
qed

text \<open>A calendar shift of a date whose day exists in every month.\<close>

lemma shifted_fields:
  assumes "t' = MakeDate (MakeDay y m (DateFromTime t)) (TimeWithinDay t)" "DateFromTime t \<le> 28"
  shows "YearFromTime t' = y + m div 12 \<and> MonthFromTime t' = m mod 12 \<and> DateFromTime t' = DateFromTime t \<and>
    TimeWithinDay t' = TimeWithinDay t"
proof -
  have d: "Day t' = MakeDay y m (DateFromTime t)" "TimeWithinDay t' = TimeWithinDay t"
    using Day_MakeDate TimeWithinDay_bounds [of t] assms(1) by simp_all
  have "DateFromTime t \<le> month_length (is_leap (y + m div 12)) (nat (m mod 12))"
    by (rule order_trans [OF assms(2) month_length_28]) (simp add: nat_less_iff)
  with fields_of_MakeDay [OF d(1)] d(2) DateFromTime_bounds [of t] show ?thesis by simp
qed

lemma MakeDay_carry: "MakeDay (y + k) m dt = MakeDay y (m + 12 * k) dt"
  by (simp add: MakeDay_def Let_def ac_simps)

lemma rebuild_time:
  "MakeDate (MakeDay (YearFromTime t) (MonthFromTime t) (DateFromTime t)) (TimeWithinDay t) = t"
  by (simp add: MakeDay_fields MakeDate_fields)

lemma TimeClip_Some: "TimeClip t = Some t' \<longleftrightarrow> t' = t \<and> \<bar>t\<bar> \<le> 8640000000000000"
  by (auto simp: TimeClip_def)

lemma month_split: "(y + m div 12 - y0) * 12 + (m mod 12 - m0) = (y - y0) * 12 + m - (m0 :: int)"
  using mult_div_mod_eq [of 12 m] by (simp add: algebra_simps)

lemma add_months:
  assumes "addToDate t ''months'' (of_int n) = Inr (Some t')" "DateFromTime t \<le> 28" "\<bar>t\<bar> \<le> 8640000000000000"
  shows "diffInUnit t t' ''months'' = Inr (Fin (of_int n)) \<and> addToDate t' ''months'' (- of_int n) = Inr (Some t)"
proof -
  let ?y = "YearFromTime t" and ?m = "MonthFromTime t"
  have t': "t' = MakeDate (MakeDay ?y (?m + n) (DateFromTime t)) (TimeWithinDay t)"
    using assms(1) to_integer_of_int [of "?m + n"] by (simp add: addToDate_def TimeClip_Some)
  note f = shifted_fields [OF t' assms(2)]
  have "MakeDay (?y + (?m + n) div 12) ((?m + n) mod 12 - n) (DateFromTime t) = MakeDay ?y ?m (DateFromTime t)"
    unfolding MakeDay_carry using mult_div_mod_eq [of 12 "?m + n"] by (simp add: algebra_simps)
  then show ?thesis
    using f assms(3) rebuild_time [of t] month_split [of ?y "?m + n" ?y ?m] to_integer_of_int [of "(?m + n) mod 12 - n"]
    by (simp add: diffInUnit_def addToDate_def Let_def TimeClip_Some)
qed

lemma add_years:
  assumes "addToDate t ''years'' (of_int n) = Inr (Some t')" "DateFromTime t \<le> 28" "\<bar>t\<bar> \<le> 8640000000000000"
  shows "diffInUnit t t' ''years'' = Inr (Fin (of_int n)) \<and> addToDate t' ''years'' (- of_int n) = Inr (Some t)"
proof -
  let ?y = "YearFromTime t" and ?m = "MonthFromTime t"
  have t': "t' = MakeDate (MakeDay (?y + n) ?m (DateFromTime t)) (TimeWithinDay t)"
    using assms(1) to_integer_of_int [of "?y + n"] by (simp add: addToDate_def TimeClip_Some)
  have "?m div 12 = 0" "?m mod 12 = ?m" using MonthFromTime_bounds [of t] by simp_all
  with shifted_fields [OF t' assms(2)] have "YearFromTime t' = ?y + n" "MonthFromTime t' = ?m"
    "DateFromTime t' = DateFromTime t" "TimeWithinDay t' = TimeWithinDay t" by simp_all
  then show ?thesis using assms(3) rebuild_time [of t] to_integer_of_int [of ?y]
    by (simp add: diffInUnit_def addToDate_def Let_def TimeClip_Some)
qed

lemma add_fixed:
  assumes "table_get MS_PER_UNIT unit = Own ms" "addToDate t unit (of_int n) = Inr (Some t')" "\<bar>t\<bar> \<le> 8640000000000000"
  shows "diffInUnit t t' unit = Inr (Fin (of_int n)) \<and> addToDate t' unit (- of_int n) = Inr (Some t)"
proof -
  have u: "unit \<noteq> ''months''" "unit \<noteq> ''years''" "0 < ms"
    using assms(1) table_all [of "\<lambda>k v. k \<noteq> ''months'' \<and> k \<noteq> ''years'' \<and> 0 < v" MS_PER_UNIT unit ms]
    by (simp_all add: MS_PER_UNIT_def)
  have "t' = t + n * ms"
    using assms(1,2) u to_integer_of_int [of "t + n * ms"] by (simp add: addToDate_def new_Date_def split: if_splits)
  then show ?thesis using u assms(1,3) to_integer_of_int [of n] to_integer_of_int [of t]
    by (simp add: diffInUnit_def addToDate_def new_Date_def)
qed



lemma mod_split: "0 \<le> (c :: int) \<Longrightarrow> b * c = n \<Longrightarrow> a mod n = b * (a div b mod c) + a mod b"
  using zmod_zmult2_eq by blast


end
