(* ===== verification/Approvals.thy ===== *)
theory Approvals
  imports Execution_Store Datetime
begin

text \<open>
  Approval requests: \<^verbatim>\<open>approval-request.repository.ts\<close> of \<^verbatim>\<open>packages/db/src/repositories\<close> with what it
  uses of \<^verbatim>\<open>connection-authority.repository.ts\<close>, \<^verbatim>\<open>public-idempotency.repository.ts\<close>,
  \<^verbatim>\<open>connector-audit.repository.ts\<close> and \<^verbatim>\<open>action-intent-cancellation.repository.ts\<close>.

  The conventions are those of \<open>Execution_Store\<close>: a transaction that throws is a left summand,
  generated identifiers are arguments (record \<open>approval_ids\<close>), and \<open>now\<close> is what the call reads from
  the clock. The application compares times as \<^verbatim>\<open>Date\<close>, in whole milliseconds.
\<close>

record approval_ids =
  new_request :: uuid
  new_decision :: uuid
  new_fact :: uuid
  new_record :: uuid
  wake_message :: uuid
  event_message :: uuid

text \<open>\<^verbatim>\<open>octet_length\<close> of a text in UTF-8.\<close>

definition utf8_length :: "string \<Rightarrow> nat" where
  "utf8_length s = sum_list (map (\<lambda>c. if of_char c < (128 :: nat) then 1 else 2) s)"

definition field :: "string \<Rightarrow> 'a option \<Rightarrow> ('a \<Rightarrow> jsval) \<Rightarrow> (string \<times> jsval) list" where
  "field k v f = (case v of None \<Rightarrow> [] | Some x \<Rightarrow> [(k, f x)])"

text \<open>A display as it is stored, and as events show it (an empty description is left out).\<close>

definition stored_display :: "display \<Rightarrow> jsval" where
  "stored_display dp = JObj ([(''title'', JStr (dp_title dp))] @ field ''description'' (dp_description dp) JStr @
     field ''details'' (dp_details dp) (\<lambda>ps. JObj (map (\<lambda>(k, v). (k, JStr v)) ps)))"

definition display_json :: "display \<Rightarrow> jsval" where
  "display_json dp = JObj ([(''title'', JStr (dp_title dp))] @
     field ''description'' (truthy_string (dp_description dp)) JStr @
     field ''details'' (dp_details dp) (\<lambda>ps. JObj (map (\<lambda>(k, v). (k, JStr v)) ps)))"

section \<open>Audit facts of connectors\<close>

definition auditExpiry :: "timestamp \<Rightarrow> timestamp option" where
  "auditExpiry occurredAt = (case addToDate (occurredAt div 1000) ''years'' 1 of
       Inr (Some t) \<Rightarrow> Some (t * 1000) | _ \<Rightarrow> None)"

definition retentionContext :: "uuid \<Rightarrow> uuid option \<Rightarrow> db \<Rightarrow> db_error + (int \<times> uuid option)" where
  "retentionContext env subject d = (case subject of
       None \<Rightarrow> (case find (\<lambda>e. env_id e = env) (environments d) of
           None \<Rightarrow> Inl (AppError ''Connector audit Environment is missing'')
         | Some e \<Rightarrow> Inr (env_contentRetentionDays e, None))
     | Some s \<Rightarrow> (case first_row (concat (map (\<lambda>e. if env_id e \<noteq> env then [] else
             map (\<lambda>x. (env_contentRetentionDays e, Some (xs_auditReference x)))
               (filter (\<lambda>x. xs_workspaceId x = env_workspaceId e \<and> xs_id x = s) (externalSubjects d)))
           (environments d))) of
           None \<Rightarrow> Inl (AppError ''Connector audit retention context is missing'')
         | Some c \<Rightarrow> Inr c))"

definition DAY :: timestamp where
  "DAY = 24 * 60 * 60 * 1000 * 1000"

definition recordActionIntentFact ::
  "uuid \<Rightarrow> action_intent \<Rightarrow> string \<Rightarrow> timestamp \<Rightarrow> uuid option \<Rightarrow> string option \<Rightarrow> string option \<Rightarrow> db \<Rightarrow>
     db_error + db" where
  "recordActionIntentFact fid i factType occurredAt decisionId outcome failureClass d =
    bindE (retentionContext (ai_environmentId i) (Some (ai_externalSubjectId i)) d) (\<lambda>(days, reference).
      (case auditExpiry occurredAt of
         None \<Rightarrow> Inl (AppError ''Invalid time value'')
       | Some auditExpiresAt \<Rightarrow> Inr (d\<lparr>connectorAuditFacts := connectorAuditFacts d @
           [\<lparr>cf_id = fid, cf_workspaceId = ai_workspaceId i, cf_environmentId = ai_environmentId i,
             cf_externalSubjectId = Some (ai_externalSubjectId i), cf_subjectReference = reference,
             cf_connectionId = ai_connectionId i, cf_actionIntentId = Some (ai_id i),
             cf_decisionId = decisionId, cf_factType = factType, cf_provider = ai_connector i,
             cf_operationId = Some (ai_operationId i), cf_digest = Some (ai_canonicalDigest i),
             cf_outcome = outcome, cf_failureClass = failureClass, cf_accountLabel = None,
             cf_display = Some (ai_safeDisplay i),
             cf_contentExpiresAt = min (occurredAt div 1000 * 1000 + days * DAY) auditExpiresAt, cf_contentErasedAt = None,
             cf_auditExpiresAt = auditExpiresAt, cf_occurredAt = occurredAt\<rparr>]\<rparr>)))"

section \<open>Creating a request\<close>

text \<open>Check constraints of the table, in the order of their names.\<close>

definition request_checks :: "(jsval \<Rightarrow> nat) \<Rightarrow> approval_request \<Rightarrow> db_error + unit" where
  "request_checks octets r =
    (if (case ar_actionIntentDigest r of None \<Rightarrow> False | Some g \<Rightarrow>
         \<not> (1 \<le> length g \<and> length g \<le> 256 \<and> ar_timeoutAction r \<noteq> Some Auto_approve))
     then Inl (CheckViolation ''approval_requests_action_intent_digest_check'')
     else if \<not> (if ar_audience r = Workspace_members then ar_externalSubjectId r = None
        else ar_environmentId r \<noteq> None \<and> ar_externalSubjectId r \<noteq> None \<and> ar_approverEmails r = None)
     then Inl (CheckViolation ''approval_requests_audience_check'')
     else if \<not> (1 \<le> length (dp_title (ar_display r)) \<and> length (dp_title (ar_display r)) \<le> 200 \<and>
        octets (stored_display (ar_display r)) \<le> 8192)
     then Inl (CheckViolation ''approval_requests_display_check'')
     else if \<not> (case ar_expiresAt r of None \<Rightarrow> ar_timeoutAction r = None
        | Some e \<Rightarrow> ar_requestedAt r < e \<and> ar_timeoutAction r \<noteq> None)
     then Inl (CheckViolation ''approval_requests_expiry_check'')
     else Inr ())"

text \<open>Foreign keys; one with a null column is not checked.\<close>

definition request_fkeys :: "approval_request \<Rightarrow> db \<Rightarrow> db_error + unit" where
  "request_fkeys r d =
    (if (case ar_environmentId r of None \<Rightarrow> False | Some e \<Rightarrow>
        \<not> list_ex (\<lambda>v. env_id v = e \<and> env_workspaceId v = ar_workspaceId r) (environments d))
     then Inl (ForeignKeyViolation ''approval_requests_environment_fkey'')
     else if \<not> list_ex (\<lambda>w. wf_id w = ar_workflowId r \<and> wf_workspaceId w = ar_workspaceId r) (workflows d)
     then Inl (ForeignKeyViolation ''approval_requests_workflow_fkey'')
     else if \<not> list_ex (\<lambda>x. ex_id x = ar_executionId r \<and> ex_workspaceId x = ar_workspaceId r \<and>
        ex_workflowId x = ar_workflowId r) (executions d)
     then Inl (ForeignKeyViolation ''approval_requests_execution_fkey'')
     else if (case (ar_environmentId r, ar_externalSubjectId r) of (Some e, Some s) \<Rightarrow>
        \<not> list_ex (\<lambda>x. ex_id x = ar_executionId r \<and> ex_workspaceId x = ar_workspaceId r \<and>
          ex_workflowId x = ar_workflowId r \<and> ex_environmentId x = Some e \<and>
          ex_externalSubjectRecordId x = Some s) (executions d) | _ \<Rightarrow> False)
     then Inl (ForeignKeyViolation ''approval_requests_execution_subject_fkey'')
     else if (case ar_externalSubjectId r of None \<Rightarrow> False | Some s \<Rightarrow>
        \<not> list_ex (\<lambda>x. xs_id x = s \<and> xs_workspaceId x = ar_workspaceId r) (externalSubjects d))
     then Inl (ForeignKeyViolation ''approval_requests_external_subject_fkey'')
     else if (case (ar_environmentId r, ar_externalSubjectId r) of (Some e, Some s) \<Rightarrow>
        \<not> list_ex (\<lambda>m. se_environmentId m = e \<and> se_externalSubjectId m = s) (subjectEnvironments d) | _ \<Rightarrow> False)
     then Inl (ForeignKeyViolation ''approval_requests_subject_environment_fkey'')
     else if (case ar_conversationId r of None \<Rightarrow> False | Some c \<Rightarrow>
        \<not> list_ex (\<lambda>v. cv_id v = c \<and> cv_workspaceId v = ar_workspaceId r \<and> cv_workflowId v = ar_workflowId r)
          (conversations d))
     then Inl (ForeignKeyViolation ''approval_requests_conversation_fkey'')
     else if (case (ar_conversationId r, ar_environmentId r, ar_externalSubjectId r) of (Some c, Some e, Some s) \<Rightarrow>
        \<not> list_ex (\<lambda>v. cv_id v = c \<and> cv_environmentId v = e \<and> cv_externalSubjectId v = s) (conversations d)
        | _ \<Rightarrow> False)
     then Inl (ForeignKeyViolation ''approval_requests_conversation_owner_fkey'')
     else Inr ())"

definition verified_owner :: "uuid \<Rightarrow> uuid \<Rightarrow> uuid \<Rightarrow> db \<Rightarrow> bool" where
  "verified_owner ws env s d \<longleftrightarrow>
     list_ex (\<lambda>x. xs_id x = s \<and> xs_workspaceId x = ws \<and> xs_status x = Verified) (externalSubjects d) \<and>
     list_ex (\<lambda>m. se_environmentId m = env \<and> se_externalSubjectId m = s) (subjectEnvironments d)"

definition check_audience :: "approval_request \<Rightarrow> db \<Rightarrow> db_error + unit" where
  "check_audience r d =
    (if ar_audience r \<noteq> External_subject then Inr ()
     else (case (truthy_string (ar_environmentId r), truthy_string (ar_externalSubjectId r)) of
         (Some env, Some s) \<Rightarrow>
           if verified_owner (ar_workspaceId r) env s d then Inr ()
           else Inl (AppError ''External-subject Approval Requests require a verified owner in the Environment'')
       | _ \<Rightarrow> Inl (AppError ''External-subject Approval Requests require an Environment and External Subject'')))"

definition audience_event ::
  "(jsval \<Rightarrow> nat) \<Rightarrow> uuid \<Rightarrow> timestamp \<Rightarrow> approval_request \<Rightarrow> string \<Rightarrow> (string \<times> jsval) list \<Rightarrow> db \<Rightarrow> db_error + db" where
  "audience_event octets mid now r eventType data d =
    (if ar_audience r \<noteq> External_subject then Inr d
     else (case (truthy_string (ar_environmentId r), truthy_string (ar_externalSubjectId r)) of
         (Some env, Some s) \<Rightarrow>
           bindE (createPublicEvent octets mid now (ar_workspaceId r) env (Some s) eventType data d) (\<lambda>(d', _). Inr d')
       | _ \<Rightarrow> Inl (AppError ''External Approval Request is missing its audience'')))"

definition created_data :: "approval_request \<Rightarrow> (string \<times> jsval) list" where
  "created_data r = [(''approvalRequestId'', JStr (ar_id r)), (''executionId'', JStr (ar_executionId r)),
     (''workflowId'', JStr (ar_workflowId r)), (''status'', JStr ''pending''),
     (''display'', display_json (ar_display r))] @
     field ''conversationId'' (truthy_string (ar_conversationId r)) JStr @
     field ''expiresAt'' (ar_expiresAt r) (\<lambda>e. JStr (toISOString (e div 1000)))"

text \<open>The input carries no generated column: those get their defaults.\<close>

definition new_request_row :: "uuid \<Rightarrow> timestamp \<Rightarrow> approval_request \<Rightarrow> approval_request" where
  "new_request_row rid now r = r\<lparr>ar_id := rid, ar_status := A_pending, ar_version := 1, ar_requestedAt := now,
     ar_cancelledAt := None, ar_approverEmails := map_option (map toLowerCase) (ar_approverEmails r)\<rparr>"

definition createApprovalRequest ::
  "(jsval \<Rightarrow> nat) \<Rightarrow> approval_ids \<Rightarrow> timestamp \<Rightarrow> approval_request \<Rightarrow> db \<Rightarrow>
     db_error + (db \<times> approval_request option)" where
  "createApprovalRequest octets f now input d =
    bindE (check_audience input d) (\<lambda>_.
      let r = new_request_row (new_request f) now input in
      bindE (request_checks octets r) (\<lambda>_.
        if list_ex (\<lambda>x. ar_executionId x = ar_executionId r \<and> ar_nodeId x = ar_nodeId r) (approvalRequests d)
        then Inr (d, None)
        else bindE (request_fkeys r d) (\<lambda>_.
          bindE (audience_event octets (event_message f) now r ''approval_request.created'' (created_data r)
              (d\<lparr>approvalRequests := approvalRequests d @ [r]\<rparr>))
            (\<lambda>d'. Inr (d', Some r)))))"

section \<open>Reading requests\<close>

definition getApprovalRequest :: "uuid \<Rightarrow> uuid \<Rightarrow> string \<Rightarrow> db \<Rightarrow> approval_request option" where
  "getApprovalRequest ws xid node d = find (\<lambda>r. ar_workspaceId r = ws \<and> ar_executionId r = xid \<and>
     ar_nodeId r = node) (approvalRequests d)"

definition getApprovalDecision :: "uuid \<Rightarrow> db \<Rightarrow> approval_decision option" where
  "getApprovalDecision rid d = find (\<lambda>c. ad_approvalRequestId c = rid) (approvalDecisions d)"

definition getPendingApprovalRequestForExecution :: "uuid \<Rightarrow> db \<Rightarrow> approval_request option" where
  "getPendingApprovalRequestForExecution xid d =
     find (\<lambda>r. ar_executionId r = xid \<and> ar_status r = A_pending) (approvalRequests d)"

definition eligibleForWorkspaceMember :: "uuid \<Rightarrow> string \<Rightarrow> db \<Rightarrow> approval_request \<Rightarrow> bool" where
  "eligibleForWorkspaceMember ws email d r \<longleftrightarrow> ar_audience r = Workspace_members \<and>
     list_ex (\<lambda>m. mb_organizationId m = ws \<and>
       list_ex (\<lambda>u. us_id u = mb_userId m \<and> toLowerCase (us_email u) = toLowerCase email) (users d)) (members d) \<and>
     (case ar_approverEmails r of None \<Rightarrow> True | Some es \<Rightarrow> es = [] \<or> toLowerCase email \<in> set es)"

definition listPendingApprovalRequests :: "uuid \<Rightarrow> string \<Rightarrow> db \<Rightarrow> approval_request list" where
  "listPendingApprovalRequests ws email d = filter (\<lambda>r. ar_workspaceId r = ws \<and> ar_status r = A_pending \<and>
     eligibleForWorkspaceMember ws email d r) (approvalRequests d)"

definition getWorkspaceApprovalRequest ::
  "uuid \<Rightarrow> uuid \<Rightarrow> string \<Rightarrow> db \<Rightarrow> (approval_request \<times> approval_decision option) option" where
  "getWorkspaceApprovalRequest ws rid email d = map_option (\<lambda>r. (r, getApprovalDecision (ar_id r) d))
     (find (\<lambda>r. ar_id r = rid \<and> ar_workspaceId r = ws \<and> eligibleForWorkspaceMember ws email d r) (approvalRequests d))"

section \<open>Recording a decision\<close>

datatype decision_actor = Act_member uuid | Act_subject uuid uuid | Act_system

fun actor_kind :: "decision_actor \<Rightarrow> decision_actor_kind" where
  "actor_kind (Act_member _) = K_workspace_member"
| "actor_kind (Act_subject _ _) = K_external_subject"
| "actor_kind Act_system = K_system"

fun decisionActorIds :: "decision_actor \<Rightarrow> uuid option \<times> uuid option \<times> uuid option" where
  "decisionActorIds (Act_member u) = (Some u, None, None)"
| "decisionActorIds (Act_subject s session) = (None, Some s, Some session)"
| "decisionActorIds Act_system = (None, None, None)"

record decision_input =
  di_outcome :: decision_outcome
  di_actor :: decision_actor
  di_reason :: decision_reason
  di_comment :: "string option"
  di_idempotencyKey :: "string option"
  di_decidedAt :: timestamp
  di_reviewerAssignmentId :: "uuid option"

definition decision_row :: "uuid \<Rightarrow> approval_request \<Rightarrow> decision_input \<Rightarrow> approval_decision" where
  "decision_row cid r inp = (case decisionActorIds (di_actor inp) of (user, subject, session) \<Rightarrow>
     \<lparr>ad_id = cid, ad_workspaceId = ar_workspaceId r, ad_approvalRequestId = ar_id r, ad_outcome = di_outcome inp,
      ad_actorKind = actor_kind (di_actor inp), ad_actorUserId = user, ad_actorExternalSubjectId = subject,
      ad_endUserSessionId = session, ad_reviewerAssignmentId = di_reviewerAssignmentId inp,
      ad_reason = di_reason inp, ad_comment = di_comment inp, ad_idempotencyKey = di_idempotencyKey inp,
      ad_decidedAt = di_decidedAt inp\<rparr>)"

text \<open>
  The keys to the request, the external subject and the reviewer assignment are not checked again:
  every caller has just read those rows. The check of the actor's columns holds by
  \<^verbatim>\<open>decisionActorIds\<close>.
\<close>

definition insert_decision :: "approval_decision \<Rightarrow> db \<Rightarrow> db_error + db" where
  "insert_decision c d =
    (if (case ad_comment c of None \<Rightarrow> False | Some t \<Rightarrow> 2048 < utf8_length t)
     then Inl (CheckViolation ''approval_decisions_comment_size_check'')
     else if (case ad_idempotencyKey c of None \<Rightarrow> False | Some k \<Rightarrow> k = [] \<or> 256 < length k)
     then Inl (CheckViolation ''approval_decisions_idempotency_key_check'')
     else if (ad_reason c = By_timeout) \<noteq> (ad_actorKind c = K_system)
     then Inl (CheckViolation ''approval_decisions_reason_check'')
     else if list_ex (\<lambda>x. ad_approvalRequestId x = ad_approvalRequestId c) (approvalDecisions d)
     then Inl (UniqueViolation ''approval_decisions_request_uidx'')
     else if (case ad_actorUserId c of None \<Rightarrow> False | Some u \<Rightarrow> \<not> list_ex (\<lambda>x. us_id x = u) (users d))
     then Inl (ForeignKeyViolation ''approval_decisions_actor_user_id_users_id_fk'')
     else Inr (d\<lparr>approvalDecisions := approvalDecisions d @ [c]\<rparr>))"

definition mark_decided :: "approval_request \<Rightarrow> approval_request" where
  "mark_decided r = r\<lparr>ar_status := A_decided, ar_version := ar_version r + 1\<rparr>"

definition pending_request :: "uuid \<Rightarrow> approval_request \<Rightarrow> bool" where
  "pending_request rid r \<longleftrightarrow> ar_id r = rid \<and> ar_status r = A_pending"

definition recordActionIntentDecisionFact ::
  "uuid \<Rightarrow> approval_request \<Rightarrow> approval_decision \<Rightarrow> db \<Rightarrow> db_error + db" where
  "recordActionIntentDecisionFact fid r c d =
    (if truthy_string (ar_actionIntentDigest r) = None then Inr d
     else (case find (\<lambda>i. ai_approvalRequestId i = ar_id r) (actionIntents d) of
         None \<Rightarrow> Inr d
       | Some i \<Rightarrow> recordActionIntentFact fid i
           (if ad_outcome c = D_approved then ''action_intent.consent_approved'' else ''action_intent.consent_rejected'')
           (ad_decidedAt c) (Some (ad_id c))
           (Some (if ad_outcome c = D_approved then ''approved'' else ''rejected'')) None d))"

definition wake :: "execution \<Rightarrow> execution" where
  "wake x = x\<lparr>ex_status := Queued\<rparr>"

definition paused_row :: "uuid \<Rightarrow> execution \<Rightarrow> bool" where
  "paused_row xid x \<longleftrightarrow> ex_id x = xid \<and> ex_status x = Paused"

definition resumeDecisionExecution :: "uuid \<Rightarrow> timestamp \<Rightarrow> approval_request \<Rightarrow> db \<Rightarrow> db" where
  "resumeDecisionExecution mid now r d =
    (case update_executions (paused_row (ar_executionId r)) wake d of
       (d', None) \<Rightarrow> d'
     | (d', Some _) \<Rightarrow> fst (createWorkflowExecutionMessage mid now (ar_workspaceId r) (ar_executionId r) d'))"

definition outcome_name :: "decision_outcome \<Rightarrow> string" where
  "outcome_name v = (case v of D_approved \<Rightarrow> ''approved'' | D_rejected \<Rightarrow> ''rejected'')"

definition reason_name :: "decision_reason \<Rightarrow> string" where
  "reason_name v = (case v of By_human \<Rightarrow> ''human'' | By_timeout \<Rightarrow> ''timeout'')"

definition recordApprovalDecisionAudit :: "approval_request \<Rightarrow> decision_input \<Rightarrow> db \<Rightarrow> db" where
  "recordApprovalDecisionAudit r inp d = (case decisionActorIds (di_actor inp) of (user, subject, session) \<Rightarrow>
     d\<lparr>auditLogs := auditLogs d @ [\<lparr>al_workspaceId = ar_workspaceId r, al_actorUserId = user,
       al_actorExternalSubjectId = subject, al_actorEndUserSessionId = session, al_actorEnvironmentKeyId = None,
       al_action = (if di_reason inp = By_timeout then ''approval_request.timed_out'' else ''approval_request.decided''),
       al_resource = ''approval_request'', al_resourceId = ar_id r,
       al_metadata = [(''executionId'', JStr (ar_executionId r)), (''outcome'', JStr (outcome_name (di_outcome inp))),
         (''reason'', JStr (reason_name (di_reason inp)))]\<rparr>]\<rparr>)"

definition decided_data :: "approval_request \<Rightarrow> approval_decision \<Rightarrow> (string \<times> jsval) list" where
  "decided_data r c = [(''approvalRequestId'', JStr (ar_id r)), (''executionId'', JStr (ar_executionId r)),
     (''decisionId'', JStr (ad_id c)), (''outcome'', JStr (outcome_name (ad_outcome c))),
     (''reason'', JStr (reason_name (ad_reason c))), (''status'', JStr ''decided'')] @
     field ''conversationId'' (truthy_string (ar_conversationId r)) JStr"

definition recordDecision ::
  "(jsval \<Rightarrow> nat) \<Rightarrow> approval_ids \<Rightarrow> timestamp \<Rightarrow> approval_request \<Rightarrow> decision_input \<Rightarrow> db \<Rightarrow>
     db_error + (db \<times> approval_request \<times> approval_decision)" where
  "recordDecision octets f now r inp d =
    (let c = decision_row (new_decision f) r inp in
     bindE (insert_decision c d) (\<lambda>d1.
       (case update_where (pending_request (ar_id r)) mark_decided (approvalRequests d1) of
          (rows, []) \<Rightarrow> Inl (AppError ''Locked Approval Request changed state'')
        | (rows, r' # _) \<Rightarrow>
            bindE (recordActionIntentDecisionFact (new_fact f) r c (d1\<lparr>approvalRequests := rows\<rparr>)) (\<lambda>d2.
            bindE (audience_event octets (event_message f) now r ''approval_request.decided'' (decided_data r c)
                (recordApprovalDecisionAudit r inp (resumeDecisionExecution (wake_message f) now r d2)))
              (\<lambda>d3. Inr (d3, r', c))))))"

definition recordTimeoutDecision ::
  "(jsval \<Rightarrow> nat) \<Rightarrow> approval_ids \<Rightarrow> approval_request \<Rightarrow> timestamp \<Rightarrow> db \<Rightarrow>
     db_error + (db \<times> approval_request \<times> approval_decision)" where
  "recordTimeoutDecision octets f r now d = (case ar_timeoutAction r of
       None \<Rightarrow> Inl (AppError ''Expired Approval Request is missing its timeout action'')
     | Some a \<Rightarrow> recordDecision octets f now r
         \<lparr>di_outcome = (if a = Auto_approve then D_approved else D_rejected), di_actor = Act_system,
          di_reason = By_timeout, di_comment = None, di_idempotencyKey = None, di_decidedAt = now,
          di_reviewerAssignmentId = None\<rparr> d)"

section \<open>Deciding in the workspace\<close>

record decide_input =
  dw_outcome :: decision_outcome
  dw_actorUserId :: uuid
  dw_actorEmail :: string
  dw_comment :: "string option"

definition expired :: "timestamp \<Rightarrow> approval_request \<Rightarrow> bool" where
  "expired now r = (case ar_expiresAt r of None \<Rightarrow> False | Some e \<Rightarrow> e div 1000 \<le> now div 1000)"

definition decideWorkspaceApprovalRequest ::
  "(jsval \<Rightarrow> nat) \<Rightarrow> approval_ids \<Rightarrow> timestamp \<Rightarrow> uuid \<Rightarrow> uuid \<Rightarrow> decide_input \<Rightarrow> db \<Rightarrow>
     db_error + (db \<times> (approval_request \<times> approval_decision) option)" where
  "decideWorkspaceApprovalRequest octets f now ws rid input d =
    (case find (\<lambda>r. ar_id r = rid \<and> ar_workspaceId r = ws \<and> ar_status r = A_pending \<and>
        eligibleForWorkspaceMember ws (dw_actorEmail input) d r) (approvalRequests d) of
       None \<Rightarrow> Inr (d, None)
     | Some r \<Rightarrow>
         bindE (if expired now r then recordTimeoutDecision octets f r now d
           else recordDecision octets f now r \<lparr>di_outcome = dw_outcome input,
             di_actor = Act_member (dw_actorUserId input), di_reason = By_human, di_comment = dw_comment input,
             di_idempotencyKey = None, di_decidedAt = now, di_reviewerAssignmentId = None\<rparr> d)
         (\<lambda>(d', res). Inr (d', Some res)))"


section \<open>Deciding as an external subject\<close>

text \<open>\<^verbatim>\<open>connection-authority.repository.ts\<close>: the inner option is the reviewer assignment, null for an owner.\<close>

definition getConnectionReviewerAuthority :: "connection_row \<Rightarrow> uuid \<Rightarrow> db \<Rightarrow> uuid option option" where
  "getConnectionReviewerAuthority c s d =
    (if cn_ownership c = Personal then (if cn_externalSubjectId c = Some s then Some None else None)
     else map_option (\<lambda>a. Some (cr_id a)) (find (\<lambda>a.
       list_ex (\<lambda>x. xs_id x = cr_externalSubjectId a \<and> xs_workspaceId x = cr_workspaceId a \<and>
         xs_status x = Verified) (externalSubjects d) \<and>
       list_ex (\<lambda>m. se_externalSubjectId m = cr_externalSubjectId a \<and> se_environmentId m = cr_environmentId a)
         (subjectEnvironments d) \<and>
       cr_connectionId a = cn_id c \<and> cr_environmentId a = cn_environmentId c \<and>
       cr_workspaceId a = cn_workspaceId c \<and> cr_externalSubjectId a = s \<and> cr_revokedAt a = None)
         (reviewerAssignments d)))"

definition getConnectionRequesterAuthority :: "connection_row \<Rightarrow> uuid \<Rightarrow> db \<Rightarrow> uuid option option" where
  "getConnectionRequesterAuthority c s d =
    (if cn_ownership c = Personal then (if cn_externalSubjectId c = Some s then Some None else None)
     else map_option (\<lambda>g. Some (cg_id g)) (find (\<lambda>g. cg_connectionId g = cn_id c \<and>
       cg_environmentId g = cn_environmentId c \<and> cg_workspaceId g = cn_workspaceId c \<and>
       cg_externalSubjectId g = s \<and> cg_revokedAt g = None) (accessGrants d)))"

definition linked_connection :: "uuid \<Rightarrow> db \<Rightarrow> connection_row option" where
  "linked_connection rid d = first_row (concat (map (\<lambda>i. filter (\<lambda>c. cn_id c = ai_connectionId i) (connections d))
     (filter (\<lambda>i. ai_approvalRequestId i = rid) (actionIntents d))))"

definition getApprovalReviewerAuthority :: "approval_request \<Rightarrow> uuid \<Rightarrow> db \<Rightarrow> uuid option option" where
  "getApprovalReviewerAuthority r s d = (case linked_connection (ar_id r) d of
       Some c \<Rightarrow> getConnectionReviewerAuthority c s d
     | None \<Rightarrow> if ar_externalSubjectId r = Some s then Some None else None)"

text \<open>
  \<^verbatim>\<open>public-idempotency.repository.ts\<close>. The canonical text of a request lists the members of an object
  by key; \<open>digest\<close> hashes the text of that form.
\<close>

fun canonicalJson :: "jsval \<Rightarrow> jsval" where
  "canonicalJson (JArr xs) = JArr (map canonicalJson xs)"
| "canonicalJson (JObj ps) = JObj (sort_key fst (map (\<lambda>p. (fst p, canonicalJson (snd p))) ps))"
| "canonicalJson v = v"

definition hashPublicRequest :: "(jsval \<Rightarrow> string) \<Rightarrow> jsval \<Rightarrow> string" where
  "hashPublicRequest digest v = digest (canonicalJson v)"

datatype reservation = Reserved uuid | Replay uuid | Conflict

definition same_request :: "idempotency_record \<Rightarrow> idempotency_record \<Rightarrow> bool" where
  "same_request a b \<longleftrightarrow> ip_actorKind a = ip_actorKind b \<and> ip_actorId a = ip_actorId b \<and>
     ip_operation a = ip_operation b \<and> ip_idempotencyKey a = ip_idempotencyKey b"

definition reservePublicRequest :: "idempotency_record \<Rightarrow> db \<Rightarrow> db_error + (db \<times> reservation)" where
  "reservePublicRequest rec d = (case find (same_request rec) (idempotencyRecords d) of
       None \<Rightarrow>
         if \<not> list_ex (\<lambda>e. env_id e = ip_environmentId rec \<and> env_workspaceId e = ip_workspaceId rec) (environments d)
         then Inl (ForeignKeyViolation ''public_idempotency_records_environment_fkey'')
         else Inr (d\<lparr>idempotencyRecords := idempotencyRecords d @ [rec\<lparr>ip_resourceId := None\<rparr>]\<rparr>, Reserved (ip_id rec))
     | Some old \<Rightarrow>
         if ip_requestHash old \<noteq> ip_requestHash rec then Inr (d, Conflict)
         else (case truthy_string (ip_resourceId old) of
             None \<Rightarrow> Inl (AppError ''Idempotency result was not finalized'')
           | Some res \<Rightarrow> Inr (d, Replay res)))"

definition unfinished :: "uuid \<Rightarrow> idempotency_record \<Rightarrow> bool" where
  "unfinished rid x \<longleftrightarrow> ip_id x = rid \<and> ip_resourceId x = None"

definition finalizePublicRequest :: "uuid \<Rightarrow> uuid \<Rightarrow> db \<Rightarrow> db_error + db" where
  "finalizePublicRequest rid res d =
    (case update_where (unfinished rid) (\<lambda>x. x\<lparr>ip_resourceId := Some res\<rparr>) (idempotencyRecords d) of
       (rows, []) \<Rightarrow> Inl (AppError ''Idempotency result was already finalized'')
     | (rows, _ # _) \<Rightarrow> Inr (d\<lparr>idempotencyRecords := rows\<rparr>))"

definition releasePublicRequest :: "uuid \<Rightarrow> db \<Rightarrow> db" where
  "releasePublicRequest rid d = d\<lparr>idempotencyRecords := filter (\<lambda>x. \<not> unfinished rid x) (idempotencyRecords d)\<rparr>"

record external_input =
  xd_workspaceId :: uuid
  xd_environmentId :: uuid
  xd_externalSubjectId :: uuid
  xd_endUserSessionId :: uuid
  xd_approvalRequestId :: uuid
  xd_outcome :: decision_outcome
  xd_comment :: "string option"
  xd_idempotencyKey :: string

datatype external_result =
    X_decided approval_request approval_decision
  | X_replay approval_request approval_decision
  | X_expired approval_request approval_decision
  | X_already_decided | X_cancelled | X_wrong_subject | X_session_invalid | X_decision_conflict

definition isIdenticalRetry :: "approval_decision \<Rightarrow> external_input \<Rightarrow> bool" where
  "isIdenticalRetry c inp \<longleftrightarrow> ad_idempotencyKey c = Some (xd_idempotencyKey inp) \<and>
     ad_actorKind c = K_external_subject \<and> ad_actorExternalSubjectId c = Some (xd_externalSubjectId inp) \<and>
     ad_outcome c = xd_outcome inp \<and> ad_comment c = xd_comment inp"

definition isExternalRequestOwner :: "approval_request \<Rightarrow> external_input \<Rightarrow> db \<Rightarrow> bool" where
  "isExternalRequestOwner r inp d \<longleftrightarrow> ar_audience r = External_subject \<and> ar_workspaceId r = xd_workspaceId inp \<and>
     ar_environmentId r = Some (xd_environmentId inp) \<and>
     getApprovalReviewerAuthority r (xd_externalSubjectId inp) d \<noteq> None"

definition live_session :: "timestamp \<Rightarrow> external_input \<Rightarrow> db \<Rightarrow> bool" where
  "live_session now inp d \<longleftrightarrow>
     list_ex (\<lambda>s. eu_id s = xd_endUserSessionId inp \<and> eu_workspaceId s = xd_workspaceId inp \<and>
       eu_environmentId s = xd_environmentId inp \<and> eu_externalSubjectId s = xd_externalSubjectId inp \<and>
       eu_revokedAt s = None \<and> now < eu_expiresAt s) (endUserSessions d) \<and>
     list_ex (\<lambda>e. env_id e = xd_environmentId inp \<and> env_workspaceId e = xd_workspaceId inp \<and> env_enabled e)
       (environments d) \<and>
     list_ex (\<lambda>x. xs_id x = xd_externalSubjectId inp \<and> xs_workspaceId x = xd_workspaceId inp \<and>
       xs_status x = Verified) (externalSubjects d)"

definition resolveExistingExternalDecision ::
  "approval_request \<Rightarrow> external_input \<Rightarrow> db \<Rightarrow> db_error + external_result" where
  "resolveExistingExternalDecision r inp d = (case getApprovalDecision (ar_id r) d of
       None \<Rightarrow> Inl (AppError ''Decided Approval Request has no Decision'')
     | Some c \<Rightarrow>
         if ad_reason c = By_timeout then Inr (X_expired r c)
         else if ad_idempotencyKey c \<noteq> Some (xd_idempotencyKey inp) then Inr X_already_decided
         else if isIdenticalRetry c inp then Inr (X_replay r c) else Inr X_decision_conflict)"

definition decision_reservation :: "(jsval \<Rightarrow> string) \<Rightarrow> uuid \<Rightarrow> external_input \<Rightarrow> idempotency_record" where
  "decision_reservation digest rid inp = \<lparr>ip_id = rid, ip_workspaceId = xd_workspaceId inp,
     ip_environmentId = xd_environmentId inp, ip_actorKind = By_end_user_session,
     ip_actorId = xd_endUserSessionId inp, ip_operation = ''approval_request.decision'',
     ip_idempotencyKey = xd_idempotencyKey inp,
     ip_requestHash = hashPublicRequest digest (JObj [(''approvalRequestId'', JStr (xd_approvalRequestId inp)),
       (''outcome'', JStr (outcome_name (xd_outcome inp))),
       (''comment'', case xd_comment inp of None \<Rightarrow> JNull | Some t \<Rightarrow> JStr t)]),
     ip_resourceId = None\<rparr>"

definition external_decision :: "approval_request \<Rightarrow> external_input \<Rightarrow> timestamp \<Rightarrow> db \<Rightarrow> decision_input" where
  "external_decision r inp now d = \<lparr>di_outcome = xd_outcome inp,
     di_actor = Act_subject (xd_externalSubjectId inp) (xd_endUserSessionId inp), di_reason = By_human,
     di_comment = xd_comment inp, di_idempotencyKey = Some (xd_idempotencyKey inp), di_decidedAt = now,
     di_reviewerAssignmentId = Option.bind (getApprovalReviewerAuthority r (xd_externalSubjectId inp) d) id\<rparr>"

text \<open>The part after the locks are taken, on a request that is still pending and has not expired.\<close>

definition decide_pending ::
  "(jsval \<Rightarrow> nat) \<Rightarrow> (jsval \<Rightarrow> string) \<Rightarrow> approval_ids \<Rightarrow> timestamp \<Rightarrow> approval_request \<Rightarrow> external_input \<Rightarrow> db \<Rightarrow>
     db_error + (db \<times> external_result)" where
  "decide_pending octets digest f now r inp d =
    bindE (reservePublicRequest (decision_reservation digest (new_record f) inp) d) (\<lambda>(d1, res).
      (case res of
         Conflict \<Rightarrow> Inr (d1, X_decision_conflict)
       | Replay _ \<Rightarrow> Inl (AppError ''Idempotent Decision exists for a pending request'')
       | Reserved rid \<Rightarrow>
           bindE (recordDecision octets f now r (external_decision r inp now d1) d1) (\<lambda>(d2, r', c).
           bindE (finalizePublicRequest rid (ad_id c) d2) (\<lambda>d3. Inr (d3, X_decided r' c)))))"

definition decideExternalApprovalRequest ::
  "(jsval \<Rightarrow> nat) \<Rightarrow> (jsval \<Rightarrow> string) \<Rightarrow> approval_ids \<Rightarrow> timestamp \<Rightarrow> external_input \<Rightarrow> db \<Rightarrow>
     db_error + (db \<times> external_result)" where
  "decideExternalApprovalRequest octets digest f now inp d =
    (case find (\<lambda>r. ar_id r = xd_approvalRequestId inp) (approvalRequests d) of
       None \<Rightarrow> Inr (d, X_wrong_subject)
     | Some r \<Rightarrow>
         if \<not> isExternalRequestOwner r inp d then Inr (d, X_wrong_subject)
         else if \<not> live_session now inp d then Inr (d, X_session_invalid)
         else (case ar_status r of
             A_cancelled \<Rightarrow> Inr (d, X_cancelled)
           | A_decided \<Rightarrow> bindE (resolveExistingExternalDecision r inp d) (\<lambda>res. Inr (d, res))
           | A_pending \<Rightarrow>
               if expired now r
               then bindE (recordTimeoutDecision octets f r now d) (\<lambda>(d', r', c). Inr (d', X_expired r' c))
               else decide_pending octets digest f now r inp d))"

text \<open>Listing the requests of an external subject, newest first, behind a cursor.\<close>

definition shared_connection_of :: "uuid \<Rightarrow> db \<Rightarrow> connection_row list" where
  "shared_connection_of rid d = concat (map (\<lambda>i. filter (\<lambda>c. cn_id c = ai_connectionId i \<and>
     cn_ownership c = Environment_owned) (connections d)) (filter (\<lambda>i. ai_approvalRequestId i = rid) (actionIntents d)))"

definition externalApprovalEligibility :: "uuid \<Rightarrow> db \<Rightarrow> approval_request \<Rightarrow> bool" where
  "externalApprovalEligibility s d r \<longleftrightarrow>
     ar_externalSubjectId r = Some s \<and> shared_connection_of (ar_id r) d = [] \<or>
     list_ex (\<lambda>c. list_ex (\<lambda>a. cr_connectionId a = cn_id c \<and> cr_externalSubjectId a = s \<and>
         cr_workspaceId a = ar_workspaceId r \<and> ar_environmentId r = Some (cr_environmentId a) \<and> cr_revokedAt a = None \<and>
         list_ex (\<lambda>x. xs_id x = cr_externalSubjectId a \<and> xs_status x = Verified) (externalSubjects d) \<and>
         list_ex (\<lambda>m. se_environmentId m = cr_environmentId a \<and> se_externalSubjectId m = cr_externalSubjectId a)
           (subjectEnvironments d)) (reviewerAssignments d)) (shared_connection_of (ar_id r) d)"

definition externalApprovalRequestOwner :: "uuid \<Rightarrow> uuid \<Rightarrow> uuid \<Rightarrow> db \<Rightarrow> approval_request \<Rightarrow> bool" where
  "externalApprovalRequestOwner ws env s d r \<longleftrightarrow> ar_audience r = External_subject \<and> ar_workspaceId r = ws \<and>
     ar_environmentId r = Some env \<and> externalApprovalEligibility s d r \<and>
     list_ex (\<lambda>x. Some (xs_id x) = ar_externalSubjectId r \<and> xs_workspaceId x = ar_workspaceId r \<and>
       xs_status x = Verified) (externalSubjects d) \<and>
     list_ex (\<lambda>e. Some (env_id e) = ar_environmentId r \<and> env_workspaceId e = ar_workspaceId r \<and> env_enabled e)
       (environments d)"

record external_filter =
  xf_approvalRequestId :: "uuid option"
  xf_status :: "approval_status option"
  xf_conversationId :: "uuid option"
  xf_cursor :: "(timestamp \<times> uuid) option"

definition request_key :: "approval_request \<Rightarrow> timestamp \<times> uuid" where
  "request_key r = (trunc_ms (ar_requestedAt r), ar_id r)"

definition findExternalApprovalRequests ::
  "uuid \<Rightarrow> uuid \<Rightarrow> uuid \<Rightarrow> nat \<Rightarrow> external_filter \<Rightarrow> db \<Rightarrow> (approval_request \<times> approval_decision option) list" where
  "findExternalApprovalRequests ws env s limit flt d =
     map (\<lambda>r. (r, getApprovalDecision (ar_id r) d)) (take limit (rev (sort_key request_key
       (filter (\<lambda>r. externalApprovalRequestOwner ws env s d r \<and>
          (case xf_approvalRequestId flt of None \<Rightarrow> True | Some i \<Rightarrow> ar_id r = i) \<and>
          (case xf_status flt of None \<Rightarrow> True | Some v \<Rightarrow> ar_status r = v) \<and>
          (case xf_conversationId flt of None \<Rightarrow> True | Some c \<Rightarrow> ar_conversationId r = Some c) \<and>
          (case xf_cursor flt of None \<Rightarrow> True | Some c \<Rightarrow> request_key r < c)) (approvalRequests d)))))"

section \<open>Timeouts\<close>

definition timed_out :: "timestamp \<Rightarrow> approval_request \<Rightarrow> bool" where
  "timed_out now r \<longleftrightarrow> ar_status r = A_pending \<and> sql_lte (ar_expiresAt r) now"

definition claimAndDecideTimedOutApprovalRequest ::
  "(jsval \<Rightarrow> nat) \<Rightarrow> approval_ids \<Rightarrow> uuid set \<Rightarrow> timestamp \<Rightarrow> db \<Rightarrow>
     db_error + (db \<times> (approval_request \<times> approval_decision) option)" where
  "claimAndDecideTimedOutApprovalRequest octets f locked now d =
    (case find (\<lambda>r. timed_out now r \<and> ar_id r \<notin> locked) (approvalRequests d) of
       None \<Rightarrow> Inr (d, None)
     | Some due \<Rightarrow> bindE (recordTimeoutDecision octets f due now d) (\<lambda>(d', res). Inr (d', Some res)))"

section \<open>Cancelling an execution\<close>

datatype cancel_actor = C_environment_key uuid | C_end_user_session uuid uuid | C_workspace_member uuid

datatype cancel_scope = Sc_connection uuid | Sc_access_grant uuid | Sc_execution uuid | Sc_external_subject uuid

fun cancellationScopePredicate :: "cancel_scope \<Rightarrow> action_intent \<Rightarrow> bool" where
  "cancellationScopePredicate (Sc_access_grant i) a = (ai_connectionAccessGrantId a = Some i)"
| "cancellationScopePredicate (Sc_connection i) a = (ai_connectionId a = i)"
| "cancellationScopePredicate (Sc_execution i) a = (ai_executionId a = i)"
| "cancellationScopePredicate (Sc_external_subject i) a = (ai_externalSubjectId a = i)"

definition cancel_log :: "cancel_actor \<Rightarrow> approval_request \<Rightarrow> audit_log" where
  "cancel_log actor r = \<lparr>al_workspaceId = ar_workspaceId r,
     al_actorUserId = (case actor of C_workspace_member u \<Rightarrow> Some u | _ \<Rightarrow> None),
     al_actorExternalSubjectId = (case actor of C_end_user_session _ s \<Rightarrow> Some s | _ \<Rightarrow> None),
     al_actorEndUserSessionId = (case actor of C_end_user_session i _ \<Rightarrow> Some i | _ \<Rightarrow> None),
     al_actorEnvironmentKeyId = (case actor of C_environment_key i \<Rightarrow> Some i | _ \<Rightarrow> None),
     al_action = ''approval_request.cancelled'', al_resource = ''approval_request'', al_resourceId = ar_id r,
     al_metadata = [(''executionId'', JStr (ar_executionId r))]\<rparr>"

definition cancelled_data :: "approval_request \<Rightarrow> (string \<times> jsval) list" where
  "cancelled_data r = [(''approvalRequestId'', JStr (ar_id r)), (''executionId'', JStr (ar_executionId r)),
     (''status'', JStr ''cancelled'')] @ field ''conversationId'' (truthy_string (ar_conversationId r)) JStr"

text \<open>Events of several requests need several identifiers: \<open>event_of\<close> gives one per request, \<open>fact_of\<close> one per intent.\<close>

definition recordApprovalCancellation ::
  "(jsval \<Rightarrow> nat) \<Rightarrow> (uuid \<Rightarrow> uuid) \<Rightarrow> timestamp \<Rightarrow> cancel_actor \<Rightarrow> approval_request \<Rightarrow> db \<Rightarrow> db_error + db" where
  "recordApprovalCancellation octets event_of now actor r d =
    (let d1 = d\<lparr>auditLogs := auditLogs d @ [cancel_log actor r]\<rparr> in
     case (truthy_string (ar_environmentId r), truthy_string (ar_externalSubjectId r)) of
       (Some env, Some s) \<Rightarrow> bindE (createPublicEvent octets (event_of (ar_id r)) now (ar_workspaceId r) env (Some s)
         ''approval_request.cancelled'' (cancelled_data r) d1) (\<lambda>(d2, _). Inr d2)
     | _ \<Rightarrow> Inr d1)"

fun each_db :: "('a \<Rightarrow> db \<Rightarrow> db_error + db) \<Rightarrow> 'a list \<Rightarrow> db \<Rightarrow> db_error + db" where
  "each_db f [] d = Inr d"
| "each_db f (x # xs) d = bindE (f x d) (each_db f xs)"

lemma each_db_frame:
  assumes "each_db g xs d = Inr d'" "\<And>x d d'. g x d = Inr d' \<Longrightarrow> h d' = h d"
  shows "h d' = h d"
  using assms(1)
proof (induction xs arbitrary: d)
  case (Cons x xs)
  then obtain d1 where "g x d = Inr d1" "each_db g xs d1 = Inr d'" by (auto simp: bindE_eq_Inr)
  then show ?case using Cons.IH assms(2) by metis
qed simp

definition mark_cancelled :: "timestamp \<Rightarrow> approval_request \<Rightarrow> approval_request" where
  "mark_cancelled at_time r = r\<lparr>ar_status := A_cancelled, ar_cancelledAt := Some at_time, ar_version := ar_version r + 1\<rparr>"

definition cancelNonExecutingActionIntents ::
  "(jsval \<Rightarrow> nat) \<Rightarrow> (uuid \<Rightarrow> uuid) \<Rightarrow> (uuid \<Rightarrow> uuid) \<Rightarrow> timestamp \<Rightarrow> uuid \<Rightarrow> cancel_scope \<Rightarrow> cancel_actor \<Rightarrow> timestamp \<Rightarrow>
     db \<Rightarrow> db_error + (db \<times> action_intent list \<times> action_intent list)" where
  "cancelNonExecutingActionIntents octets event_of fact_of now ws scope actor cancelledAt d =
    (let scoped = filter (\<lambda>i. ai_workspaceId i = ws \<and> cancellationScopePredicate scope i) (actionIntents d);
         requestIds = map ai_approvalRequestId scoped;
         cancellable = filter (\<lambda>i. ai_status i = I_awaiting_consent \<or> ai_status i = I_ready) scoped;
         executing = filter (\<lambda>i. ai_status i = I_executing) scoped
     in if scoped = [] then Inr (d, [], [])
        else if (case scope of Sc_execution _ \<Rightarrow> True | _ \<Rightarrow> False) \<and> executing \<noteq> [] then Inr (d, [], executing)
        else if cancellable = [] then Inr (d, [], executing)
        else
          (case update_where (\<lambda>i. ai_id i \<in> set (map ai_id cancellable))
              (\<lambda>i. i\<lparr>ai_status := I_cancelled, ai_updatedAt := cancelledAt\<rparr>) (actionIntents d) of
             (intents, cancelled) \<Rightarrow>
               bindE (each_db (\<lambda>i. recordActionIntentFact (fact_of (ai_id i)) i ''action_intent.cancelled'' cancelledAt
                   None (Some ''cancelled'') None) cancelled (d\<lparr>actionIntents := intents\<rparr>)) (\<lambda>d1.
                 (case update_where (\<lambda>r. ar_id r \<in> set requestIds \<and> ar_status r = A_pending)
                     (mark_cancelled cancelledAt) (approvalRequests d1) of
                    (rows, requests) \<Rightarrow>
                      bindE (each_db (recordApprovalCancellation octets event_of now actor) requests
                          (d1\<lparr>approvalRequests := rows\<rparr>)) (\<lambda>d2. Inr (d2, cancelled, executing))))))"

definition cancellable_row :: "uuid \<Rightarrow> uuid \<Rightarrow> uuid \<Rightarrow> execution \<Rightarrow> bool" where
  "cancellable_row ws env xid x \<longleftrightarrow> ex_id x = xid \<and> ex_workspaceId x = ws \<and> ex_environmentId x = Some env \<and>
     ex_status x \<in> {Queued, Running, Paused}"

definition cancel_row :: "timestamp \<Rightarrow> execution \<Rightarrow> execution" where
  "cancel_row at_time x = x\<lparr>ex_status := Cancelled, ex_completedAt := Some at_time, ex_leasedBy := None, ex_leaseExpiresAt := None\<rparr>"

definition cancel_request ::
  "(jsval \<Rightarrow> nat) \<Rightarrow> (uuid \<Rightarrow> uuid) \<Rightarrow> timestamp \<Rightarrow> uuid \<Rightarrow> uuid \<Rightarrow> timestamp \<Rightarrow> approval_request \<Rightarrow> db \<Rightarrow> db_error + db" where
  "cancel_request octets event_of now env key cancelledAt r d =
    (case update_where (pending_request (ar_id r)) (mark_cancelled cancelledAt) (approvalRequests d) of
       (rows, []) \<Rightarrow> Inl (AppError ''Locked Approval Request changed state'')
     | (rows, _ # _) \<Rightarrow>
         let d1 = d\<lparr>approvalRequests := rows, auditLogs := auditLogs d @ [cancel_log (C_environment_key key) r]\<rparr> in
         if ar_audience r \<noteq> External_subject then Inr d1
         else (case truthy_string (ar_externalSubjectId r) of
             None \<Rightarrow> Inl (AppError ''External Approval Request is missing its audience'')
           | Some s \<Rightarrow> bindE (createPublicEvent octets (event_of (ar_id r)) now (ar_workspaceId r) env (Some s)
               ''approval_request.cancelled'' (cancelled_data r) d1) (\<lambda>(d2, _). Inr d2)))"

definition cancelExecutionWithPendingApproval ::
  "(jsval \<Rightarrow> nat) \<Rightarrow> (uuid \<Rightarrow> uuid) \<Rightarrow> (uuid \<Rightarrow> uuid) \<Rightarrow> timestamp \<Rightarrow> uuid \<Rightarrow> uuid \<Rightarrow> uuid \<Rightarrow> uuid \<Rightarrow> timestamp \<Rightarrow> db \<Rightarrow>
     db_error + (db \<times> execution option)" where
  "cancelExecutionWithPendingApproval octets event_of fact_of now ws env xid key cancelledAt d =
    (let pending = filter (\<lambda>r. ar_workspaceId r = ws \<and> ar_executionId r = xid \<and> ar_status r = A_pending)
        (approvalRequests d)
     in if 1 < length pending then Inl (AppError ''Execution has multiple pending Approval Requests'')
        else if \<not> list_ex (cancellable_row ws env xid) (executions d) then Inr (d, None)
        else bindE (cancelNonExecutingActionIntents octets event_of fact_of now ws (Sc_execution xid)
            (C_environment_key key) cancelledAt d) (\<lambda>(d1, cancelled, executing).
          if executing \<noteq> [] then Inr (d1, None)
          else (case update_executions (cancellable_row ws env xid) (cancel_row cancelledAt) d1 of
              (d2, x) \<Rightarrow>
                (case (x, pending) of
                   (Some _, r # _) \<Rightarrow>
                     if cancelled \<noteq> [] then Inr (d2, x)
                     else bindE (cancel_request octets event_of now env key cancelledAt r d2) (\<lambda>d3. Inr (d3, x))
                 | _ \<Rightarrow> Inr (d2, x)))))"


section \<open>Effects\<close>

text \<open>Public events and audit facts touch nothing but their own tables.\<close>

definition frame :: "db \<Rightarrow> execution list \<times> execution_step list \<times> checkpoint list \<times> wait_timer list \<times>
    approval_request list \<times> approval_decision list" where
  "frame d = (executions d, executionSteps d, checkpoints d, waitTimers d, approvalRequests d, approvalDecisions d)"

definition event_appended :: "uuid \<Rightarrow> db \<Rightarrow> db \<Rightarrow> bool" where
  "event_appended mid d d' \<longleftrightarrow> frame d' = frame d \<and>
     (\<exists>ms. outboxMessages d' = outboxMessages d @ ms \<and> length ms \<le> 1 \<and> (\<forall>m \<in> set ms. message_ok m \<and> ob_id m = mid))"

lemma createPublicEvent_appended:
  assumes "createPublicEvent octets mid now ws env s ty data d = Inr (d', m)"
  shows "event_appended mid d d'"
  unfolding event_appended_def
proof (intro conjI exI [of _ "[m]"])
  from assms show "frame d' = frame d" "outboxMessages d' = outboxMessages d @ [m]"
    by (auto simp: createPublicEvent_def Let_def frame_def insert_message_def split: if_splits)
  from assms show "\<forall>m \<in> set [m]. message_ok m \<and> ob_id m = mid"
    by (auto simp: createPublicEvent_def Let_def message_defs new_message_def split: if_splits)
qed simp

lemma audience_event_appended: "audience_event octets mid now r ty data d = Inr d' \<Longrightarrow> event_appended mid d d'"
  by (auto simp: audience_event_def bindE_eq_Inr dest: createPublicEvent_appended split: if_splits option.splits)
     (simp add: event_appended_def)

lemma fact_frame:
  "recordActionIntentFact fid i ty tm dc oc fc d = Inr d' \<Longrightarrow> frame d' = frame d \<and> outboxMessages d' = outboxMessages d"
  by (auto simp: recordActionIntentFact_def bindE_eq_Inr frame_def split: option.splits)

lemma decision_fact_frame:
  "recordActionIntentDecisionFact fid r c d = Inr d' \<Longrightarrow> frame d' = frame d \<and> outboxMessages d' = outboxMessages d"
  by (auto simp: recordActionIntentDecisionFact_def dest: fact_frame split: if_splits option.splits)

lemma resume_effect:
  "frame (resumeDecisionExecution mid now r d) =
     (fst (update_where (paused_row (ar_executionId r)) wake (executions d)), executionSteps d, checkpoints d,
      waitTimers d, approvalRequests d, approvalDecisions d)"
  "outboxMessages (resumeDecisionExecution mid now r d) = outboxMessages d @
     (if list_ex (paused_row (ar_executionId r)) (executions d)
      then [execution_message mid now (ar_workspaceId r) (ar_executionId r)] else [])"
  by (auto simp: resumeDecisionExecution_def update_executions_def split_beta frame_def insert_message_def
      createWorkflowExecutionMessage_def Let_def first_row_def update_where_def filter_empty_conv list_ex_iff
      split: option.splits list.splits)

text \<open>What a recorded decision does, all in one transaction.\<close>

lemma recordDecision_effect:
  assumes "recordDecision octets f now r inp d = Inr (d', r', c)"
  shows "c = decision_row (new_decision f) r inp"
    "frame d' = (fst (update_where (paused_row (ar_executionId r)) wake (executions d)), executionSteps d, checkpoints d,
       waitTimers d, fst (update_where (pending_request (ar_id r)) mark_decided (approvalRequests d)),
       approvalDecisions d @ [c])"
    "\<exists>ms. outboxMessages d' = outboxMessages d @
       (if list_ex (paused_row (ar_executionId r)) (executions d)
        then [execution_message (wake_message f) now (ar_workspaceId r) (ar_executionId r)] else []) @ ms \<and>
       length ms \<le> 1 \<and> (\<forall>m \<in> set ms. message_ok m \<and> ob_id m = event_message f)"
    "ar_id r \<notin> ad_approvalRequestId ` set (approvalDecisions d)"
    "(di_reason inp = By_timeout) = (di_actor inp = Act_system)"
    "\<exists>x \<in> set (approvalRequests d). pending_request (ar_id r) x \<and> r' = mark_decided x"
proof -
  let ?c = "decision_row (new_decision f) r inp"
  from assms obtain d1 where s1: "insert_decision ?c d = Inr d1"
    and rest: "(case update_where (pending_request (ar_id r)) mark_decided (approvalRequests d1) of
          (rows, []) \<Rightarrow> Inl (AppError ''Locked Approval Request changed state'')
        | (rows, r' # _) \<Rightarrow>
            bindE (recordActionIntentDecisionFact (new_fact f) r ?c (d1\<lparr>approvalRequests := rows\<rparr>)) (\<lambda>d2.
            bindE (audience_event octets (event_message f) now r ''approval_request.decided'' (decided_data r ?c)
                (recordApprovalDecisionAudit r inp (resumeDecisionExecution (wake_message f) now r d2)))
              (\<lambda>d3. Inr (d3, r', ?c)))) = Inr (d', r', c)"
    unfolding recordDecision_def Let_def bindE_eq_Inr by blast
  obtain rows ret where u: "update_where (pending_request (ar_id r)) mark_decided (approvalRequests d1) = (rows, ret)"
    by fastforce
  with rest obtain ret' where ret: "ret = r' # ret'" and c: "c = ?c" by (cases ret) (auto simp: bindE_eq_Inr)
  show "c = ?c" by (rule c)
  from rest obtain d2 where s: "insert_decision c d = Inr d1"
    "update_where (pending_request (ar_id r)) mark_decided (approvalRequests d1) = (rows, r' # ret')"
    "recordActionIntentDecisionFact (new_fact f) r c (d1\<lparr>approvalRequests := rows\<rparr>) = Inr d2"
    "audience_event octets (event_message f) now r ''approval_request.decided'' (decided_data r c)
        (recordApprovalDecisionAudit r inp (resumeDecisionExecution (wake_message f) now r d2)) = Inr d'"
    using s1 u unfolding c ret by (auto simp: bindE_eq_Inr)
  have ins: "d1 = d\<lparr>approvalDecisions := approvalDecisions d @ [c]\<rparr>"
    and new: "ar_id r \<notin> ad_approvalRequestId ` set (approvalDecisions d)"
    and kind: "(ad_reason c = By_timeout) = (ad_actorKind c = K_system)"
    using s(1) by (auto simp: insert_decision_def list_ex_iff c decision_row_def split: if_splits prod.splits)
  show "ar_id r \<notin> ad_approvalRequestId ` set (approvalDecisions d)" by (rule new)
  show "(di_reason inp = By_timeout) = (di_actor inp = Act_system)"
    using kind by (cases "di_actor inp") (auto simp: c decision_row_def)
  have rows: "rows = fst (update_where (pending_request (ar_id r)) mark_decided (approvalRequests d))"
    using s(2) by (simp add: ins)
  have f2: "frame d2 = (executions d, executionSteps d, checkpoints d, waitTimers d, rows, approvalDecisions d @ [c])"
    "outboxMessages d2 = outboxMessages d"
    using decision_fact_frame [OF s(3)] by (simp_all add: ins frame_def)
  define d3 where "d3 = recordApprovalDecisionAudit r inp (resumeDecisionExecution (wake_message f) now r d2)"
  have f3: "frame d3 = frame (resumeDecisionExecution (wake_message f) now r d2)"
    "outboxMessages d3 = outboxMessages (resumeDecisionExecution (wake_message f) now r d2)"
    by (simp_all add: d3_def recordApprovalDecisionAudit_def frame_def split: prod.split)
  have ev: "event_appended (event_message f) d3 d'" using audience_event_appended [OF s(4)] by (simp add: d3_def)
  show "frame d' = (fst (update_where (paused_row (ar_executionId r)) wake (executions d)), executionSteps d, checkpoints d,
       waitTimers d, fst (update_where (pending_request (ar_id r)) mark_decided (approvalRequests d)),
       approvalDecisions d @ [c])"
    using ev f3(1) f2(1) resume_effect(1) [of "wake_message f" now r d2]
    by (simp add: event_appended_def frame_def rows)
  show "\<exists>ms. outboxMessages d' = outboxMessages d @
       (if list_ex (paused_row (ar_executionId r)) (executions d)
        then [execution_message (wake_message f) now (ar_workspaceId r) (ar_executionId r)] else []) @ ms \<and>
       length ms \<le> 1 \<and> (\<forall>m \<in> set ms. message_ok m \<and> ob_id m = event_message f)"
    using ev f3(2) f2 resume_effect(2) [of "wake_message f" now r d2]
    by (auto simp: event_appended_def frame_def)
  show "\<exists>x \<in> set (approvalRequests d). pending_request (ar_id r) x \<and> r' = mark_decided x"
  proof -
    have "r' \<in> set (snd (update_where (pending_request (ar_id r)) mark_decided (approvalRequests d)))"
      using s(2) by (simp add: ins)
    then show ?thesis by (auto simp: update_where_def)
  qed
qed


section \<open>The protocol of approval requests\<close>

definition fresh_approval :: "approval_ids \<Rightarrow> db \<Rightarrow> bool" where
  "fresh_approval f d \<longleftrightarrow> new_request f \<notin> ar_id ` set (approvalRequests d) \<and>
     wake_message f \<notin> ob_id ` set (outboxMessages d) \<and> event_message f \<notin> ob_id ` set (outboxMessages d) \<and>
     wake_message f \<noteq> event_message f"

inductive approval_step :: "timestamp \<Rightarrow> string option \<Rightarrow> db \<Rightarrow> db \<Rightarrow> bool" for now where
  ap_create: "fresh_approval f d \<Longrightarrow> createApprovalRequest octets f now inp d = Inr (d', res) \<Longrightarrow>
    approval_step now None d d'"
| ap_decide: "fresh_approval f d \<Longrightarrow> decideWorkspaceApprovalRequest octets f now ws rid inp d = Inr (d', res') \<Longrightarrow>
    approval_step now None d d'"
| ap_decide_external: "fresh_approval f d \<Longrightarrow>
    decideExternalApprovalRequest octets digest f now xinp d = Inr (d', xres) \<Longrightarrow> approval_step now None d d'"
| ap_timeout: "fresh_approval f d \<Longrightarrow>
    claimAndDecideTimedOutApprovalRequest octets f locked now d = Inr (d', res') \<Longrightarrow> approval_step now None d d'"

text \<open>
  A decision fits its request: the system decides as the request says, and only once the
  deadline has passed; people decide only before it.
\<close>

definition decision_fits :: "approval_request \<Rightarrow> approval_decision \<Rightarrow> bool" where
  "decision_fits r c \<longleftrightarrow> ad_approvalRequestId c = ar_id r \<and> (case ad_reason c of
       By_timeout \<Rightarrow> ad_actorKind c = K_system \<and> (\<exists>e a. ar_expiresAt r = Some e \<and> ar_timeoutAction r = Some a \<and>
         e div 1000 \<le> ad_decidedAt c div 1000 \<and> ad_outcome c = (if a = Auto_approve then D_approved else D_rejected))
     | By_human \<Rightarrow> ad_actorKind c \<noteq> K_system \<and> (\<forall>e. ar_expiresAt r = Some e \<longrightarrow> ad_decidedAt c < e))"

definition request_ok :: "approval_request \<Rightarrow> bool" where
  "request_ok r \<longleftrightarrow> (ar_status r = A_cancelled) = (ar_cancelledAt r \<noteq> None) \<and>
     (case ar_expiresAt r of None \<Rightarrow> ar_timeoutAction r = None | Some e \<Rightarrow> ar_requestedAt r < e \<and> ar_timeoutAction r \<noteq> None)"

definition approval_inv :: "db \<Rightarrow> bool" where
  "approval_inv d \<longleftrightarrow> distinct (map ar_id (approvalRequests d)) \<and>
     distinct (map (\<lambda>r. (ar_executionId r, ar_nodeId r)) (approvalRequests d)) \<and>
     distinct (map ad_approvalRequestId (approvalDecisions d)) \<and>
     (\<forall>r \<in> set (approvalRequests d). request_ok r \<and>
        (ar_status r = A_decided \<longleftrightarrow> ar_id r \<in> ad_approvalRequestId ` set (approvalDecisions d))) \<and>
     (\<forall>c \<in> set (approvalDecisions d). \<exists>r \<in> set (approvalRequests d). decision_fits r c)"

text \<open>The three things a step can do.\<close>

definition quiet :: "db \<Rightarrow> db \<Rightarrow> bool" where
  "quiet d d' \<longleftrightarrow> frame d' = frame d \<and> outboxMessages d' = outboxMessages d"

definition creates :: "approval_ids \<Rightarrow> db \<Rightarrow> db \<Rightarrow> bool" where
  "creates f d d' \<longleftrightarrow> (\<exists>r ms. ar_id r = new_request f \<and> ar_status r = A_pending \<and> request_ok r \<and>
     (ar_executionId r, ar_nodeId r) \<notin> (\<lambda>r. (ar_executionId r, ar_nodeId r)) ` set (approvalRequests d) \<and>
     frame d' = (executions d, executionSteps d, checkpoints d, waitTimers d, approvalRequests d @ [r], approvalDecisions d) \<and>
     outboxMessages d' = outboxMessages d @ ms \<and> length ms \<le> 1 \<and> (\<forall>m \<in> set ms. message_ok m \<and> ob_id m = event_message f))"

definition decides :: "approval_ids \<Rightarrow> timestamp \<Rightarrow> approval_request \<Rightarrow> approval_decision \<Rightarrow> db \<Rightarrow> db \<Rightarrow> bool" where
  "decides f now r c d d' \<longleftrightarrow> r \<in> set (approvalRequests d) \<and> ar_status r = A_pending \<and> decision_fits r c \<and>
     ar_id r \<notin> ad_approvalRequestId ` set (approvalDecisions d) \<and>
     frame d' = (fst (update_where (paused_row (ar_executionId r)) wake (executions d)), executionSteps d, checkpoints d,
       waitTimers d, fst (update_where (pending_request (ar_id r)) mark_decided (approvalRequests d)),
       approvalDecisions d @ [c]) \<and>
     (\<exists>ms. outboxMessages d' = outboxMessages d @
       (if list_ex (paused_row (ar_executionId r)) (executions d)
        then [execution_message (wake_message f) now (ar_workspaceId r) (ar_executionId r)] else []) @ ms \<and>
       length ms \<le> 1 \<and> (\<forall>m \<in> set ms. message_ok m \<and> ob_id m = event_message f))"

lemma quiet_tables:
  "quiet d d' \<Longrightarrow> approvalRequests d' = approvalRequests d \<and> approvalDecisions d' = approvalDecisions d \<and>
     executions d' = executions d \<and> waitTimers d' = waitTimers d \<and> executionSteps d' = executionSteps d \<and>
     checkpoints d' = checkpoints d"
  by (simp add: quiet_def frame_def)

lemma creates_tables:
  "creates f d d' \<Longrightarrow> (\<exists>r. approvalRequests d' = approvalRequests d @ [r]) \<and> approvalDecisions d' = approvalDecisions d \<and>
     executions d' = executions d \<and> waitTimers d' = waitTimers d \<and> executionSteps d' = executionSteps d \<and>
     checkpoints d' = checkpoints d"
  unfolding creates_def frame_def by auto

lemma decides_tables:
  "decides f now r c d d' \<Longrightarrow>
     approvalRequests d' = fst (update_where (pending_request (ar_id r)) mark_decided (approvalRequests d)) \<and>
     approvalDecisions d' = approvalDecisions d @ [c] \<and>
     executions d' = fst (update_where (paused_row (ar_executionId r)) wake (executions d)) \<and>
     waitTimers d' = waitTimers d \<and> executionSteps d' = executionSteps d \<and> checkpoints d' = checkpoints d"
  unfolding decides_def frame_def by auto

lemma decision_row_simps [simp]:
  "ad_approvalRequestId (decision_row i r inp) = ar_id r" "ad_reason (decision_row i r inp) = di_reason inp"
  "ad_decidedAt (decision_row i r inp) = di_decidedAt inp" "ad_outcome (decision_row i r inp) = di_outcome inp"
  "ad_actorKind (decision_row i r inp) = actor_kind (di_actor inp)"
  "ad_idempotencyKey (decision_row i r inp) = di_idempotencyKey inp" "ad_comment (decision_row i r inp) = di_comment inp"
  "ad_id (decision_row i r inp) = i"
  by (simp_all add: decision_row_def split: prod.split)

lemma not_expired_before: "\<not> expired now r \<Longrightarrow> ar_expiresAt r = Some e \<Longrightarrow> now < e"
  using zdiv_mono1 [of e now 1000] by (auto simp: expired_def)

lemma recordDecision_human:
  assumes "recordDecision octets f now r inp d = Inr (d', r', c)" "r \<in> set (approvalRequests d)"
    "ar_status r = A_pending" "\<not> expired now r" "di_reason inp = By_human" "di_decidedAt inp = now"
  shows "decides f now r c d d'"
proof -
  note eff = recordDecision_effect [OF assms(1)]
  have "actor_kind (di_actor inp) \<noteq> K_system" using eff(5) assms(5) by (cases "di_actor inp") auto
  then have "decision_fits r c" using eff(1) assms(4-6) not_expired_before by (simp add: decision_fits_def)
  then show ?thesis unfolding decides_def using eff(2-4) assms(2,3) by blast
qed

lemma recordTimeoutDecision_decides:
  assumes "recordTimeoutDecision octets f r now d = Inr (d', r', c)" "r \<in> set (approvalRequests d)"
    "ar_status r = A_pending" "expired now r"
  shows "decides f now r c d d'"
proof -
  from assms(1) obtain a inp where a: "ar_timeoutAction r = Some a" "recordDecision octets f now r inp d = Inr (d', r', c)"
    "di_outcome inp = (if a = Auto_approve then D_approved else D_rejected)" "di_actor inp = Act_system"
    "di_reason inp = By_timeout" "di_decidedAt inp = now"
    unfolding recordTimeoutDecision_def by (fastforce split: option.splits)
  note eff = recordDecision_effect [OF a(2)]
  have "decision_fits r c" using eff(1) a assms(4) by (auto simp: decision_fits_def expired_def split: option.splits)
  then show ?thesis unfolding decides_def using eff(2-4) assms(2,3) by blast
qed

lemma decides_frame:
  "decides f now r c d1 d' \<Longrightarrow> frame d1 = frame d \<Longrightarrow> outboxMessages d1 = outboxMessages d \<Longrightarrow> decides f now r c d d'"
  unfolding decides_def by (simp add: frame_def)

lemma createApprovalRequest_effect:
  assumes "createApprovalRequest octets f now inp d = Inr (d', res)"
  shows "d' = d \<and> res = None \<or> creates f d d'"
proof -
  let ?r = "new_request_row (new_request f) now inp"
  from assms have chk: "request_checks octets ?r = Inr ()"
    by (auto simp: createApprovalRequest_def Let_def bindE_eq_Inr split: if_splits)
  show ?thesis
  proof (cases "list_ex (\<lambda>x. ar_executionId x = ar_executionId ?r \<and> ar_nodeId x = ar_nodeId ?r) (approvalRequests d)")
    case True
    then show ?thesis using assms chk by (auto simp: createApprovalRequest_def Let_def bindE_eq_Inr)
  next
    case False
    then have "audience_event octets (event_message f) now ?r ''approval_request.created'' (created_data ?r)
        (d\<lparr>approvalRequests := approvalRequests d @ [?r]\<rparr>) = Inr d'"
      using assms chk by (auto simp: createApprovalRequest_def Let_def bindE_eq_Inr)
    from audience_event_appended [OF this] have ev: "event_appended (event_message f) (d\<lparr>approvalRequests := approvalRequests d @ [?r]\<rparr>) d'" .
    have ok: "request_ok ?r"
      using chk by (auto simp: request_checks_def request_ok_def new_request_row_def split: if_splits option.splits)
    have "creates f d d'"
      unfolding creates_def
      using ev False ok
      by (intro exI [of _ ?r]) (auto simp: event_appended_def frame_def list_ex_iff new_request_row_def)
    then show ?thesis ..
  qed
qed

lemma decideWorkspace_effect:
  assumes "decideWorkspaceApprovalRequest octets f now ws rid inp d = Inr (d', res)"
  shows "d' = d \<or> (\<exists>r c. decides f now r c d d')"
proof (cases "find (\<lambda>r. ar_id r = rid \<and> ar_workspaceId r = ws \<and> ar_status r = A_pending \<and>
    eligibleForWorkspaceMember ws (dw_actorEmail inp) d r) (approvalRequests d)")
  case None
  then show ?thesis using assms by (simp add: decideWorkspaceApprovalRequest_def)
next
  case (Some r)
  note r = find_row_Some [OF Some]
  have "\<exists>c. decides f now r c d d'"
  proof (cases "expired now r")
    case True
    then obtain r' c where "recordTimeoutDecision octets f r now d = Inr (d', r', c)"
      using assms Some by (auto simp: decideWorkspaceApprovalRequest_def bindE_eq_Inr)
    then show ?thesis using recordTimeoutDecision_decides r True by blast
  next
    case False
    then obtain r' c where "recordDecision octets f now r \<lparr>di_outcome = dw_outcome inp,
             di_actor = Act_member (dw_actorUserId inp), di_reason = By_human, di_comment = dw_comment inp,
             di_idempotencyKey = None, di_decidedAt = now, di_reviewerAssignmentId = None\<rparr> d = Inr (d', r', c)"
      using assms Some by (auto simp: decideWorkspaceApprovalRequest_def bindE_eq_Inr)
    from recordDecision_human [OF this] r False show ?thesis by auto
  qed
  then show ?thesis by blast
qed

lemma reserve_frame:
  "reservePublicRequest rec d = Inr (d1, res) \<Longrightarrow> frame d1 = frame d \<and> outboxMessages d1 = outboxMessages d"
  by (auto simp: reservePublicRequest_def frame_def split: option.splits if_splits)

lemma finalize_frame:
  "finalizePublicRequest i res d = Inr d' \<Longrightarrow> frame d' = frame d \<and> outboxMessages d' = outboxMessages d"
  by (auto simp: finalizePublicRequest_def frame_def split: prod.splits list.splits)

lemma decide_pending_effect:
  assumes "decide_pending octets digest f now r inp d = Inr (d', res)" "r \<in> set (approvalRequests d)"
    "ar_status r = A_pending" "\<not> expired now r"
  shows "quiet d d' \<or> (\<exists>c. decides f now r c d d')"
proof -
  from assms(1) obtain d1 rv where rv: "reservePublicRequest (decision_reservation digest (new_record f) inp) d = Inr (d1, rv)"
    by (auto simp: decide_pending_def bindE_eq_Inr)
  note f1 = reserve_frame [OF rv]
  show ?thesis
  proof (cases rv)
    case (Reserved rid)
    then obtain d2 r' c where rd: "recordDecision octets f now r (external_decision r inp now d1) d1 = Inr (d2, r', c)"
      and fin: "finalizePublicRequest rid (ad_id c) d2 = Inr d'"
      using assms(1) rv by (auto simp: decide_pending_def bindE_eq_Inr)
    have "decides f now r c d1 d2"
      using recordDecision_human [OF rd _ assms(3,4)] assms(2) f1 by (simp add: external_decision_def frame_def)
    then have "decides f now r c d d2" using decides_frame f1 by blast
    then have "decides f now r c d d'"
      using finalize_frame [OF fin] unfolding decides_def by simp
    then show ?thesis by blast
  qed (use assms(1) rv f1 in \<open>auto simp: decide_pending_def quiet_def\<close>)
qed

lemma decideExternal_effect:
  assumes "decideExternalApprovalRequest octets digest f now inp d = Inr (d', res)"
  shows "quiet d d' \<or> (\<exists>r c. decides f now r c d d')"
proof (cases "find (\<lambda>r. ar_id r = xd_approvalRequestId inp) (approvalRequests d)")
  case (Some r)
  note r = find_row_Some [OF Some]
  show ?thesis
  proof (cases "isExternalRequestOwner r inp d \<and> live_session now inp d \<and> ar_status r = A_pending")
    case True
    show ?thesis
    proof (cases "expired now r")
      case e: True
      with True Some assms obtain r' c where "recordTimeoutDecision octets f r now d = Inr (d', r', c)"
        by (auto simp: decideExternalApprovalRequest_def bindE_eq_Inr)
      then show ?thesis using recordTimeoutDecision_decides r True e by blast
    next
      case False
      with True Some assms have "decide_pending octets digest f now r inp d = Inr (d', res)"
        by (simp add: decideExternalApprovalRequest_def)
      then show ?thesis using decide_pending_effect r True False by blast
    qed
  next
    case False
    then have "d' = d" using assms Some
      by (auto simp: decideExternalApprovalRequest_def bindE_eq_Inr split: if_splits approval_status.splits)
    then show ?thesis by (simp add: quiet_def)
  qed
qed (use assms in \<open>simp add: decideExternalApprovalRequest_def quiet_def\<close>)

lemma timeout_effect:
  assumes "claimAndDecideTimedOutApprovalRequest octets f locked now d = Inr (d', res)"
  shows "d' = d \<and> res = None \<or> (\<exists>r c. decides f now r c d d' \<and> timed_out now r)"
proof (cases "find (\<lambda>r. timed_out now r \<and> ar_id r \<notin> locked) (approvalRequests d)")
  case (Some r)
  note r = find_row_Some [OF Some]
  have "expired now r"
    using r zdiv_mono1 [of _ now 1000] by (cases "ar_expiresAt r") (auto simp: timed_out_def expired_def)
  moreover obtain r' c where "recordTimeoutDecision octets f r now d = Inr (d', r', c)"
    using assms Some by (auto simp: claimAndDecideTimedOutApprovalRequest_def bindE_eq_Inr)
  ultimately have "decides f now r c d d'" using recordTimeoutDecision_decides r by (simp add: timed_out_def)
  then show ?thesis using r by blast
qed (use assms in \<open>simp add: claimAndDecideTimedOutApprovalRequest_def\<close>)

lemma approval_step_effect:
  assumes "approval_step now a d d'"
  shows "\<exists>f. fresh_approval f d \<and> (quiet d d' \<or> creates f d d' \<or> (\<exists>r c. decides f now r c d d'))"
  using assms
proof cases
  case (ap_create f octets inp res)
  then show ?thesis using createApprovalRequest_effect [OF ap_create(3)] by (auto simp: quiet_def)
next
  case (ap_decide f octets ws rid inp res')
  then show ?thesis using decideWorkspace_effect [OF ap_decide(3)] by (auto simp: quiet_def)
next
  case (ap_decide_external f octets digest xinp xres)
  then show ?thesis using decideExternal_effect [OF ap_decide_external(3)] by blast
next
  case (ap_timeout f octets locked res')
  then show ?thesis using timeout_effect [OF ap_timeout(3)] by (auto simp: quiet_def)
qed


section \<open>A request is settled once\<close>

lemma mark_decided_simps [simp]:
  "ar_id (mark_decided r) = ar_id r" "ar_executionId (mark_decided r) = ar_executionId r"
  "ar_nodeId (mark_decided r) = ar_nodeId r" "ar_status (mark_decided r) = A_decided"
  "ar_expiresAt (mark_decided r) = ar_expiresAt r" "ar_timeoutAction (mark_decided r) = ar_timeoutAction r"
  "ar_requestedAt (mark_decided r) = ar_requestedAt r" "ar_cancelledAt (mark_decided r) = ar_cancelledAt r"
  by (simp_all add: mark_decided_def)

lemma mark_decided_fits [simp]: "decision_fits (mark_decided r) c = decision_fits r c"
  unfolding decision_fits_def mark_decided_simps by (rule refl)

lemma pending_row:
  assumes "distinct (map ar_id rs)" "r \<in> set rs" "ar_status r = A_pending" "x \<in> set rs"
  shows "pending_request (ar_id r) x \<longleftrightarrow> x = r"
  using assms distinct_rows_eq [OF assms(1), of x r] by (auto simp: pending_request_def)

lemma decides_inv:
  assumes "approval_inv d" "decides f now r c d d'"
  shows "approval_inv d'"
proof -
  let ?u = "fst (update_where (pending_request (ar_id r)) mark_decided (approvalRequests d))"
  have r: "r \<in> set (approvalRequests d)" "ar_status r = A_pending" "decision_fits r c"
    "ar_id r \<notin> ad_approvalRequestId ` set (approvalDecisions d)"
    and tables: "approvalRequests d' = ?u" "approvalDecisions d' = approvalDecisions d @ [c]"
    using assms(2) by (auto simp: decides_def frame_def)
  have ids: "distinct (map ar_id (approvalRequests d))" using assms(1) by (simp add: approval_inv_def)
  have c: "ad_approvalRequestId c = ar_id r" using r(3) by (simp add: decision_fits_def)
  have rows: "set ?u = insert (mark_decided r) (set (approvalRequests d) - {r})"
    using pending_row [OF ids r(1,2)] r(1) by (auto simp: set_update_where)
  have other: "ar_id x \<noteq> ar_id r" if "x \<in> set (approvalRequests d)" "x \<noteq> r" for x
    using distinct_rows_eq [OF ids that(1) r(1)] that(2) by auto
  have "map ar_id ?u = map ar_id (approvalRequests d)"
    "map (\<lambda>x. (ar_executionId x, ar_nodeId x)) ?u = map (\<lambda>x. (ar_executionId x, ar_nodeId x)) (approvalRequests d)"
    by (simp_all add: map_update_where)
  moreover have "request_ok r" using assms(1) r(1) by (simp add: approval_inv_def)
  then have "request_ok (mark_decided r)" using r(2) by (simp add: request_ok_def split: option.splits)
  moreover have "\<exists>x \<in> set ?u. decision_fits x e" if e: "e \<in> set (approvalDecisions d)" for e
  proof -
    obtain x where x: "x \<in> set (approvalRequests d)" "decision_fits x e" using assms(1) e by (auto simp: approval_inv_def)
    then have "x \<noteq> r" using r(4) e by (auto simp: decision_fits_def image_iff)
    then show ?thesis using x rows by blast
  qed
  ultimately show ?thesis
    using assms(1) r c other unfolding approval_inv_def tables rows by auto
qed

lemma creates_inv:
  assumes "approval_inv d" "fresh_approval f d" "creates f d d'"
  shows "approval_inv d'"
proof -
  from assms(3) obtain r where r: "ar_id r = new_request f" "ar_status r = A_pending" "request_ok r"
    "(ar_executionId r, ar_nodeId r) \<notin> (\<lambda>r. (ar_executionId r, ar_nodeId r)) ` set (approvalRequests d)"
    "approvalRequests d' = approvalRequests d @ [r]" "approvalDecisions d' = approvalDecisions d"
    by (auto simp: creates_def frame_def)
  have new: "ar_id r \<notin> ar_id ` set (approvalRequests d)" using assms(2) r(1) by (simp add: fresh_approval_def)
  moreover have "ar_id r \<notin> ad_approvalRequestId ` set (approvalDecisions d)"
  proof
    assume "ar_id r \<in> ad_approvalRequestId ` set (approvalDecisions d)"
    then obtain c where "c \<in> set (approvalDecisions d)" "ad_approvalRequestId c = ar_id r" by auto
    then obtain x where "x \<in> set (approvalRequests d)" "ar_id x = ar_id r"
      using assms(1) by (force simp: approval_inv_def decision_fits_def)
    then show False using new by (metis imageI)
  qed
  ultimately show ?thesis using assms(1) r by (auto simp: approval_inv_def)
qed

lemma approval_step_inv:
  assumes "approval_inv d" "approval_step now a d d'"
  shows "approval_inv d'"
proof -
  have "approval_inv d'" if "quiet d d'" using that assms(1) by (simp add: quiet_def frame_def approval_inv_def)
  then show ?thesis using approval_step_effect [OF assms(2)] decides_inv creates_inv assms(1) by blast
qed

definition settled_request :: "approval_request \<Rightarrow> bool" where
  "settled_request r \<longleftrightarrow> ar_status r \<noteq> A_pending"

lemma approval_step_keeps:
  assumes "approval_step now a d d'" "r \<in> set (approvalRequests d)" "ar_status r \<noteq> A_pending"
  shows "r \<in> set (approvalRequests d')"
proof -
  obtain f where "quiet d d' \<or> creates f d d' \<or> (\<exists>r c. decides f now r c d d')"
    using approval_step_effect [OF assms(1)] by blast
  then consider (same) "approvalRequests d' = approvalRequests d" | (new) x where "approvalRequests d' = approvalRequests d @ [x]"
    | (decided) x :: approval_request where "approvalRequests d' = fst (update_where (pending_request (ar_id x)) mark_decided (approvalRequests d))"
    using quiet_tables creates_tables decides_tables by blast
  then show ?thesis
  proof cases
    case decided
    then show ?thesis using assms(2,3) update_where_keeps [OF assms(2)] by (auto simp: pending_request_def)
  qed (use assms(2) in auto)
qed

interpretation approvals: leased_rows approvalRequests "\<lambda>_. None" "\<lambda>(_ :: timestamp) _. False" settled_request
  approval_step approval_inv
  by unfold_locales (auto intro: approval_step_inv approval_step_keeps simp: settled_request_def)

lemma approval_run_decisions:
  assumes "run_steps approval_step as d d'" "c \<in> set (approvalDecisions d)"
  shows "c \<in> set (approvalDecisions d')"
  using assms
proof (induction rule: run_steps.induct)
  case (run_cons t a d d1 as d'')
  obtain f where "quiet d d1 \<or> creates f d d1 \<or> (\<exists>r c. decides f t r c d d1)"
    using approval_step_effect [OF run_cons.hyps(1)] by blast
  then have "c \<in> set (approvalDecisions d1)"
    using run_cons.prems by (elim disjE exE) (auto dest!: quiet_tables creates_tables decides_tables)
  then show ?case by (rule run_cons.IH)
qed simp

text \<open>
  C24. A request is settled once. Whatever members, external subjects and the timeout poller do,
  in any order, a decided or cancelled request and its decision never change again; every
  decided request has exactly one decision and every decision a decided request; a deadline
  that has passed is decided by the system as the request says, never by a person.
\<close>

theorem approval_settled_once:
  assumes "approval_inv d" "run_steps approval_step as d d'"
  shows "approval_inv d' \<and>
    (\<forall>r \<in> set (approvalRequests d). ar_status r \<noteq> A_pending \<longrightarrow> r \<in> set (approvalRequests d')) \<and>
    (\<forall>c \<in> set (approvalDecisions d). getApprovalDecision (ad_approvalRequestId c) d' = Some c)"
proof (intro conjI ballI impI)
  show inv: "approval_inv d'" using approvals.run_inv [OF assms(2,1)] .
  show "r \<in> set (approvalRequests d')" if "r \<in> set (approvalRequests d)" "ar_status r \<noteq> A_pending" for r
    using approvals.run_finished [OF assms(2,1) that(1)] that(2) by (simp add: settled_request_def)
  fix c
  assume "c \<in> set (approvalDecisions d)"
  then have c: "c \<in> set (approvalDecisions d')" using approval_run_decisions [OF assms(2)] by blast
  have "distinct (map ad_approvalRequestId (approvalDecisions d'))" using inv by (simp add: approval_inv_def)
  then show "getApprovalDecision (ad_approvalRequestId c) d' = Some c"
    using c distinct_rows_eq find_row_Some
    by (cases "getApprovalDecision (ad_approvalRequestId c) d'")
       (fastforce simp: getApprovalDecision_def find_None_iff)+
qed

section \<open>An example\<close>

definition example_request :: "uuid \<Rightarrow> approval_status \<Rightarrow> approval_request" where
  "example_request i v = \<lparr>ar_id = i, ar_workspaceId = ''ws'', ar_environmentId = None, ar_workflowId = ''wf'',
     ar_executionId = ''x1'', ar_nodeId = i, ar_audience = Workspace_members, ar_externalSubjectId = None,
     ar_conversationId = None, ar_status = v, ar_version = 1,
     ar_display = \<lparr>dp_title = ''Refund'', dp_description = None, dp_details = None\<rparr>, ar_approverEmails = None,
     ar_expiresAt = Some 100000, ar_timeoutAction = Some Auto_reject, ar_actionIntentDigest = None,
     ar_requestedAt = 0, ar_cancelledAt = None\<rparr>"

definition example_decision :: approval_decision where
  "example_decision = decision_row ''c1'' (example_request ''r1'' A_decided) \<lparr>di_outcome = D_approved,
     di_actor = Act_member ''u1'', di_reason = By_human, di_comment = None, di_idempotencyKey = None,
     di_decidedAt = 50000, di_reviewerAssignmentId = None\<rparr>"

definition approval_store :: db where
  "approval_store = empty_db\<lparr>approvalRequests := [example_request ''r1'' A_decided, example_request ''r2'' A_pending],
     approvalDecisions := [example_decision]\<rparr>"

definition example_ids :: approval_ids where
  "example_ids = \<lparr>new_request = ''q'', new_decision = ''c2'', new_fact = ''f'', new_record = ''i'',
     wake_message = ''m1'', event_message = ''m2''\<rparr>"

lemma approval_store_inv: "approval_inv approval_store"
  by (simp add: approval_inv_def approval_store_def empty_db_def request_ok_def decision_fits_def example_request_def
      example_decision_def)

theorem approval_settled_once_witness:
  "\<exists>d' res. claimAndDecideTimedOutApprovalRequest (\<lambda>_. 0) example_ids {} 200000 approval_store = Inr (d', res) \<and>
     getApprovalDecision ''r1'' d' = Some example_decision \<and>
     map_option ad_outcome (getApprovalDecision ''r2'' d') = Some D_rejected"
proof -
  have ev: "map_sum id (\<lambda>(d', res). map_option ad_outcome (getApprovalDecision ''r2'' d'))
      (claimAndDecideTimedOutApprovalRequest (\<lambda>_. 0) example_ids {} 200000 approval_store) = Inr (Some D_rejected)"
    by code_simp
  then obtain d' res where s: "claimAndDecideTimedOutApprovalRequest (\<lambda>_. 0) example_ids {} 200000 approval_store = Inr (d', res)"
    and o: "map_option ad_outcome (getApprovalDecision ''r2'' d') = Some D_rejected"
    by (cases "claimAndDecideTimedOutApprovalRequest (\<lambda>_. 0) example_ids {} 200000 approval_store") auto
  have fresh: "fresh_approval example_ids approval_store"
    by (simp add: fresh_approval_def example_ids_def approval_store_def empty_db_def example_request_def)
  have run: "run_steps approval_step [(200000, None)] approval_store d'"
    by (rule run_cons [of approval_step, OF ap_timeout [OF fresh s]]) (rule run_nil)
  have c: "example_decision \<in> set (approvalDecisions approval_store)" "ad_approvalRequestId example_decision = ''r1''"
    by (simp_all add: approval_store_def example_decision_def example_request_def)
  from approval_settled_once [OF approval_store_inv run] c s o show ?thesis by metis
qed

end
