(* ===== verification/Store_Protocol.thy ===== *)
theory Store_Protocol
  imports Approvals
begin

text \<open>
  The repositories together, as one transition system: \<open>store_step\<close> is one committed transaction
  of any process. Theorems about it hold for every interleaving, because the transactions of
  the source lock the rows they decide on.

  The abstract specification of an execution is the automaton \<open>row_step\<close> on one row: claimed,
  renewed, finished, paused, failed while queued, woken up. Every operation of the
  repositories is shown to move each row by at most one step of it.
\<close>

section \<open>Transactions\<close>

definition fresh_execution :: "fresh_ids \<Rightarrow> db \<Rightarrow> bool" where
  "fresh_execution f d \<longleftrightarrow> new_execution f \<notin> ex_id ` set (executions d) \<and>
     new_message_id f \<notin> ob_id ` set (outboxMessages d)"

inductive store_step :: "timestamp \<Rightarrow> string option \<Rightarrow> db \<Rightarrow> db \<Rightarrow> bool" for now where
  do_create: "fresh_execution f d \<Longrightarrow> createExecution f now inp d = Inr (d', x) \<Longrightarrow>
    store_step now None d d'"
| do_trigger: "fresh_execution f d \<Longrightarrow> triggerWorkflowExecution f now ws lk tin d = Inr (d', res) \<Longrightarrow>
    store_step now None d d'"
| do_trigger_version: "fresh_execution f d \<Longrightarrow>
    triggerWorkflowExecutionForVersion f now ws wfid ver tin d = Inr (d', res) \<Longrightarrow> store_step now None d d'"
| do_start: "startExecution now xid who expires d = (d', res') \<Longrightarrow> store_step now (Some who) d d'"
| do_renew: "renewLease now xid who expires d = (d', res') \<Longrightarrow> store_step now (Some who) d d'"
| do_complete: "mid \<notin> ob_id ` set (outboxMessages d) \<Longrightarrow>
    completeExecution octets mid now xid who input d = Inr (d', res') \<Longrightarrow> store_step now (Some who) d d'"
| do_fail_queued: "failQueuedExecution now xid msg d = (d', res') \<Longrightarrow> store_step now None d d'"
| do_write: "writeStepAndCheckpoint f now who step ck d = Inr (d', w) \<Longrightarrow> store_step now (Some who) d d'"
| do_resume_event: "recordResumeEvent f now xid ws who d = Inr (d', s) \<Longrightarrow> store_step now (Some who) d d'"
| do_timer: "wt_id t \<notin> wt_id ` set (waitTimers d) \<Longrightarrow> \<not> wt_fired t \<Longrightarrow>
    createWaitTimer t d = (d', r) \<Longrightarrow> store_step now (Some who) d d'"
| do_pause: "claimPauseForPendingWait now ws xid node who d = (d', p) \<Longrightarrow> store_step now (Some who) d d'"
| do_wake: "mid \<notin> ob_id ` set (outboxMessages d) \<Longrightarrow>
    claimAndResolveDueWaitTimer mid locked now d = (d', r) \<Longrightarrow> store_step now None d d'"
| do_outbox: "outbox_step now actor d d' \<Longrightarrow> store_step now actor d d'"
| do_pause_approval: "claimPauseForPendingApprovalRequest now ws xid node who d = (d', p) \<Longrightarrow>
    store_step now (Some who) d d'"
| do_approval: "approval_step now None d d' \<Longrightarrow> store_step now None d d'"

text \<open>The tables that only the operations on approval requests and action intents change.\<close>

definition approval_tables :: "db \<Rightarrow> approval_request list \<times> approval_decision list \<times> action_intent list" where
  "approval_tables d = (approvalRequests d, approvalDecisions d, actionIntents d)"

section \<open>The life of one execution\<close>

inductive row_step :: "timestamp \<Rightarrow> string option \<Rightarrow> execution \<Rightarrow> execution \<Rightarrow> bool" for now where
  row_claim: "ex_status x = Queued \<or> ex_status x = Running \<and> sql_lt (ex_leaseExpiresAt x) now \<Longrightarrow>
    row_step now (Some who) x (x\<lparr>ex_status := Running, ex_leasedBy := Some who,
      ex_leaseExpiresAt := Some e, ex_startedAt := Some now\<rparr>)"
| row_renew: "ex_status x = Running \<Longrightarrow> ex_leasedBy x = Some who \<Longrightarrow> sql_gt (ex_leaseExpiresAt x) now \<Longrightarrow>
    row_step now (Some who) x (x\<lparr>ex_leaseExpiresAt := Some e\<rparr>)"
| row_finish: "lease_guard now (ex_id x) who x \<Longrightarrow> row_step now (Some who) x (finalize now input x)"
| row_pause: "lease_guard now (ex_id x) who x \<Longrightarrow>
    row_step now (Some who) x (x\<lparr>ex_status := Paused, ex_leasedBy := None, ex_leaseExpiresAt := None\<rparr>)"
| row_fail: "ex_status x = Queued \<Longrightarrow> row_step now None x (x\<lparr>ex_status := Failed,
    ex_error := Some \<lparr>err_message = msg, err_stepId = None\<rparr>, ex_completedAt := Some now\<rparr>)"
| row_wake: "ex_status x = Paused \<Longrightarrow> row_step now None x (x\<lparr>ex_status := Queued\<rparr>)"

definition is_terminal :: "execution \<Rightarrow> bool" where
  "is_terminal x \<longleftrightarrow> ex_status x \<in> set terminalStatuses"

definition row_ok :: "execution \<Rightarrow> bool" where
  "row_ok x \<longleftrightarrow>
     (ex_status x = Running \<longrightarrow> ex_leasedBy x \<noteq> None \<and> ex_leaseExpiresAt x \<noteq> None) \<and>
     (ex_status x = Queued \<or> ex_status x = Paused \<longrightarrow> ex_leasedBy x = None \<and> ex_leaseExpiresAt x = None) \<and>
     (is_terminal x \<longleftrightarrow> ex_completedAt x \<noteq> None)"

definition lease_live :: "timestamp \<Rightarrow> execution \<Rightarrow> bool" where
  "lease_live now x \<longleftrightarrow> ex_status x = Running \<and> sql_gt (ex_leaseExpiresAt x) now"

lemma terminal_iff: "ex_status x \<in> set terminalStatuses \<longleftrightarrow> ex_status x \<in> {Succeeded, Failed, Cancelled}"
  by (auto simp: terminalStatuses_def)

lemma final_terminal: "final_exec_status s \<in> set terminalStatuses"
  by (cases s) (auto simp: final_exec_status_def terminalStatuses_def)

lemma row_step_id: "row_step now a x x' \<Longrightarrow> ex_id x' = ex_id x \<and> ex_workspaceId x' = ex_workspaceId x"
  by (cases rule: row_step.cases) (auto simp: finalize_def)

lemma row_step_ok:
  assumes "row_step now a x x'" "row_ok x"
  shows "row_ok x'"
  using assms(1)
proof cases
  case (row_finish who input)
  with final_terminal [of "co_status input"] show ?thesis
    by (cases "co_status input") (auto simp: row_ok_def is_terminal_def finalize_def final_exec_status_def)
qed (use assms(2) in \<open>auto simp: row_ok_def is_terminal_def terminalStatuses_def lease_guard_def\<close>)

lemma row_step_not_terminal: "row_step now a x x' \<Longrightarrow> \<not> is_terminal x"
  by (cases rule: row_step.cases) (auto simp: is_terminal_def terminalStatuses_def lease_guard_def)

lemma row_step_owner: "row_step now a x x' \<Longrightarrow> lease_live now x \<Longrightarrow> a = ex_leasedBy x"
  by (cases rule: row_step.cases)
     (auto simp: lease_live_def lease_guard_def dest: sql_gt_not_lt)

section \<open>Every transaction is a step of that life\<close>

definition moves_rows :: "timestamp \<Rightarrow> string option \<Rightarrow> db \<Rightarrow> db \<Rightarrow> bool" where
  "moves_rows now a d d' \<longleftrightarrow> (\<exists>p f. executions d' = fst (update_where p f (executions d)) \<and>
     (\<forall>x \<in> set (executions d). p x \<longrightarrow> row_step now a x (f x)))"

definition adds_row :: "timestamp \<Rightarrow> db \<Rightarrow> db \<Rightarrow> bool" where
  "adds_row now d d' \<longleftrightarrow> (\<exists>x mid. executions d' = executions d @ [x] \<and> ex_id x \<notin> ex_id ` set (executions d) \<and>
     ex_status x = Queued \<and> row_ok x \<and>
     outboxMessages d' = outboxMessages d @ [execution_message mid now (ex_workspaceId x) (ex_id x)] \<and>
     mid \<notin> ob_id ` set (outboxMessages d))"

lemma moves_same: "executions d' = executions d \<Longrightarrow> moves_rows now a d d'"
  unfolding moves_rows_def
  by (intro exI [of _ "\<lambda>_. False"] exI [of _ id]) (simp add: update_where_def)

lemma update_executions_simps [simp]:
  "executions (fst (update_executions p f d)) = fst (update_where p f (executions d))"
  "outboxMessages (fst (update_executions p f d)) = outboxMessages d"
  "waitTimers (fst (update_executions p f d)) = waitTimers d"
  "executionSteps (fst (update_executions p f d)) = executionSteps d"
  "checkpoints (fst (update_executions p f d)) = checkpoints d"
  "approval_tables (fst (update_executions p f d)) = approval_tables d"
  by (simp_all add: update_executions_def split_beta approval_tables_def)

lemma moves_update:
  "(\<And>x. x \<in> set (executions d) \<Longrightarrow> p x \<Longrightarrow> row_step now a x (f x)) \<Longrightarrow>
     executions d' = executions (fst (update_executions p f d)) \<Longrightarrow> moves_rows now a d d'"
  unfolding moves_rows_def by auto

lemma create_message_fst [simp]:
  "fst (createWorkflowExecutionMessage mid now ws xid d) =
     insert_message (execution_message mid now ws xid) d"
  by (simp add: createWorkflowExecutionMessage_def Let_def)

lemma insert_message_frame [simp]:
  "executions (insert_message m d) = executions d" "waitTimers (insert_message m d) = waitTimers d"
  "executionSteps (insert_message m d) = executionSteps d" "checkpoints (insert_message m d) = checkpoints d"
  "outboxMessages (insert_message m d) = outboxMessages d @ [m]"
  "approval_tables (insert_message m d) = approval_tables d"
  by (simp_all add: insert_message_def approval_tables_def)

lemma createPublicEvent_frame:
  assumes "createPublicEvent octets mid now ws env s ty data d = Inr (d', m)"
  shows "executions d' = executions d" "waitTimers d' = waitTimers d"
    "executionSteps d' = executionSteps d" "checkpoints d' = checkpoints d" "approval_tables d' = approval_tables d"
  using assms by (auto simp: createPublicEvent_def Let_def split: if_splits)

lemma same_messages: "\<exists>ms. d = d\<lparr>outboxMessages := ms\<rparr>"
  by (rule exI [of _ "outboxMessages d"]) (cases d, simp)

lemma outbox_step_only:
  assumes "outbox_step now a d d'"
  shows "\<exists>ms. d' = d\<lparr>outboxMessages := ms\<rparr>"
  using assms
proof cases
  case (step_public_event mid octets ws env subject ty data m)
  then show ?thesis by (auto simp: createPublicEvent_def Let_def insert_message_def split: if_splits)
next
  case (step_claim who k locked ex)
  then show ?thesis using same_messages [of d]
    by (cases "candidate k locked now d") (auto simp: claim_message_def split_beta Let_def)
next
  case (step_failure who mid e f r t)
  then show ?thesis using same_messages [of d]
    by (cases "find (held_by mid who) (outboxMessages d)")
       (auto simp: recordOutboxMessageFailure_def split_beta Let_def)
qed (auto simp: createWorkflowExecutionMessage_def Let_def insert_message_def markOutboxMessagePublished_def split_beta)

lemma outbox_step_frame:
  assumes "outbox_step now a d d'"
  shows "executions d' = executions d" "waitTimers d' = waitTimers d"
    "executionSteps d' = executionSteps d" "checkpoints d' = checkpoints d" "approval_tables d' = approval_tables d"
  using outbox_step_only [OF assms] by (auto simp: approval_tables_def)

lemma see_subject_frame [simp]:
  "executions (see_subject f now ws s d) = executions d"
  "outboxMessages (see_subject f now ws s d) = outboxMessages d"
  "waitTimers (see_subject f now ws s d) = waitTimers d"
  "executionSteps (see_subject f now ws s d) = executionSteps d"
  "checkpoints (see_subject f now ws s d) = checkpoints d"
  "approval_tables (see_subject f now ws s d) = approval_tables d"
  by (auto simp: approval_tables_def see_subject_def upsertEndSubject_def split: option.splits)

lemma insert_execution_adds:
  assumes "insert_execution f now x d1 = Inr (d', y)" "fresh_execution f d"
    "executions d1 = executions d" "outboxMessages d1 = outboxMessages d"
    "ex_id x = new_execution f" "ex_status x = Queued" "row_ok x"
  shows "adds_row now d d'" "waitTimers d' = waitTimers d1" "executionSteps d' = executionSteps d1"
    "checkpoints d' = checkpoints d1" "approval_tables d' = approval_tables d1"
proof -
  have d': "d' = fst (createWorkflowExecutionMessage (new_message_id f) now (ex_workspaceId x) (ex_id x)
      (d1\<lparr>executions := executions d1 @ [x]\<rparr>))"
    using assms(1) by (auto simp: insert_execution_def bindE_eq_Inr Let_def)
  show "adds_row now d d'"
    unfolding adds_row_def
    using assms(2-7)
    by (intro exI [of _ x] exI [of _ "new_message_id f"])
       (auto simp: d' fresh_execution_def)
  show "waitTimers d' = waitTimers d1" "executionSteps d' = executionSteps d1" "checkpoints d' = checkpoints d1"
    "approval_tables d' = approval_tables d1"
    by (simp_all add: d') (simp add: approval_tables_def)
qed

lemma new_row_ok: "row_ok (new_row i now ws wfid ver env trig)"
  by (simp add: row_ok_def new_row_def is_terminal_def terminalStatuses_def)

lemma createExecution_adds:
  assumes "createExecution f now inp d = Inr (d', x)" "fresh_execution f d"
  shows "adds_row now d d' \<and> waitTimers d' = waitTimers d \<and> executionSteps d' = executionSteps d \<and>
    checkpoints d' = checkpoints d \<and> approval_tables d' = approval_tables d"
proof -
  from assms(1) obtain y d1 where y: "insert_execution f now y d1 = Inr (d', x)"
    "d1 = see_subject f now (ci_workspaceId inp) (truthy_string (ci_externalSubjectId inp)) d"
    "ex_id y = new_execution f" "ex_status y = Queued" "row_ok y"
    by (fastforce simp: createExecution_def Let_def new_row_def row_ok_def is_terminal_def
        terminalStatuses_def split: option.splits)
  with insert_execution_adds [OF y(1) assms(2)] show ?thesis by simp
qed

lemma triggerWorkflowExecution_cases:
  assumes "triggerWorkflowExecution f now ws lk tin d = Inr (d', res)" "fresh_execution f d"
  shows "d' = d \<or> (adds_row now d d' \<and> waitTimers d' = waitTimers d \<and>
    executionSteps d' = executionSteps d \<and> checkpoints d' = checkpoints d \<and> approval_tables d' = approval_tables d)"
proof (cases "d' = d")
  case False
  with assms(1) obtain y x d1 where y: "insert_execution f now y d1 = Inr (d', x)"
    "d1 = see_subject f now ws (truthy_string (ti_externalSubjectId tin)) d"
    "ex_id y = new_execution f" "ex_status y = Queued" "row_ok y"
    by (fastforce simp: triggerWorkflowExecution_def Let_def bindE_eq_Inr new_row_def row_ok_def
        is_terminal_def terminalStatuses_def split: option.splits prod.splits if_splits)
  with insert_execution_adds [OF y(1) assms(2)] show ?thesis by simp
qed simp

lemma triggerVersion_cases:
  assumes "triggerWorkflowExecutionForVersion f now ws wfid ver tin d = Inr (d', res)" "fresh_execution f d"
  shows "d' = d \<or> (adds_row now d d' \<and> waitTimers d' = waitTimers d \<and>
    executionSteps d' = executionSteps d \<and> checkpoints d' = checkpoints d \<and> approval_tables d' = approval_tables d)"
proof (cases "d' = d")
  case False
  with assms(1) obtain y x d1 where y: "insert_execution f now y d1 = Inr (d', x)"
    "d1 = see_subject f now ws (truthy_string (ti_externalSubjectId tin)) d"
    "ex_id y = new_execution f" "ex_status y = Queued" "row_ok y"
    by (fastforce simp: triggerWorkflowExecutionForVersion_def Let_def bindE_eq_Inr new_row_def row_ok_def
        is_terminal_def terminalStatuses_def split: option.splits prod.splits if_splits)
  with insert_execution_adds [OF y(1) assms(2)] show ?thesis by simp
qed simp

lemma completeExecution_effect:
  assumes "completeExecution octets mid now xid who inp d = Inr (d', r)"
  shows "executions d' = executions (fst (update_executions (lease_guard now xid who) (finalize now inp) d)) \<and>
    waitTimers d' = waitTimers d \<and> executionSteps d' = executionSteps d \<and> checkpoints d' = checkpoints d \<and>
    approval_tables d' = approval_tables d"
proof -
  obtain d1 y where u: "update_executions (lease_guard now xid who) (finalize now inp) d = (d1, y)"
    by (cases "update_executions (lease_guard now xid who) (finalize now inp) d")
  then have d1: "d1 = fst (update_executions (lease_guard now xid who) (finalize now inp) d)" by simp
  have "executions d' = executions d1 \<and> waitTimers d' = waitTimers d1 \<and>
      executionSteps d' = executionSteps d1 \<and> checkpoints d' = checkpoints d1 \<and> approval_tables d' = approval_tables d1"
    using assms u
    by (auto simp: completeExecution_def bindE_eq_Inr dest: createPublicEvent_frame
        split: option.splits if_splits)
  then show ?thesis using d1 by simp
qed

lemma writeStepAndCheckpoint_effect:
  assumes "writeStepAndCheckpoint f now who step ck d = Inr (d', r)"
  shows "executions d' = executions d \<and> waitTimers d' = waitTimers d \<and> outboxMessages d' = outboxMessages d \<and>
    approval_tables d' = approval_tables d \<and>
    (d' = d \<or> isLeaseValid now (st_executionId step) who d \<and>
       (\<exists>s c. executionSteps d' = executionSteps d @ [s] \<and> checkpoints d' = checkpoints d @ [c] \<and>
          st_executionId s = st_executionId step \<and> cp_executionId c = st_executionId step))"
  using assms
  by (auto simp: approval_tables_def writeStepAndCheckpoint_def insert_step_def insert_checkpoint_def Let_def bindE_eq_Inr
      split: if_splits)

lemma recordResumeEvent_effect:
  assumes "recordResumeEvent f now xid ws who d = Inr (d', r)"
  shows "executions d' = executions d \<and> waitTimers d' = waitTimers d \<and> outboxMessages d' = outboxMessages d \<and>
    approval_tables d' = approval_tables d \<and>
    checkpoints d' = checkpoints d \<and>
    (d' = d \<or> isLeaseValid now xid who d \<and>
       (\<exists>s. executionSteps d' = executionSteps d @ [s] \<and> st_executionId s = xid))"
  using assms
  by (auto simp: approval_tables_def recordResumeEvent_def insert_step_def Let_def bindE_eq_Inr split: if_splits)

lemma pauseWait_effect:
  assumes "claimPauseForPendingWait now ws xid node who d = (d', r)"
  shows "d' = d \<and> r = AlreadyResolved \<or>
    d' = fst (pauseExecution now xid who d) \<and>
      (\<exists>t \<in> set (waitTimers d). wt_executionId t = xid \<and> \<not> wt_fired t)"
  using assms
  by (auto simp: claimPauseForPendingWait_def getWaitTimer_def dest!: find_row_Some
      split: option.splits prod.splits if_splits)

lemma pauseApproval_effect:
  assumes "claimPauseForPendingApprovalRequest now ws xid node who d = (d', r)"
  shows "d' = d \<and> r = AlreadyResolved \<or>
    d' = fst (pauseExecution now xid who d) \<and>
      (\<exists>t \<in> set (approvalRequests d). ar_executionId t = xid \<and> ar_status t = A_pending)"
  using assms
  by (auto simp: claimPauseForPendingApprovalRequest_def dest!: find_row_Some
      split: option.splits prod.splits if_splits)

definition fire :: "timestamp \<Rightarrow> wait_timer \<Rightarrow> wait_timer" where
  "fire now t = t\<lparr>wt_fired := True, wt_firedAt := Some now\<rparr>"

lemma wake_timer_effect:
  assumes "claimAndResolveDueWaitTimer mid locked now d = (d', r)" "distinct (map wt_id (waitTimers d))"
  shows "d' = d \<and> r = None \<or> (\<exists>due \<in> set (waitTimers d). due_timer now due \<and> wt_id due \<notin> locked \<and>
    r = Some (fire now due) \<and>
    waitTimers d' = fst (update_where (\<lambda>t. wt_id t = wt_id due) (fire now) (waitTimers d)) \<and>
    executions d' = fst (update_where (paused_row (wt_executionId due)) wake (executions d)) \<and>
    outboxMessages d' = outboxMessages d @ (if list_ex (paused_row (wt_executionId due)) (executions d)
       then [execution_message mid now (wt_workspaceId due) (wt_executionId due)] else []) \<and>
    executionSteps d' = executionSteps d \<and> checkpoints d' = checkpoints d \<and> approval_tables d' = approval_tables d)"
proof (cases "find (\<lambda>t. due_timer now t \<and> wt_id t \<notin> locked) (waitTimers d)")
  case (Some due)
  note due = find_row_Some [OF Some]
  have eqs: "(\<lambda>t. t\<lparr>wt_fired := True, wt_firedAt := Some now\<rparr>) = fire now"
    "(\<lambda>x. ex_id x = wt_executionId due \<and> ex_status x = Paused) = paused_row (wt_executionId due)"
    "(\<lambda>x. x\<lparr>ex_status := Queued\<rparr>) = wake"
    by (auto simp: fire_def paused_row_def wake_def fun_eq_iff)
  have one: "snd (update_where (\<lambda>t. wt_id t = wt_id due) (fire now) (waitTimers d)) = [fire now due]"
    using assms(2) due by (intro update_where_one) auto
  define d1 where "d1 = d\<lparr>waitTimers := fst (update_where (\<lambda>t. wt_id t = wt_id due) (fire now) (waitTimers d))\<rparr>"
  define u where "u = update_executions (paused_row (wt_executionId due)) wake d1"
  have ids: "wt_executionId (fire now due) = wt_executionId due" "wt_workspaceId (fire now due) = wt_workspaceId due"
    by (simp_all add: fire_def)
  have res: "(d', r) = (case u of (d2, None) \<Rightarrow> (d2, Some (fire now due))
      | (d2, Some _) \<Rightarrow> (insert_message (execution_message mid now (wt_workspaceId due) (wt_executionId due)) d2,
          Some (fire now due)))"
    using assms(1) Some one
    by (simp add: claimAndResolveDueWaitTimer_def eqs split_beta Let_def first_row_def ids u_def d1_def
        split: option.splits prod.splits)
  have ex: "(snd u = None) = (\<not> list_ex (paused_row (wt_executionId due)) (executions d))"
    by (simp add: u_def d1_def update_executions_def split_beta update_where_def filter_empty_conv list_ex_iff)
  have "waitTimers (fst u) = waitTimers d1" "executions (fst u) =
      fst (update_where (paused_row (wt_executionId due)) wake (executions d))"
    "outboxMessages (fst u) = outboxMessages d" "executionSteps (fst u) = executionSteps d"
    "checkpoints (fst u) = checkpoints d" "approval_tables (fst u) = approval_tables d"
    by (simp_all add: u_def d1_def) (simp add: approval_tables_def)
  with due res ex show ?thesis
    by (cases u; cases "snd u") (auto simp: d1_def)
qed (use assms in \<open>simp add: claimAndResolveDueWaitTimer_def\<close>)

lemma pause_moves: "moves_rows now (Some who) d (fst (pauseExecution now xid who d))"
  unfolding pauseExecution_def
  by (rule moves_update) (auto simp: lease_guard_def intro!: row_pause)

lemma wake_moves:
  "executions d' = fst (update_where (paused_row xid) wake (executions d)) \<Longrightarrow> moves_rows now None d d'"
  unfolding moves_rows_def
  by (intro exI [of _ "paused_row xid"] exI [of _ wake]) (auto simp: paused_row_def wake_def intro: row_wake)

lemma approval_moves:
  assumes "approval_step now None d d'"
  shows "moves_rows now None d d'"
  using approval_step_effect [OF assms] quiet_tables creates_tables decides_tables moves_same wake_moves by blast

lemma store_step_rows:
  assumes "store_step now a d d'" "distinct (map wt_id (waitTimers d))"
  shows "moves_rows now a d d' \<or> adds_row now d d'"
  using assms(1)
proof cases
  case (do_create f inp x)
  then show ?thesis using createExecution_adds by blast
next
  case (do_trigger f ws lk tin res)
  then show ?thesis using triggerWorkflowExecution_cases moves_same by blast
next
  case (do_trigger_version f ws wfid ver tin res)
  then show ?thesis using triggerVersion_cases moves_same by blast
next
  case (do_start xid who expires res')
  then have "executions d' = executions (fst (startExecution now xid who expires d))" by simp
  then have "moves_rows now a d d'"
    unfolding startExecution_def by (rule moves_update [rotated]) (auto simp: do_start intro: row_claim)
  then show ?thesis ..
next
  case (do_renew xid who expires res')
  then have "executions d' = executions (fst (renewLease now xid who expires d))" by simp
  then have "moves_rows now a d d'"
    unfolding renewLease_def by (rule moves_update [rotated]) (auto simp: do_renew intro: row_renew)
  then show ?thesis ..
next
  case (do_complete mid octets xid who inp res')
  then have "moves_rows now a d d'"
    using completeExecution_effect [OF do_complete(3)]
    by (intro moves_update [of d "lease_guard now xid who" now a "finalize now inp"])
       (auto simp: lease_guard_def intro!: row_finish)
  then show ?thesis ..
next
  case (do_fail_queued xid msg res')
  then have "executions d' = executions (fst (failQueuedExecution now xid msg d))" by simp
  then have "moves_rows now a d d'"
    unfolding failQueuedExecution_def by (rule moves_update [rotated]) (auto simp: do_fail_queued intro: row_fail)
  then show ?thesis ..
next
  case (do_write f who step ck w)
  then show ?thesis using writeStepAndCheckpoint_effect moves_same by blast
next
  case (do_resume_event f xid ws who s)
  then show ?thesis using recordResumeEvent_effect moves_same by blast
next
  case (do_timer t r who)
  then have "executions d' = executions d" by (auto simp: createWaitTimer_def split: if_splits)
  then show ?thesis using moves_same by blast
next
  case (do_pause ws xid node who p)
  then show ?thesis using pauseWait_effect [OF do_pause(2)] pause_moves moves_same by blast
next
  case (do_wake mid locked r)
  then show ?thesis using wake_timer_effect [OF do_wake(3) assms(2)] wake_moves moves_same by blast
next
  case do_outbox
  then show ?thesis using moves_same [OF outbox_step_frame(1)] by simp
next
  case (do_pause_approval ws xid node who p)
  then show ?thesis using pauseApproval_effect [OF do_pause_approval(2)] pause_moves moves_same by blast
next
  case do_approval
  then show ?thesis using approval_moves by blast
qed

section \<open>Invariant\<close>

text \<open>
  Besides unique identifiers, the shape of rows and what holds of approval requests: a paused
  execution has a timer that will fire or a request that is still to be decided, so nothing can
  be left paused for ever.
\<close>

definition paused_ids :: "db \<Rightarrow> uuid set" where
  "paused_ids d = ex_id ` {x \<in> set (executions d). ex_status x = Paused}"

definition open_timers :: "db \<Rightarrow> uuid set" where
  "open_timers d = wt_executionId ` {t \<in> set (waitTimers d). \<not> wt_fired t}"

definition open_requests :: "db \<Rightarrow> uuid set" where
  "open_requests d = ar_executionId ` {r \<in> set (approvalRequests d). ar_status r = A_pending}"

definition wakeup_inv :: "db \<Rightarrow> bool" where
  "wakeup_inv d \<longleftrightarrow> paused_ids d \<subseteq> open_timers d \<union> open_requests d"

definition store_inv :: "db \<Rightarrow> bool" where
  "store_inv d \<longleftrightarrow> distinct (map ex_id (executions d)) \<and> list_all row_ok (executions d) \<and>
     distinct (map wt_id (waitTimers d)) \<and> outbox_inv d \<and> wakeup_inv d \<and> approval_inv d"

lemma outbox_inv_cong: "outboxMessages d = outboxMessages d' \<Longrightarrow> outbox_inv d = outbox_inv d'"
  by (simp add: outbox_inv_def)

lemma approval_inv_cong: "approval_tables d' = approval_tables d \<Longrightarrow> approval_inv d' = approval_inv d"
  by (simp add: approval_tables_def approval_inv_def)

lemma open_requests_cong: "approval_tables d' = approval_tables d \<Longrightarrow> open_requests d' = open_requests d"
  by (simp add: approval_tables_def open_requests_def)

lemma rows_inv_moves:
  assumes "moves_rows now a d d'" "distinct (map ex_id (executions d))" "list_all row_ok (executions d)"
  shows "distinct (map ex_id (executions d')) \<and> list_all row_ok (executions d')"
proof -
  from assms(1) obtain p f where pf: "executions d' = fst (update_where p f (executions d))"
    "\<And>x. x \<in> set (executions d) \<Longrightarrow> p x \<Longrightarrow> row_step now a x (f x)"
    by (auto simp: moves_rows_def)
  have "map ex_id (executions d') = map ex_id (executions d)"
    unfolding pf(1) using pf(2) row_step_id by (intro map_update_where) blast
  moreover have "row_ok (f x)" if "x \<in> set (executions d)" "p x" for x
    using row_step_ok [OF pf(2) [OF that]] that(1) assms(3) by (simp add: list_all_iff)
  then have "\<forall>x \<in> set (executions d'). row_ok x"
    unfolding pf(1) set_update_where using assms(3) by (auto simp: list_all_iff)
  ultimately show ?thesis using assms(2) by (simp add: list_all_iff)
qed

lemma rows_inv_adds:
  assumes "adds_row now d d'" "distinct (map ex_id (executions d))" "list_all row_ok (executions d)"
  shows "distinct (map ex_id (executions d')) \<and> list_all row_ok (executions d')"
  using assms by (auto simp: adds_row_def)

lemma outbox_inv_append:
  "outbox_inv d \<Longrightarrow> outboxMessages d' = outboxMessages d @ ms \<Longrightarrow> distinct (map ob_id ms) \<Longrightarrow>
     ob_id ` set ms \<inter> ob_id ` set (outboxMessages d) = {} \<Longrightarrow> \<forall>m \<in> set ms. message_ok m \<Longrightarrow> outbox_inv d'"
  by (auto simp: outbox_inv_def list_all_iff)

lemma event_messages:
  assumes "length ms \<le> 1" "\<forall>m \<in> set ms. message_ok m \<and> ob_id m = i" "i \<notin> X"
  shows "distinct (map ob_id ms)" "ob_id ` set ms \<inter> X = {}" "\<forall>m \<in> set ms. message_ok m" "\<forall>m \<in> set ms. ob_id m = i"
  using assms by (cases ms; auto)+

lemma approval_outbox:
  assumes "approval_step now a d d'" "outbox_inv d"
  shows "outbox_inv d'"
proof -
  obtain f where f: "fresh_approval f d" "quiet d d' \<or> creates f d d' \<or> (\<exists>r c. decides f now r c d d')"
    using approval_step_effect [OF assms(1)] by blast
  then consider (q) "quiet d d'" | (c) "creates f d d'" | (x) r c where "decides f now r c d d'" by blast
  then show ?thesis
  proof cases
    case q
    then show ?thesis using assms(2) by (simp add: quiet_def outbox_inv_def)
  next
    case c
    then obtain ms where ms: "outboxMessages d' = outboxMessages d @ ms" "length ms \<le> 1"
      "\<forall>m \<in> set ms. message_ok m \<and> ob_id m = event_message f"
      unfolding creates_def by blast
    have "event_message f \<notin> ob_id ` set (outboxMessages d)" using f(1) by (simp add: fresh_approval_def)
    from event_messages [OF ms(2,3) this] show ?thesis using outbox_inv_append [OF assms(2) ms(1)] by blast
  next
    case (x r c)
    obtain ws ms where ms: "outboxMessages d' = outboxMessages d @ ws @ ms" "length ms \<le> 1"
      "\<forall>m \<in> set ms. message_ok m \<and> ob_id m = event_message f"
      and w: "length ws \<le> 1" "\<forall>m \<in> set ws. message_ok m \<and> ob_id m = wake_message f"
    proof -
      let ?w = "if list_ex (paused_row (ar_executionId r)) (executions d)
        then [execution_message (wake_message f) now (ar_workspaceId r) (ar_executionId r)] else []"
      have "length ?w \<le> 1" "\<forall>m \<in> set ?w. message_ok m \<and> ob_id m = wake_message f"
        using execution_message_ok by (simp_all add: execution_message_def new_message_def)
      with x show ?thesis unfolding decides_def using that by blast
    qed
    have ids: "event_message f \<notin> insert (wake_message f) (ob_id ` set (outboxMessages d))"
      "wake_message f \<notin> ob_id ` set (outboxMessages d)"
      using f(1) unfolding fresh_approval_def by auto
    note m = event_messages [OF ms(2,3) ids(1)] and v = event_messages [OF w ids(2)]
    show ?thesis
    proof (rule outbox_inv_append [OF assms(2) ms(1)])
      have "ob_id ` set ws \<subseteq> {wake_message f}" using v(4) by auto
      then show "distinct (map ob_id (ws @ ms))" using m(1,2) v(1) by auto
      show "ob_id ` set (ws @ ms) \<inter> ob_id ` set (outboxMessages d) = {}" using m(2) v(2) by auto
      show "\<forall>m \<in> set (ws @ ms). message_ok m" using m(3) v(3) by auto
    qed
  qed
qed

lemma adds_row_outbox: "adds_row now d d' \<Longrightarrow> outbox_inv d \<Longrightarrow> outbox_inv d'"
  using execution_message_ok
  by (fastforce simp: adds_row_def outbox_inv_def execution_message_def new_message_def)

lemma store_step_outbox:
  assumes "store_step now a d d'" "distinct (map wt_id (waitTimers d))" "outbox_inv d"
  shows "outbox_inv d'"
  using assms(1)
proof cases
  case (do_complete mid octets xid who inp res')
  obtain d1 y where u: "update_executions (lease_guard now xid who) (finalize now inp) d = (d1, y)"
    by (cases "update_executions (lease_guard now xid who) (finalize now inp) d")
  then have d1: "outboxMessages d1 = outboxMessages d"
    using update_executions_simps(2) [of "lease_guard now xid who" "finalize now inp" d] by simp
  then have inv1: "outbox_inv d1" using assms(3) outbox_inv_cong by blast
  have ev: "outbox_inv d''" if "createPublicEvent octets mid now ws env s ty data d1 = Inr (d'', m)"
    for d'' ws env s ty data m
    using outbox_step_inv_step [OF inv1 step_public_event [OF _ that]] do_complete(2) d1 by auto
  from do_complete(3) u show ?thesis
    using inv1 ev by (auto simp: completeExecution_def bindE_eq_Inr split: option.splits if_splits)
next
  case (do_wake mid locked r)
  from wake_timer_effect [OF do_wake(3) assms(2)] show ?thesis
  proof (elim disjE bexE conjE)
    fix due
    assume "outboxMessages d' = outboxMessages d @ (if list_ex (paused_row (wt_executionId due)) (executions d)
       then [execution_message mid now (wt_workspaceId due) (wt_executionId due)] else [])"
    then show ?thesis using assms(3) do_wake(2) execution_message_ok
      by (auto simp: outbox_inv_def execution_message_def new_message_def)
  qed (use assms(3) in simp)
next
  case (do_pause ws xid node who p)
  then show ?thesis using assms(3) pauseWait_effect [OF do_pause(2)]
    by (auto simp: pauseExecution_def outbox_inv_def)
next
  case (do_start xid who expires res')
  then have "outboxMessages d' = outboxMessages (fst (startExecution now xid who expires d))" by simp
  then show ?thesis using assms(3) by (simp add: startExecution_def outbox_inv_def)
next
  case (do_renew xid who expires res')
  then have "outboxMessages d' = outboxMessages (fst (renewLease now xid who expires d))" by simp
  then show ?thesis using assms(3) by (simp add: renewLease_def outbox_inv_def)
next
  case (do_fail_queued xid msg res')
  then have "outboxMessages d' = outboxMessages (fst (failQueuedExecution now xid msg d))" by simp
  then show ?thesis using assms(3) by (simp add: failQueuedExecution_def outbox_inv_def)
next
  case (do_create f inp x)
  then show ?thesis using createExecution_adds adds_row_outbox assms(3) by blast
next
  case (do_trigger f ws lk tin res)
  then show ?thesis using triggerWorkflowExecution_cases adds_row_outbox assms(3) by blast
next
  case (do_trigger_version f ws wfid ver tin res)
  then show ?thesis using triggerVersion_cases adds_row_outbox assms(3) by blast
next
  case (do_write f who step ck w)
  then show ?thesis using writeStepAndCheckpoint_effect outbox_inv_cong assms(3) by blast
next
  case (do_resume_event f xid ws who s)
  then show ?thesis using recordResumeEvent_effect outbox_inv_cong assms(3) by blast
next
  case (do_timer t r who)
  then show ?thesis using assms(3) by (auto simp: createWaitTimer_def outbox_inv_def split: if_splits)
next
  case do_outbox
  then show ?thesis using outbox_step_inv_step assms(3) by blast
next
  case (do_pause_approval ws xid node who p)
  then show ?thesis using assms(3) pauseApproval_effect [OF do_pause_approval(2)]
    by (auto simp: pauseExecution_def outbox_inv_def)
next
  case do_approval
  then show ?thesis using approval_outbox assms(3) by blast
qed

lemma paused_ids_update:
  assumes "executions d' = fst (update_where p f (executions d))"
    "\<And>x. p x \<Longrightarrow> ex_status (f x) = Paused \<Longrightarrow> False"
  shows "paused_ids d' \<subseteq> paused_ids d"
  using assms by (auto simp: paused_ids_def set_update_where)

lemma paused_ids_adds: "adds_row now d d' \<Longrightarrow> paused_ids d' = paused_ids d"
  by (auto simp: adds_row_def paused_ids_def)

lemma wakeup_mono:
  "wakeup_inv d \<Longrightarrow> paused_ids d' \<subseteq> paused_ids d \<Longrightarrow> open_timers d \<subseteq> open_timers d' \<Longrightarrow>
     open_requests d \<subseteq> open_requests d' \<Longrightarrow> wakeup_inv d'"
  unfolding wakeup_inv_def by blast

lemma wakeup_timers:
  "wakeup_inv d \<Longrightarrow> paused_ids d' \<subseteq> paused_ids d \<Longrightarrow> waitTimers d' = waitTimers d \<Longrightarrow>
     approval_tables d' = approval_tables d \<Longrightarrow> wakeup_inv d'"
  using open_requests_cong [of d' d] by (auto intro: wakeup_mono simp: open_timers_def)

lemma wakeup_adds:
  "wakeup_inv d \<Longrightarrow> adds_row now d d' \<Longrightarrow> waitTimers d' = waitTimers d \<Longrightarrow> approval_tables d' = approval_tables d \<Longrightarrow>
     wakeup_inv d'"
  using wakeup_timers paused_ids_adds by blast

lemma wakeup_same:
  "wakeup_inv d \<Longrightarrow> executions d' = executions d \<Longrightarrow> waitTimers d' = waitTimers d \<Longrightarrow>
     approval_tables d' = approval_tables d \<Longrightarrow> wakeup_inv d'"
  using wakeup_timers [of d d'] by (simp add: paused_ids_def)

lemma pause_execution_effect:
  "paused_ids (fst (pauseExecution now xid who d)) \<subseteq> insert xid (paused_ids d)"
  "open_timers (fst (pauseExecution now xid who d)) = open_timers d"
  "approval_tables (fst (pauseExecution now xid who d)) = approval_tables d"
  unfolding pauseExecution_def by (auto simp: paused_ids_def open_timers_def set_update_where lease_guard_def)

lemma wakeup_pause:
  assumes "wakeup_inv d" "xid \<in> open_timers d \<union> open_requests d"
  shows "wakeup_inv (fst (pauseExecution now xid who d))"
  using assms pause_execution_effect [of now xid who d] open_requests_cong
  unfolding wakeup_inv_def by (metis insert_subset order_trans)

lemma wakeup_decides:
  assumes "wakeup_inv d" "distinct (map ar_id (approvalRequests d))" "decides f now r c d d'"
  shows "wakeup_inv d'"
proof -
  note t = decides_tables [OF assms(3)]
  have "paused_ids d' \<subseteq> paused_ids d - {ar_executionId r}"
    using t by (auto simp: paused_ids_def set_update_where paused_row_def wake_def)
  moreover have "open_requests d - {ar_executionId r} \<subseteq> open_requests d'"
    using t pending_row [OF assms(2)] assms(3)
    by (auto simp: open_requests_def set_update_where decides_def image_iff)
  ultimately show ?thesis using assms(1) t unfolding wakeup_inv_def open_timers_def by auto
qed

lemma wakeup_approval:
  assumes "approval_step now a d d'" "wakeup_inv d" "distinct (map ar_id (approvalRequests d))"
  shows "wakeup_inv d'"
proof -
  have same: "wakeup_inv d'" if "executions d' = executions d" "waitTimers d' = waitTimers d"
    "set (approvalRequests d) \<subseteq> set (approvalRequests d')"
    using that by (intro wakeup_mono [OF assms(2)]) (auto simp: paused_ids_def open_timers_def open_requests_def)
  have "wakeup_inv d'" if "quiet d d'" using quiet_tables [OF that] by (intro same) auto
  moreover have "wakeup_inv d'" if "creates f d d'" for f using creates_tables [OF that] by (intro same) auto
  ultimately show ?thesis using approval_step_effect [OF assms(1)] wakeup_decides [OF assms(2,3)] by blast
qed

lemma wakeup_wake:
  assumes "claimAndResolveDueWaitTimer mid locked now d = (d', r)" "distinct (map wt_id (waitTimers d))"
    "wakeup_inv d"
  shows "wakeup_inv d'"
  using wake_timer_effect [OF assms(1,2)]
proof (elim disjE bexE conjE)
  fix due
  assume due: "due \<in> set (waitTimers d)"
    and w: "waitTimers d' = fst (update_where (\<lambda>t. wt_id t = wt_id due) (fire now) (waitTimers d))"
    and e: "executions d' = fst (update_where (paused_row (wt_executionId due)) wake (executions d))"
    and ap: "approval_tables d' = approval_tables d"
  have "paused_ids d' \<subseteq> paused_ids d - {wt_executionId due}"
    using e by (auto simp: paused_ids_def set_update_where paused_row_def wake_def)
  moreover have "open_timers d - {wt_executionId due} \<subseteq> open_timers d'"
  proof
    fix k
    assume "k \<in> open_timers d - {wt_executionId due}"
    then obtain t where t: "t \<in> set (waitTimers d)" "\<not> wt_fired t" "wt_executionId t = k"
      "k \<noteq> wt_executionId due"
      by (auto simp: open_timers_def)
    then have "wt_id t \<noteq> wt_id due"
      using distinct_rows_eq [OF assms(2) t(1) due] by auto
    with t show "k \<in> open_timers d'" unfolding open_timers_def w set_update_where by blast
  qed
  ultimately show ?thesis using assms(3) open_requests_cong [OF ap] unfolding wakeup_inv_def by blast
qed (use assms(3) in simp)

lemma store_step_wakeup:
  assumes "store_step now a d d'" "distinct (map wt_id (waitTimers d))" "wakeup_inv d"
    "distinct (map ar_id (approvalRequests d))"
  shows "wakeup_inv d'"
  using assms(1)
proof cases
  case (do_create f inp x)
  then show ?thesis using createExecution_adds [OF do_create(3,2)] wakeup_adds [OF assms(3)] by blast
next
  case (do_trigger f ws lk tin res)
  then show ?thesis using triggerWorkflowExecution_cases [OF do_trigger(3,2)] wakeup_adds [OF assms(3)]
      assms(3) by blast
next
  case (do_trigger_version f ws wfid ver tin res)
  then show ?thesis using triggerVersion_cases [OF do_trigger_version(3,2)] wakeup_adds [OF assms(3)]
      assms(3) by blast
next
  case (do_start xid who expires res')
  then have d': "d' = fst (startExecution now xid who expires d)" by simp
  show ?thesis
    by (rule wakeup_timers [OF assms(3)])
       (auto simp: d' startExecution_def paused_ids_def set_update_where)
next
  case (do_renew xid who expires res')
  then have d': "d' = fst (renewLease now xid who expires d)" by simp
  show ?thesis
    by (rule wakeup_timers [OF assms(3)])
       (auto simp: d' renewLease_def paused_ids_def set_update_where)
next
  case (do_complete mid octets xid who inp res')
  note eff = completeExecution_effect [OF do_complete(3)]
  have "paused_ids d' \<subseteq> paused_ids d"
  proof (rule paused_ids_update)
    show "executions d' = fst (update_where (lease_guard now xid who) (finalize now inp) (executions d))"
      using eff by simp
    show False if "ex_status (finalize now inp x) = Paused" for x
      using that by (cases "co_status inp") (auto simp: finalize_def final_exec_status_def)
  qed
  then show ?thesis using eff wakeup_timers [OF assms(3)] by blast
next
  case (do_fail_queued xid msg res')
  then have d': "d' = fst (failQueuedExecution now xid msg d)" by simp
  show ?thesis
    by (rule wakeup_timers [OF assms(3)])
       (auto simp: d' failQueuedExecution_def paused_ids_def set_update_where)
next
  case (do_write f who step ck w)
  then show ?thesis using writeStepAndCheckpoint_effect [OF do_write(2)] wakeup_same [OF assms(3)] by blast
next
  case (do_resume_event f xid ws who s)
  then show ?thesis using recordResumeEvent_effect [OF do_resume_event(2)]
      wakeup_same [OF assms(3)] by blast
next
  case (do_timer t r who)
  then show ?thesis
    by (intro wakeup_mono [OF assms(3)])
       (auto simp: createWaitTimer_def paused_ids_def open_timers_def open_requests_def split: if_splits)
next
  case (do_pause ws xid node who p)
  then show ?thesis using pauseWait_effect [OF do_pause(2)] wakeup_pause [OF assms(3)] assms(3)
    by (auto simp: open_timers_def)
next
  case (do_wake mid locked r)
  then show ?thesis using wakeup_wake assms(2,3) by blast
next
  case do_outbox
  then show ?thesis using wakeup_same [OF assms(3)] outbox_step_frame [OF do_outbox] by simp
next
  case (do_pause_approval ws xid node who p)
  then show ?thesis using pauseApproval_effect [OF do_pause_approval(2)] wakeup_pause [OF assms(3)] assms(3)
    by (auto simp: open_requests_def)
next
  case do_approval
  then show ?thesis using wakeup_approval assms(3,4) by blast
qed

lemma approval_waitTimers:
  assumes "approval_step now a d d'"
  shows "waitTimers d' = waitTimers d" "executionSteps d' = executionSteps d" "checkpoints d' = checkpoints d"
  using approval_step_effect [OF assms] quiet_tables creates_tables decides_tables by blast+

lemma wake_tables:
  "claimAndResolveDueWaitTimer mid locked now d = (d', r) \<Longrightarrow> approval_tables d' = approval_tables d"
  by (auto simp: claimAndResolveDueWaitTimer_def split_beta Let_def approval_tables_def update_executions_def
      insert_message_def split: option.splits)

lemma store_step_approvals:
  assumes "store_step now a d d'"
  shows "approval_tables d' = approval_tables d \<or> approval_step now None d d'"
  using assms
proof cases
  case (do_wake mid locked r)
  then show ?thesis using wake_tables by blast
next
  case (do_pause ws xid node who p)
  then show ?thesis using pauseWait_effect [OF do_pause(2)] pause_execution_effect(3) by blast
next
  case (do_pause_approval ws xid node who p)
  then show ?thesis using pauseApproval_effect [OF do_pause_approval(2)] pause_execution_effect(3) by blast
next
  case (do_start xid who expires res')
  then have "approval_tables d' = approval_tables (fst (startExecution now xid who expires d))" by simp
  then show ?thesis by (simp add: startExecution_def)
next
  case (do_renew xid who expires res')
  then have "approval_tables d' = approval_tables (fst (renewLease now xid who expires d))" by simp
  then show ?thesis by (simp add: renewLease_def)
next
  case (do_fail_queued xid msg res')
  then have "approval_tables d' = approval_tables (fst (failQueuedExecution now xid msg d))" by simp
  then show ?thesis by (simp add: failQueuedExecution_def)
next
  case (do_timer t r who)
  then show ?thesis by (auto simp: createWaitTimer_def approval_tables_def split: if_splits)
next
  case (do_create f inp x)
  then show ?thesis using createExecution_adds by blast
next
  case (do_trigger f ws lk tin res)
  then show ?thesis using triggerWorkflowExecution_cases by blast
next
  case (do_trigger_version f ws wfid ver tin res)
  then show ?thesis using triggerVersion_cases by blast
next
  case (do_complete mid octets xid who inp res')
  then show ?thesis using completeExecution_effect by blast
next
  case (do_write f who step ck w)
  then show ?thesis using writeStepAndCheckpoint_effect by blast
next
  case (do_resume_event f xid ws who s)
  then show ?thesis using recordResumeEvent_effect by blast
next
  case do_outbox
  then show ?thesis using outbox_step_frame(5) [OF do_outbox] by simp
qed simp

lemma store_step_timers:
  assumes "store_step now a d d'" "distinct (map wt_id (waitTimers d))"
  shows "distinct (map wt_id (waitTimers d'))"
  using assms(1)
proof cases
  case (do_wake mid locked r)
  from wake_timer_effect [OF do_wake(3) assms(2)] show ?thesis
  proof (elim disjE bexE conjE)
    fix due
    assume "waitTimers d' = fst (update_where (\<lambda>t. wt_id t = wt_id due) (fire now) (waitTimers d))"
    then show ?thesis using assms(2) map_update_where [of "waitTimers d" _ wt_id "fire now"]
      by (simp add: fire_def)
  qed (use assms(2) in simp)
next
  case (do_pause ws xid node who p)
  then show ?thesis using assms(2) pauseWait_effect [OF do_pause(2)] by (auto simp: pauseExecution_def)
next
  case (do_pause_approval ws xid node who p)
  then show ?thesis using assms(2) pauseApproval_effect [OF do_pause_approval(2)] by (auto simp: pauseExecution_def)
next
  case (do_start xid who expires res')
  then have "waitTimers d' = waitTimers (fst (startExecution now xid who expires d))" by simp
  then show ?thesis using assms(2) by (simp add: startExecution_def)
next
  case (do_renew xid who expires res')
  then have "waitTimers d' = waitTimers (fst (renewLease now xid who expires d))" by simp
  then show ?thesis using assms(2) by (simp add: renewLease_def)
next
  case (do_fail_queued xid msg res')
  then have "waitTimers d' = waitTimers (fst (failQueuedExecution now xid msg d))" by simp
  then show ?thesis using assms(2) by (simp add: failQueuedExecution_def)
next
  case (do_timer t r who)
  then show ?thesis using assms(2) by (auto simp: createWaitTimer_def split: if_splits)
qed (use assms(2) createExecution_adds triggerWorkflowExecution_cases triggerVersion_cases
      completeExecution_effect writeStepAndCheckpoint_effect recordResumeEvent_effect outbox_step_frame
      approval_waitTimers
    in \<open>metis\<close>)+

lemma store_step_inv:
  assumes "store_inv d" "store_step now a d d'"
  shows "store_inv d'"
proof -
  have d: "distinct (map wt_id (waitTimers d))" "outbox_inv d" "wakeup_inv d"
    "distinct (map ex_id (executions d))" "list_all row_ok (executions d)"
    "approval_inv d" "distinct (map ar_id (approvalRequests d))"
    using assms(1) by (auto simp: store_inv_def approval_inv_def)
  have "distinct (map ex_id (executions d')) \<and> list_all row_ok (executions d')"
    using store_step_rows [OF assms(2) d(1)] rows_inv_moves rows_inv_adds d(4,5) by blast
  moreover have "approval_inv d'"
    using store_step_approvals [OF assms(2)] approval_inv_cong approval_step_inv [OF d(6)] d(6) by blast
  ultimately show ?thesis
    using store_step_timers [OF assms(2) d(1)] store_step_outbox [OF assms(2) d(1,2)]
      store_step_wakeup [OF assms(2) d(1,3,7)]
    by (simp add: store_inv_def)
qed

section \<open>Leases\<close>

lemma moves_keeps:
  assumes "moves_rows now a d d'" "x \<in> set (executions d)" "\<And>x'. \<not> row_step now a x x'"
  shows "x \<in> set (executions d')"
proof -
  from assms(1) obtain p f where "executions d' = fst (update_where p f (executions d))"
    "p x \<Longrightarrow> row_step now a x (f x)"
    using assms(2) by (auto simp: moves_rows_def)
  with assms(3) show ?thesis using update_where_keeps [OF assms(2), of p f] by metis
qed

lemma store_step_keeps:
  assumes "store_inv d" "store_step now a d d'" "x \<in> set (executions d)" "\<And>x'. \<not> row_step now a x x'"
  shows "x \<in> set (executions d')"
proof -
  have "distinct (map wt_id (waitTimers d))" using assms(1) by (simp add: store_inv_def)
  from store_step_rows [OF assms(2) this] show ?thesis
    using moves_keeps [OF _ assms(3,4)] assms(3) by (auto simp: adds_row_def)
qed

interpretation exec_leases: leased_rows executions ex_leasedBy lease_live is_terminal store_step store_inv
proof unfold_locales
  fix d d' t a x
  assume step: "store_inv d" "store_step t a d d'"
  then show "store_inv d'" by (rule store_step_inv)
  assume x: "x \<in> set (executions d)"
  show "x \<in> set (executions d')" if "lease_live t x" "ex_leasedBy x \<noteq> a"
    using store_step_keeps [OF step x] row_step_owner that by blast
  show "x \<in> set (executions d')" if "is_terminal x"
    using store_step_keeps [OF step x] row_step_not_terminal that by blast
next
  fix t t' x
  show "lease_live t x \<Longrightarrow> t' \<le> t \<Longrightarrow> lease_live t' x"
    by (cases "ex_leaseExpiresAt x") (auto simp: lease_live_def)
qed

text \<open>The recorded history of one execution.\<close>

definition history :: "uuid \<Rightarrow> db \<Rightarrow> execution_step list \<times> checkpoint list" where
  "history xid d = (filter (\<lambda>s. st_executionId s = xid) (executionSteps d),
     filter (\<lambda>c. cp_executionId c = xid) (checkpoints d))"

lemma lease_valid_row:
  assumes "distinct (map ex_id (executions d))" "x \<in> set (executions d)" "isLeaseValid now (ex_id x) who d"
  shows "ex_leasedBy x = Some who"
proof -
  from assms(3) obtain y where y: "find (\<lambda>x'. ex_id x' = ex_id x) (executions d) = Some y"
    "ex_leasedBy y = Some who"
    by (auto simp: isLeaseValid_def getExecutionById_def split: option.splits)
  then have "y = x" using find_row_Some [OF y(1)] distinct_rows_eq [OF assms(1), of y x] assms(2) by simp
  with y(2) show ?thesis by simp
qed

lemma store_step_history:
  assumes "store_inv d" "store_step now a d d'" "x \<in> set (executions d)" "ex_leasedBy x \<noteq> a"
  shows "history (ex_id x) d' = history (ex_id x) d"
proof -
  have ids: "distinct (map ex_id (executions d))" and wt: "distinct (map wt_id (waitTimers d))"
    using assms(1) by (auto simp: store_inv_def)
  have same: "?thesis" if "executionSteps d' = executionSteps d" "checkpoints d' = checkpoints d"
    using that by (simp add: history_def)
  from assms(2) show ?thesis
  proof cases
    case (do_write f who step ck w)
    from writeStepAndCheckpoint_effect [OF do_write(2)]
    show ?thesis
    proof (elim conjE disjE exE)
      fix s c
      assume *: "isLeaseValid now (st_executionId step) who d" "executionSteps d' = executionSteps d @ [s]"
        "checkpoints d' = checkpoints d @ [c]" "st_executionId s = st_executionId step"
        "cp_executionId c = st_executionId step"
      then have "st_executionId step \<noteq> ex_id x"
        using lease_valid_row [OF ids assms(3), of now who] assms(4) do_write(1) by auto
      with * show ?thesis by (simp add: history_def)
    qed simp
  next
    case (do_resume_event f xid ws who s)
    from recordResumeEvent_effect [OF do_resume_event(2)]
    show ?thesis
    proof (elim conjE disjE exE)
      fix s'
      assume *: "isLeaseValid now xid who d" "executionSteps d' = executionSteps d @ [s']"
        "checkpoints d' = checkpoints d" "st_executionId s' = xid"
      then have "xid \<noteq> ex_id x"
        using lease_valid_row [OF ids assms(3), of now who] assms(4) do_resume_event(1) by auto
      with * show ?thesis by (simp add: history_def)
    qed simp
  next
    case (do_start xid who expires res')
    then have "d' = fst (startExecution now xid who expires d)" by simp
    then show ?thesis by (intro same) (simp_all add: startExecution_def)
  next
    case (do_renew xid who expires res')
    then have "d' = fst (renewLease now xid who expires d)" by simp
    then show ?thesis by (intro same) (simp_all add: renewLease_def)
  next
    case (do_fail_queued xid msg res')
    then have "d' = fst (failQueuedExecution now xid msg d)" by simp
    then show ?thesis by (intro same) (simp_all add: failQueuedExecution_def)
  next
    case (do_timer t r who)
    then show ?thesis by (intro same) (auto simp: createWaitTimer_def split: if_splits)
  next
    case (do_pause ws xid node who p)
    then show ?thesis using pauseWait_effect [OF do_pause(2)]
      by (intro same) (auto simp: pauseExecution_def)
  next
    case (do_wake mid locked r)
    then show ?thesis using wake_timer_effect [OF do_wake(3) wt] by (intro same) auto
  next
    case (do_create f inp xx)
    then show ?thesis using createExecution_adds [OF do_create(3,2)] by (intro same) auto
  next
    case (do_trigger f ws lk tin res)
    then show ?thesis using triggerWorkflowExecution_cases [OF do_trigger(3,2)] by (intro same) auto
  next
    case (do_trigger_version f ws wfid ver tin res)
    then show ?thesis using triggerVersion_cases [OF do_trigger_version(3,2)] by (intro same) auto
  next
    case (do_complete mid octets xid who inp res')
    then show ?thesis using completeExecution_effect [OF do_complete(3)] by (intro same) auto
  next
    case do_outbox
    then show ?thesis using outbox_step_frame [OF do_outbox] by (intro same) auto
  next
    case (do_pause_approval ws xid node who p)
    then show ?thesis using pauseApproval_effect [OF do_pause_approval(2)]
      by (intro same) (auto simp: pauseExecution_def)
  next
    case do_approval
    then show ?thesis using approval_waitTimers by (intro same) auto
  qed
qed

lemma run_history:
  assumes "run_steps store_step as d d'" "store_inv d" "x \<in> set (executions d)" "lease_live T x"
    "\<forall>(t, a) \<in> set as. t \<le> T \<and> a \<noteq> ex_leasedBy x"
  shows "history (ex_id x) d' = history (ex_id x) d"
  using assms
proof (induction rule: run_steps.induct)
  case (run_cons t a d d1 as d'')
  have live: "lease_live t x" using run_cons.prems(3,4) exec_leases.live_earlier by auto
  have "history (ex_id x) d1 = history (ex_id x) d"
    using store_step_history [OF run_cons.prems(1) run_cons.hyps(1) run_cons.prems(2)] run_cons.prems(4) by auto
  moreover have "x \<in> set (executions d1)"
    using exec_leases.leased [OF run_cons.prems(1) run_cons.hyps(1) run_cons.prems(2) live] run_cons.prems(4)
    by auto
  ultimately show ?case
    using run_cons.IH store_step_inv [OF run_cons.prems(1) run_cons.hyps(1)] run_cons.prems(3,4) by auto
qed simp



section \<open>Waking paused executions\<close>

text \<open>
  \<^verbatim>\<open>WaitFiringService.poll\<close> resolves due timers until none is left. The list of message
  identifiers bounds the loop: running out of it is \<open>None\<close>.
\<close>

fun poll_waits :: "uuid list \<Rightarrow> timestamp \<Rightarrow> db \<Rightarrow> db option" where
  "poll_waits [] now d = None"
| "poll_waits (mid # mids) now d = (case claimAndResolveDueWaitTimer mid {} now d of
       (d', None) \<Rightarrow> Some d'
     | (d', Some _) \<Rightarrow> poll_waits mids now d')"

definition due_timers :: "timestamp \<Rightarrow> db \<Rightarrow> wait_timer list" where
  "due_timers now d = filter (due_timer now) (waitTimers d)"

lemma wake_none:
  assumes "claimAndResolveDueWaitTimer mid {} now d = (d', None)" "distinct (map wt_id (waitTimers d))"
  shows "d' = d \<and> due_timers now d = []"
proof -
  have "find (\<lambda>t. due_timer now t \<and> wt_id t \<notin> {}) (waitTimers d) = None"
    using assms wake_timer_effect [OF assms]
    by (cases "find (\<lambda>t. due_timer now t \<and> wt_id t \<notin> {}) (waitTimers d)")
       (auto simp: claimAndResolveDueWaitTimer_def split_beta Let_def update_where_one first_row_def
         dest!: find_row_Some split: option.splits prod.splits)
  then have "due_timers now d = []" by (simp add: due_timers_def find_None_iff filter_empty_conv)
  with wake_timer_effect [OF assms] show ?thesis by auto
qed

lemma not_due_fire [simp]: "\<not> due_timer now (fire now' t)"
  by (simp add: due_timer_def fire_def)

lemma length_filter_fire:
  assumes "due \<in> set ts" "due_timer now due"
  shows "length (filter (due_timer now) (fst (update_where (\<lambda>t. wt_id t = wt_id due) (fire now) ts)))
    < length (filter (due_timer now) ts)"
  using assms(1)
proof (induction ts)
  case (Cons t ts)
  define g where "g = (\<lambda>t. if wt_id t = wt_id due then fire now t else t)"
  have le: "length (filter (due_timer now) (map g us)) \<le> length (filter (due_timer now) us)" for us
    by (induction us) (auto simp: g_def)
  have "length (filter (due_timer now) (map g (t # ts))) < length (filter (due_timer now) (t # ts))"
  proof (cases "due \<in> set ts")
    case True
    then show ?thesis using Cons.IH by (auto simp: update_where_def g_def)
  next
    case False
    then have "t = due" using Cons.prems by simp
    then show ?thesis using assms(2) le [of ts] by (simp add: g_def)
  qed
  then show ?case by (simp add: update_where_def g_def)
qed simp

lemma wake_some:
  assumes "claimAndResolveDueWaitTimer mid {} now d = (d', Some t)" "distinct (map wt_id (waitTimers d))"
  shows "\<exists>due \<in> set (waitTimers d). due_timer now due \<and>
    length (due_timers now d') < length (due_timers now d) \<and>
    (\<forall>t \<in> set (waitTimers d). wt_id t \<noteq> wt_id due \<longrightarrow> t \<in> set (waitTimers d')) \<and>
    executions d' = fst (update_where (paused_row (wt_executionId due)) wake (executions d)) \<and>
    outboxMessages d' = outboxMessages d @ (if list_ex (paused_row (wt_executionId due)) (executions d)
       then [execution_message mid now (wt_workspaceId due) (wt_executionId due)] else [])"
  using wake_timer_effect [OF assms] length_filter_fire
  by (auto simp: due_timers_def set_update_where)

lemma poll_keeps:
  assumes "poll_waits mids now d = Some d'" "distinct (map wt_id (waitTimers d))"
  shows "set (outboxMessages d) \<subseteq> set (outboxMessages d') \<and>
    (\<forall>x \<in> set (executions d). ex_status x \<noteq> Paused \<longrightarrow> x \<in> set (executions d'))"
  using assms
proof (induction mids arbitrary: d)
  case (Cons mid mids)
  obtain d1 r where r: "claimAndResolveDueWaitTimer mid {} now d = (d1, r)"
    by (cases "claimAndResolveDueWaitTimer mid {} now d")
  show ?case
  proof (cases r)
    case None
    then show ?thesis using Cons.prems r wake_none by auto
  next
    case (Some t)
    have wt: "distinct (map wt_id (waitTimers d1))"
      using store_step_timers [OF do_wake] wake_timer_effect [OF r Cons.prems(2)]
        map_update_where [of "waitTimers d" _ wt_id "fire now"] Cons.prems(2)
      by (auto simp: fire_def)
    from wake_some [OF r [unfolded Some] Cons.prems(2)] obtain due :: wait_timer where
      e: "executions d1 = fst (update_where (paused_row (wt_executionId due)) wake (executions d))"
      and o: "outboxMessages d1 = outboxMessages d @
        (if list_ex (paused_row (wt_executionId due)) (executions d)
         then [execution_message mid now (wt_workspaceId due) (wt_executionId due)] else [])"
      by blast
    have ob: "set (outboxMessages d) \<subseteq> set (outboxMessages d1)" unfolding o by simp
    have "x \<in> set (executions d1)" if "x \<in> set (executions d)" "ex_status x \<noteq> Paused" for x
      unfolding e using that by (intro update_where_keeps) (auto simp: paused_row_def)
    moreover have "poll_waits mids now d1 = Some d'" using Cons.prems(1) r Some by simp
    ultimately show ?thesis using Cons.IH [OF _ wt] ob by blast
  qed
qed simp

lemma poll_waits_ok:
  assumes "store_inv d" "distinct mids" "set mids \<inter> ob_id ` set (outboxMessages d) = {}"
    "length (due_timers now d) < length mids"
  shows "\<exists>d'. poll_waits mids now d = Some d' \<and> store_inv d' \<and> due_timers now d' = [] \<and>
    (\<forall>x \<in> set (executions d). \<forall>t \<in> set (due_timers now d). ex_status x = Paused \<longrightarrow>
       wt_executionId t = ex_id x \<longrightarrow> wake x \<in> set (executions d') \<and>
       (\<exists>mid ws. execution_message mid now ws (ex_id x) \<in> set (outboxMessages d')))"
  using assms
proof (induction mids arbitrary: d)
  case (Cons mid mids)
  have wt: "distinct (map wt_id (waitTimers d))" using Cons.prems(1) by (simp add: store_inv_def)
  obtain d1 r where r: "claimAndResolveDueWaitTimer mid {} now d = (d1, r)"
    by (cases "claimAndResolveDueWaitTimer mid {} now d")
  have inv1: "store_inv d1" using store_step_inv [OF Cons.prems(1) do_wake [OF _ r]] Cons.prems(3) by auto
  show ?case
  proof (cases r)
    case None
    then show ?thesis using wake_none [OF r [unfolded None] wt] r Cons.prems(1) by auto
  next
    case (Some t0)
    from wake_some [OF r [unfolded Some] wt] obtain due where due: "due \<in> set (waitTimers d)"
      "length (due_timers now d1) < length (due_timers now d)"
      "\<forall>t \<in> set (waitTimers d). wt_id t \<noteq> wt_id due \<longrightarrow> t \<in> set (waitTimers d1)"
      "executions d1 = fst (update_where (paused_row (wt_executionId due)) wake (executions d))"
      "outboxMessages d1 = outboxMessages d @ (if list_ex (paused_row (wt_executionId due)) (executions d)
         then [execution_message mid now (wt_workspaceId due) (wt_executionId due)] else [])"
      by blast
    have fresh: "set mids \<inter> ob_id ` set (outboxMessages d1) = {}"
      using Cons.prems(2,3) due(5) by (auto simp: execution_message_def new_message_def)
    have dist: "distinct mids" and len: "length (due_timers now d1) < length mids"
      using Cons.prems(2,4) due(2) by auto
    obtain d' where
      d': "poll_waits mids now d1 = Some d'" "store_inv d'" "due_timers now d' = []"
      "\<forall>x \<in> set (executions d1). \<forall>t \<in> set (due_timers now d1). ex_status x = Paused \<longrightarrow>
         wt_executionId t = ex_id x \<longrightarrow> wake x \<in> set (executions d') \<and>
         (\<exists>mid ws. execution_message mid now ws (ex_id x) \<in> set (outboxMessages d'))"
      using Cons.IH [OF inv1 dist fresh len] by blast
    have keep: "set (outboxMessages d1) \<subseteq> set (outboxMessages d')"
      "\<And>x. x \<in> set (executions d1) \<Longrightarrow> ex_status x \<noteq> Paused \<Longrightarrow> x \<in> set (executions d')"
      using poll_keeps [OF d'(1)] inv1 by (auto simp: store_inv_def)
    have "wake x \<in> set (executions d') \<and>
        (\<exists>mid ws. execution_message mid now ws (ex_id x) \<in> set (outboxMessages d'))"
      if x: "x \<in> set (executions d)" "t \<in> set (due_timers now d)" "ex_status x = Paused"
        "wt_executionId t = ex_id x" for x t
    proof (cases "wt_executionId due = ex_id x")
      case True
      then have p: "paused_row (wt_executionId due) x" using x by (simp add: paused_row_def)
      then have "wake x \<in> set (executions d1)" unfolding due(4) set_update_where using x(1) by blast
      then have "wake x \<in> set (executions d')" using keep(2) [of "wake x"] by (simp add: wake_def)
      moreover have "list_ex (paused_row (wt_executionId due)) (executions d)"
        using p x(1) by (auto simp: list_ex_iff)
      then have "execution_message mid now (wt_workspaceId due) (ex_id x) \<in> set (outboxMessages d1)"
        using due(5) True by simp
      ultimately show ?thesis using keep(1) by blast
    next
      case False
      have "x \<in> set (executions d1)" unfolding due(4) using x(1) False
        by (intro update_where_keeps) (auto simp: paused_row_def)
      moreover have "wt_id t \<noteq> wt_id due"
        using distinct_rows_eq [OF wt _ due(1), of t] x(2,4) False by (auto simp: due_timers_def)
      then have "t \<in> set (due_timers now d1)" using due(3) x(2) by (auto simp: due_timers_def)
      ultimately show ?thesis using d'(4) x(3,4) by blast
    qed
    with d'(1-3) r Some show ?thesis by auto
  qed
qed simp

lemma decision_wakes:
  assumes "approval_step now a d d'" "distinct (map ar_id (approvalRequests d))"
    "r \<in> set (approvalRequests d)" "ar_status r = A_pending" "r \<notin> set (approvalRequests d')"
    "x \<in> set (executions d)" "ex_status x = Paused" "ex_id x = ar_executionId r"
  shows "wake x \<in> set (executions d') \<and>
    (\<exists>mid. execution_message mid now (ar_workspaceId r) (ex_id x) \<in> set (outboxMessages d'))"
proof -
  have "\<not> quiet d d'" "\<not> creates f d d'" for f
    using assms(3,5) quiet_tables [of d d'] creates_tables [of f d d'] by auto
  then obtain f y c where y: "decides f now y c d d'" using approval_step_effect [OF assms(1)] by blast
  note t = decides_tables [OF y]
  have "pending_request (ar_id y) r" using assms(3,5) t update_where_keeps [OF assms(3)] by metis
  then have "y = r" using pending_row [OF assms(2)] y assms(3) unfolding decides_def by (metis pending_request_def)
  moreover have p: "paused_row (ar_executionId r) x" using assms(7,8) by (simp add: paused_row_def)
  moreover have "list_ex (paused_row (ar_executionId r)) (executions d)" using p assms(6) by (auto simp: list_ex_iff)
  ultimately show ?thesis
    using t y assms(6,8) unfolding decides_def by (auto simp: set_update_where)
qed


section \<open>An example store\<close>

definition example_row :: execution where
  "example_row = (new_row ''x1'' 0 ''ws'' ''wf'' ''v1'' ''env'' T_api)\<lparr>ex_status := Running,
     ex_leasedBy := Some ''w1'', ex_leaseExpiresAt := Some 100, ex_startedAt := Some 5\<rparr>"

definition example_timer :: wait_timer where
  "example_timer = \<lparr>wt_id = ''t1'', wt_workspaceId = ''ws'', wt_executionId = ''x1'', wt_nodeId = ''pause'',
     wt_resumeAt = 200, wt_fired = False, wt_firedAt = None\<rparr>"

definition example_store :: db where
  "example_store = empty_db\<lparr>executions := [example_row], waitTimers := [example_timer]\<rparr>"

lemma example_store_inv: "store_inv example_store"
  unfolding store_inv_def
proof (intro conjI)
  show "wakeup_inv example_store" by code_simp
  show "list_all row_ok (executions example_store)" by code_simp
  show "distinct (map ex_id (executions example_store))" "distinct (map wt_id (waitTimers example_store))"
    by (simp_all add: example_store_def)
  show "outbox_inv example_store" by (simp add: outbox_inv_def example_store_def empty_db_def)
  show "approval_inv example_store" by (simp add: approval_inv_def example_store_def empty_db_def)
qed




end
