(* ===== verification/Interpreter.thy ===== *)
theory Interpreter
  imports Checkpoints Ai_Registry Store_Protocol
begin

text \<open>
  \<^verbatim>\<open>apps/execution-worker/src/graph/interpreter.service.ts\<close>: running the nodes the walker hands out,
  with retries, token accounting and a checkpoint after every step.

  A node handler is a parameter: a function of the node's configuration, its input and the
  execution context that acts on the \<open>world\<close> and returns an output or throws. Whatever a method
  has changed before it throws stays changed, so the running totals and the map of completed
  outputs are a state (\<open>run_state\<close>) that every branch returns.
\<close>

section \<open>Configuration of a node\<close>

definition str_field :: "jsval \<Rightarrow> string \<Rightarrow> string option" where
  "str_field v k = (case js_get v k of JStr s \<Rightarrow> Some s | _ \<Rightarrow> None)"

definition resolveNodeModel :: "workflow_node \<Rightarrow> string option" where
  "resolveNodeModel n =
    (if node_type n \<noteq> N_ai \<and> node_type n \<noteq> N_extract \<and> node_type n \<noteq> N_evaluator then None
     else str_field (JObj (config n)) ''model'')"

text \<open>\<^verbatim>\<open>typeof v === "object"\<close>: null is told apart first; opaque values are functions.\<close>

definition extractConversationId :: "jsval \<Rightarrow> string option" where
  "extractConversationId payload =
    (if \<not> is_object payload then None else str_field payload ''conversationId'')"

definition extractChatMessageId :: "jsval \<Rightarrow> string option" where
  "extractChatMessageId payload =
    (if \<not> is_object payload then None else str_field payload ''chatMessageId'')"

definition extractTokenUsage :: "jsval \<Rightarrow> (jsnum \<times> jsnum) option" where
  "extractTokenUsage out =
    (if \<not> is_object out then None
     else (case (js_get out ''tokensInput'', js_get out ''tokensOutput'') of
         (JNum i, JNum n) \<Rightarrow> Some (i, n) | _ \<Rightarrow> None))"

section \<open>Retries\<close>

text \<open>\<^verbatim>\<open>setTimeout\<close> runs after one millisecond when the delay is below one or above \<open>2147483647\<close>.\<close>

definition timer_delay :: "int \<Rightarrow> int" where
  "timer_delay ms = (if ms < 1 \<or> 2147483647 < ms then 1 else ms)"

definition sleep :: "env \<Rightarrow> int \<Rightarrow> world \<Rightarrow> world" where
  "sleep env ms w = tick env (w\<lparr>wnow := wnow w + 1000 * timer_delay ms\<rparr>)"

definition computeBackoffDelayMs :: "backoff \<Rightarrow> nat \<Rightarrow> int" where
  "computeBackoffDelayMs b attemptsMade = (case b of
       Fixed delayMs \<Rightarrow> delayMs
     | Exponential delayMs \<Rightarrow> delayMs * 2 ^ (attemptsMade - 1))"

definition parseRetryPolicy :: "jsval \<Rightarrow> retry_policy option" where
  "parseRetryPolicy raw = (if nullish raw then None else retryPolicySchema raw)"

definition non_retryable :: "node_error \<Rightarrow> bool" where
  "non_retryable e = (case e of NonRetryable _ _ \<Rightarrow> True | _ \<Rightarrow> False)"

text \<open>
  The retry loop: \<open>rest\<close> attempts are left after the current one, \<open>made\<close> have been started. The
  number of started attempts is returned because the caller records it.
\<close>

fun attempt_loop ::
  "env \<Rightarrow> uuid \<Rightarrow> string \<Rightarrow> retry_policy option \<Rightarrow> (world \<Rightarrow> world \<times> (node_error + jsval)) \<Rightarrow>
     nat \<Rightarrow> nat \<Rightarrow> world \<Rightarrow> world \<times> nat \<times> (node_error + jsval)" where
  "attempt_loop env xid who policy exec rest made w0 = (case exec w0 of
       (w1, Inr out) \<Rightarrow> (w1, made, Inr out)
     | (w1, Inl e) \<Rightarrow>
         if aborted w1 \<or> non_retryable e then (w1, made, Inl e)
         else (case rest of
             0 \<Rightarrow> (w1, made, Inl e)
           | Suc k \<Rightarrow>
               (case assertOwnsLease env xid who w1 of
                  (w2, Inl e') \<Rightarrow> (w2, Suc made, Inl e')
                | (w2, Inr _) \<Rightarrow>
                    (case policy of
                       None \<Rightarrow> attempt_loop env xid who policy exec k (Suc made) w2
                     | Some p \<Rightarrow>
                         (case assertOwnsLease env xid who (sleep env (computeBackoffDelayMs (backoff p) made) w2) of
                            (w3, Inl e') \<Rightarrow> (w3, Suc made, Inl e')
                          | (w3, Inr _) \<Rightarrow> attempt_loop env xid who policy exec k (Suc made) w3)))))"

declare attempt_loop.simps [simp del]

section \<open>One node\<close>

record exec_context =
  cx_workspaceId :: uuid
  cx_environmentId :: "uuid option"
  cx_idempotencyKey :: string
  cx_timeoutMs :: "int option"
  cx_executionId :: uuid
  cx_nodeId :: string
  cx_conversationId :: "string option"
  cx_workflowId :: uuid
  cx_workflowVersionId :: uuid
  cx_chatMessageId :: "string option"
  cx_leasedBy :: string
  cx_variables :: jsval

type_synonym node_handler = "(string \<times> jsval) list \<Rightarrow> jsval \<Rightarrow> exec_context \<Rightarrow> world \<Rightarrow> world \<times> (node_error + jsval)"

record run_input =
  in_executionId :: uuid
  in_workspaceId :: uuid
  in_environmentId :: "uuid option"
  in_workflowId :: uuid
  in_workflowVersionId :: uuid
  in_leasedBy :: string
  in_graph :: workflow_graph
  in_triggerPayload :: jsval
  in_resumeFrom :: outputs
  in_totals :: token_totals
  in_variables :: jsval

text \<open>
  \<open>handlers\<close> has an entry for every node type, so the lookup cannot fail. Creating the timeout
  signal of an attempt throws when the delay does not fit into 32 bits.
\<close>

definition executeNode ::
  "(node_type \<Rightarrow> node_handler) \<Rightarrow> run_input \<Rightarrow> workflow_node \<Rightarrow> jsval \<Rightarrow> int option \<Rightarrow> jsval \<Rightarrow>
     world \<Rightarrow> world \<times> (node_error + jsval)" where
  "executeNode handlers input n i timeout vars w =
    (if (case timeout of None \<Rightarrow> False | Some ms \<Rightarrow> 4294967295 < ms)
     then (w, Inl (Plain ''The value of delay is out of range'' None))
     else handlers (node_type n) (config n) i
       \<lparr>cx_workspaceId = in_workspaceId input, cx_environmentId = in_environmentId input,
        cx_idempotencyKey = in_executionId input @ '':'' @ node_id n, cx_timeoutMs = timeout,
        cx_executionId = in_executionId input, cx_nodeId = node_id n,
        cx_conversationId = extractConversationId (in_triggerPayload input),
        cx_workflowId = in_workflowId input, cx_workflowVersionId = in_workflowVersionId input,
        cx_chatMessageId = extractChatMessageId (in_triggerPayload input),
        cx_leasedBy = in_leasedBy input, cx_variables = vars\<rparr> w)"

section \<open>Accounting\<close>

fun num_add :: "jsnum \<Rightarrow> jsnum \<Rightarrow> jsnum" where
  "num_add (Fin a) (Fin b) = Fin (a + b)"
| "num_add NaN _ = NaN"
| "num_add _ NaN = NaN"
| "num_add PosInf NegInf = NaN"
| "num_add NegInf PosInf = NaN"
| "num_add PosInf _ = PosInf"
| "num_add _ PosInf = PosInf"
| "num_add NegInf _ = NegInf"
| "num_add _ NegInf = NegInf"

record run_state =
  rs_completed :: outputs
  rs_tokensInput :: jsnum
  rs_tokensOutput :: jsnum
  rs_costMicros :: int
  rs_costUnpriced :: "bool option"
  rs_variables :: jsval

text \<open>The cost of a call: converting a number that is not finite to an integer throws.\<close>

definition usage_cost :: "string \<Rightarrow> jsnum \<Rightarrow> jsnum \<Rightarrow> cost_result" where
  "usage_cost model i n = (case (i, n) of
       (Fin a, Fin b) \<Rightarrow> calculateCostMicros model a b
     | _ \<Rightarrow> (case getModelPrice model 0 of Missing \<Rightarrow> Unpriced | _ \<Rightarrow> CostRangeError))"

definition add_tokens :: "jsnum \<Rightarrow> jsnum \<Rightarrow> run_state \<Rightarrow> run_state" where
  "add_tokens i n st = st\<lparr>rs_tokensInput := num_add (rs_tokensInput st) i,
     rs_tokensOutput := num_add (rs_tokensOutput st) n\<rparr>"

text \<open>
  Adding the usage of a step, with its cost when the node names a model: the new state, or the
  state at the moment of the throw, and what the step's row says about its cost.
\<close>

definition account ::
  "string option \<Rightarrow> jsnum \<Rightarrow> jsnum \<Rightarrow> run_state \<Rightarrow> run_state \<times> (node_error + int option \<times> bool option)" where
  "account model i n st0 =
    (let st = add_tokens i n st0 in
     case model of
       None \<Rightarrow> (st, Inr (None, None))
     | Some m \<Rightarrow>
         if m = [] then (st, Inr (None, None))
         else (case usage_cost m i n of
           CostRangeError \<Rightarrow> (st, Inl (Plain ''The number cannot be converted to a BigInt'' None))
         | Unpriced \<Rightarrow> (st\<lparr>rs_costUnpriced := mergeCostUnpriced (rs_costUnpriced st) (Some True)\<rparr>,
             Inr (None, Some True))
         | Cost c \<Rightarrow> (st\<lparr>rs_costMicros := rs_costMicros st + c,
               rs_costUnpriced := mergeCostUnpriced (rs_costUnpriced st) (Some False)\<rparr>,
             Inr (Some c, Some False))))"

section \<open>One step of the run\<close>

datatype step_end = Stepped step_result | PausedAt string | Threw node_error

definition step_record ::
  "run_input \<Rightarrow> workflow_node \<Rightarrow> step_to_execute \<Rightarrow> timestamp \<Rightarrow> nat \<Rightarrow> jsval \<Rightarrow> string option \<Rightarrow>
     (jsnum \<times> jsnum) option \<Rightarrow> int option \<Rightarrow> bool option \<Rightarrow> run_state \<Rightarrow> timestamp \<Rightarrow> record_input" where
  "step_record input n s startedAt made out err usage cost unpriced st endedAt =
    \<lparr>ri_executionId = in_executionId input, ri_workspaceId = in_workspaceId input,
     ri_leasedBy = in_leasedBy input, ri_nodeId = step_node s,
     ri_nodeType = node_type_name (step_type s), ri_input = step_input s, ri_output = out,
     ri_error = err, ri_startedAt = startedAt, ri_endedAt = endedAt, ri_costMicros = cost,
     ri_costUnpriced = unpriced, ri_tokensInput = map_option fst usage,
     ri_tokensOutput = map_option snd usage, ri_model = resolveNodeModel n,
     ri_provider = (case resolveNodeModel n of None \<Rightarrow> None
       | Some m \<Rightarrow> if m = [] then None else resolveProviderId m),
     ri_retryAttempts = (if 1 < made then Some made else None),
     ri_completed = rs_completed st, ri_variables = rs_variables st\<rparr>"

text \<open>What the \<^verbatim>\<open>try\<close> block does with the output of a node: totals, outputs, variables, checkpoint.\<close>

definition usage_account :: "workflow_node \<Rightarrow> jsval \<Rightarrow> run_state \<Rightarrow> run_state \<times> (node_error + int option \<times> bool option)" where
  "usage_account n out st = (case extractTokenUsage out of
       None \<Rightarrow> (st, Inr (None, None))
     | Some (i, u) \<Rightarrow> account (resolveNodeModel n) i u st)"

definition sets_variables :: "workflow_node \<Rightarrow> bool" where
  "sets_variables n \<longleftrightarrow> node_type n = N_variables \<and> js_get (JObj (config n)) ''operation'' = JStr ''set''"

definition adopt_output :: "workflow_node \<Rightarrow> step_to_execute \<Rightarrow> jsval \<Rightarrow> run_state \<Rightarrow> run_state" where
  "adopt_output n s out st = st\<lparr>rs_completed := omap_set (step_node s) out (rs_completed st),
     rs_variables := (if sets_variables n \<and> \<not> nullish out then js_get out ''variables'' else rs_variables st)\<rparr>"

definition settle_output ::
  "env \<Rightarrow> id_supply \<Rightarrow> run_input \<Rightarrow> workflow_node \<Rightarrow> step_to_execute \<Rightarrow> timestamp \<Rightarrow> nat \<Rightarrow> jsval \<Rightarrow>
     run_state \<Rightarrow> world \<Rightarrow> world \<times> run_state \<times> (node_error + jsval)" where
  "settle_output env ids input n s startedAt made out st0 w =
    (case usage_account n out st0 of
       (st1, Inl e) \<Rightarrow> (w, st1, Inl e)
     | (st1, Inr (cost, unpriced)) \<Rightarrow>
         let st2 = adopt_output n s out st1 in
         if sets_variables n \<and> nullish out
         then (w, st2, Inl (Plain ''Cannot read properties of undefined'' None))
         else (case recordStep env ids (step_record input n s startedAt made out None (extractTokenUsage out)
                 cost unpriced st2 (wnow w)) w of
               (w1, Inl e) \<Rightarrow> (w1, st2, Inl e)
             | (w1, Inr _) \<Rightarrow> (w1, st2, Inr out)))"

text \<open>The \<^verbatim>\<open>try\<close> block: lease check, attempts, output.\<close>

definition try_step ::
  "env \<Rightarrow> id_supply \<Rightarrow> (node_type \<Rightarrow> node_handler) \<Rightarrow> run_input \<Rightarrow> workflow_node \<Rightarrow> step_to_execute \<Rightarrow>
     run_state \<Rightarrow> world \<Rightarrow> world \<times> nat \<times> run_state \<times> (node_error + jsval)" where
  "try_step env ids handlers input n s st w0 =
    (case assertOwnsLease env (in_executionId input) (in_leasedBy input) w0 of
       (w1, Inl e) \<Rightarrow> (w1, 1, st, Inl e)
     | (w1, Inr _) \<Rightarrow>
         let policy = parseRetryPolicy (js_get (JObj (config n)) ''retryPolicy'');
             maxAtt = (case policy of None \<Rightarrow> 1 | Some p \<Rightarrow> nat (maxAttempts p))
         in (case attempt_loop env (in_executionId input) (in_leasedBy input) policy
               (executeNode handlers input n (step_input s) (Option.bind policy timeoutMs) (rs_variables st))
               (maxAtt - 1) 1 w1 of
              (w2, made, Inl e) \<Rightarrow> (w2, made, st, Inl e)
            | (w2, made, Inr out) \<Rightarrow>
                (case settle_output env ids input n s (wnow w0) made out st w2 of
                   (w3, st3, r) \<Rightarrow> (w3, made, st3, r))))"

text \<open>The \<^verbatim>\<open>catch\<close> block.\<close>

definition catch_step ::
  "env \<Rightarrow> id_supply \<Rightarrow> run_input \<Rightarrow> workflow_node \<Rightarrow> step_to_execute \<Rightarrow> timestamp \<Rightarrow> nat \<Rightarrow> node_error \<Rightarrow>
     run_state \<Rightarrow> world \<Rightarrow> world \<times> run_state \<times> step_end" where
  "catch_step env ids input n s startedAt made e st0 w0 =
    (if e = LeaseLostError then (w0, st0, Threw e)
     else if aborted w0 then (w0, st0, Threw LeaseLostError)
     else (case e of
         PauseExecutionError p \<Rightarrow> (w0, st0, PausedAt p)
       | _ \<Rightarrow>
           let usage = getErrorTokenUsage e;
               model = resolveNodeModel n;
               priced = (case (usage, model) of (Some u, Some m) \<Rightarrow> if m = [] then None else Some u | _ \<Rightarrow> None)
           in (case (case priced of None \<Rightarrow> (st0, Inr (None, None))
                     | Some (i, u) \<Rightarrow> account model i u st0) of
                (st1, Inl e') \<Rightarrow> (w0, st1, Threw e')
              | (st1, Inr (cost, unpriced)) \<Rightarrow>
                  (case recordStep env ids (step_record input n s startedAt made JUndef
                       (Some (error_message e)) usage cost unpriced st1 (wnow w0)) w0 of
                     (w1, Inl e') \<Rightarrow> (w1, st1, Threw e')
                   | (w1, Inr _) \<Rightarrow> (w1, st1, Stepped (StepError (error_message e)))))))"

definition execute_step ::
  "env \<Rightarrow> id_supply \<Rightarrow> (node_type \<Rightarrow> node_handler) \<Rightarrow> run_input \<Rightarrow> workflow_node \<Rightarrow> step_to_execute \<Rightarrow>
     run_state \<Rightarrow> world \<Rightarrow> world \<times> run_state \<times> step_end" where
  "execute_step env ids handlers input n s st w =
    (case try_step env ids handlers input n s st w of
       (w1, made, st1, Inr out) \<Rightarrow> (w1, st1, Stepped (StepOutput out))
     | (w1, made, st1, Inl e) \<Rightarrow> catch_step env ids input n s (wnow w) made e st1 w1)"

section \<open>The run\<close>

datatype run_end = Finished walk_result | PausedRun string | RunThrew node_error

text \<open>Messages without the count and the value that the originals append.\<close>

definition quoted :: "string \<Rightarrow> string" where
  "quoted s = CHR 0x22 # s @ [CHR 0x22]"

definition walk_message :: "walk_error \<Rightarrow> string" where
  "walk_message e = (case e of
       UnknownNode n \<Rightarrow> ''Unknown node id: '' @ quoted n
     | IncomingEdges n _ \<Rightarrow> ''Node '' @ quoted n @ '' must have exactly one incoming edge''
     | UnmatchedBranch n \<Rightarrow> ''Branch node '' @ quoted n @ '' produced unmatched branch''
     | WalkTypeError \<Rightarrow> ''Cannot read properties of undefined'')"

fun run_loop ::
  "nat \<Rightarrow> env \<Rightarrow> id_supply \<Rightarrow> (node_type \<Rightarrow> node_handler) \<Rightarrow> run_input \<Rightarrow> walk_event \<Rightarrow> run_state \<Rightarrow>
     world \<Rightarrow> (world \<times> run_state \<times> run_end) option" where
  "run_loop fuel env ids handlers input (Return r) st w = Some (w, st, Finished r)"
| "run_loop fuel env ids handlers input (Throw e) st w = Some (w, st, RunThrew (Plain (walk_message e) None))"
| "run_loop 0 env ids handlers input (Yield s ws) st w = None"
| "run_loop (Suc fuel) env ids handlers input (Yield s ws) st w =
    (case find (\<lambda>n. node_id n = step_node s) (nodes (in_graph input)) of
       None \<Rightarrow> Some (w, st, RunThrew (Plain ''Node not found in graph'' None))
     | Some n \<Rightarrow>
         (case execute_step env ids handlers input n s st w of
            (w1, st1, Stepped r) \<Rightarrow> run_loop fuel env ids handlers input
              (walk_resume (in_graph input) (in_triggerPayload input) s ws r) st1 w1
          | (w1, st1, PausedAt p) \<Rightarrow> Some (w1, st1, PausedRun p)
          | (w1, st1, Threw e) \<Rightarrow> Some (w1, st1, RunThrew e)))"

definition initial_state :: "run_input \<Rightarrow> run_state" where
  "initial_state input = \<lparr>rs_completed = in_resumeFrom input,
     rs_tokensInput = Fin (of_int (tt_tokensInput (in_totals input))),
     rs_tokensOutput = Fin (of_int (tt_tokensOutput (in_totals input))),
     rs_costMicros = tt_costMicros (in_totals input),
     rs_costUnpriced = tt_costUnpriced (in_totals input),
     rs_variables = coalesce (in_variables input) (JObj [])\<rparr>"

text \<open>Every node of the graph is executed at most once, so its number of nodes is enough fuel.\<close>

definition run ::
  "env \<Rightarrow> id_supply \<Rightarrow> (node_type \<Rightarrow> node_handler) \<Rightarrow> run_input \<Rightarrow> world \<Rightarrow>
     (world \<times> run_state \<times> run_end) option" where
  "run env ids handlers input w = run_loop (length (nodes (in_graph input))) env ids handlers input
     (walk_start (in_graph input) (in_triggerPayload input) (in_resumeFrom input)) (initial_state input) w"


section \<open>Every run ends\<close>

lemma enqueue_all_completed: "enqueue_all g ns st = Inr st' \<Longrightarrow> completed st' = completed st"
proof (induction ns arbitrary: st)
  case (Cons n ns)
  then obtain st1 where "enqueue g n st = Inr st1" "enqueue_all g ns st1 = Inr st'"
    by (auto simp: bindE_eq_Inr)
  then show ?case using Cons.IH [of st1]
    by (auto simp: enqueue_def bindE_eq_Inr split: if_splits)
qed simp

text \<open>What the walker hands out is a node of the graph that is not completed.\<close>

definition fresh_yield :: "workflow_graph \<Rightarrow> outputs \<Rightarrow> walk_event \<Rightarrow> bool" where
  "fresh_yield g m ev \<longleftrightarrow> (\<forall>s ws. ev = Yield s ws \<longrightarrow> completed ws = m \<and> step_node s \<notin> set (omap_keys m) \<and>
     (\<exists>n \<in> set (nodes g). find (\<lambda>n. node_id n = step_node s) (nodes g) = Some n \<and> step_type s = node_type n))"

lemma walk_loop_fresh: "fresh_yield g m (walk_loop g trig m q ns)"
proof (induction g trig m q ns rule: walk_loop.induct)
  case (2 g trig m q n ns)
  show ?case
  proof (cases "n \<in> set (omap_keys m)")
    case False
    show ?thesis
    proof (cases "getNode g n")
      case (Inr nd)
      then have nd: "nd \<in> set (nodes g)" "node_id nd = n" "find (\<lambda>k. node_id k = n) (nodes g) = Some nd"
        using find_row_Some [of "\<lambda>k. node_id k = n" "nodes g" nd] by (auto simp: getNode_def split: option.splits)
      then show ?thesis using False Inr by (cases "resolveInput g nd m trig") (auto simp: fresh_yield_def)
    qed (use False in \<open>simp add: fresh_yield_def\<close>)
  qed (use 2 in simp)
qed (simp add: fresh_yield_def)

lemma fresh_yield_node:
  assumes "fresh_yield g m (Yield s ws)"
  obtains n where "find (\<lambda>n. node_id n = step_node s) (nodes g) = Some n" "n \<in> set (nodes g)"
    "node_id n = step_node s" "step_type s = node_type n" "completed ws = m"
    "step_node s \<in> set (node_ids g) - set (omap_keys m)"
proof -
  from assms obtain n where n: "find (\<lambda>n. node_id n = step_node s) (nodes g) = Some n" "step_type s = node_type n"
    and m: "completed ws = m" "step_node s \<notin> set (omap_keys m)"
    unfolding fresh_yield_def by blast
  have "n \<in> set (nodes g) \<and> node_id n = step_node s" using find_row_Some [OF n(1)] by simp
  moreover from this have "step_node s \<in> set (node_ids g)" by (auto simp: node_ids_def intro: rev_image_eqI)
  ultimately show thesis using that n m by blast
qed

lemma walk_from_fresh:
  "(\<And>st. r = Inr st \<Longrightarrow> completed st = m) \<Longrightarrow> fresh_yield g m (walk_from g trig r)"
  using walk_loop_fresh by (auto simp: walk_from_def fresh_yield_def split: sum.splits)

lemma walk_start_fresh: "fresh_yield g m (walk_start g trig m)"
  unfolding walk_start_def by (rule walk_from_fresh) (auto dest: enqueue_all_completed)

lemma walk_resume_fresh:
  "fresh_yield g (record_output s r (completed ws)) (walk_resume g trig s ws r)"
proof (cases r)
  case (StepOutput out)
  show ?thesis unfolding walk_resume_def record_output_def Let_def StepOutput step_result.case
    by (intro walk_from_fresh) (auto simp: bindE_eq_Inr dest!: enqueue_all_completed)
qed (simp add: walk_resume_def fresh_yield_def)

lemma walk_resume_error: "walk_resume g trig s ws (StepError msg) = Return (WFailed (step_node s) msg)"
  by (simp add: walk_resume_def)

lemma run_loop_ends:
  assumes "fresh_yield (in_graph input) m ev"
    "card (set (node_ids (in_graph input)) - set (omap_keys m)) \<le> fuel"
  shows "\<exists>r. run_loop fuel env ids handlers input ev st w = Some r"
  using assms
proof (induction fuel arbitrary: m ev st w)
  case 0
  show ?case
  proof (cases ev)
    case (Yield s ws)
    have "step_node s \<in> set (node_ids (in_graph input)) - set (omap_keys m)"
      using fresh_yield_node [OF 0(1) [unfolded Yield]] by blast
    with 0(2) show ?thesis by (metis card_0_eq empty_iff finite_Diff finite_set le_zero_eq)
  qed auto
next
  case (Suc fuel)
  show ?case
  proof (cases ev)
    case (Yield s ws)
    from fresh_yield_node [OF Suc.prems(1) [unfolded Yield]] obtain n where s: "completed ws = m" "step_node s \<notin> set (omap_keys m)"
      "step_node s \<in> set (node_ids (in_graph input))"
      and n: "find (\<lambda>n. node_id n = step_node s) (nodes (in_graph input)) = Some n"
      by blast
    obtain w1 st1 e where ex: "execute_step env ids handlers input n s st w = (w1, st1, e)" by (metis prod_cases3)
    show ?thesis
    proof (cases e)
      case (Stepped r)
      show ?thesis
      proof (cases r)
        case (StepOutput out)
        have "card (set (node_ids (in_graph input)) - set (omap_keys (omap_set (step_node s) out m))) \<le> fuel"
        proof -
          let ?A = "set (node_ids (in_graph input)) - set (omap_keys m)"
          have "set (node_ids (in_graph input)) - set (omap_keys (omap_set (step_node s) out m)) = ?A - {step_node s}"
            by auto
          then show ?thesis using Suc.prems(2) s(2,3) by simp
        qed
        moreover have "record_output s r (completed ws) = omap_set (step_node s) out m"
          by (simp add: record_output_def s(1) StepOutput)
        ultimately show ?thesis
          using Suc.IH [OF walk_resume_fresh [of "in_graph input" s r ws "in_triggerPayload input"], of st1 w1]
            Yield n ex Stepped by simp
      qed (use Yield n ex Stepped in \<open>simp add: walk_resume_error\<close>)
    qed (use Yield n ex in simp_all)
  qed auto
qed

lemma run_total: "\<exists>r. run env ids handlers input w = Some r"
proof -
  have "card (set (node_ids (in_graph input)) - set (omap_keys (in_resumeFrom input)))
      \<le> card (set (node_ids (in_graph input)))"
    by (rule card_mono) auto
  also have "\<dots> \<le> length (node_ids (in_graph input))" by (rule card_length)
  finally show ?thesis unfolding run_def
    by (intro run_loop_ends [OF walk_start_fresh]) (simp add: node_ids_def)
qed


section \<open>Other processes leave a leased execution alone\<close>

definition leased_to :: "string \<Rightarrow> uuid \<Rightarrow> db \<Rightarrow> bool" where
  "leased_to who xid d \<longleftrightarrow> (\<exists>x \<in> set (executions d). ex_id x = xid \<and> ex_leasedBy x = Some who)"

text \<open>
  Going from one database to another, the invariant of the store is kept; and if the worker is
  the lease holder afterwards, it was all along and nobody has written to the execution's
  history.
\<close>

definition undisturbed :: "string \<Rightarrow> uuid \<Rightarrow> db \<Rightarrow> db \<Rightarrow> bool" where
  "undisturbed who xid d d' \<longleftrightarrow> (store_inv d \<longrightarrow> store_inv d' \<and>
     (leased_to who xid d' \<longrightarrow> leased_to who xid d \<and> history xid d' = history xid d))"

lemma undisturbed_refl [simp]: "undisturbed who xid d d"
  by (simp add: undisturbed_def)

lemma undisturbed_trans [trans]:
  "undisturbed who xid d d' \<Longrightarrow> undisturbed who xid d' d'' \<Longrightarrow> undisturbed who xid d d''"
  unfolding undisturbed_def by metis

lemma row_step_lessee: "row_step now a x x' \<Longrightarrow> ex_leasedBy x' = Some who \<Longrightarrow> a \<noteq> Some who \<Longrightarrow> ex_leasedBy x = Some who"
  by (cases rule: row_step.cases) (auto simp: finalize_def lease_guard_def)

lemma store_step_lessee:
  assumes "store_inv d" "store_step now a d d'" "a \<noteq> Some who" "leased_to who xid d'"
  shows "leased_to who xid d"
proof -
  from assms(4) obtain x' where x': "x' \<in> set (executions d')" "ex_id x' = xid" "ex_leasedBy x' = Some who"
    by (auto simp: leased_to_def)
  have wt: "distinct (map wt_id (waitTimers d))" using assms(1) by (simp add: store_inv_def)
  from store_step_rows [OF assms(2) wt] show ?thesis
  proof
    assume "moves_rows now a d d'"
    then obtain p f where "executions d' = fst (update_where p f (executions d))"
      "\<forall>x \<in> set (executions d). p x \<longrightarrow> row_step now a x (f x)" by (auto simp: moves_rows_def)
    then show ?thesis using x' assms(3) row_step_lessee row_step_id
      by (fastforce simp: leased_to_def set_update_where split: if_splits)
  next
    assume "adds_row now d d'"
    then show ?thesis using x' by (auto simp: adds_row_def leased_to_def row_ok_def)
  qed
qed

lemma store_step_undisturbed:
  assumes "store_step now a d d'" "a \<noteq> Some who"
  shows "undisturbed who xid d d'"
  unfolding undisturbed_def
proof (intro impI conjI)
  assume inv: "store_inv d"
  then show "store_inv d'" using assms(1) by (rule store_step_inv)
  assume "leased_to who xid d'"
  then show l: "leased_to who xid d" using store_step_lessee [OF inv assms] by blast
  then obtain x where x: "x \<in> set (executions d)" "ex_id x = xid" "ex_leasedBy x \<noteq> a"
    using assms(2) by (auto simp: leased_to_def)
  from store_step_history [OF inv assms(1) x(1,3)] x(2) show "history xid d' = history xid d" by simp
qed

lemma run_steps_undisturbed:
  "run_steps store_step as d d' \<Longrightarrow> \<forall>(t, a) \<in> set as. a \<noteq> Some who \<Longrightarrow> undisturbed who xid d d'"
proof (induction rule: run_steps.induct)
  case (run_cons t a d d1 as d'')
  then show ?case using store_step_undisturbed [of t a d d1 who xid] undisturbed_trans by auto
qed simp


section \<open>What a worker can rely on\<close>

text \<open>
  A worker \<open>who\<close> running execution \<open>xid\<close>: whatever happens between its own actions, and whatever
  its node handlers do, leaves the execution's history alone while it holds the lease.
\<close>

locale fenced_worker =
  fixes env :: env and handlers :: "node_type \<Rightarrow> node_handler" and who :: string and xid :: uuid
  assumes env_fenced: "undisturbed who xid (store w) (store (env w))"
    and handler_fenced: "cx_executionId cx = xid \<Longrightarrow> cx_leasedBy cx = who \<Longrightarrow>
      undisturbed who xid (store w) (store (fst (handlers t cfg i cx w)))"
begin

lemma tick_fenced: "undisturbed who xid (store w) (store (tick env w))"
  using env_fenced [of "w\<lparr>ticks := Suc (ticks w)\<rparr>"] by (simp add: tick_def)

lemma assertOwnsLease_fenced: "undisturbed who xid (store w) (store (fst (assertOwnsLease env x p w)))"
  using tick_fenced by (simp add: assertOwnsLease_def Let_def)

lemma sleep_fenced: "undisturbed who xid (store w) (store (sleep env ms w))"
  using tick_fenced [of "w\<lparr>wnow := wnow w + 1000 * timer_delay ms\<rparr>"] by (simp add: sleep_def)

lemma attempt_loop_fenced:
  assumes "\<And>w. undisturbed who xid (store w) (store (fst (exec w)))"
  shows "undisturbed who xid (store w) (store (fst (attempt_loop env x p policy exec rest made w)))"
proof (induction rest arbitrary: made w)
  case 0
  show ?case using assms [of w] by (auto simp: attempt_loop.simps split: prod.splits sum.splits)
next
  case (Suc k)
  obtain w1 r1 where e: "exec w = (w1, r1)" by fastforce
  obtain w2 r2 where l: "assertOwnsLease env x p w1 = (w2, r2)" by fastforce
  have u2: "undisturbed who xid (store w) (store w2)"
    using undisturbed_trans assms [of w] assertOwnsLease_fenced [of w1 x p] by (simp add: e l)
  have again: "undisturbed who xid (store w) (store (fst (attempt_loop env x p policy exec k n v)))"
    if "undisturbed who xid (store w) (store v)" for n v
    using that Suc.IH undisturbed_trans by blast
  have slept: "undisturbed who xid (store w) (store v)"
    if "assertOwnsLease env x p (sleep env ms w2) = (v, r)" for ms v r
    using undisturbed_trans [OF u2] undisturbed_trans [OF sleep_fenced assertOwnsLease_fenced]
    by (metis that fst_conv)
  show ?case
    using e l assms [of w] u2 again
    by (subst attempt_loop.simps) (auto dest: slept split: prod.split sum.split option.split)
qed

end


section \<open>The checkpoint is always the run so far\<close>

text \<open>A worker that resumed now would start from the state of this run.\<close>

definition resume_matches :: "uuid \<Rightarrow> run_state \<Rightarrow> db \<Rightarrow> bool" where
  "resume_matches xid st d \<longleftrightarrow> getResumeState xid d = stored_outputs (rs_completed st) \<and>
     getResumeVariables xid d = stored_variables (rs_variables st)"

definition checkpointed :: "uuid \<Rightarrow> run_state \<Rightarrow> db \<Rightarrow> bool" where
  "checkpointed xid st d \<longleftrightarrow> resume_matches xid st d \<and> omap_wf (rs_completed st) \<and>
     (\<forall>c \<in> set (snd (history xid d)). cp_sequence c \<le> int (length (rs_completed st)))"

lemma resume_matches_history:
  "history xid d' = history xid d \<Longrightarrow> resume_matches xid st d' = resume_matches xid st d"
  by (simp add: resume_matches_def getResumeState_def getResumeVariables_def getLatestCheckpoint_def history_def)

lemma checkpointed_history:
  "history xid d' = history xid d \<Longrightarrow> checkpointed xid st d' = checkpointed xid st d"
  using resume_matches_history [of xid d' d st] by (simp add: checkpointed_def)

lemma omap_wf_set: "omap_wf m \<Longrightarrow> omap_wf (omap_set k v m)"
  by (rule jsmap.invar_put)

text \<open>What a step may have done to the outputs.\<close>

definition extended :: "step_to_execute \<Rightarrow> jsval \<Rightarrow> run_state \<Rightarrow> run_state \<Rightarrow> bool" where
  "extended s out st st' \<longleftrightarrow> rs_completed st' = omap_set (step_node s) out (rs_completed st)"

lemma account_state:
  assumes "account model i u st = (st', r)"
  shows "rs_completed st' = rs_completed st" "rs_variables st' = rs_variables st"
  using assms by (auto simp: account_def add_tokens_def Let_def split: option.splits if_splits cost_result.splits)

lemma account_error: "account model i u st = (st', Inl e) \<Longrightarrow> e \<noteq> PauseExecutionError p"
  by (auto simp: account_def add_tokens_def Let_def split: option.splits if_splits cost_result.splits)

lemma attempt_loop_result:
  assumes "attempt_loop env x p policy exec rest made w = (w', made', Inr out)"
  shows "\<exists>v v'. exec v = (v', Inr out)"
  using assms
proof (induction rest arbitrary: made w)
  case 0
  then show ?case by (subst (asm) attempt_loop.simps) (auto split: prod.splits sum.splits if_splits)
next
  case (Suc k)
  from Suc.prems Suc.IH show ?case
    unfolding attempt_loop.simps [of env x p policy exec "Suc k"]
    by (auto split: prod.splits sum.splits if_splits option.splits)
qed

lemma stored_checkpoint_sequence: "cp_sequence (stored_checkpoint f now ri) = step_sequence ri"
  by (simp add: stored_checkpoint_def checkpoint_of_def Let_def)

lemma recordStep_lease:
  assumes "recordStep env ids ri w0 = (w, r)"
  shows "(\<exists>e. r = Inl e \<and> store w = store (tick env w0) \<and> (\<forall>p. e \<noteq> PauseExecutionError p)) \<or>
    (r = Inr () \<and> executions (store w) = executions (store (tick env w0)) \<and>
     store_step (wnow (tick env w0)) (Some (ri_leasedBy ri)) (store (tick env w0)) (store w))"
proof (cases r)
  case (Inl e)
  then show ?thesis using assms
    by (auto simp: recordStep_def Let_def writeStepAndCheckpoint_def bindE_eq_Inr
        split: option.splits sum.splits if_splits)
next
  case (Inr u)
  with assms obtain tin tout d' p where
    wr: "writeStepAndCheckpoint (ids (ticks (tick env w0))) (wnow (tick env w0)) (ri_leasedBy ri)
      (step_row (ids (ticks (tick env w0))) ri tin tout) (checkpoint_of ri) (store (tick env w0)) = Inr (d', Some p)"
    and w: "w = (tick env w0)\<lparr>store := d'\<rparr>"
    by (auto simp: recordStep_def Let_def split: option.splits sum.splits)
  from writeStepAndCheckpoint_effect [OF wr] do_write [OF wr] show ?thesis by (simp add: w Inr)
qed


text \<open>Going back in time over the worker's own writes as well, the lease was held before.\<close>

definition held_before :: "string \<Rightarrow> uuid \<Rightarrow> db \<Rightarrow> db \<Rightarrow> bool" where
  "held_before who xid d d' \<longleftrightarrow>
     (store_inv d \<longrightarrow> store_inv d' \<and> (leased_to who xid d' \<longrightarrow> leased_to who xid d))"

lemma undisturbed_held: "undisturbed who xid d d' \<Longrightarrow> held_before who xid d d'"
  by (simp add: undisturbed_def held_before_def)

lemma held_trans: "held_before who xid d d' \<Longrightarrow> held_before who xid d' d'' \<Longrightarrow> held_before who xid d d''"
  unfolding held_before_def by metis

lemma own_write_held:
  assumes "store_step now a d d'" "executions d' = executions d"
  shows "held_before who xid d d'"
  using assms store_step_inv by (auto simp: held_before_def leased_to_def)

context fenced_worker
begin

lemma executeNode_fenced:
  assumes "in_executionId input = xid" "in_leasedBy input = who"
  shows "undisturbed who xid (store w) (store (fst (executeNode handlers input n i timeout vars w)))"
  unfolding executeNode_def using assms handler_fenced by simp

lemma recordStep_held:
  assumes "recordStep env ids ri w0 = (w, r)"
  shows "held_before who xid (store w0) (store w)"
  using recordStep_lease [OF assms] tick_fenced [of w0] undisturbed_held own_write_held held_trans by metis

lemma recordStep_failed:
  assumes "recordStep env ids ri w0 = (w, Inl e)"
  shows "undisturbed who xid (store w0) (store w) \<and> (\<forall>p. e \<noteq> PauseExecutionError p)"
  using recordStep_lease [OF assms] tick_fenced [of w0] by auto

lemma settle_output_cases:
  assumes run: "settle_output env ids input n s t made out st w = (w', st', r)"
  shows "(\<exists>e. r = Inl e \<and> undisturbed who xid (store w) (store w') \<and> (\<forall>p. e \<noteq> PauseExecutionError p) \<and>
      (rs_completed st' = rs_completed st \<or> extended s out st st')) \<or>
    (\<exists>cost unpriced u. r = Inr out \<and> extended s out st st' \<and>
      recordStep env ids (step_record input n s t made out None (extractTokenUsage out) cost unpriced st' (wnow w)) w
        = (w', Inr u))"
proof -
  obtain st1 r3 where ac: "usage_account n out st = (st1, r3)" by fastforce
  have st1: "rs_completed st1 = rs_completed st" "r3 = Inl e \<Longrightarrow> e \<noteq> PauseExecutionError p" for e p
    using ac by (auto simp: usage_account_def split: option.splits dest: account_state account_error)
  have ext: "extended s out st (adopt_output n s out st1)"
    using st1(1) by (simp add: extended_def adopt_output_def)
  show ?thesis
  proof (cases r3)
    case (Inl e)
    with run ac st1 show ?thesis by (auto simp: settle_output_def)
  next
    case (Inr cu)
    obtain cost unpriced where cu: "cu = (cost, unpriced)" by fastforce
    define ri where "ri = step_record input n s t made out None (extractTokenUsage out) cost unpriced
      (adopt_output n s out st1) (wnow w)"
    obtain w3 r4 where rec: "recordStep env ids ri w = (w3, r4)" by fastforce
    show ?thesis
    proof (cases "sets_variables n \<and> nullish out")
      case True
      then show ?thesis using run ac Inr cu ext by (auto simp: settle_output_def Let_def)
    next
      case False
      then have res: "w' = w3" "st' = adopt_output n s out st1" "r = (case r4 of Inl e \<Rightarrow> Inl e | Inr _ \<Rightarrow> Inr out)"
        using run ac Inr cu rec by (auto simp: settle_output_def ri_def Let_def split: sum.splits)
      show ?thesis
      proof (cases r4)
        case (Inl e)
        with res ext recordStep_failed [of ids ri w w3 e] rec show ?thesis by auto
      next
        case (Inr u)
        with res have "r = Inr out" by simp
        then show ?thesis using res(1,2) ext rec Inr unfolding ri_def by blast
      qed
    qed
  qed
qed

lemma try_step_cases:
  assumes io: "in_executionId input = xid" "in_leasedBy input = who"
    and run: "try_step env ids handlers input n s st w = (w', made, st', r)"
  shows "(\<exists>e. r = Inl e \<and> undisturbed who xid (store w) (store w') \<and>
      (st' = st \<or> (\<forall>p. e \<noteq> PauseExecutionError p)) \<and>
      (rs_completed st' = rs_completed st \<or> (\<exists>out. extended s out st st'))) \<or>
    (\<exists>out w2 cost unpriced u. r = Inr out \<and> undisturbed who xid (store w) (store w2) \<and> extended s out st st' \<and>
      recordStep env ids (step_record input n s (wnow w) made out None (extractTokenUsage out) cost unpriced st' (wnow w2)) w2
        = (w', Inr u))"
proof -
  define policy where "policy = parseRetryPolicy (js_get (JObj (config n)) ''retryPolicy'')"
  define exec where "exec = executeNode handlers input n (step_input s) (Option.bind policy timeoutMs) (rs_variables st)"
  define k where "k = (case policy of None \<Rightarrow> 1 | Some p \<Rightarrow> nat (maxAttempts p)) - 1"
  obtain w1 r1 where l: "assertOwnsLease env xid who w = (w1, r1)" by fastforce
  obtain w2 made2 r2 where a: "attempt_loop env xid who policy exec k 1 w1 = (w2, made2, r2)" by (metis prod_cases3)
  have u1: "undisturbed who xid (store w) (store w1)" using assertOwnsLease_fenced [of w xid who] l by simp
  have u2: "undisturbed who xid (store w) (store w2)"
    using undisturbed_trans [OF u1] attempt_loop_fenced [of exec w1 xid who policy k 1] executeNode_fenced [OF io] a
    by (simp add: exec_def)
  note run' = run [unfolded try_step_def io l Let_def, folded policy_def, folded exec_def k_def]
  show ?thesis
  proof (cases r1)
    case (Inl e)
    then show ?thesis using run' u1 by auto
  next
    case r1: (Inr u)
    show ?thesis
    proof (cases r2)
      case (Inl e)
      then show ?thesis using run' r1 a u2 by auto
    next
      case r2: (Inr v)
      have so: "settle_output env ids input n s (wnow w) made2 v st w2 = (w', st', r)" "made = made2"
        using run' r1 a r2 by (auto split: prod.splits)
      from settle_output_cases [OF so(1)] show ?thesis
        using undisturbed_trans [OF u2] u2 so(2) by blast
    qed
  qed
qed

end


context fenced_worker
begin

lemma recordStep_saved:
  assumes rec: "recordStep env ids ri w = (w', Inr u)"
    and ri: "ri_executionId ri = xid" "ri_completed ri = rs_completed st" "ri_variables ri = rs_variables st"
    and st: "omap_wf (rs_completed st)" and inv: "store_inv (store w)" and held: "leased_to who xid (store w')"
    and seq: "\<forall>c \<in> set (snd (history xid (store w))). cp_sequence c < step_sequence ri"
  shows "resume_matches xid st (store w')"
    "\<forall>c \<in> set (snd (history xid (store w'))). cp_sequence c \<le> step_sequence ri"
proof -
  have "executions (store w') = executions (store (tick env w))" using recordStep_lease [OF rec] by auto
  then have "leased_to who xid (store (tick env w))" using held by (simp add: leased_to_def)
  then have "history xid (store (tick env w)) = history xid (store w)"
    using tick_fenced [of w] inv by (simp add: undisturbed_def)
  then have "set (snd (history xid (store (tick env w)))) = set (snd (history xid (store w)))" by simp
  then have old: "\<forall>c \<in> set (checkpoints (store (tick env w))). cp_executionId c = xid \<longrightarrow> cp_sequence c < step_sequence ri"
    using seq by (auto simp: history_def)
  show "resume_matches xid st (store w')"
    using recordStep_resumes [OF rec] old st by (simp add: resume_matches_def ri)
  from recordStep_Inr [OF rec] obtain w1 tin tout where w1: "w1 = tick env w"
    and w': "w' = w1\<lparr>store := (store w1)\<lparr>
       executionSteps := executionSteps (store w1) @ [stored_step (ids (ticks w1)) (wnow w1) ri tin tout],
       checkpoints := checkpoints (store w1) @ [stored_checkpoint (ids (ticks w1)) (wnow w1) ri]\<rparr>\<rparr>" by metis
  have "checkpoints (store w') = checkpoints (store (tick env w)) @ [stored_checkpoint (ids (ticks w1)) (wnow w1) ri]"
    by (simp add: w' w1)
  then show "\<forall>c \<in> set (snd (history xid (store w'))). cp_sequence c \<le> step_sequence ri"
    using old by (auto simp: history_def stored_checkpoint_sequence)
qed

end


context fenced_worker
begin

text \<open>How far a step leaves the execution checkpointed.\<close>

lemma saved_by_success:
  assumes "recordStep env ids (step_record input n s t made out None usage cost unpriced st' t') w = (w', Inr u)"
    and io: "in_executionId input = xid" and inv: "store_inv (store w)" and held: "leased_to who xid (store w')"
    and st: "checkpointed xid st (store w)" "extended s out st st'" "step_node s \<notin> set (omap_keys (rs_completed st))"
  shows "checkpointed xid st' (store w')"
proof -
  have len: "length (rs_completed st') = Suc (length (rs_completed st))"
    using st(2,3) omap_set_new [of "step_node s" "rs_completed st" out] by (simp add: extended_def)
  have js: "omap_wf (rs_completed st')" using st(1,2) by (auto simp: checkpointed_def extended_def intro!: omap_wf_set)
  have "\<forall>c \<in> set (snd (history xid (store w))). cp_sequence c <
      step_sequence (step_record input n s t made out None usage cost unpriced st' t')"
    using st(1) len by (auto simp: checkpointed_def step_sequence_def step_record_def)
  from recordStep_saved [OF assms(1) _ _ _ js inv held this] show ?thesis
    using js io by (simp add: checkpointed_def step_sequence_def step_record_def)
qed

lemma saved_by_failure:
  assumes "recordStep env ids (step_record input n s t made out (Some msg) usage cost unpriced st' t') w = (w', Inr u)"
    and io: "in_executionId input = xid" and inv: "store_inv (store w)" and held: "leased_to who xid (store w')"
    and st: "\<forall>c \<in> set (snd (history xid (store w))). cp_sequence c \<le> int (length (rs_completed st'))" "omap_wf (rs_completed st')"
  shows "resume_matches xid st' (store w')"
  using recordStep_saved(1) [OF assms(1) _ _ _ st(2) inv held] io st(1)
  by (auto simp: step_sequence_def step_record_def)

lemma catch_step_held:
  "catch_step env ids input n s t made e st w = (w', st', r) \<Longrightarrow> held_before who xid (store w) (store w')"
  by (auto simp: catch_step_def Let_def held_before_def
      split: if_splits node_error.splits option.splits prod.splits sum.splits
      dest!: recordStep_held)

lemma catch_step_cases:
  assumes "catch_step env ids input n s t made err st w = (w', st', e)"
  shows "(\<exists>x. e = Threw x) \<or> (\<exists>p. e = PausedAt p \<and> err = PauseExecutionError p \<and> w' = w \<and> st' = st) \<or>
    (\<exists>msg usage cost unpriced u. e = Stepped (StepError msg) \<and> rs_completed st' = rs_completed st \<and>
       rs_variables st' = rs_variables st \<and>
       recordStep env ids (step_record input n s t made JUndef (Some msg) usage cost unpriced st' (wnow w)) w = (w', Inr u))"
  using assms
  by (auto simp: catch_step_def Let_def account_state
      split: if_splits node_error.splits option.splits prod.splits sum.splits)

lemma execute_step_held:
  assumes io: "in_executionId input = xid" "in_leasedBy input = who"
    and run: "execute_step env ids handlers input n s st w = (w', st', e)"
  shows "held_before who xid (store w) (store w')"
proof -
  obtain w1 made st1 r where t: "try_step env ids handlers input n s st w = (w1, made, st1, r)" by (metis prod_cases4)
  have h1: "held_before who xid (store w) (store w1)"
    using try_step_cases [OF io t] undisturbed_held recordStep_held held_trans by metis
  show ?thesis
  proof (cases r)
    case (Inl err)
    then have "catch_step env ids input n s (wnow w) made err st1 w1 = (w', st', e)"
      using run t by (simp add: execute_step_def)
    from catch_step_held [OF this] h1 show ?thesis by (rule held_trans [rotated])
  qed (use run t h1 in \<open>simp add: execute_step_def\<close>)
qed

lemma execute_step_saved:
  assumes io: "in_executionId input = xid" "in_leasedBy input = who"
    and run: "execute_step env ids handlers input n s st w = (w', st', e)"
    and inv: "store_inv (store w)" and held: "leased_to who xid (store w')"
    and st: "checkpointed xid st (store w)" "step_node s \<notin> set (omap_keys (rs_completed st))"
  shows "case e of
      Stepped (StepOutput out) \<Rightarrow> checkpointed xid st' (store w') \<and>
        rs_completed st' = omap_set (step_node s) out (rs_completed st)
    | Stepped (StepError _) \<Rightarrow> resume_matches xid st' (store w')
    | PausedAt _ \<Rightarrow> st' = st \<and> checkpointed xid st' (store w')
    | Threw _ \<Rightarrow> True"
proof -
  obtain w1 made st1 r where t: "try_step env ids handlers input n s st w = (w1, made, st1, r)" by (metis prod_cases4)
  consider (ok) out w2 cost unpriced v where "r = Inr out" "undisturbed who xid (store w) (store w2)"
      "extended s out st st1" "recordStep env ids (step_record input n s (wnow w) made out None
        (extractTokenUsage out) cost unpriced st1 (wnow w2)) w2 = (w1, Inr v)"
    | (err) err where "r = Inl err" "undisturbed who xid (store w) (store w1)"
      "st1 = st \<or> (\<forall>p. err \<noteq> PauseExecutionError p)"
      "rs_completed st1 = rs_completed st \<or> (\<exists>out. extended s out st st1)"
    using try_step_cases [OF io t] by blast
  then show ?thesis
  proof cases
    case ok
    note r = ok(1) and u = ok(2) and x = ok(3) and rec = ok(4)
    have e: "e = Stepped (StepOutput out)" "w' = w1" "st' = st1" using run t r by (auto simp: execute_step_def)
    have "leased_to who xid (store w2)" "store_inv (store w2)"
      using recordStep_held [OF rec] u inv held e(2) by (auto simp: undisturbed_def held_before_def)
    moreover from this have "history xid (store w2) = history xid (store w)"
      using u inv by (simp add: undisturbed_def)
    ultimately have "checkpointed xid st1 (store w1)"
      using saved_by_success [OF rec io(1) _ _ _ x st(2)] checkpointed_history [of xid "store w2" "store w" st]
        st(1) held e(2) by simp
    then show ?thesis using e x by (simp add: extended_def)
  next
    case err
    note r = err(1) and u = err(2) and pause = err(3) and data = err(4)
    have c: "catch_step env ids input n s (wnow w) made err st1 w1 = (w', st', e)"
      using run t r by (simp add: execute_step_def)
    have "leased_to who xid (store w1)" and inv1: "store_inv (store w1)"
      using catch_step_held [OF c] u inv held by (auto simp: undisturbed_def held_before_def)
    then have h: "history xid (store w1) = history xid (store w)" using u inv by (simp add: undisturbed_def)
    have js: "omap_wf (rs_completed st1)" and len: "length (rs_completed st) \<le> length (rs_completed st1)"
      using data st(1) length_omap_set [of "step_node s" _ "rs_completed st"]
      by (auto simp: checkpointed_def extended_def intro!: omap_wf_set)
    from catch_step_cases [OF c] show ?thesis
    proof (elim disjE exE conjE)
      fix p
      assume "e = PausedAt p" "err = PauseExecutionError p" "w' = w1" "st' = st1"
      then show ?thesis using pause checkpointed_history [OF h, of st] st(1) by simp
    next
      fix msg usage cost unpriced u
      assume e: "e = Stepped (StepError msg)" and same: "rs_completed st' = rs_completed st1" "rs_variables st' = rs_variables st1"
        and rec: "recordStep env ids (step_record input n s (wnow w) made JUndef (Some msg) usage cost unpriced st' (wnow w1)) w1
          = (w', Inr u)"
      have "\<forall>c \<in> set (snd (history xid (store w1))). cp_sequence c \<le> int (length (rs_completed st'))"
        using st(1) len h same(1) by (fastforce simp: checkpointed_def)
      moreover have "omap_wf (rs_completed st')" using js same by simp
      ultimately show ?thesis using saved_by_failure [OF rec io(1) inv1 held] e by simp
    qed simp
  qed
qed

end


context fenced_worker
begin

lemma run_loop_held:
  assumes io: "in_executionId input = xid" "in_leasedBy input = who"
    and "run_loop fuel env ids handlers input ev st w = Some (w', st', e)"
  shows "held_before who xid (store w) (store w')"
  using assms(3)
proof (induction fuel arbitrary: ev st w)
  case 0
  then show ?case by (cases ev) (auto simp: held_before_def)
next
  case (Suc fuel)
  show ?case
  proof (cases ev)
    case (Yield s ws)
    show ?thesis
    proof (cases "find (\<lambda>n. node_id n = step_node s) (nodes (in_graph input))")
      case (Some n)
      obtain w1 st1 e1 where x: "execute_step env ids handlers input n s st w = (w1, st1, e1)" by (metis prod_cases3)
      have h: "held_before who xid (store w) (store w1)" using execute_step_held [OF io x] .
      show ?thesis
      proof (cases e1)
        case (Stepped r)
        then have "run_loop fuel env ids handlers input
            (walk_resume (in_graph input) (in_triggerPayload input) s ws r) st1 w1 = Some (w', st', e)"
          using Suc.prems Yield Some x by simp
        from held_trans [OF h Suc.IH [OF this]] show ?thesis .
      qed (use Suc.prems Yield Some x h in auto)
    qed (use Suc.prems Yield in \<open>auto simp: held_before_def\<close>)
  qed (use Suc.prems in \<open>auto simp: held_before_def\<close>)
qed

lemma run_loop_saved:
  assumes io: "in_executionId input = xid" "in_leasedBy input = who"
    and run: "run_loop fuel env ids handlers input ev st w = Some (w', st', e)"
    and held: "leased_to who xid (store w')"
    and start: "fresh_yield (in_graph input) (rs_completed st) ev" "store_inv (store w)" "checkpointed xid st (store w)"
  shows "\<forall>err. e \<noteq> RunThrew err \<Longrightarrow> resume_matches xid st' (store w')"
  using run start
proof (induction fuel arbitrary: ev st w)
  case 0
  then show ?case by (cases ev) (auto simp: checkpointed_def)
next
  case (Suc fuel)
  show ?case
  proof (cases ev)
    case (Yield s ws)
    from fresh_yield_node [OF Suc.prems(3) [unfolded Yield]] obtain n where
      n: "find (\<lambda>n. node_id n = step_node s) (nodes (in_graph input)) = Some n"
      and m: "completed ws = rs_completed st" and new: "step_node s \<notin> set (omap_keys (rs_completed st))" by blast
    obtain w1 st1 e1 where x: "execute_step env ids handlers input n s st w = (w1, st1, e1)" by (metis prod_cases3)
    note saved = execute_step_saved [OF io x Suc.prems(4) _ Suc.prems(5) new]
    have inv1: "store_inv (store w1)" using execute_step_held [OF io x] Suc.prems(4) by (simp add: held_before_def)
    show ?thesis
    proof (cases e1)
      case (Stepped r)
      then have go: "run_loop fuel env ids handlers input
          (walk_resume (in_graph input) (in_triggerPayload input) s ws r) st1 w1 = Some (w', st', e)"
        using Suc.prems(2) Yield n x by simp
      have l1: "leased_to who xid (store w1)"
        using run_loop_held [OF io go] inv1 held by (simp add: held_before_def)
      show ?thesis
      proof (cases r)
        case (StepOutput out)
        have c: "checkpointed xid st1 (store w1)" "rs_completed st1 = omap_set (step_node s) out (rs_completed st)"
          using saved [OF l1] Stepped StepOutput by simp_all
        have "fresh_yield (in_graph input) (rs_completed st1)
            (walk_resume (in_graph input) (in_triggerPayload input) s ws r)"
          using walk_resume_fresh [of "in_graph input" s r ws] c(2) m StepOutput by (simp add: record_output_def)
        from Suc.IH [OF Suc.prems(1) go this inv1 c(1)] show ?thesis .
      next
        case (StepError msg)
        then show ?thesis using go saved [OF l1] Stepped by (cases fuel) (auto simp: walk_resume_error)
      qed
    next
      case (PausedAt p)
      then have "w' = w1" "st' = st1" using Suc.prems(2) Yield n x by auto
      then show ?thesis using saved held PausedAt by (auto simp: checkpointed_def)
    qed (use Suc.prems(1,2) Yield n x in auto)
  qed (use Suc.prems in \<open>auto simp: checkpointed_def\<close>)
qed

lemma run_saved:
  assumes "in_executionId input = xid" "in_leasedBy input = who"
    "run env ids handlers input w = Some (w', st', e)" "leased_to who xid (store w')"
    "store_inv (store w)" "checkpointed xid (initial_state input) (store w)" "\<forall>err. e \<noteq> RunThrew err"
  shows "resume_matches xid st' (store w')"
  using run_loop_saved [OF assms(1,2) assms(3) [unfolded run_def] assms(4)] walk_start_fresh assms(5-7)
  by (simp add: initial_state_def)

end

section \<open>A run is a walk\<close>

lemma catch_step_not_output: "catch_step env ids input n s t made e st w \<noteq> (w', st', Stepped (StepOutput out))"
  by (auto simp: catch_step_def Let_def split: node_error.splits prod.splits sum.splits option.splits)

lemma settle_output_result:
  assumes "settle_output env ids input n s t made v st w = (w', st', Inr out)"
  shows "out = v \<and> rs_completed st' = omap_set (step_node s) v (rs_completed st)"
  using assms
  by (auto simp: settle_output_def usage_account_def adopt_output_def Let_def
      split: prod.splits sum.splits if_splits option.splits dest: account_state)

lemma execute_step_output:
  assumes "execute_step env ids handlers input n s st w = (w', st', Stepped (StepOutput out))"
  shows "rs_completed st' = omap_set (step_node s) out (rs_completed st) \<and>
    (\<exists>i t v w1 w2. executeNode handlers input n i t v w1 = (w2, Inr out))"
proof -
  obtain w1 made where "try_step env ids handlers input n s st w = (w1, made, st', Inr out)"
    using assms catch_step_not_output by (auto simp: execute_step_def split: prod.splits sum.splits)
  then obtain k policy exec w2 w3 where
    a: "attempt_loop env (in_executionId input) (in_leasedBy input) policy exec k 1 w2 = (w3, made, Inr out)"
    and x: "exec = executeNode handlers input n (step_input s) (Option.bind policy timeoutMs) (rs_variables st)"
    and o: "rs_completed st' = omap_set (step_node s) out (rs_completed st)"
    by (auto simp: try_step_def Let_def split: prod.splits sum.splits dest!: settle_output_result)
  from attempt_loop_result [OF a] x o show ?thesis by blast
qed


text \<open>Branch nodes answer with a branch the graph has.\<close>

definition branches_ok :: "(node_type \<Rightarrow> node_handler) \<Rightarrow> run_input \<Rightarrow> bool" where
  "branches_ok handlers input \<longleftrightarrow> (\<forall>n \<in> set (nodes (in_graph input)). \<forall>i t v w w' out.
     executeNode handlers input n i t v w = (w', Inr out) \<longrightarrow> good_output (in_graph input) (node_id n) out)"

lemma trace_outputs_snoc:
  "trace_outputs m (tr @ [(k, r)]) = (case r of StepOutput v \<Rightarrow> omap_set k v (trace_outputs m tr)
     | StepError _ \<Rightarrow> trace_outputs m tr)"
  by (simp add: trace_outputs_def split: step_result.split)

lemma run_loop_walk:
  assumes "branches_ok handlers input"
    "run_loop fuel env ids handlers input ev st w = Some (w', st', e)"
    "walk_steps (in_graph input) (in_triggerPayload input) m0 tr ev"
    "rs_completed st = trace_outputs m0 tr" "fresh_yield (in_graph input) (rs_completed st) ev"
  shows "case e of
      Finished r \<Rightarrow> \<exists>tr'. walk_steps (in_graph input) (in_triggerPayload input) m0 tr' (Return r) \<and>
        (r = WCompleted \<longrightarrow> rs_completed st' = trace_outputs m0 tr')
    | PausedRun p \<Rightarrow> \<exists>tr' s ws. walk_steps (in_graph input) (in_triggerPayload input) m0 tr' (Yield s ws)
    | RunThrew _ \<Rightarrow> True"
  using assms(2-)
proof (induction fuel arbitrary: ev st w tr)
  case 0
  then show ?case by (cases ev) auto
next
  case (Suc fuel)
  show ?case
  proof (cases ev)
    case (Yield s ws)
    from fresh_yield_node [OF Suc.prems(4) [unfolded Yield]] obtain n where
      n: "find (\<lambda>n. node_id n = step_node s) (nodes (in_graph input)) = Some n" "n \<in> set (nodes (in_graph input))"
         "node_id n = step_node s"
      and m: "completed ws = rs_completed st" by blast
    obtain w1 st1 e1 where x: "execute_step env ids handlers input n s st w = (w1, st1, e1)" by (metis prod_cases3)
    show ?thesis
    proof (cases e1)
      case (Stepped r)
      then have go: "run_loop fuel env ids handlers input
          (walk_resume (in_graph input) (in_triggerPayload input) s ws r) st1 w1 = Some (w', st', e)"
        using Suc.prems(1) Yield n(1) x by simp
      have good: "good_output (in_graph input) (step_node s) v \<and>
          rs_completed st1 = omap_set (step_node s) v (rs_completed st)" if "r = StepOutput v" for v
        using execute_step_output [of env ids handlers input n s st w w1 st1 v] x Stepped that assms(1) n(2,3)
        by (fastforce simp: branches_ok_def)
      have walk: "walk_steps (in_graph input) (in_triggerPayload input) m0 (tr @ [(step_node s, r)])
          (walk_resume (in_graph input) (in_triggerPayload input) s ws r)"
        using walk_answer [OF Suc.prems(2) [unfolded Yield]] good by blast
      show ?thesis
      proof (cases r)
        case (StepOutput v)
        have "rs_completed st1 = trace_outputs m0 (tr @ [(step_node s, r)])"
          using good [OF StepOutput] Suc.prems(3) by (simp add: trace_outputs_snoc StepOutput)
        moreover have "fresh_yield (in_graph input) (rs_completed st1)
            (walk_resume (in_graph input) (in_triggerPayload input) s ws r)"
          using walk_resume_fresh [of "in_graph input" s r ws] good [OF StepOutput] m StepOutput
          by (simp add: record_output_def)
        ultimately show ?thesis using Suc.IH [OF go walk] by blast
      next
        case (StepError msg)
        then show ?thesis using go walk by (cases fuel) (auto simp: walk_resume_error)
      qed
    next
      case (PausedAt p)
      then have e: "e = PausedRun p" using Suc.prems(1) Yield n(1) x by simp
      show ?thesis unfolding e run_end.case using Suc.prems(2) unfolding Yield by blast
    qed (use Suc.prems(1) Yield n(1) x in auto)
  qed (use Suc.prems in auto)
qed

lemma run_walk:
  assumes "branches_ok handlers input" "run env ids handlers input w = Some (w', st', e)"
  shows "case e of
      Finished r \<Rightarrow> \<exists>tr. walk_steps (in_graph input) (in_triggerPayload input) (in_resumeFrom input) tr (Return r) \<and>
        (r = WCompleted \<longrightarrow> rs_completed st' = trace_outputs (in_resumeFrom input) tr)
    | PausedRun p \<Rightarrow> \<exists>tr s ws. walk_steps (in_graph input) (in_triggerPayload input) (in_resumeFrom input) tr (Yield s ws)
    | RunThrew _ \<Rightarrow> True"
  using run_loop_walk [OF assms(1) assms(2) [unfolded run_def] walk_begin] walk_start_fresh
  by (simp add: initial_state_def trace_outputs_def)

end
