(* ===== verification/Node_Handlers.thy ===== *)
theory Node_Handlers
  imports Interpreter Datetime
begin

text \<open>
  The node handlers of \<^verbatim>\<open>apps/execution-worker/src/graph/nodes\<close> that need no other service: start,
  end, transform, branch, filter, merge, variables, datetime and wait. A handler that throws
  gives the message of its error; validation by a schema gives one message for all mismatches.

  The value that an object inherits under \<^verbatim>\<open>__proto__\<close> is not followed further, and assigning to
  that key, which replaces the prototype instead of adding a property, leaves the object alone.
\<close>

section \<open>Paths\<close>

definition path_step :: "jsval \<Rightarrow> string \<Rightarrow> jsval" where
  "path_step acc key = (if is_object acc \<and> has_prop acc key then js_get acc key else JUndef)"

definition getPath :: "jsval \<Rightarrow> string \<Rightarrow> jsval" where
  "getPath v path = (if path = [] then v else foldl path_step v (split_on (CHR ''.'') path))"

section \<open>Start, end and transform\<close>

definition start_execute :: "(string \<times> jsval) list \<Rightarrow> jsval \<Rightarrow> string + jsval" where
  "start_execute cfg i = Inr i"

definition end_execute :: "(string \<times> jsval) list \<Rightarrow> jsval \<Rightarrow> string + jsval" where
  "end_execute cfg i = Inr i"

definition transform_execute :: "(string \<times> jsval) list \<Rightarrow> jsval \<Rightarrow> string + jsval" where
  "transform_execute cfg i = (case z_string (coalesce (js_get (JObj cfg) ''expression'') (JStr [])) of
       None \<Rightarrow> Inl ''Invalid input''
     | Some path \<Rightarrow> Inr (JObj [(''output'', getPath i path)]))"

section \<open>Branch\<close>

text \<open>\<^verbatim>\<open>Object.entries\<close>; its characters are the entries of a string.\<close>

fun js_entries :: "jsval \<Rightarrow> (string \<times> jsval) list" where
  "js_entries (JObj ps) = ps"
| "js_entries (JArr xs) = map (\<lambda>(i, x). (nat_str i, x)) (List.enumerate 0 xs)"
| "js_entries (JStr s) = map (\<lambda>(i, c). (nat_str i, JStr [c])) (List.enumerate 0 s)"
| "js_entries _ = []"

lemma size_elem: "x \<in> set xs \<Longrightarrow> size (x :: jsval) < size (JArr xs)"
  by (induction xs) auto

lemma size_member: "p \<in> set ps \<Longrightarrow> size (snd p :: jsval) < size (JObj ps)"
  by (induction ps) (auto simp: size_prod_def split: prod.splits)

function deepEqual :: "jsval \<Rightarrow> jsval \<Rightarrow> bool" where
  "deepEqual a b = (case a of
       JArr xs \<Rightarrow> (case b of
           JArr ys \<Rightarrow> length xs = length ys \<and> list_all (\<lambda>p. deepEqual (fst p) (snd p)) (zip xs ys)
         | _ \<Rightarrow> False)
     | JObj ps \<Rightarrow> (case b of
           JObj qs \<Rightarrow> length ps = length qs \<and> list_all (\<lambda>p. deepEqual (snd p) (js_get b (fst p))) ps
         | _ \<Rightarrow> False)
     | _ \<Rightarrow> strict_eq a b)"
  by pat_completeness auto

termination
  by (relation "measure (\<lambda>(a, b). size a)") (auto dest!: set_zip_leftD size_member intro: size_elem
      simp del: jsval.size)

declare deepEqual.simps [simp del]

definition branch_execute :: "(string \<times> jsval) list \<Rightarrow> jsval \<Rightarrow> string + jsval" where
  "branch_execute cfg i =
    (let cases = coalesce (js_get (JObj cfg) ''cases'') (JObj []);
         branch = (case find (\<lambda>p. deepEqual (snd p) i) (js_entries cases) of
             Some p \<Rightarrow> JStr (fst p)
           | None \<Rightarrow> js_get (JObj cfg) ''defaultBranch'')
     in if \<not> truthy branch then Inl ''Branch node found no matching case for value''
        else (case branch of JStr b \<Rightarrow> Inr (JObj [(''branch'', JStr b)]) | _ \<Rightarrow> Inl ''Invalid output''))"

section \<open>Filter\<close>

datatype filter_operator =
    F_equals | F_notEquals | F_contains | F_notContains | F_greaterThan | F_lessThan
  | F_greaterThanOrEqual | F_lessThanOrEqual | F_isEmpty | F_isNotEmpty | F_exists | F_notExists

definition filter_operators :: "(string \<times> filter_operator) list" where
  "filter_operators = [(''equals'', F_equals), (''notEquals'', F_notEquals), (''contains'', F_contains),
     (''notContains'', F_notContains), (''greaterThan'', F_greaterThan), (''lessThan'', F_lessThan),
     (''greaterThanOrEqual'', F_greaterThanOrEqual), (''lessThanOrEqual'', F_lessThanOrEqual),
     (''isEmpty'', F_isEmpty), (''isNotEmpty'', F_isNotEmpty), (''exists'', F_exists), (''notExists'', F_notExists)]"

record filter_condition =
  fc_path :: string
  fc_operator :: filter_operator
  fc_value :: jsval

definition filterConditionSchema :: "jsval \<Rightarrow> filter_condition option" where
  "filterConditionSchema v = Option.bind (z_object v) (\<lambda>ob.
     Option.bind (z_string (js_get ob ''path'')) (\<lambda>p.
     Option.bind (z_string (js_get ob ''operator'')) (\<lambda>s.
     Option.bind (map_of filter_operators s) (\<lambda>op.
     Some \<lparr>fc_path = p, fc_operator = op, fc_value = js_get ob ''value''\<rparr>))))"

record filter_config =
  fi_items :: "jsval list"
  fi_conditions :: "filter_condition list"
  fi_and :: bool

definition filterInputSchema :: "(string \<times> jsval) list \<Rightarrow> jsval \<Rightarrow> filter_config option" where
  "filterInputSchema cfg i =
     Option.bind (z_array Some i) (\<lambda>items.
     Option.bind (z_default [] (z_array filterConditionSchema) (js_get (JObj cfg) ''conditions'')) (\<lambda>cs.
     Option.bind (z_default ''and'' (z_enum [''and'', ''or'']) (js_get (JObj cfg) ''combinator'')) (\<lambda>c.
     Some \<lparr>fi_items = items, fi_conditions = cs, fi_and = (c = ''and'')\<rparr>)))"

definition toComparableNumber :: "jsval \<Rightarrow> jsnum option" where
  "toComparableNumber v = (case v of
       JNum n \<Rightarrow> Some n
     | JStr s \<Rightarrow> if trim s = [] then None else (case Number_str s of NaN \<Rightarrow> None | n \<Rightarrow> Some n)
     | _ \<Rightarrow> None)"

definition isEmptyValue :: "jsval \<Rightarrow> bool" where
  "isEmptyValue v = (case v of JUndef \<Rightarrow> True | JNull \<Rightarrow> True | JStr s \<Rightarrow> s = [] | JArr xs \<Rightarrow> xs = [] | _ \<Rightarrow> False)"

definition contains_value :: "jsval \<Rightarrow> jsval \<Rightarrow> bool" where
  "contains_value actual v = (case (actual, v) of
       (JStr a, JStr w) \<Rightarrow> str_includes a w
     | (JArr xs, _) \<Rightarrow> list_ex (\<lambda>x. same_value_zero x v) xs
     | _ \<Rightarrow> False)"

definition compare_numbers :: "(jsnum \<Rightarrow> jsnum \<Rightarrow> bool) \<Rightarrow> jsval \<Rightarrow> jsval \<Rightarrow> bool" where
  "compare_numbers rel a b = (case (toComparableNumber a, toComparableNumber b) of
       (Some l, Some r) \<Rightarrow> rel l r | _ \<Rightarrow> False)"

definition matchesCondition :: "jsval \<Rightarrow> filter_condition \<Rightarrow> bool" where
  "matchesCondition item c =
    (let actual = getPath item (fc_path c); v = fc_value c in
     case fc_operator c of
       F_exists \<Rightarrow> actual \<noteq> JUndef
     | F_notExists \<Rightarrow> actual = JUndef
     | F_isEmpty \<Rightarrow> isEmptyValue actual
     | F_isNotEmpty \<Rightarrow> \<not> isEmptyValue actual
     | F_equals \<Rightarrow> strict_eq actual v
     | F_notEquals \<Rightarrow> \<not> strict_eq actual v
     | F_contains \<Rightarrow> contains_value actual v
     | F_notContains \<Rightarrow> \<not> contains_value actual v
     | F_greaterThan \<Rightarrow> compare_numbers (\<lambda>l r. num_less r l) actual v
     | F_lessThan \<Rightarrow> compare_numbers num_less actual v
     | F_greaterThanOrEqual \<Rightarrow> compare_numbers (\<lambda>l r. num_le r l) actual v
     | F_lessThanOrEqual \<Rightarrow> compare_numbers num_le actual v)"

definition filter_execute :: "(string \<times> jsval) list \<Rightarrow> jsval \<Rightarrow> string + jsval" where
  "filter_execute cfg i = (case filterInputSchema cfg i of
       None \<Rightarrow> Inl ''Invalid input''
     | Some p \<Rightarrow> Inr (JObj [(''items'', JArr (filter (\<lambda>item.
         fi_conditions p = [] \<or>
         (if fi_and p then list_all (matchesCondition item) (fi_conditions p)
          else list_ex (matchesCondition item) (fi_conditions p))) (fi_items p)))]))"

section \<open>Merge\<close>

definition js_assign :: "string \<Rightarrow> jsval \<Rightarrow> (string \<times> jsval) list \<Rightarrow> (string \<times> jsval) list" where
  "js_assign k v ps = (if k = ''__proto__'' then ps else obj_set k v ps)"

fun deepMerge :: "(string \<times> jsval) list \<Rightarrow> (string \<times> jsval) list \<Rightarrow> bool \<Rightarrow> (string \<times> jsval) list" where
  "deepMerge result [] preferSecond = result"
| "deepMerge result ((key, secondValue) # rest) preferSecond =
    deepMerge
      (case (js_get (JObj result) key, secondValue) of
         (JObj fs, JObj ss) \<Rightarrow> js_assign key (JObj (deepMerge fs ss preferSecond)) result
       | _ \<Rightarrow> if \<not> has_prop (JObj result) key \<or> preferSecond then js_assign key secondValue result else result)
      rest preferSecond"

definition zip_pair :: "bool \<Rightarrow> jsval \<Rightarrow> jsval \<Rightarrow> jsval" where
  "zip_pair preferSecond l r = JObj
    (if preferSecond then obj_spread (obj_from_entries (js_entries l)) (js_entries r)
     else obj_spread (obj_from_entries (js_entries r)) (js_entries l))"

datatype merge_mode = M_concat | M_deepMerge | M_zip

definition merge_modes :: "(string \<times> merge_mode) list" where
  "merge_modes = [(''concat'', M_concat), (''deepMerge'', M_deepMerge), (''zip'', M_zip)]"

definition mergeInputSchema ::
  "(string \<times> jsval) list \<Rightarrow> jsval \<Rightarrow> (merge_mode \<times> string option \<times> jsval \<times> jsval) option" where
  "mergeInputSchema cfg i =
     Option.bind (z_string (js_get (JObj cfg) ''mode'')) (\<lambda>s.
     Option.bind (map_of merge_modes s) (\<lambda>mode.
     Option.bind (z_optional (z_enum [''preferFirst'', ''preferSecond'']) (js_get (JObj cfg) ''conflictStrategy'')) (\<lambda>cs.
     case i of JArr [a, b] \<Rightarrow> Some (mode, cs, a, b) | _ \<Rightarrow> None)))"

definition merge_execute :: "(string \<times> jsval) list \<Rightarrow> jsval \<Rightarrow> string + jsval" where
  "merge_execute cfg i = (case mergeInputSchema cfg i of
       None \<Rightarrow> Inl ''Invalid input''
     | Some (mode, cs, first, second) \<Rightarrow>
         let preferSecond = (cs = Some ''preferSecond'') in
         bindE (case (mode, first, second) of
             (M_concat, JArr xs, JArr ys) \<Rightarrow> Inr (JArr (xs @ ys))
           | (M_concat, _, _) \<Rightarrow> Inl ''Merge node (concat) requires both inputs to be arrays''
           | (M_deepMerge, JObj ps, JObj qs) \<Rightarrow> Inr (JObj (deepMerge ps qs preferSecond))
           | (M_deepMerge, _, _) \<Rightarrow> Inl ''Merge node (deepMerge) requires both inputs to be objects''
           | (M_zip, JArr xs, JArr ys) \<Rightarrow> Inr (JArr (map (\<lambda>(l, r). zip_pair preferSecond l r) (zip xs ys)))
           | (M_zip, _, _) \<Rightarrow> Inl ''Merge node (zip) requires both inputs to be arrays'')
         (\<lambda>r. Inr (JObj [(''result'', r)])))"

section \<open>Variables\<close>

fun has_own :: "jsval \<Rightarrow> string \<Rightarrow> bool" where
  "has_own (JObj ps) k = (k \<in> fst ` set ps)"
| "has_own (JArr xs) k = (k = ''length'' \<or> (case array_index k of Some i \<Rightarrow> i < length xs | None \<Rightarrow> False))"
| "has_own _ k = False"

definition variables_execute :: "(string \<times> jsval) list \<Rightarrow> exec_context \<Rightarrow> string + jsval" where
  "variables_execute cfg cx =
    (let current = coalesce (cx_variables cx) (JObj []); op = js_get (JObj cfg) ''operation'' in
     if op = JStr ''get'' then
       let key = (case js_get (JObj cfg) ''key'' of JStr k \<Rightarrow> k | _ \<Rightarrow> []) in
       if blank key then Inr (JObj [(''found'', JBool True), (''value'', current)])
       else Inr (JObj [(''found'', JBool (has_own current key)), (''value'', coalesce (js_get current key) JNull)])
     else if op \<noteq> JStr ''set'' then Inl ''Variables node requires operation to be set or get''
     else
       let entries = (let e = js_get (JObj cfg) ''entries'' in if is_object e then js_entries e else [])
       in Inr (JObj [(''variables'', JObj (obj_spread (obj_from_entries (js_entries current)) entries))]))"

section \<open>Wait\<close>

text \<open>\<^verbatim>\<open>Number(v)\<close>: an array goes through its text.\<close>

fun js_Number :: "jsval \<Rightarrow> jsnum" where
  "js_Number JNull = Fin 0"
| "js_Number (JBool b) = Fin (if b then 1 else 0)"
| "js_Number (JNum n) = n"
| "js_Number (JStr s) = Number_str s"
| "js_Number (JArr []) = Fin 0"
| "js_Number (JArr [x]) = (case x of JUndef \<Rightarrow> Fin 0 | JBool _ \<Rightarrow> NaN | _ \<Rightarrow> js_Number x)"
| "js_Number _ = NaN"

definition WAIT_MS_PER_UNIT :: "(string \<times> int) list" where
  "WAIT_MS_PER_UNIT = [(''seconds'', 1000), (''minutes'', 60000), (''hours'', 3600000), (''days'', 86400000)]"

text \<open>
  The time in milliseconds at which the node resumes. An invalid date is not an error of this
  function: storing it throws.
\<close>

definition computeResumeAt :: "date_libs \<Rightarrow> int \<Rightarrow> (string \<times> jsval) list \<Rightarrow> string + int option" where
  "computeResumeAt L now cfg =
    (if js_get (JObj cfg) ''mode'' = JStr ''until'' then
       (case js_get (JObj cfg) ''until'' of
          JStr raw \<Rightarrow>
            if blank raw then Inl ''Wait node (until) requires an until timestamp''
            else (case parse_date L raw of None \<Rightarrow> Inl ''Wait node: could not parse until timestamp'' | Some t \<Rightarrow> Inr (Some t))
        | _ \<Rightarrow> Inl ''Wait node (until) requires an until timestamp'')
     else (case js_Number (js_get (JObj cfg) ''amount'') of
         Fin amount \<Rightarrow>
           if amount \<le> 0 then Inl ''Wait node (duration) requires a positive amount''
           else
             let unit = (case js_get (JObj cfg) ''unit'' of JStr u \<Rightarrow> u | _ \<Rightarrow> ''minutes'')
             in (case table_get WAIT_MS_PER_UNIT unit of
                   Missing \<Rightarrow> Inl ''Wait node: unknown unit''
                 | Inherited \<Rightarrow> Inr None
                 | Own ms \<Rightarrow> Inr (new_Date (of_int now + amount * of_int ms)))
       | _ \<Rightarrow> Inl ''Wait node (duration) requires a positive amount''))"

definition wait_execute :: "date_libs \<Rightarrow> env \<Rightarrow> (nat \<Rightarrow> uuid) \<Rightarrow> node_handler" where
  "wait_execute L env timer_ids cfg i cx w0 =
    (if cx_executionId cx = [] \<or> cx_nodeId cx = []
     then (w0, Inl (Plain ''Wait node requires executionId and nodeId in context'' None))
     else
       let w = tick env w0 in
       case getWaitTimer (cx_workspaceId cx) (cx_executionId cx) (cx_nodeId cx) (store w) of
         None \<Rightarrow>
           (case computeResumeAt L (wnow w div 1000) cfg of
              Inl e \<Rightarrow> (w, Inl (Plain e None))
            | Inr None \<Rightarrow> (w, Inl (Plain ''Invalid time value'' None))
            | Inr (Some resumeAt) \<Rightarrow>
                let w1 = tick env w;
                    t = \<lparr>wt_id = timer_ids (ticks w1), wt_workspaceId = cx_workspaceId cx,
                      wt_executionId = cx_executionId cx, wt_nodeId = cx_nodeId cx,
                      wt_resumeAt = resumeAt * 1000, wt_fired = False, wt_firedAt = None\<rparr>
                in case createWaitTimer t (store w1) of
                     (_, None) \<Rightarrow> (w1, Inl (PauseExecutionError (cx_nodeId cx)))
                   | (d, Some _) \<Rightarrow>
                       if wt_id t \<in> wt_id ` set (waitTimers (store w1))
                       then (w1, Inl (Plain (db_message (UniqueViolation ''wait_timers_pkey'')) None))
                       else (w1\<lparr>store := d\<rparr>, Inl (PauseExecutionError (cx_nodeId cx))))
       | Some t \<Rightarrow>
           if \<not> wt_fired t then (w, Inl (PauseExecutionError (cx_nodeId cx)))
           else (case wt_firedAt t of
               None \<Rightarrow> (w, Inl (Plain ''Cannot read properties of null'' None))
             | Some f \<Rightarrow> (w, Inr (JObj [(''resumedAt'', JStr (toISOString (f div 1000)))]))))"

section \<open>The handlers of the interpreter\<close>

text \<open>
  Handlers that call other services (HTTP, AI providers, connectors, approvals, memory) are
  parameters.
\<close>

definition lift_pure :: "string + jsval \<Rightarrow> world \<Rightarrow> world \<times> (node_error + jsval)" where
  "lift_pure r w = (w, case r of Inl e \<Rightarrow> Inl (Plain e None) | Inr v \<Rightarrow> Inr v)"

definition node_handlers ::
  "date_libs \<Rightarrow> env \<Rightarrow> (nat \<Rightarrow> uuid) \<Rightarrow> (node_type \<Rightarrow> node_handler) \<Rightarrow> node_type \<Rightarrow> node_handler" where
  "node_handlers L env timer_ids services t cfg i cx w = (case t of
       N_start \<Rightarrow> lift_pure (start_execute cfg i) w
     | N_end \<Rightarrow> lift_pure (end_execute cfg i) w
     | N_transform \<Rightarrow> lift_pure (transform_execute cfg i) w
     | N_branch \<Rightarrow> lift_pure (branch_execute cfg i) w
     | N_filter \<Rightarrow> lift_pure (filter_execute cfg i) w
     | N_merge \<Rightarrow> lift_pure (merge_execute cfg i) w
     | N_variables \<Rightarrow> lift_pure (variables_execute cfg cx) w
     | N_datetime \<Rightarrow> lift_pure (datetime_execute L (wnow w div 1000) cfg i) w
     | N_wait \<Rightarrow> wait_execute L env timer_ids cfg i cx w
     | _ \<Rightarrow> services t cfg i cx w)"

end
