(* ===== verification/Runs.thy ===== *)
theory Runs
  imports Node_Handlers
begin

text \<open>
  \<^verbatim>\<open>apps/execution-worker/src/runs\<close>: claiming an execution, keeping its lease alive, running its graph
  and writing the outcome (\<^verbatim>\<open>runs.service.ts\<close>, \<^verbatim>\<open>run-lease.service.ts\<close>), with the two functions of
  \<^verbatim>\<open>chat-message.repository.ts\<close> it uses for chat replies.

  Log lines are not modelled. A notification that is created for the members of a workspace is
  appended to \<open>sent\<close>; creating it never fails a run.
\<close>

section \<open>Leases\<close>

text \<open>Timestamps are microseconds.\<close>

definition LEASE_DURATION :: timestamp where
  "LEASE_DURATION = 30000 * 1000"

definition computeLeaseExpiry :: "timestamp \<Rightarrow> timestamp" where
  "computeLeaseExpiry now = now + LEASE_DURATION"

text \<open>One beat of the heartbeat: a renewal that finds no row aborts the run.\<close>

definition heartbeat :: "uuid \<Rightarrow> string \<Rightarrow> env" where
  "heartbeat xid who w = (case renewLease (wnow w) xid who (computeLeaseExpiry (wnow w)) (store w) of
       (d, None) \<Rightarrow> w\<lparr>store := d, aborted := True\<rparr>
     | (d, Some _) \<Rightarrow> w\<lparr>store := d\<rparr>)"

section \<open>Chat replies\<close>

definition getUserChatMessageById :: "uuid \<Rightarrow> uuid \<Rightarrow> uuid \<Rightarrow> uuid \<Rightarrow> db \<Rightarrow> chat_message option" where
  "getUserChatMessageById ws wfid conv mid d = find (\<lambda>m.
     list_ex (\<lambda>c. cv_id c = cm_conversationId m \<and> cv_workspaceId c = cm_workspaceId m \<and> cv_workflowId c = wfid)
       (conversations d) \<and>
     cm_id m = mid \<and> cm_workspaceId m = ws \<and> cm_conversationId m = conv \<and> cm_role m = R_user) (chatMessages d)"

definition createChatMessage :: "timestamp \<Rightarrow> chat_message \<Rightarrow> db \<Rightarrow> db_error + db" where
  "createChatMessage now m d =
    (if \<not> list_ex (\<lambda>c. cv_id c = cm_conversationId m \<and> cv_workspaceId c = cm_workspaceId m) (conversations d)
     then Inl (ForeignKeyViolation ''chat_messages_conversation_fkey'')
     else if cm_clientMessageId m \<noteq> None \<and> list_ex (\<lambda>r. cm_conversationId r = cm_conversationId m \<and>
       cm_clientMessageId r = cm_clientMessageId m) (chatMessages d)
     then Inl (UniqueViolation ''chat_messages_conversation_client_message_uidx'')
     else Inr (d\<lparr>chatMessages := chatMessages d @ [m],
       conversations := fst (update_where (\<lambda>c. cv_id c = cm_conversationId m \<and> cv_workspaceId c = cm_workspaceId m)
         (\<lambda>c. c\<lparr>cv_lastActivityAt := max (cv_lastActivityAt c) (cm_createdAt m), cv_updatedAt := now\<rparr>) (conversations d))\<rparr>))"

text \<open>The loop of the source goes from the last completed node to the first.\<close>

definition reply_text :: "jsval \<Rightarrow> string option" where
  "reply_text v = (if is_object v then str_field v ''text'' else None)"

definition extractAssistantReply :: "outputs \<Rightarrow> workflow_graph \<Rightarrow> string option" where
  "extractAssistantReply m g =
    (let aiNodeIds = map node_id (filter (\<lambda>n. node_type n = N_ai) (nodes g)) in
     Option.bind (find (\<lambda>p. fst p \<in> set aiNodeIds \<and> reply_text (snd p) \<noteq> None) (rev m)) (\<lambda>p. reply_text (snd p)))"

section \<open>One execution\<close>

text \<open>What a run depends on: the process' environment, generated identifiers, services.\<close>

record run_libs =
  rl_config :: config_libs
  rl_env :: env
  rl_ids :: id_supply
  rl_handlers :: "node_type \<Rightarrow> node_handler"
  rl_octets :: "jsval \<Rightarrow> nat"
  rl_message_seq :: "nat \<Rightarrow> int"

datatype run_result = NotClaimable | PausedExecution | Completed | FailedRun string

definition getWorkflowVersionById :: "uuid \<Rightarrow> db \<Rightarrow> workflow_version option" where
  "getWorkflowVersionById vid d = find (\<lambda>v. wv_id v = vid) (workflowVersions d)"

definition notifyExecutionFailed :: "execution \<Rightarrow> string \<Rightarrow> world \<Rightarrow> world" where
  "notifyExecutionFailed x msg w =
    (let name = (case find (\<lambda>f. wf_id f = ex_workflowId x \<and> wf_workspaceId f = ex_workspaceId x) (workflows (store w)) of
         None \<Rightarrow> ''Workflow'' | Some f \<Rightarrow> wf_name f)
     in w\<lparr>sent := sent w @ [(''execution.failed'', JObj [(''title'', JStr (name @ '' run failed'')),
       (''body'', JStr msg), (''workflowId'', JStr (ex_workflowId x)), (''executionId'', JStr (ex_id x)),
       (''workspaceId'', JStr (ex_workspaceId x))])]\<rparr>)"

text \<open>
  \<^verbatim>\<open>completeExecution\<close> with the totals of a run; a total that does not fit its column throws.
\<close>

definition complete_service ::
  "run_libs \<Rightarrow> uuid \<Rightarrow> string \<Rightarrow> final_status \<Rightarrow> run_error option \<Rightarrow> jsnum \<Rightarrow> jsnum \<Rightarrow> int \<Rightarrow> bool option \<Rightarrow>
     world \<Rightarrow> world \<times> (node_error + execution option)" where
  "complete_service L xid who status err tin tout cost unpriced w0 =
    (let w = tick (rl_env L) w0 in
     case (int_column (Some tin), int_column (Some tout)) of
       (Some i, Some u) \<Rightarrow>
         (case completeExecution (rl_octets L) (new_message_id (rl_ids L (ticks w))) (wnow w) xid who
            \<lparr>co_status = status, co_error = err, co_costMicros = cost, co_costUnpriced = unpriced,
             co_tokensInput = i, co_tokensOutput = u\<rparr> (store w) of
            Inl e \<Rightarrow> (w, Inl (Plain (db_message e) None))
          | Inr (d, r) \<Rightarrow> (w\<lparr>store := d\<rparr>, Inr r))
     | _ \<Rightarrow> (w, Inl (Plain ''invalid input syntax for type integer'' None)))"

text \<open>
  Running the graph until it ends or pauses for good. A pause that turns out to be resolved
  already runs the interpreter again from the same input; each round either ends the loop or
  finds another resolved pause, so the loop takes fuel.
\<close>

datatype loop_end = Ran run_state walk_result | LoopPaused run_state | LoopThrew node_error

fun run_until_settled :: "nat \<Rightarrow> run_libs \<Rightarrow> run_input \<Rightarrow> world \<Rightarrow> (world \<times> loop_end) option" where
  "run_until_settled 0 L input w = None"
| "run_until_settled (Suc fuel) L input w =
    (case run (rl_env L) (rl_ids L) (rl_handlers L) input w of
       None \<Rightarrow> None
     | Some (w1, st, Finished r) \<Rightarrow> Some (w1, Ran st r)
     | Some (w1, st, RunThrew e) \<Rightarrow> Some (w1, LoopThrew e)
     | Some (w1, st, PausedRun p) \<Rightarrow>
         let w2 = tick (rl_env L) w1;
             wait = (case find (\<lambda>n. node_id n = p) (nodes (in_graph input)) of
               None \<Rightarrow> False | Some n \<Rightarrow> node_type n = N_wait);
             claim = (if wait
               then claimPauseForPendingWait (wnow w2) (in_workspaceId input) (in_executionId input) p
                 (in_leasedBy input) (store w2)
               else claimPauseForPendingApprovalRequest (wnow w2) (in_workspaceId input) (in_executionId input) p
                 (in_leasedBy input) (store w2));
             w3 = w2\<lparr>store := fst claim\<rparr>
         in (case snd claim of
               PauseDone \<Rightarrow> Some (w3, LoopPaused st)
             | LeaseLost \<Rightarrow> Some (w3, LoopThrew LeaseLostError)
             | AlreadyResolved \<Rightarrow> run_until_settled fuel L input w3))"

text \<open>A chat reply is written only for a real user turn; a failure to write it is swallowed.\<close>

definition save_reply :: "run_libs \<Rightarrow> execution \<Rightarrow> workflow_graph \<Rightarrow> outputs \<Rightarrow> world \<Rightarrow> world" where
  "save_reply L x g m w =
    (let payload = (case ex_triggerPayload x of None \<Rightarrow> JNull | Some p \<Rightarrow> p) in
     case (extractConversationId payload, extractAssistantReply m g, extractChatMessageId payload) of
       (Some conv, Some reply, Some chatMessageId) \<Rightarrow>
         if conv = [] \<or> reply = [] \<or> chatMessageId = [] then w
         else (case getUserChatMessageById (ex_workspaceId x) (ex_workflowId x) conv chatMessageId (store w) of
             None \<Rightarrow> w
           | Some msg \<Rightarrow>
               let w1 = tick (rl_env L) w in
               (case createChatMessage (wnow w1) \<lparr>cm_id = new_step (rl_ids L (ticks w1)),
                   cm_workspaceId = ex_workspaceId x, cm_conversationId = conv, cm_clientMessageId = None,
                   cm_executionId = Some (ex_id x), cm_respondsToMessageId = Some (cm_id msg),
                   cm_sequence = rl_message_seq L (ticks w1), cm_role = R_assistant, cm_content = reply,
                   cm_createdAt = wnow w1\<rparr> (store w1) of
                  Inl _ \<Rightarrow> w1
                | Inr d \<Rightarrow> w1\<lparr>store := d\<rparr>))
     | _ \<Rightarrow> w)"

text \<open>The \<^verbatim>\<open>try\<close> block after the claim: left is a thrown error.\<close>

definition settle_outcome ::
  "run_libs \<Rightarrow> execution \<Rightarrow> string \<Rightarrow> workflow_graph \<Rightarrow> loop_end \<Rightarrow> world \<Rightarrow> world \<times> (node_error + run_result)" where
  "settle_outcome L x who g out w = (case out of
       LoopThrew e \<Rightarrow> (w, Inl e)
     | LoopPaused st \<Rightarrow> (w, Inr PausedExecution)
     | Ran st WCompleted \<Rightarrow>
         (case complete_service L (ex_id x) who F_succeeded None (rs_tokensInput st) (rs_tokensOutput st)
            (rs_costMicros st) (rs_costUnpriced st) w of
            (w1, Inl e) \<Rightarrow> (w1, Inl e)
          | (w1, Inr _) \<Rightarrow> (save_reply L x g (rs_completed st) w1, Inr Completed))
     | Ran st (WFailed n msg) \<Rightarrow>
         (case complete_service L (ex_id x) who F_failed (Some \<lparr>err_message = msg, err_stepId = Some n\<rparr>)
            (rs_tokensInput st) (rs_tokensOutput st) (rs_costMicros st) (rs_costUnpriced st) w of
            (w1, Inl e) \<Rightarrow> (w1, Inl e)
          | (w1, Inr None) \<Rightarrow> (w1, Inr (FailedRun msg))
          | (w1, Inr (Some f)) \<Rightarrow> (notifyExecutionFailed f msg w1, Inr (FailedRun msg))))"

definition run_claimed ::
  "nat \<Rightarrow> run_libs \<Rightarrow> execution \<Rightarrow> string \<Rightarrow> world \<Rightarrow> (world \<times> (node_error + run_result)) option" where
  "run_claimed fuel L x who w0 =
    (let w1 = tick (rl_env L) w0; totals = getResumeTokenTotals (ex_id x) (store w1);
         w2 = tick (rl_env L) w1
     in case getWorkflowVersionById (ex_workflowVersionId x) (store w2) of
          None \<Rightarrow> Some (w2, Inl (Plain (''Workflow version '' @ ex_workflowVersionId x @ '' not found'') None))
        | Some v \<Rightarrow>
            (case workflowGraphSchema (wv_graph v) of
               None \<Rightarrow> Some (w2, Inl (Plain ''Invalid workflow graph'' None))
             | Some g \<Rightarrow>
                 (case validateGraphStructure (rl_config L) g of
                    Inl _ \<Rightarrow> Some (w2, Inl (Plain ''Invalid workflow graph structure'' None))
                  | Inr _ \<Rightarrow>
                      let w3 = tick (rl_env L) w2; resumeFrom = getResumeState (ex_id x) (store w3);
                          w4 = tick (rl_env L) w3; vars = getResumeVariables (ex_id x) (store w4);
                          (w5, ev) = (if resumeFrom \<noteq> []
                            then recordResumeEvent_service (rl_env L) (rl_ids L) (ex_id x) (ex_workspaceId x) who w4
                            else (w4, Inr ()))
                      in (case ev of
                            Inl e \<Rightarrow> Some (w5, Inl e)
                          | Inr _ \<Rightarrow>
                              (case run_until_settled fuel L
                                 \<lparr>in_executionId = ex_id x, in_workspaceId = ex_workspaceId x,
                                  in_environmentId = ex_environmentId x, in_workflowId = ex_workflowId x,
                                  in_workflowVersionId = ex_workflowVersionId x, in_leasedBy = who, in_graph = g,
                                  in_triggerPayload = (case ex_triggerPayload x of None \<Rightarrow> JNull | Some p \<Rightarrow> p),
                                  in_resumeFrom = resumeFrom, in_totals = totals, in_variables = vars\<rparr> w5 of
                                 None \<Rightarrow> None
                               | Some (w6, out) \<Rightarrow> Some (settle_outcome L x who g out w6))))))"

text \<open>
  The \<^verbatim>\<open>catch\<close> block: the execution is failed with the totals recorded so far and the error is thrown
  again, unless completing the execution throws one of its own.
\<close>

definition fail_run :: "run_libs \<Rightarrow> execution \<Rightarrow> string \<Rightarrow> node_error \<Rightarrow> world \<Rightarrow> world \<times> node_error" where
  "fail_run L x who e w0 =
    (let w = tick (rl_env L) w0; t = getResumeTokenTotals (ex_id x) (store w);
         msg = error_message e
     in case complete_service L (ex_id x) who F_failed (Some \<lparr>err_message = msg, err_stepId = None\<rparr>)
          (Fin (of_int (tt_tokensInput t))) (Fin (of_int (tt_tokensOutput t))) (tt_costMicros t) (tt_costUnpriced t) w of
          (w1, Inr (Some f)) \<Rightarrow> (notifyExecutionFailed f msg w1, e)
        | (w1, Inr None) \<Rightarrow> (w1, e)
        | (w1, Inl e') \<Rightarrow> (w1, e'))"

definition execute ::
  "nat \<Rightarrow> run_libs \<Rightarrow> string \<Rightarrow> uuid \<Rightarrow> world \<Rightarrow> (world \<times> (node_error + run_result)) option" where
  "execute fuel L attemptId xid w0 =
    (let w = tick (rl_env L) w0 in
     case startExecution (wnow w) xid attemptId (computeLeaseExpiry (wnow w)) (store w) of
       (d, None) \<Rightarrow> Some (w\<lparr>store := d\<rparr>, Inr NotClaimable)
     | (d, Some x) \<Rightarrow>
         (case run_claimed fuel L x attemptId (w\<lparr>store := d\<rparr>) of
            None \<Rightarrow> None
          | Some (w1, Inr r) \<Rightarrow> Some (w1, Inr r)
          | Some (w1, Inl e) \<Rightarrow> (case fail_run L x attemptId e w1 of (w2, e') \<Rightarrow> Some (w2, Inl e'))))"


section \<open>The environment of a run\<close>

text \<open>A write of the worker itself that touches neither the lessee nor the history.\<close>

lemma own_step_undisturbed:
  assumes "store_step now a d d'" "map (\<lambda>x. (ex_id x, ex_leasedBy x)) (executions d') = map (\<lambda>x. (ex_id x, ex_leasedBy x)) (executions d)"
    "executionSteps d' = executionSteps d" "checkpoints d' = checkpoints d"
  shows "undisturbed who xid d d'"
proof -
  have "(xid, Some who) \<in> set (map (\<lambda>x. (ex_id x, ex_leasedBy x)) (executions e)) \<longleftrightarrow> leased_to who xid e" for e
    by (auto simp: leased_to_def image_iff)
  from this [of d] this [of d'] have "leased_to who xid d' = leased_to who xid d" unfolding assms(2) by simp
  then show ?thesis using assms(1,3,4) store_step_inv by (auto simp: undisturbed_def history_def)
qed

lemma heartbeat_undisturbed: "undisturbed who xid (store w) (store (heartbeat x p w))"
proof -
  obtain d r where r: "renewLease (wnow w) x p (computeLeaseExpiry (wnow w)) (store w) = (d, r)" by fastforce
  then have "d = fst (renewLease (wnow w) x p (computeLeaseExpiry (wnow w)) (store w))" by simp
  then have "map (\<lambda>x. (ex_id x, ex_leasedBy x)) (executions d) = map (\<lambda>x. (ex_id x, ex_leasedBy x)) (executions (store w))"
    "executionSteps d = executionSteps (store w)" "checkpoints d = checkpoints (store w)"
    by (simp_all add: renewLease_def map_update_where)
  from own_step_undisturbed [OF do_renew [OF r] this] have "undisturbed who xid (store w) d" .
  then show ?thesis using r by (auto simp: heartbeat_def split: option.splits)
qed

lemma createWaitTimer_undisturbed:
  assumes "createWaitTimer t d = (d', Some t')" "wt_id t \<notin> wt_id ` set (waitTimers d)" "\<not> wt_fired t"
  shows "undisturbed who xid d d'"
  using own_step_undisturbed [OF do_timer [OF assms(2,3,1)]] assms(1)
  by (auto simp: createWaitTimer_def split: if_splits)

lemma wait_execute_undisturbed:
  assumes env: "\<And>w. undisturbed who xid (store w) (store (env w))"
  shows "undisturbed who xid (store w) (store (fst (wait_execute D env timer_ids cfg i cx w)))"
proof -
  have tick: "undisturbed who xid (store v) (store (tick env v))" for v
    using env [of "v\<lparr>ticks := Suc (ticks v)\<rparr>"] by (simp add: tick_def)
  have two: "undisturbed who xid (store w) (store (tick env (tick env w)))"
    using undisturbed_trans tick by blast
  define t where "t = (\<lambda>r (v :: world). \<lparr>wt_id = timer_ids (ticks v), wt_workspaceId = cx_workspaceId cx,
    wt_executionId = cx_executionId cx, wt_nodeId = cx_nodeId cx, wt_resumeAt = r * 1000, wt_fired = False,
    wt_firedAt = None\<rparr>)"
  have new: "undisturbed who xid (store w) d"
    if "createWaitTimer (t r v) (store v) = (d, Some x)" "wt_id (t r v) \<notin> wt_id ` set (waitTimers (store v))"
      "v = tick env (tick env w)" for d v r x
    using undisturbed_trans [OF two] createWaitTimer_undisturbed [OF that(1,2)] that(3) by (simp add: t_def)
  show ?thesis
    using tick [of w] two new
    by (auto simp: wait_execute_def Let_def t_def split: option.split sum.split prod.split)
qed

lemma node_handlers_undisturbed:
  assumes "\<And>w. undisturbed who xid (store w) (store (env w))"
    "\<And>t cfg i cx w. undisturbed who xid (store w) (store (fst (services t cfg i cx w)))"
  shows "undisturbed who xid (store w) (store (fst (node_handlers D env timer_ids services t cfg i cx w)))"
  using assms(2) wait_execute_undisturbed [OF assms(1)]
  by (cases t) (simp_all add: node_handlers_def lift_pure_def)

text \<open>A worker whose environment is its own heartbeat and that has no external services.\<close>

definition no_services :: "node_type \<Rightarrow> node_handler" where
  "no_services t cfg i cx w = (w, Inl (NonRetryable ''service not configured'' None))"

interpretation lone_worker:
  fenced_worker "heartbeat xid who" "node_handlers D (heartbeat xid who) timer_ids no_services" who xid
  for D timer_ids xid who
  by unfold_locales (auto intro!: heartbeat_undisturbed node_handlers_undisturbed simp: no_services_def)


section \<open>Runs end, and a pause or an end can be resumed from\<close>

text \<open>
  C19. Every run ends, whatever the environment and the handlers do. When it reports completion,
  it has executed nodes of the walk one by one, each once and none that was completed before,
  its outputs are those of that walk, and no node is left that could run.
\<close>

theorem run_ends_as_walk:
  assumes "validateGraphStructure C (in_graph input) = Inr ()" "outputs_ok (in_graph input) (in_resumeFrom input)"
    "branches_ok handlers input"
  shows "\<exists>w' st' e. run env ids handlers input w = Some (w', st', e) \<and> (e = Finished WCompleted \<longrightarrow>
    (\<exists>tr. walk_steps (in_graph input) (in_triggerPayload input) (in_resumeFrom input) tr (Return WCompleted) \<and>
       rs_completed st' = trace_outputs (in_resumeFrom input) tr \<and> distinct (map fst tr) \<and>
       set (map fst tr) \<inter> set (omap_keys (in_resumeFrom input)) = {} \<and>
       frontier (in_graph input) (rs_completed st') = {}))"
proof -
  obtain w' st' e where r: "run env ids handlers input w = Some (w', st', e)"
    using run_total [of env ids handlers input w] by (metis prod_cases3)
  have "\<exists>tr. walk_steps (in_graph input) (in_triggerPayload input) (in_resumeFrom input) tr (Return WCompleted) \<and>
       rs_completed st' = trace_outputs (in_resumeFrom input) tr \<and> distinct (map fst tr) \<and>
       set (map fst tr) \<inter> set (omap_keys (in_resumeFrom input)) = {} \<and>
       frontier (in_graph input) (rs_completed st') = {}"
    if "e = Finished WCompleted"
  proof -
    obtain tr where tr: "walk_steps (in_graph input) (in_triggerPayload input) (in_resumeFrom input) tr (Return WCompleted)"
      "rs_completed st' = trace_outputs (in_resumeFrom input) tr"
      using run_walk [OF assms(3) r] \<open>e = Finished WCompleted\<close> by auto
    from walk_steps_ok [OF assms(1,2) tr(1)] tr(2)
    have "distinct (map fst tr) \<and> set (map fst tr) \<inter> set (omap_keys (in_resumeFrom input)) = {} \<and>
        frontier (in_graph input) (rs_completed st') = {}"
      by (simp add: event_ok_def)
    with tr show ?thesis by blast
  qed
  with r show ?thesis by blast
qed

text \<open>
  C20. A run that pauses, fails or completes leaves in the database exactly the state it reached:
  as long as the worker still holds the lease, whoever resumes reads back every output and the
  variables as the JSON columns store them, in order, although other processes act between any
  two of the worker's steps.
\<close>

theorem run_resumable:
  assumes "\<And>w. undisturbed who xid (store w) (store (env w))"
    "\<And>t cfg i cx w. cx_executionId cx = xid \<Longrightarrow> cx_leasedBy cx = who \<Longrightarrow>
      undisturbed who xid (store w) (store (fst (handlers t cfg i cx w)))"
    "in_executionId input = xid" "in_leasedBy input = who"
    "store_inv (store w)" "checkpointed xid (initial_state input) (store w)"
    "run env ids handlers input w = Some (w', st', e)" "\<forall>err. e \<noteq> RunThrew err" "leased_to who xid (store w')"
  shows "getResumeState xid (store w') = stored_outputs (rs_completed st') \<and>
    getResumeVariables xid (store w') = stored_variables (rs_variables st')"
proof -
  have "fenced_worker env handlers who xid"
    by unfold_locales (use assms(1,2) in blast)+
  from fenced_worker.run_saved [OF this assms(3,4,7,9,5,6,8)] show ?thesis by (simp add: resume_matches_def)
qed

section \<open>An example run\<close>

definition waiting_graph :: workflow_graph where
  "waiting_graph = \<lparr>version = 1, trigger = Manual, entryNodeId = ''s'',
     nodes = [mk_node ''s'' N_start [], mk_node ''t'' N_wait [(''amount'', JStr ''0.05''), (''unit'', JStr ''seconds'')],
       mk_node ''e'' N_end []],
     edges = [mk_edge ''s'' ''t'' None, mk_edge ''t'' ''e'' None]\<rparr>"

definition waiting_input :: run_input where
  "waiting_input = \<lparr>in_executionId = ''x'', in_workspaceId = ''ws'', in_environmentId = Some ''env'',
     in_workflowId = ''wf'', in_workflowVersionId = ''v'', in_leasedBy = ''worker'', in_graph = waiting_graph,
     in_triggerPayload = JNull, in_resumeFrom = [], in_totals = \<lparr>tt_tokensInput = 0, tt_tokensOutput = 0,
     tt_costMicros = 0, tt_costUnpriced = Some False\<rparr>, in_variables = JObj []\<rparr>"

definition claimed_store :: db where
  "claimed_store = empty_db\<lparr>executions := [(new_row ''x'' 0 ''ws'' ''wf'' ''v'' ''env'' T_manual)
     \<lparr>ex_status := Running, ex_leasedBy := Some ''worker'', ex_leaseExpiresAt := Some 31000000\<rparr>]\<rparr>"

text \<open>Between two actions of the worker time passes and the poller of wait timers runs.\<close>

definition busy_env :: "int \<Rightarrow> env" where
  "busy_env step w = (let now = wnow w + step; mid = ''m'' @ nat_str (ticks w) in
     w\<lparr>wnow := now, store := fst (claimAndResolveDueWaitTimer mid {} now (store w))\<rparr>)"

definition no_dates :: date_libs where
  "no_dates = \<lparr>parse_date = (\<lambda>_. None), zone_parts = (\<lambda>_ _. None)\<rparr>"

definition numbered_ids :: id_supply where
  "numbered_ids n = (let k = nat_str n in \<lparr>new_execution = ''x'' @ k, new_message_id = ''o'' @ k,
     new_subject = ''u'' @ k, new_step = ''p'' @ k, new_checkpoint = ''c'' @ k, new_span = ''q'' @ k\<rparr>)"

definition example_libs :: "env \<Rightarrow> run_libs" where
  "example_libs env = \<lparr>rl_config = any_config, rl_env = env, rl_ids = numbered_ids,
     rl_handlers = node_handlers no_dates env (\<lambda>n. ''w'' @ nat_str n) no_services,
     rl_octets = (\<lambda>_. 100), rl_message_seq = int\<rparr>"

definition start_world :: "db \<Rightarrow> world" where
  "start_world d = \<lparr>store = d, wnow = 1000000, ticks = 0, aborted = False, sent = []\<rparr>"


definition example_handlers :: "env \<Rightarrow> node_type \<Rightarrow> node_handler" where
  "example_handlers env = node_handlers no_dates env (\<lambda>n. ''w'' @ nat_str n) no_services"

lemma claimed_store_inv: "store_inv claimed_store"
  unfolding store_inv_def
proof (intro conjI)
  show "wakeup_inv claimed_store" by code_simp
  show "list_all row_ok (executions claimed_store)" by code_simp
  show "distinct (map ex_id (executions claimed_store))" "distinct (map wt_id (waitTimers claimed_store))"
    by (simp_all add: claimed_store_def empty_db_def)
  show "outbox_inv claimed_store" by (simp add: outbox_inv_def claimed_store_def empty_db_def)
  show "approval_inv claimed_store" by (simp add: approval_inv_def claimed_store_def empty_db_def)
qed

lemma example_handlers_undisturbed:
  "undisturbed who xid (store w) (store (fst (example_handlers (heartbeat y p) t cfg i cx w)))"
  unfolding example_handlers_def
  by (rule node_handlers_undisturbed) (simp_all add: heartbeat_undisturbed no_services_def)

lemma paused_example:
  "map_option (\<lambda>(w, st, e). (map (\<lambda>x. (ex_id x, ex_leasedBy x)) (executions (store w)), rs_completed st, e))
     (run (heartbeat ''x'' ''worker'') numbered_ids (example_handlers (heartbeat ''x'' ''worker'')) waiting_input
       (start_world claimed_store)) =
   Some ([(''x'', Some ''worker'')], [(''s'', JNull)], PausedRun ''t'')"
  by code_simp

text \<open>C93 on a run that pauses at a wait node: the output of the start node is read back.\<close>

theorem run_resumable_witness:
  "\<exists>w' st'. run (heartbeat ''x'' ''worker'') numbered_ids (example_handlers (heartbeat ''x'' ''worker'')) waiting_input
       (start_world claimed_store) = Some (w', st', PausedRun ''t'') \<and>
     getResumeState ''x'' (store w') = [(''s'', JNull)]"
proof -
  obtain w' st' where r: "run (heartbeat ''x'' ''worker'') numbered_ids (example_handlers (heartbeat ''x'' ''worker''))
      waiting_input (start_world claimed_store) = Some (w', st', PausedRun ''t'')"
    and l: "map (\<lambda>x. (ex_id x, ex_leasedBy x)) (executions (store w')) = [(''x'', Some ''worker'')]"
    and c: "rs_completed st' = [(''s'', JNull)]"
    using paused_example by (auto split: prod.splits)
  have "leased_to ''worker'' ''x'' (store w')" using l by (auto simp: leased_to_def)
  moreover have "getResumeState ''x'' claimed_store = []" "getResumeVariables ''x'' claimed_store = JObj []"
    "stored_outputs [] = []" "stored_variables (coalesce (JObj []) (JObj [])) = JObj []" "history ''x'' claimed_store = ([], [])"
    by code_simp+
  then have "checkpointed ''x'' (initial_state waiting_input) (store (start_world claimed_store))"
    by (simp add: checkpointed_def resume_matches_def initial_state_def waiting_input_def start_world_def)
  moreover have "store_inv (store (start_world claimed_store))" by (simp add: start_world_def claimed_store_inv)
  moreover have "in_executionId waiting_input = ''x''" "in_leasedBy waiting_input = ''worker''"
    by (simp_all add: waiting_input_def)
  ultimately have "getResumeState ''x'' (store w') = stored_outputs (rs_completed st')"
    using run_resumable [OF heartbeat_undisturbed example_handlers_undisturbed _ _ _ _ r] by simp
  moreover have "stored_outputs [(''s'', JNull)] = [(''s'', JNull)]" by code_simp
  ultimately show ?thesis using r c by simp
qed

definition short_graph :: workflow_graph where
  "short_graph = \<lparr>version = 1, trigger = Manual, entryNodeId = ''s'',
     nodes = [mk_node ''s'' N_start [], mk_node ''e'' N_end []], edges = [mk_edge ''s'' ''e'' None]\<rparr>"

definition short_input :: run_input where
  "short_input = waiting_input\<lparr>in_graph := short_graph\<rparr>"

lemma completed_example:
  "map_option (\<lambda>(w, st, e). (map fst (rs_completed st), e))
     (run (heartbeat ''x'' ''worker'') numbered_ids (example_handlers (heartbeat ''x'' ''worker'')) short_input
       (start_world claimed_store)) = Some ([''s'', ''e''], Finished WCompleted)"
  by code_simp

text \<open>C92 on a run of two nodes.\<close>

theorem run_ends_as_walk_witness:
  "\<exists>tr. walk_steps short_graph JNull [] tr (Return WCompleted) \<and> distinct (map fst tr) \<and>
     map fst (trace_outputs [] tr) = [''s'', ''e'']"
proof -
  let ?h = "example_handlers (heartbeat ''x'' ''worker'')"
  obtain w' st' where r: "run (heartbeat ''x'' ''worker'') numbered_ids ?h short_input (start_world claimed_store) =
      Some (w', st', Finished WCompleted)" and c: "map fst (rs_completed st') = [''s'', ''e'']"
    using completed_example by (auto split: prod.splits)
  have "validateGraphStructure any_config (in_graph short_input) = Inr ()" by code_simp
  moreover have "\<not> is_branch short_graph (node_id n)" if "n \<in> set (nodes short_graph)" for n
    using that by (auto simp: is_branch_def node_of_def short_graph_def mk_node_def)
  then have "branches_ok ?h short_input"
    by (auto simp: branches_ok_def short_input_def good_output_def)
  moreover have "outputs_ok (in_graph short_input) (in_resumeFrom short_input)"
    by (simp add: outputs_ok_def short_input_def waiting_input_def)
  ultimately show ?thesis
    using run_ends_as_walk [of any_config short_input ?h "heartbeat ''x'' ''worker''" numbered_ids "start_world claimed_store"]
      r c by (auto simp: short_input_def waiting_input_def)
qed


end
