(* ===== verification/Action_Intents.thy ===== *)
theory Action_Intents
  imports Approvals Checkpoints
begin

text \<open>
  Action intents, \<^verbatim>\<open>packages/db/src/repositories/action-intent.repository.ts\<close>: an operation of a
  connector with side effects is first recorded with a digest of everything it will do, shown to
  a reviewer, and dispatched only after consent, by the worker that holds the lease of the
  execution.

  Each function is one transaction. The source reads the intent and its decision once without
  and once with locks; inside one transaction of the model both reads see the same rows.
\<close>

section \<open>Authority over a connection\<close>

record authority_input =
  au_workspaceId :: uuid
  au_environmentId :: uuid
  au_externalSubjectId :: uuid
  au_provider :: string
  au_actionFamily :: string
  au_requiredScopes :: "string list"

datatype authority = Authorized | Invalid | Reauthorization_required | Scope_insufficient

definition provider_policy_of :: "string \<Rightarrow> environment_row option \<Rightarrow> provider_policy option" where
  "provider_policy_of provider e =
     Option.bind e (\<lambda>e. find (\<lambda>p. pp_provider p = provider) (env_connectorAccessPolicy e))"

definition connection_owned :: "connection_row option \<Rightarrow> authority_input \<Rightarrow> bool" where
  "connection_owned c inp = (case c of None \<Rightarrow> False | Some c \<Rightarrow>
     cn_workspaceId c = au_workspaceId inp \<and> cn_environmentId c = au_environmentId inp \<and>
     (cn_ownership c = Environment_owned \<or> cn_externalSubjectId c = Some (au_externalSubjectId inp)) \<and>
     cn_provider c = au_provider inp)"

definition status_is :: "string \<Rightarrow> connection_row option \<Rightarrow> bool" where
  "status_is v c = (case c of None \<Rightarrow> False | Some c \<Rightarrow> cn_status c = v)"

definition connectionAuthorityBoundary ::
  "connection_row option \<Rightarrow> environment_row option \<Rightarrow> authority_input \<Rightarrow> authority" where
  "connectionAuthorityBoundary c e inp =
    (let policy = provider_policy_of (au_provider inp) e;
         owned = connection_owned c inp;
         missing = list_ex (\<lambda>s. case c of None \<Rightarrow> True | Some c \<Rightarrow> s \<notin> set (cn_scopes c)) (au_requiredScopes inp);
         scopes_allowed = list_all (\<lambda>s. case policy of None \<Rightarrow> False | Some p \<Rightarrow> s \<in> set (pp_maxScopes p))
           (au_requiredScopes inp);
         action_allowed = (case policy of None \<Rightarrow> False | Some p \<Rightarrow> au_actionFamily inp \<in> set (pp_actionFamilies p))
     in if owned \<and> status_is ''reauthorization_required'' c then Reauthorization_required
        else if owned \<and> status_is ''active'' c \<and> action_allowed \<and> scopes_allowed \<and> missing then Scope_insufficient
        else if (case e of None \<Rightarrow> True | Some e \<Rightarrow> \<not> env_enabled e) \<or> \<not> status_is ''active'' c \<or>
          (case c of None \<Rightarrow> True | Some c \<Rightarrow> cn_credentialEncrypted c = None) \<or>
          \<not> owned \<or> \<not> action_allowed \<or> missing \<or> \<not> scopes_allowed
        then Invalid else Authorized)"

section \<open>Creating an intent\<close>

record intent_input =
  ni_workspaceId :: uuid
  ni_executionId :: uuid
  ni_nodeId :: string
  ni_connectionId :: uuid
  ni_connector :: string
  ni_actionFamily :: string
  ni_requiredScopes :: "string list"
  ni_operationId :: string
  ni_operationRevision :: string
  ni_target :: jsval
  ni_normalizedParameters :: jsval
  ni_providerPreconditions :: jsval
  ni_safeDisplay :: display
  ni_digestVersion :: string
  ni_canonicalDigest :: string
  ni_canonicalEnvelope :: intent_envelope
  ni_invocationIdempotencyKey :: string
  ni_expiresAt :: timestamp

datatype create_intent_result =
    Cr_created action_intent approval_request
  | Cr_replay action_intent approval_request
  | Cr_idempotency_conflict
  | Cr_reauthorization_required
  | Cr_scope_insufficient
  | Cr_authority_invalid

text \<open>Identifiers a transaction may use up.\<close>

record intent_ids =
  ii_intent :: uuid
  ii_fact :: uuid
  ii_fact2 :: uuid
  ii_event :: uuid
  ii_approval :: approval_ids

definition sameInvocation :: "action_intent \<Rightarrow> intent_input \<Rightarrow> bool" where
  "sameInvocation i inp \<longleftrightarrow> ai_canonicalDigest i = ni_canonicalDigest inp \<and> ai_digestVersion i = ni_digestVersion inp"

definition findInvokedActionIntent :: "intent_input \<Rightarrow> db \<Rightarrow> action_intent option" where
  "findInvokedActionIntent inp d = find (\<lambda>i. ai_executionId i = ni_executionId inp \<and> ai_nodeId i = ni_nodeId inp \<and>
     ai_invocationIdempotencyKey i = ni_invocationIdempotencyKey inp) (actionIntents d)"

definition intent_authority :: "action_intent \<Rightarrow> string \<Rightarrow> string \<Rightarrow> string list \<Rightarrow> authority_input" where
  "intent_authority i provider family scopes = \<lparr>au_workspaceId = ai_workspaceId i, au_environmentId = ai_environmentId i,
     au_externalSubjectId = ai_externalSubjectId i, au_provider = provider, au_actionFamily = family,
     au_requiredScopes = scopes\<rparr>"

definition replay_boundary :: "action_intent \<Rightarrow> intent_input \<Rightarrow> db \<Rightarrow> authority" where
  "replay_boundary i inp d = connectionAuthorityBoundary
     (find (\<lambda>c. cn_id c = ai_connectionId i \<and> cn_workspaceId c = ai_workspaceId i \<and>
        cn_environmentId c = ai_environmentId i \<and> cn_provider c = ni_connector inp) (connections d))
     (find (\<lambda>e. env_id e = ai_environmentId i \<and> env_workspaceId e = ai_workspaceId i) (environments d))
     (intent_authority i (ni_connector inp) (ni_actionFamily inp) (ni_requiredScopes inp))"

definition replayActionIntent ::
  "action_intent \<Rightarrow> approval_request option \<Rightarrow> intent_input \<Rightarrow> db \<Rightarrow> db_error + create_intent_result" where
  "replayActionIntent i r inp d =
    (if \<not> sameInvocation i inp then Inr Cr_idempotency_conflict
     else
       let open_intent = (ai_status i = I_awaiting_consent \<or> ai_status i = I_ready);
           boundary = replay_boundary i inp d
       in if open_intent \<and> boundary = Reauthorization_required then Inr Cr_reauthorization_required
          else if open_intent \<and> boundary = Scope_insufficient then Inr Cr_scope_insufficient
          else (case (case r of Some r \<Rightarrow> Some r
              | None \<Rightarrow> find (\<lambda>r. ar_id r = ai_approvalRequestId i) (approvalRequests d)) of
              None \<Rightarrow> Inl (AppError ''Action Intent is missing its Approval Request'')
            | Some r \<Rightarrow> Inr (Cr_replay i r)))"

definition ACTION_INTENT_DIGEST_VERSION :: string where
  "ACTION_INTENT_DIGEST_VERSION = ''jcs-sha256-v1''"

definition base64url_char :: "char \<Rightarrow> bool" where
  "base64url_char c \<longleftrightarrow> CHR ''A'' \<le> c \<and> c \<le> CHR ''Z'' \<or> CHR ''a'' \<le> c \<and> c \<le> CHR ''z'' \<or>
     CHR ''0'' \<le> c \<and> c \<le> CHR ''9'' \<or> c = CHR ''_'' \<or> c = CHR ''-''"

definition I_claimed :: "intent_status set" where
  "I_claimed = {I_executing, I_succeeded, I_failed, I_stale, I_outcome_unknown}"

text \<open>Check constraints of the table, in the order of their names.\<close>

definition intent_checks :: "(jsval \<Rightarrow> nat) \<Rightarrow> action_intent \<Rightarrow> db_error + unit" where
  "intent_checks octets i =
    (if \<not> (ai_digestVersion i = ACTION_INTENT_DIGEST_VERSION \<and> length (ai_canonicalDigest i) = 43 \<and>
        list_all base64url_char (ai_canonicalDigest i))
     then Inl (CheckViolation ''action_intents_digest_check'')
     else if \<not> (0 \<le> ai_providerAttemptCount i \<and> (ai_dispatchStartedAt i = None) = (ai_providerAttemptCount i = 0))
     then Inl (CheckViolation ''action_intents_dispatch_check'')
     else if \<not> (1 \<le> length (dp_title (ai_safeDisplay i)) \<and> length (dp_title (ai_safeDisplay i)) \<le> 200 \<and>
        octets (stored_display (ai_safeDisplay i)) \<le> 8192)
     then Inl (CheckViolation ''action_intents_display_check'')
     else if \<not> (let e = ai_canonicalEnvelope i in ev_connectionId e = ai_connectionId i \<and> ev_connector e = ai_connector i \<and>
        ev_operation e = ai_operationId i \<and> ev_operationRevision e = ai_operationRevision i \<and>
        ev_target e = ai_target i \<and> ev_parameters e = ai_normalizedParameters i \<and>
        ev_providerPreconditions e = ai_providerPreconditions i)
     then Inl (CheckViolation ''action_intents_envelope_check'')
     else if (ai_status i \<in> I_claimed) \<noteq> (ai_executionClaimId i \<noteq> None)
     then Inl (CheckViolation ''action_intents_execution_claim_check'')
     else if \<not> (1 \<le> length (ai_invocationIdempotencyKey i) \<and> length (ai_invocationIdempotencyKey i) \<le> 256)
     then Inl (CheckViolation ''action_intents_identity_check'')
     else if ai_contentErasedAt i = None \<and>
        \<not> ((ai_status i = I_succeeded) = (ai_normalizedResult i \<noteq> None) \<and>
           (ai_status i \<in> {I_failed, I_stale, I_outcome_unknown}) = (ai_normalizedError i \<noteq> None))
     then Inl (CheckViolation ''action_intents_outcome_check'')
     else Inr ())"

definition intent_fkeys :: "action_intent \<Rightarrow> db \<Rightarrow> db_error + unit" where
  "intent_fkeys i d =
    (if \<not> list_ex (\<lambda>e. env_id e = ai_environmentId i \<and> env_workspaceId e = ai_workspaceId i) (environments d)
     then Inl (ForeignKeyViolation ''action_intents_environment_fkey'')
     else if \<not> list_ex (\<lambda>x. xs_id x = ai_externalSubjectId i \<and> xs_workspaceId x = ai_workspaceId i) (externalSubjects d)
     then Inl (ForeignKeyViolation ''action_intents_subject_fkey'')
     else if \<not> list_ex (\<lambda>c. cn_id c = ai_connectionId i \<and> cn_workspaceId c = ai_workspaceId i) (connections d)
     then Inl (ForeignKeyViolation ''action_intents_connection_fkey'')
     else if \<not> list_ex (\<lambda>x. ex_id x = ai_executionId i \<and> ex_workspaceId x = ai_workspaceId i \<and>
        ex_workflowId x = ai_workflowId i) (executions d)
     then Inl (ForeignKeyViolation ''action_intents_execution_fkey'')
     else if \<not> list_ex (\<lambda>r. ar_id r = ai_approvalRequestId i \<and> ar_workspaceId r = ai_workspaceId i) (approvalRequests d)
     then Inl (ForeignKeyViolation ''action_intents_approval_request_fkey'')
     else Inr ())"

definition stored_json :: "jsval \<Rightarrow> jsval" where
  "stored_json v = (case jsonb v of None \<Rightarrow> JNull | Some w \<Rightarrow> w)"

definition stored_envelope :: "intent_envelope \<Rightarrow> intent_envelope" where
  "stored_envelope e = e\<lparr>ev_target := stored_json (ev_target e), ev_parameters := stored_json (ev_parameters e),
     ev_providerPreconditions := stored_json (ev_providerPreconditions e)\<rparr>"

definition new_intent :: "uuid \<Rightarrow> timestamp \<Rightarrow> intent_input \<Rightarrow> execution \<Rightarrow> uuid \<Rightarrow> uuid \<Rightarrow> uuid option \<Rightarrow> uuid \<Rightarrow> action_intent" where
  "new_intent iid now inp x env subject grant request = \<lparr>ai_id = iid, ai_workspaceId = ni_workspaceId inp,
     ai_environmentId = env, ai_externalSubjectId = subject, ai_connectionId = ni_connectionId inp,
     ai_connectionAccessGrantId = grant, ai_workflowId = ex_workflowId x, ai_executionId = ex_id x,
     ai_nodeId = ni_nodeId inp, ai_approvalRequestId = request, ai_connector = ni_connector inp,
     ai_operationId = ni_operationId inp, ai_operationRevision = ni_operationRevision inp,
     ai_target = stored_json (ni_target inp), ai_normalizedParameters = stored_json (ni_normalizedParameters inp),
     ai_providerPreconditions = stored_json (ni_providerPreconditions inp), ai_safeDisplay = ni_safeDisplay inp,
     ai_digestVersion = ni_digestVersion inp, ai_canonicalDigest = ni_canonicalDigest inp,
     ai_canonicalEnvelope = stored_envelope (ni_canonicalEnvelope inp),
     ai_invocationIdempotencyKey = ni_invocationIdempotencyKey inp,
     ai_status = I_awaiting_consent, ai_executionClaimId = None, ai_dispatchStartedAt = None, ai_providerAttemptCount = 0,
     ai_normalizedResult = None, ai_normalizedError = None, ai_contentErasedAt = None,
     ai_createdAt = now, ai_updatedAt = now\<rparr>"

text \<open>The insert does nothing when the invocation exists already; then there is no row.\<close>

definition insert_intent :: "(jsval \<Rightarrow> nat) \<Rightarrow> action_intent \<Rightarrow> db \<Rightarrow> db_error + (db \<times> action_intent option)" where
  "insert_intent octets i d =
    bindE (intent_checks octets i) (\<lambda>_.
      if list_ex (\<lambda>x. ai_executionId x = ai_executionId i \<and> ai_nodeId x = ai_nodeId i \<and>
          ai_invocationIdempotencyKey x = ai_invocationIdempotencyKey i) (actionIntents d)
      then Inr (d, None)
      else if list_ex (\<lambda>x. ai_approvalRequestId x = ai_approvalRequestId i) (actionIntents d)
      then Inl (UniqueViolation ''action_intents_approval_request_uidx'')
      else bindE (intent_fkeys i d) (\<lambda>_. Inr (d\<lparr>actionIntents := actionIntents d @ [i]\<rparr>, Some i)))"

definition consent_request :: "intent_input \<Rightarrow> execution \<Rightarrow> uuid \<Rightarrow> uuid \<Rightarrow> approval_request" where
  "consent_request inp x env subject = \<lparr>ar_id = [], ar_workspaceId = ni_workspaceId inp, ar_environmentId = Some env,
     ar_workflowId = ex_workflowId x, ar_executionId = ex_id x, ar_nodeId = ni_nodeId inp,
     ar_audience = External_subject, ar_externalSubjectId = Some subject, ar_conversationId = ex_conversationId x,
     ar_status = A_pending, ar_version = 1, ar_display = ni_safeDisplay inp, ar_approverEmails = None,
     ar_expiresAt = Some (ni_expiresAt inp), ar_timeoutAction = Some Auto_reject,
     ar_actionIntentDigest = Some (ni_canonicalDigest inp), ar_requestedAt = 0, ar_cancelledAt = None\<rparr>"

definition record_intent ::
  "(jsval \<Rightarrow> nat) \<Rightarrow> intent_ids \<Rightarrow> timestamp \<Rightarrow> intent_input \<Rightarrow> execution \<Rightarrow> uuid \<Rightarrow> uuid \<Rightarrow> uuid option \<Rightarrow>
     approval_request \<Rightarrow> db \<Rightarrow> db_error + (db \<times> create_intent_result)" where
  "record_intent octets f now inp x env subject grant r d =
    bindE (insert_intent octets (new_intent (ii_intent f) now inp x env subject grant (ar_id r)) d) (\<lambda>(d1, res).
      (case res of
         Some i \<Rightarrow>
           bindE (recordActionIntentFact (ii_fact f) i ''action_intent.created'' (ai_createdAt i) None
             (Some ''awaiting_consent'') None d1) (\<lambda>d2. Inr (d2, Cr_created i r))
       | None \<Rightarrow>
           (case findInvokedActionIntent inp d1 of
              None \<Rightarrow> Inl (AppError ''Action Intent conflict did not resolve'')
            | Some raced \<Rightarrow> bindE (replayActionIntent raced (Some r) inp d1) (\<lambda>v. Inr (d1, v)))))"

definition request_consent ::
  "(jsval \<Rightarrow> nat) \<Rightarrow> intent_ids \<Rightarrow> timestamp \<Rightarrow> intent_input \<Rightarrow> execution \<Rightarrow> uuid \<Rightarrow> uuid \<Rightarrow> uuid option \<Rightarrow> db \<Rightarrow>
     db_error + (db \<times> create_intent_result)" where
  "request_consent octets f now inp x env subject grant d =
    bindE (createApprovalRequest octets (ii_approval f) now (consent_request inp x env subject) d) (\<lambda>(d1, made).
      let r = (case made of Some r \<Rightarrow> Some r
          | None \<Rightarrow> find (\<lambda>r. ar_executionId r = ex_id x \<and> ar_nodeId r = ni_nodeId inp) (approvalRequests d1));
          replay = (\<lambda>r. case findInvokedActionIntent inp d1 of
              None \<Rightarrow> Inr (d1, Cr_idempotency_conflict)
            | Some c \<Rightarrow> bindE (replayActionIntent c r inp d1) (\<lambda>v. Inr (d1, v)))
      in case r of
           None \<Rightarrow> replay None
         | Some r \<Rightarrow>
             if ar_audience r \<noteq> External_subject \<or> ar_timeoutAction r \<noteq> Some Auto_reject \<or>
                ar_actionIntentDigest r \<noteq> Some (ni_canonicalDigest inp)
             then replay (Some r)
             else record_intent octets f now inp x env subject grant r d1)"

definition createActionIntent ::
  "(jsval \<Rightarrow> nat) \<Rightarrow> intent_ids \<Rightarrow> timestamp \<Rightarrow> intent_input \<Rightarrow> db \<Rightarrow> db_error + (db \<times> create_intent_result)" where
  "createActionIntent octets f now inp d =
    (case findInvokedActionIntent inp d of
       Some i \<Rightarrow> bindE (replayActionIntent i None inp d) (\<lambda>v. Inr (d, v))
     | None \<Rightarrow>
         (case find (\<lambda>x. ex_id x = ni_executionId inp \<and> ex_workspaceId x = ni_workspaceId inp) (executions d) of
            None \<Rightarrow> Inr (d, Cr_authority_invalid)
          | Some x \<Rightarrow>
              (case (truthy_string (ex_environmentId x), truthy_string (ex_externalSubjectRecordId x)) of
                 (Some env, Some s) \<Rightarrow>
                   let c = find (\<lambda>c. cn_id c = ni_connectionId inp) (connections d);
                       requester = Option.bind c (\<lambda>c. getConnectionRequesterAuthority c s d);
                       authority = connectionAuthorityBoundary c (find (\<lambda>e. env_id e = env) (environments d))
                         \<lparr>au_workspaceId = ni_workspaceId inp, au_environmentId = env, au_externalSubjectId = s,
                          au_provider = ni_connector inp, au_actionFamily = ni_actionFamily inp,
                          au_requiredScopes = ni_requiredScopes inp\<rparr>;
                       subject = find (\<lambda>y. xs_id y = s) (externalSubjects d)
                   in if authority = Reauthorization_required then Inr (d, Cr_reauthorization_required)
                      else if authority = Scope_insufficient then Inr (d, Cr_scope_insufficient)
                      else if authority \<noteq> Authorized \<or> ex_status x \<noteq> Running \<or>
                        (case subject of None \<Rightarrow> True | Some y \<Rightarrow> xs_status y \<noteq> Verified)
                      then Inr (d, Cr_authority_invalid)
                      else (case requester of
                          None \<Rightarrow> Inr (d, Cr_authority_invalid)
                        | Some grant \<Rightarrow> request_consent octets f now inp x env s grant d)
               | _ \<Rightarrow> Inr (d, Cr_authority_invalid))))"

section \<open>Consent\<close>

definition getActionIntentConsent ::
  "uuid \<Rightarrow> uuid \<Rightarrow> string \<Rightarrow> string \<Rightarrow> db \<Rightarrow> (action_intent \<times> approval_request \<times> approval_decision option) option" where
  "getActionIntentConsent ws xid node key d = first_row (concat (map (\<lambda>i.
       map (\<lambda>r. (i, r, getApprovalDecision (ar_id r) d))
         (filter (\<lambda>r. ar_id r = ai_approvalRequestId i) (approvalRequests d)))
     (filter (\<lambda>i. ai_workspaceId i = ws \<and> ai_executionId i = xid \<and> ai_nodeId i = node \<and>
        ai_invocationIdempotencyKey i = key) (actionIntents d))))"

text \<open>
  An update of the table by key: the new row has to satisfy the check constraints. At most one
  row has the key.
\<close>

definition update_intent ::
  "(jsval \<Rightarrow> nat) \<Rightarrow> (action_intent \<Rightarrow> bool) \<Rightarrow> (action_intent \<Rightarrow> action_intent) \<Rightarrow> db \<Rightarrow>
     db_error + (db \<times> action_intent option)" where
  "update_intent octets p g d = (case update_where p g (actionIntents d) of (rows, ret) \<Rightarrow>
     bindE (for_each (intent_checks octets) ret) (\<lambda>_.
       Inr (d\<lparr>actionIntents := rows\<rparr>, first_row ret)))"

definition intent_in :: "uuid \<Rightarrow> intent_status set \<Rightarrow> action_intent \<Rightarrow> bool" where
  "intent_in iid vs i \<longleftrightarrow> ai_id i = iid \<and> ai_status i \<in> vs"

definition held_intent :: "uuid \<Rightarrow> string \<Rightarrow> action_intent \<Rightarrow> bool" where
  "held_intent iid who i \<longleftrightarrow> ai_id i = iid \<and> ai_status i = I_executing \<and> ai_executionClaimId i = Some who"

definition rejectActionIntent ::
  "(jsval \<Rightarrow> nat) \<Rightarrow> intent_ids \<Rightarrow> timestamp \<Rightarrow> uuid \<Rightarrow> db \<Rightarrow> db_error + (db \<times> action_intent option)" where
  "rejectActionIntent octets f now iid d =
    bindE (update_intent octets (intent_in iid {I_awaiting_consent})
        (\<lambda>i. i\<lparr>ai_status := I_rejected, ai_updatedAt := now\<rparr>) d) (\<lambda>(d1, res).
      (case res of
         None \<Rightarrow> Inr (d1, None)
       | Some i \<Rightarrow>
           bindE (recordActionIntentFact (ii_fact f) i ''action_intent.rejected'' now
               (map_option ad_id (getApprovalDecision (ai_approvalRequestId i) d1)) (Some ''rejected'') None d1)
             (\<lambda>d2. Inr (d2, Some i))))"

section \<open>Claiming\<close>

record claim_input =
  cl_actionIntentId :: uuid
  cl_executionClaimId :: string
  cl_provider :: string
  cl_actionFamily :: string
  cl_requiredScopes :: "string list"
  cl_now :: timestamp

datatype claim_result =
    Cl_claimed action_intent connection_row
  | Cl_recovered action_intent connection_row
  | Cl_cancelled action_intent
  | Cl_in_progress action_intent
  | Cl_not_ready action_intent
  | Cl_terminal action_intent

definition terminalActionIntent :: "action_intent \<Rightarrow> bool" where
  "terminalActionIntent i \<longleftrightarrow>
     ai_status i \<in> {I_succeeded, I_failed, I_stale, I_rejected, I_cancelled, I_outcome_unknown}"

definition activeExecutionClaim :: "execution option \<Rightarrow> claim_input \<Rightarrow> bool" where
  "activeExecutionClaim x inp = (case x of None \<Rightarrow> False | Some x \<Rightarrow>
     ex_status x = Running \<and> ex_leasedBy x = Some (cl_executionClaimId inp) \<and>
     (case ex_leaseExpiresAt x of None \<Rightarrow> False | Some e \<Rightarrow> cl_now inp div 1000 < e div 1000))"

definition intent_event ::
  "(jsval \<Rightarrow> nat) \<Rightarrow> intent_ids \<Rightarrow> timestamp \<Rightarrow> action_intent \<Rightarrow> string \<Rightarrow> db \<Rightarrow> db_error + db" where
  "intent_event octets f now i ty d =
    bindE (createPublicEvent octets (ii_event f) now (ai_workspaceId i) (ai_environmentId i) (Some (ai_externalSubjectId i))
      ty [(''actionIntentId'', JStr (ai_id i)), (''executionId'', JStr (ai_executionId i))] d) (\<lambda>(d', _). Inr d')"

definition intent_status_name :: "intent_status \<Rightarrow> string" where
  "intent_status_name v = (case v of I_awaiting_consent \<Rightarrow> ''awaiting_consent'' | I_ready \<Rightarrow> ''ready''
     | I_executing \<Rightarrow> ''executing'' | I_succeeded \<Rightarrow> ''succeeded'' | I_failed \<Rightarrow> ''failed'' | I_stale \<Rightarrow> ''stale''
     | I_rejected \<Rightarrow> ''rejected'' | I_cancelled \<Rightarrow> ''cancelled'' | I_outcome_unknown \<Rightarrow> ''outcome_unknown'')"

definition recovered_error :: "bool \<Rightarrow> connector_error" where
  "recovered_error unknown = \<lparr>ce_code = (if unknown then ''outcome_unknown'' else ''authorization_revoked''),
     ce_message = (if unknown then ''Connector provider outcome could not be reconciled''
       else ''Connector authority became unavailable''), ce_outcomeUnknown = unknown\<rparr>"

definition failRecoveredActionIntent ::
  "(jsval \<Rightarrow> nat) \<Rightarrow> intent_ids \<Rightarrow> action_intent \<Rightarrow> claim_input \<Rightarrow> string \<Rightarrow> db \<Rightarrow> db_error + (db \<times> claim_result)" where
  "failRecoveredActionIntent octets f i inp prior d =
    (let unknown = (ai_dispatchStartedAt i \<noteq> None) in
     bindE (update_intent octets (held_intent (ai_id i) prior)
        (\<lambda>i. i\<lparr>ai_status := (if unknown then I_outcome_unknown else I_failed),
           ai_executionClaimId := Some (cl_executionClaimId inp), ai_normalizedError := Some (recovered_error unknown),
           ai_updatedAt := cl_now inp\<rparr>) d) (\<lambda>(d1, res).
      (case res of
         None \<Rightarrow> Inr (d1, Cl_in_progress i)
       | Some v \<Rightarrow>
           bindE (intent_event octets f (cl_now inp) v ''action_intent.failed'' d1) (\<lambda>d2.
           bindE (recordActionIntentFact (ii_fact f) v
               (if unknown then ''action_intent.outcome_unknown'' else ''action_intent.failed'') (cl_now inp) None
               (Some (intent_status_name (ai_status v))) (map_option ce_code (ai_normalizedError v)) d2)
             (\<lambda>d3. Inr (d3, Cl_terminal v))))))"

definition currentIntentAuthority ::
  "action_intent \<Rightarrow> connection_row option \<Rightarrow> environment_row option \<Rightarrow> external_subject option \<Rightarrow> claim_input \<Rightarrow> db \<Rightarrow> bool" where
  "currentIntentAuthority i c e s inp d \<longleftrightarrow>
     Option.bind c (\<lambda>c. getConnectionRequesterAuthority c (ai_externalSubjectId i) d) = Some (ai_connectionAccessGrantId i) \<and>
     (case s of None \<Rightarrow> False | Some y \<Rightarrow> xs_status y = Verified) \<and>
     connectionAuthorityBoundary c e
       (intent_authority i (cl_provider inp) (cl_actionFamily inp) (cl_requiredScopes inp)) = Authorized"

definition currentIntentApproval ::
  "connection_row option \<Rightarrow> action_intent \<Rightarrow> approval_request option \<Rightarrow> approval_decision option \<Rightarrow> db \<Rightarrow> bool" where
  "currentIntentApproval c i r dec d = (case (c, dec) of
       (Some c, Some v) \<Rightarrow>
         (case truthy_string (ad_actorExternalSubjectId v) of
            None \<Rightarrow> False
          | Some s \<Rightarrow>
              getConnectionReviewerAuthority c s d = Some (ad_reviewerAssignmentId v) \<and>
              (case r of None \<Rightarrow> False | Some r \<Rightarrow> ar_status r = A_decided \<and>
                 ar_actionIntentDigest r = Some (ai_canonicalDigest i)) \<and>
              ad_outcome v = D_approved \<and> ad_actorKind v = K_external_subject \<and> ad_reason v = By_human)
     | _ \<Rightarrow> False)"

definition cancelUnauthorizedActionIntent ::
  "(jsval \<Rightarrow> nat) \<Rightarrow> intent_ids \<Rightarrow> action_intent \<Rightarrow> timestamp \<Rightarrow> db \<Rightarrow> db_error + (db \<times> claim_result)" where
  "cancelUnauthorizedActionIntent octets f i now d =
    bindE (update_intent octets (intent_in (ai_id i) {I_awaiting_consent, I_ready})
        (\<lambda>i. i\<lparr>ai_status := I_cancelled, ai_updatedAt := now\<rparr>) d) (\<lambda>(d1, res).
      (case res of
         None \<Rightarrow> Inr (d1, Cl_cancelled i)
       | Some v \<Rightarrow> bindE (recordActionIntentFact (ii_fact f) v ''action_intent.cancelled'' now None
           (Some ''cancelled'') None d1) (\<lambda>d2. Inr (d2, Cl_cancelled v))))"

definition make_ready ::
  "(jsval \<Rightarrow> nat) \<Rightarrow> intent_ids \<Rightarrow> action_intent \<Rightarrow> timestamp \<Rightarrow> db \<Rightarrow> db_error + db" where
  "make_ready octets f i now d =
    (if ai_status i \<noteq> I_awaiting_consent then Inr d
     else bindE (update_intent octets (\<lambda>x. ai_id x = ai_id i) (\<lambda>x. x\<lparr>ai_status := I_ready, ai_updatedAt := now\<rparr>) d)
       (\<lambda>(d1, res). (case res of
          None \<Rightarrow> Inr d1
        | Some v \<Rightarrow> recordActionIntentFact (ii_fact f) v ''action_intent.ready'' now None (Some ''ready'') None d1)))"

definition claimReadyActionIntent ::
  "(jsval \<Rightarrow> nat) \<Rightarrow> intent_ids \<Rightarrow> action_intent \<Rightarrow> connection_row \<Rightarrow> claim_input \<Rightarrow> db \<Rightarrow> db_error + (db \<times> claim_result)" where
  "claimReadyActionIntent octets f i c inp d =
    bindE (make_ready octets f i (cl_now inp) d) (\<lambda>d1.
    bindE (update_intent octets (intent_in (ai_id i) {I_ready})
        (\<lambda>x. x\<lparr>ai_status := I_executing, ai_executionClaimId := Some (cl_executionClaimId inp),
           ai_updatedAt := cl_now inp\<rparr>) d1) (\<lambda>(d2, res).
      (case res of
         None \<Rightarrow> Inr (d2, Cl_in_progress i)
       | Some v \<Rightarrow> bindE (recordActionIntentFact (ii_fact2 f) v ''action_intent.executing'' (cl_now inp) None
           (Some ''executing'') None d2) (\<lambda>d3. Inr (d3, Cl_claimed v c)))))"

text \<open>The rows an intent depends on.\<close>

definition intent_connection :: "action_intent \<Rightarrow> db \<Rightarrow> connection_row option" where
  "intent_connection i d = find (\<lambda>c. cn_id c = ai_connectionId i) (connections d)"

definition intent_environment :: "action_intent \<Rightarrow> db \<Rightarrow> environment_row option" where
  "intent_environment i d = find (\<lambda>e. env_id e = ai_environmentId i) (environments d)"

definition intent_subject :: "action_intent \<Rightarrow> db \<Rightarrow> external_subject option" where
  "intent_subject i d = find (\<lambda>s. xs_id s = ai_externalSubjectId i) (externalSubjects d)"

definition intent_request :: "action_intent \<Rightarrow> db \<Rightarrow> approval_request option" where
  "intent_request i d = find (\<lambda>r. ar_id r = ai_approvalRequestId i) (approvalRequests d)"

definition intent_execution :: "action_intent \<Rightarrow> db \<Rightarrow> execution option" where
  "intent_execution i d = find (\<lambda>x. ex_id x = ai_executionId i) (executions d)"

definition intent_current :: "action_intent \<Rightarrow> claim_input \<Rightarrow> db \<Rightarrow> bool" where
  "intent_current i inp d \<longleftrightarrow>
     currentIntentAuthority i (intent_connection i d) (intent_environment i d) (intent_subject i d) inp d \<and>
     currentIntentApproval (intent_connection i d) i (intent_request i d) (getApprovalDecision (ai_approvalRequestId i) d) d"

definition recoverExecutingActionIntent ::
  "(jsval \<Rightarrow> nat) \<Rightarrow> intent_ids \<Rightarrow> action_intent \<Rightarrow> claim_input \<Rightarrow> db \<Rightarrow> db_error + (db \<times> claim_result)" where
  "recoverExecutingActionIntent octets f i inp d =
    (if ai_executionClaimId i = Some (cl_executionClaimId inp) then Inr (d, Cl_in_progress i)
     else if \<not> activeExecutionClaim (intent_execution i d) inp then Inr (d, Cl_in_progress i)
     else (case truthy_string (ai_executionClaimId i) of
         None \<Rightarrow> Inl (AppError ''Executing Action Intent has no execution claim'')
       | Some prior \<Rightarrow>
           if \<not> intent_current i inp d then failRecoveredActionIntent octets f i inp prior d
           else bindE (update_intent octets (held_intent (ai_id i) prior)
               (\<lambda>x. x\<lparr>ai_executionClaimId := Some (cl_executionClaimId inp), ai_updatedAt := cl_now inp\<rparr>) d)
             (\<lambda>(d1, res). (case (res, intent_connection i d) of
                (Some v, Some c) \<Rightarrow> Inr (d1, Cl_recovered v c)
              | _ \<Rightarrow> Inr (d1, Cl_in_progress i)))))"

definition claimApprovedActionIntent ::
  "(jsval \<Rightarrow> nat) \<Rightarrow> intent_ids \<Rightarrow> claim_input \<Rightarrow> db \<Rightarrow> db_error + (db \<times> claim_result option)" where
  "claimApprovedActionIntent octets f inp d =
    (case find (\<lambda>i. ai_id i = cl_actionIntentId inp) (actionIntents d) of
       None \<Rightarrow> Inr (d, None)
     | Some i \<Rightarrow>
         if terminalActionIntent i
         then Inr (d, Some (if ai_status i = I_cancelled then Cl_cancelled i else Cl_terminal i))
         else (case getApprovalDecision (ai_approvalRequestId i) d of
             None \<Rightarrow> Inr (d, Some (Cl_not_ready i))
           | Some c \<Rightarrow>
               if ai_status i = I_executing
               then bindE (recoverExecutingActionIntent octets f i inp d) (\<lambda>(d', v). Inr (d', Some v))
               else if ad_outcome c \<noteq> D_approved then Inr (d, Some (Cl_not_ready i))
               else if \<not> (intent_current i inp d \<and> activeExecutionClaim (intent_execution i d) inp)
               then bindE (cancelUnauthorizedActionIntent octets f i (cl_now inp) d) (\<lambda>(d', v). Inr (d', Some v))
               else (case intent_connection i d of
                   None \<Rightarrow> Inl (AppError ''Authorized Action Intent has no Connection'')
                 | Some cn \<Rightarrow> bindE (claimReadyActionIntent octets f i cn inp d) (\<lambda>(d', v). Inr (d', Some v)))))"

section \<open>Dispatching\<close>

definition lockActiveActionIntentExecution :: "uuid \<Rightarrow> string \<Rightarrow> timestamp \<Rightarrow> db \<Rightarrow> bool" where
  "lockActiveActionIntentExecution iid who now d \<longleftrightarrow>
     list_ex (\<lambda>x. list_ex (\<lambda>i. ai_executionId i = ex_id x \<and> held_intent iid who i) (actionIntents d) \<and>
       ex_status x = Running \<and> ex_leasedBy x = Some who \<and> sql_gt (ex_leaseExpiresAt x) now) (executions d)"

definition start_dispatch :: "timestamp \<Rightarrow> action_intent \<Rightarrow> action_intent" where
  "start_dispatch now i = i\<lparr>ai_dispatchStartedAt := (case ai_dispatchStartedAt i of None \<Rightarrow> Some now | Some t \<Rightarrow> Some t),
     ai_providerAttemptCount := ai_providerAttemptCount i + 1, ai_updatedAt := now\<rparr>"

definition beginActionIntentDispatch ::
  "(jsval \<Rightarrow> nat) \<Rightarrow> intent_ids \<Rightarrow> claim_input \<Rightarrow> db \<Rightarrow> db_error + (db \<times> action_intent option)" where
  "beginActionIntentDispatch octets f inp d =
    (case find (\<lambda>i. ai_id i = cl_actionIntentId inp) (actionIntents d) of
       None \<Rightarrow> Inr (d, None)
     | Some i \<Rightarrow>
         if ai_status i \<noteq> I_executing \<or> ai_executionClaimId i \<noteq> Some (cl_executionClaimId inp) then Inr (d, None)
         else if \<not> lockActiveActionIntentExecution (cl_actionIntentId inp) (cl_executionClaimId inp) (cl_now inp) d
         then Inr (d, None)
         else if \<not> intent_current i inp d
         then bindE (failRecoveredActionIntent octets f i inp (cl_executionClaimId inp) d) (\<lambda>(d', _). Inr (d', None))
         else update_intent octets (held_intent (cl_actionIntentId inp) (cl_executionClaimId inp))
           (start_dispatch (cl_now inp)) d)"

definition completeActionIntent ::
  "(jsval \<Rightarrow> nat) \<Rightarrow> intent_ids \<Rightarrow> uuid \<Rightarrow> string \<Rightarrow> jsval \<Rightarrow> timestamp \<Rightarrow> db \<Rightarrow> db_error + (db \<times> action_intent option)" where
  "completeActionIntent octets f iid who result completedAt d =
    (if \<not> lockActiveActionIntentExecution iid who completedAt d then Inr (d, None)
     else bindE (update_intent octets (held_intent iid who)
         (\<lambda>i. i\<lparr>ai_status := I_succeeded,
            ai_normalizedResult := (if result = JUndef then ai_normalizedResult i else jsonb_column result),
            ai_updatedAt := completedAt\<rparr>) d) (\<lambda>(d1, res).
       (case res of
          None \<Rightarrow> Inr (d1, None)
        | Some v \<Rightarrow>
            bindE (intent_event octets f completedAt v ''action_intent.executed'' d1) (\<lambda>d2.
            bindE (recordActionIntentFact (ii_fact f) v ''action_intent.succeeded'' completedAt None
              (Some ''succeeded'') None d2) (\<lambda>d3. Inr (d3, Some v))))))"

definition failActionIntent ::
  "(jsval \<Rightarrow> nat) \<Rightarrow> intent_ids \<Rightarrow> uuid \<Rightarrow> string \<Rightarrow> connector_error \<Rightarrow> intent_status \<Rightarrow> timestamp \<Rightarrow> db \<Rightarrow>
     db_error + (db \<times> action_intent option)" where
  "failActionIntent octets f iid who err status failedAt d =
    (if \<not> lockActiveActionIntentExecution iid who failedAt d then Inr (d, None)
     else bindE (update_intent octets (held_intent iid who)
         (\<lambda>i. i\<lparr>ai_status := status, ai_normalizedError := Some err, ai_updatedAt := failedAt\<rparr>) d) (\<lambda>(d1, res).
       (case res of
          None \<Rightarrow> Inr (d1, None)
        | Some v \<Rightarrow>
            bindE (intent_event octets f failedAt v ''action_intent.failed'' d1) (\<lambda>d2.
            bindE (recordActionIntentFact (ii_fact f) v (''action_intent.'' @ intent_status_name status) failedAt None
              (Some (intent_status_name status)) (Some (ce_code err)) d2) (\<lambda>d3. Inr (d3, Some v))))))"

section \<open>Listings\<close>

definition pending_key :: "action_intent \<Rightarrow> timestamp \<times> uuid" where
  "pending_key i = (ai_createdAt i, ai_id i)"

definition findPendingActionIntents ::
  "timestamp \<Rightarrow> uuid \<Rightarrow> uuid \<Rightarrow> uuid \<Rightarrow> nat \<Rightarrow> (timestamp \<times> uuid) option \<Rightarrow> db \<Rightarrow> (action_intent \<times> approval_request) list" where
  "findPendingActionIntents now ws env s limit cursor d =
     take limit (rev (sort_key (\<lambda>(i, r). pending_key i) (concat (map (\<lambda>i.
       map (Pair i) (filter (\<lambda>r. ar_id r = ai_approvalRequestId i \<and> externalApprovalEligibility s d r \<and>
           ar_status r = A_pending \<and> sql_gt (ar_expiresAt r) now) (approvalRequests d)))
       (filter (\<lambda>i. ai_workspaceId i = ws \<and> ai_environmentId i = env \<and> ai_status i = I_awaiting_consent \<and>
          (case cursor of None \<Rightarrow> True | Some c \<Rightarrow> pending_key i < c)) (actionIntents d))))))"

definition findTerminalActionIntents ::
  "uuid \<Rightarrow> uuid \<Rightarrow> uuid \<Rightarrow> uuid \<Rightarrow> nat \<Rightarrow> (timestamp \<times> uuid) option \<Rightarrow> db \<Rightarrow> action_intent list" where
  "findTerminalActionIntents ws env s cn limit cursor d =
     take limit (rev (sort_key (\<lambda>i. (ai_updatedAt i, ai_id i))
       (filter (\<lambda>i. ai_workspaceId i = ws \<and> ai_environmentId i = env \<and> ai_externalSubjectId i = s \<and>
          ai_connectionId i = cn \<and> terminalActionIntent i \<and>
          (case cursor of None \<Rightarrow> True | Some c \<Rightarrow> (ai_updatedAt i, ai_id i) < c)) (actionIntents d))))"

end
