(* ===== verification/Intent_Digest.thy ===== *)
theory Intent_Digest
  imports Action_Intents
begin

text \<open>
  What a reviewer of an action sees and what its digest covers:
  \<^verbatim>\<open>packages/connectors/src/action-intent-canonicalization.ts\<close> and \<^verbatim>\<open>safe-display.ts\<close>.

  The canonical text is the string the code builds. Two things stay parameters: \<open>shown\<close>, how
  the language spells a finite number, and \<open>sha\<close>, SHA-256 of a text in base64url. The theory shows
  that the text is unambiguous and that storing an envelope does not change it.
\<close>

section \<open>JSON text\<close>

text \<open>\<^verbatim>\<open>JSON.stringify\<close> of a string.\<close>

definition hex_digit :: "nat \<Rightarrow> char" where
  "hex_digit n = (if n < 10 then char_of (48 + n) else char_of (87 + n))"

definition json_char :: "char \<Rightarrow> string" where
  "json_char c = (let n = of_char c :: nat in
     if n = 34 \<or> n = 92 then [CHR 0x5C, c]
     else if n = 8 then [CHR 0x5C, CHR ''b''] else if n = 9 then [CHR 0x5C, CHR ''t'']
     else if n = 10 then [CHR 0x5C, CHR ''n''] else if n = 12 then [CHR 0x5C, CHR ''f'']
     else if n = 13 then [CHR 0x5C, CHR ''r'']
     else if n < 32 then [CHR 0x5C, CHR ''u'', CHR ''0'', CHR ''0'', hex_digit (n div 16), hex_digit (n mod 16)]
     else [c])"

definition json_quote :: "string \<Rightarrow> string" where
  "json_quote s = CHR 0x22 # concat (map json_char s) @ [CHR 0x22]"

definition member_text :: "string \<Rightarrow> string \<Rightarrow> string" where
  "member_text k t = json_quote k @ CHR '':'' # t"

fun canonicalizeValue :: "(rat \<Rightarrow> string) \<Rightarrow> jsval \<Rightarrow> string option" where
  "canonicalizeValue shown JNull = Some ''null''"
| "canonicalizeValue shown (JBool b) = Some (if b then ''true'' else ''false'')"
| "canonicalizeValue shown (JNum n) = (case n of Fin r \<Rightarrow> Some (shown r) | _ \<Rightarrow> None)"
| "canonicalizeValue shown (JStr s) = Some (json_quote s)"
| "canonicalizeValue shown (JArr xs) =
     map_option (\<lambda>ts. CHR ''['' # join_with CHR '','' ts @ '']'') (those (map (canonicalizeValue shown) xs))"
| "canonicalizeValue shown (JObj ps) =
     map_option (\<lambda>ts. CHR ''{'' # join_with CHR '','' ts @ ''}'')
       (those (map (\<lambda>(k, t). map_option (member_text k) t)
          (sort_key fst (map (\<lambda>p. (fst p, canonicalizeValue shown (snd p))) ps))))"
| "canonicalizeValue shown JUndef = None"
| "canonicalizeValue shown (JHost _) = None"

definition digestActionIntent :: "(string \<Rightarrow> string) \<Rightarrow> (rat \<Rightarrow> string) \<Rightarrow> jsval \<Rightarrow> string option" where
  "digestActionIntent sha shown v = map_option sha (canonicalizeValue shown v)"

text \<open>An envelope as the value that is digested and stored.\<close>

definition envelope_json :: "intent_envelope \<Rightarrow> jsval" where
  "envelope_json e = JObj [(''version'', JInt (ev_version e)), (''operationRevision'', JStr (ev_operationRevision e)),
     (''connectionId'', JStr (ev_connectionId e)), (''connector'', JStr (ev_connector e)),
     (''operation'', JStr (ev_operation e)), (''target'', ev_target e), (''parameters'', ev_parameters e),
     (''providerPreconditions'', ev_providerPreconditions e)]"

section \<open>Displays\<close>

definition replace_char :: "char \<Rightarrow> string \<Rightarrow> string \<Rightarrow> string" where
  "replace_char c w s = concat (map (\<lambda>x. if x = c then w else [x]) s)"

definition escapeSafeDisplayText :: "string \<Rightarrow> string" where
  "escapeSafeDisplayText v = replace_char CHR 0x27 ''&#39;'' (replace_char CHR 0x22 ''&quot;''
     (replace_char CHR ''>'' ''&gt;'' (replace_char CHR ''<'' ''&lt;'' (replace_char CHR ''&'' ''&amp;'' v))))"

definition display_members :: "string \<Rightarrow> display \<Rightarrow> string list" where
  "display_members colon dp =
     [json_quote ''title'' @ colon @ json_quote (dp_title dp)] @
     (case dp_description dp of None \<Rightarrow> [] | Some t \<Rightarrow> [json_quote ''description'' @ colon @ json_quote t])"

fun join_str :: "string \<Rightarrow> string list \<Rightarrow> string" where
  "join_str sep [] = []"
| "join_str sep [w] = w"
| "join_str sep (w # ws) = w @ sep @ join_str sep ws"

text \<open>
  The text of a display with given separators: \<^verbatim>\<open>JSON.stringify\<close> puts none, the text of a
  \<^verbatim>\<open>jsonb\<close> column puts a space after each colon and comma. (The column lists the members in another
  order, which does not change the length.)
\<close>

definition display_text :: "string \<Rightarrow> string \<Rightarrow> display \<Rightarrow> string" where
  "display_text colon comma dp = ''{'' @ join_str comma (display_members colon dp @
     (case dp_details dp of None \<Rightarrow> []
      | Some ps \<Rightarrow> [json_quote ''details'' @ colon @ ''{'' @
          join_str comma (map (\<lambda>(k, v). json_quote k @ colon @ json_quote v) ps) @ ''}''])) @ ''}''"

definition optional_text :: "jsval \<Rightarrow> string option option" where
  "optional_text v = (case v of JUndef \<Rightarrow> Some None | JStr s \<Rightarrow> Some (Some s) | _ \<Rightarrow> None)"

definition text_record :: "jsval \<Rightarrow> (string \<times> string) list option option" where
  "text_record v = (case v of JUndef \<Rightarrow> Some None
     | JObj ps \<Rightarrow> map_option Some (those (map (\<lambda>(k, v). case v of JStr s \<Rightarrow> Some (k, s) | _ \<Rightarrow> None) ps))
     | _ \<Rightarrow> None)"

text \<open>An own property; a schema does not look at inherited ones.\<close>

definition own_prop :: "(string \<times> jsval) list \<Rightarrow> string \<Rightarrow> jsval" where
  "own_prop ps k = (case map_of ps k of None \<Rightarrow> JUndef | Some v \<Rightarrow> v)"

definition safeDisplaySchema :: "jsval \<Rightarrow> display option" where
  "safeDisplaySchema v = (case v of
       JObj ps \<Rightarrow>
         if \<not> list_all (\<lambda>p. fst p \<in> {''title'', ''description'', ''details''}) ps then None
         else (case (own_prop ps ''title'', optional_text (own_prop ps ''description''), text_record (own_prop ps ''details'')) of
             (JStr t, Some ds, Some dt) \<Rightarrow>
               if 1 \<le> length t \<and> length t \<le> 200
               then Some \<lparr>dp_title = t, dp_description = ds, dp_details = dt\<rparr> else None
           | _ \<Rightarrow> None)
     | _ \<Rightarrow> None)"

definition validateSafeDisplay :: "jsval \<Rightarrow> display option" where
  "validateSafeDisplay v = Option.bind (safeDisplaySchema v) (\<lambda>dp.
     if utf8_length (display_text '':'' '','' dp) > 8192 then None else Some dp)"

section \<open>The canonical text is unambiguous\<close>

fun unescape :: "string \<Rightarrow> char \<times> string" where
  "unescape (x # xs) = (if x \<noteq> CHR 0x5C then (x, xs) else (case xs of
       y # ys \<Rightarrow>
         if y = CHR ''b'' then (char_of (8 :: nat), ys) else if y = CHR ''t'' then (char_of (9 :: nat), ys)
         else if y = CHR ''n'' then (char_of (10 :: nat), ys) else if y = CHR ''f'' then (char_of (12 :: nat), ys)
         else if y = CHR ''r'' then (char_of (13 :: nat), ys)
         else if y = CHR ''u'' then (case ys of a # b # h # l # zs \<Rightarrow>
             (char_of (16 * the (digit_val h) + the (digit_val l)), zs) | _ \<Rightarrow> (y, ys))
         else (y, ys)
     | [] \<Rightarrow> (x, xs)))"
| "unescape [] = (CHR 0x00, [])"

lemma unescape_json_char: "unescape (json_char c @ r) = (c, r)"
proof (cases "of_char c < (32 :: nat)")
  case True
  define n where "n = (of_char c :: nat)"
  have c: "c = char_of n" by (simp add: n_def)
  have "n \<in> set [0..<32]" using True by (simp add: n_def)
  moreover have "\<forall>m \<in> set [0..<32]. unescape (json_char (char_of m) @ r) = (char_of m, r)"
    by (simp add: upt_rec json_char_def hex_digit_def digit_val_def)
  ultimately show ?thesis unfolding c by blast
next
  case False
  have "c = CHR 0x5C \<longleftrightarrow> of_char c = (92 :: nat)" "c = CHR 0x22 \<longleftrightarrow> of_char c = (34 :: nat)"
    using of_char_eq_iff [of c "CHR 0x5C", where 'a = nat] of_char_eq_iff [of c "CHR 0x22", where 'a = nat] by simp_all
  with False show ?thesis by (auto simp: json_char_def Let_def)
qed


lemma json_char_ends: "json_char c \<noteq> []" "hd (json_char c) \<noteq> CHR 0x22"
proof -
  have "c = CHR 0x22 \<longleftrightarrow> of_char c = (34 :: nat)" using of_char_eq_iff [of c "CHR 0x22", where 'a = nat] by simp
  then show "json_char c \<noteq> []" "hd (json_char c) \<noteq> CHR 0x22" by (auto simp: json_char_def Let_def)
qed

lemma json_quote_unique:
  assumes "json_quote a @ r = json_quote b @ s"
  shows "a = b \<and> r = s"
proof -
  have "a = b \<and> r = s" if "concat (map json_char a) @ CHR 0x22 # r = concat (map json_char b) @ CHR 0x22 # s"
    using that
  proof (induction a arbitrary: b)
    case Nil
    then show ?case
    proof (cases b)
      case (Cons c cs)
      then have "hd (json_char c) = CHR 0x22" using Nil json_char_ends(1) [of c] by (cases "json_char c") auto
      then show ?thesis using json_char_ends(2) by blast
    qed simp
  next
    case (Cons x xs)
    show ?case
    proof (cases b)
      case Nil
      then have "hd (json_char x) = CHR 0x22" using Cons.prems json_char_ends(1) [of x] by (cases "json_char x") auto
      then show ?thesis using json_char_ends(2) by blast
    next
      case b: (Cons c cs)
      have e: "json_char x @ concat (map json_char xs) @ CHR 0x22 # r = json_char c @ concat (map json_char cs) @ CHR 0x22 # s"
        using Cons.prems b by simp
      then have "unescape (json_char x @ concat (map json_char xs) @ CHR 0x22 # r) =
          unescape (json_char c @ concat (map json_char cs) @ CHR 0x22 # s)" by (rule arg_cong)
      then have "x = c" "concat (map json_char xs) @ CHR 0x22 # r = concat (map json_char cs) @ CHR 0x22 # s"
        by (simp_all add: unescape_json_char)
      then show ?thesis using Cons.IH b by blast
    qed
  qed
  with assms show ?thesis by (simp add: json_quote_def)
qed

text \<open>How the language spells finite numbers: distinctly, and with these characters only.\<close>

definition number_chars :: "char set" where
  "number_chars = set ''0123456789+-.e''"

definition spells_numbers :: "(rat \<Rightarrow> string) \<Rightarrow> bool" where
  "spells_numbers shown \<longleftrightarrow> inj shown \<and> (\<forall>r. shown r \<noteq> [] \<and> set (shown r) \<subseteq> number_chars)"

definition delimited :: "string \<Rightarrow> bool" where
  "delimited r \<longleftrightarrow> r = [] \<or> hd r \<notin> number_chars"

lemma delimited_Cons [simp]: "delimited [] " "delimited (c # r) \<longleftrightarrow> c \<notin> number_chars"
  by (simp_all add: delimited_def)

lemma number_unique:
  assumes "spells_numbers shown" "shown a @ r = shown b @ s" "delimited r" "delimited s"
  shows "a = b \<and> r = s"
proof -
  have split: "takeWhile (\<lambda>c. c \<in> number_chars) (shown x @ u) = shown x" if "delimited u" for x u
  proof -
    have "takeWhile (\<lambda>c. c \<in> number_chars) (shown x @ u) = shown x @ takeWhile (\<lambda>c. c \<in> number_chars) u"
      using assms(1) by (intro takeWhile_append2) (auto simp: spells_numbers_def)
    then show ?thesis using that by (cases u) auto
  qed
  have "shown a = shown b" using split [OF assms(3), of a] split [OF assms(4), of b] assms(2) by simp
  then show ?thesis using assms(1,2) by (auto simp: spells_numbers_def dest: injD)
qed


lemma those_map_eq:
  "those (map f xs) = Some ts \<longleftrightarrow> (\<forall>x \<in> set xs. f x \<noteq> None) \<and> ts = map (the \<circ> f) xs"
  by (induction xs arbitrary: ts) (auto split: option.splits)

lemma join_unique:
  assumes each: "\<And>x y r s. x \<in> set xs \<Longrightarrow> y \<in> set ys \<Longrightarrow> f x @ r = f y @ s \<Longrightarrow> delimited r \<Longrightarrow> delimited s \<Longrightarrow>
      g x = g y \<and> r = s"
    and start: "\<And>x. x \<in> set xs \<union> set ys \<Longrightarrow> f x \<noteq> [] \<and> hd (f x) \<noteq> e"
    and e: "e \<noteq> CHR '',''" "e \<notin> number_chars"
    and eq: "join_with CHR '','' (map f xs) @ e # r = join_with CHR '','' (map f ys) @ e # s"
  shows "map g xs = map g ys \<and> r = s"
  using each start eq
proof (induction xs arbitrary: ys)
  case Nil
  then show ?case
  proof (cases ys)
    case (Cons y ys')
    have "hd (join_with CHR '','' (map f (y # ys')) @ e # s) = hd (f y)"
      using Nil.prems(2) [of y] Cons by (cases "map f ys'") (simp_all add: join_with_Cons)
    moreover have "join_with CHR '','' (map f (y # ys')) @ e # s = e # r" using Nil.prems(3) Cons by simp
    ultimately show ?thesis using Nil.prems(2) [of y] Cons by simp
  qed simp
next
  case (Cons x xs)
  have tail: "\<exists>u. join_with CHR '','' (map f (z # zs)) @ e # v = f z @ u \<and> delimited u \<and>
      (if zs = [] then u = e # v else u = CHR '','' # join_with CHR '','' (map f zs) @ e # v)" for z zs v
    using e by (cases "map f zs") (auto simp: join_with_Cons number_chars_def)
  show ?case
  proof (cases ys)
    case Nil
    have "hd (join_with CHR '','' (map f (x # xs)) @ e # r) = hd (f x)"
      using Cons.prems(2) [of x] by (cases "map f xs") (simp_all add: join_with_Cons)
    moreover have "join_with CHR '','' (map f (x # xs)) @ e # r = e # s" using Cons.prems(3) Nil by simp
    ultimately show ?thesis using Cons.prems(2) [of x] by simp
  next
    case ys: (Cons y ys')
    obtain u where u: "join_with CHR '','' (map f (x # xs)) @ e # r = f x @ u" "delimited u"
      "if xs = [] then u = e # r else u = CHR '','' # join_with CHR '','' (map f xs) @ e # r" using tail by blast
    obtain v where v: "join_with CHR '','' (map f (y # ys')) @ e # s = f y @ v" "delimited v"
      "if ys' = [] then v = e # s else v = CHR '','' # join_with CHR '','' (map f ys') @ e # s" using tail by blast
    have "g x = g y \<and> u = v" using Cons.prems(1) [of x y u v] Cons.prems(3) u(1,2) v(1,2) ys by simp
    moreover have "map g xs = map g ys' \<and> r = s" if "u = v"
    proof (cases "xs = [] \<or> ys' = []")
      case True
      then show ?thesis using u(3) v(3) that e(1) by (auto split: if_splits)
    next
      case False
      then have "join_with CHR '','' (map f xs) @ e # r = join_with CHR '','' (map f ys') @ e # s"
        using u(3) v(3) that by simp
      then show ?thesis using Cons.IH [of ys'] Cons.prems(1,2) ys by (metis UnCI UnE Un_iff list.set_intros(2))
    qed
    ultimately show ?thesis using ys by simp
  qed
qed


lemma sort_key_map_fst: "sort_key fst (map (\<lambda>p. (fst p, h p)) ps) = map (\<lambda>p. (fst p, h p)) (sort_key fst ps)"
proof -
  have ins: "insort_key fst (fst p, h p) (map (\<lambda>p. (fst p, h p)) qs) = map (\<lambda>p. (fst p, h p)) (insort_key fst p qs)" for p qs
    by (induction qs) auto
  show ?thesis by (induction ps) (simp_all add: ins)
qed

lemma canonicalizeValue_arr:
  assumes "canonicalizeValue shown (JArr xs) = Some t"
  shows "(\<forall>x \<in> set xs. canonicalizeValue shown x \<noteq> None) \<and>
    t = CHR ''['' # join_with CHR '','' (map (\<lambda>x. the (canonicalizeValue shown x)) xs) @ '']''"
  using assms by (auto simp: those_map_eq comp_def)

definition entry_text :: "(rat \<Rightarrow> string) \<Rightarrow> string \<times> jsval \<Rightarrow> string" where
  "entry_text shown p = member_text (fst p) (the (canonicalizeValue shown (snd p)))"

lemma canonicalizeValue_obj:
  assumes "canonicalizeValue shown (JObj ps) = Some t"
  shows "(\<forall>p \<in> set ps. canonicalizeValue shown (snd p) \<noteq> None) \<and>
    t = CHR ''{'' # join_with CHR '','' (map (entry_text shown) (sort_key fst ps)) @ ''}''"
proof -
  obtain ts where ts: "those (map (\<lambda>p. map_option (member_text (fst p)) (canonicalizeValue shown (snd p))) (sort_key fst ps)) = Some ts"
    and t: "t = CHR ''{'' # join_with CHR '','' ts @ ''}''"
    using assms by (auto simp: sort_key_map_fst comp_def)
  have ok: "\<forall>p \<in> set ps. canonicalizeValue shown (snd p) \<noteq> None" using ts by (simp add: those_map_eq)
  then have "ts = map (entry_text shown) (sort_key fst ps)" using ts by (auto simp: those_map_eq entry_text_def)
  with ok t show ?thesis by simp
qed

lemma text_start:
  assumes "canonicalizeValue shown v = Some t" "spells_numbers shown"
  shows "t \<noteq> [] \<and> (case v of JNull \<Rightarrow> hd t = CHR ''n'' | JBool b \<Rightarrow> hd t = (if b then CHR ''t'' else CHR ''f'')
    | JNum _ \<Rightarrow> hd t \<in> number_chars | JStr _ \<Rightarrow> hd t = CHR 0x22 | JArr _ \<Rightarrow> hd t = CHR ''['' | JObj _ \<Rightarrow> hd t = CHR ''{''
    | _ \<Rightarrow> False)"
proof (cases v)
  case (JNum n)
  then obtain a where "n = Fin a" "t = shown a" using assms(1) by (auto split: jsnum.splits)
  moreover have "shown a \<noteq> []" "hd (shown a) \<in> number_chars"
    using assms(2) hd_in_set [of "shown a"] unfolding spells_numbers_def by blast+
  ultimately show ?thesis using JNum by simp
qed (use assms canonicalizeValue_arr canonicalizeValue_obj in \<open>auto simp: json_quote_def\<close>)

lemma text_first:
  assumes "canonicalizeValue shown v = Some t" "spells_numbers shown"
  shows "t \<noteq> [] \<and> hd t \<noteq> CHR '']'' \<and> hd t \<noteq> CHR ''}''"
  using text_start [OF assms] by (auto simp: number_chars_def split: jsval.splits if_splits)

lemma same_kind:
  assumes "canonicalizeValue shown v = Some t" "canonicalizeValue shown w = Some u" "t @ r = u @ s" "spells_numbers shown"
  shows "(v = JNull \<longleftrightarrow> w = JNull) \<and> (\<forall>b. v = JBool b \<longleftrightarrow> w = JBool b) \<and> ((\<exists>n. v = JNum n) \<longleftrightarrow> (\<exists>n. w = JNum n)) \<and>
    ((\<exists>n. v = JStr n) \<longleftrightarrow> (\<exists>n. w = JStr n)) \<and> ((\<exists>n. v = JArr n) \<longleftrightarrow> (\<exists>n. w = JArr n)) \<and>
    ((\<exists>n. v = JObj n) \<longleftrightarrow> (\<exists>n. w = JObj n))"
proof -
  have "hd t = hd u"
    using assms(3) text_start [OF assms(1,4)] text_start [OF assms(2,4)] by (metis hd_append2)
  then show ?thesis
    using text_start [OF assms(1,4)] text_start [OF assms(2,4)]
    by (cases v; cases w) (auto simp: number_chars_def split: if_splits)
qed

lemmas json_induct = canonicalJson.induct [case_names Arr Obj Undef Null Bool Num Str Host]

lemma canonical_text_prefix:
  assumes "spells_numbers shown"
  shows "canonicalizeValue shown v = Some t \<Longrightarrow> canonicalizeValue shown w = Some u \<Longrightarrow> t @ r = u @ s \<Longrightarrow>
    delimited r \<Longrightarrow> delimited s \<Longrightarrow> canonicalJson v = canonicalJson w \<and> r = s"
proof (induction v arbitrary: w t u r s rule: json_induct)
  case (Arr xs)
  obtain ys where w: "w = JArr ys" using same_kind [OF Arr.prems(1-3) assms] by blast
  note xs = canonicalizeValue_arr [OF Arr.prems(1)] and ys = canonicalizeValue_arr [OF Arr.prems(2) [unfolded w]]
  let ?f = "\<lambda>x. the (canonicalizeValue shown x)"
  have "map canonicalJson xs = map canonicalJson ys \<and> r = s"
  proof (rule join_unique [of xs ys ?f canonicalJson "CHR '']''"])
    show "join_with CHR '','' (map ?f xs) @ CHR '']'' # r = join_with CHR '','' (map ?f ys) @ CHR '']'' # s"
      using Arr.prems(3) xs ys by simp
    show "canonicalJson x = canonicalJson y \<and> r' = s'"
      if "x \<in> set xs" "y \<in> set ys" "?f x @ r' = ?f y @ s'" "delimited r'" "delimited s'" for x y r' s'
      using Arr.IH [OF that(1) _ _ that(3-5)] xs ys that(1,2) by auto
    show "?f x \<noteq> [] \<and> hd (?f x) \<noteq> CHR '']''" if "x \<in> set xs \<union> set ys" for x
      using text_first [of shown x, OF _ assms] that xs ys by fastforce
  qed (simp_all add: number_chars_def)
  then show ?case using w by simp
next
  case (Obj ps)
  obtain qs where w: "w = JObj qs" using same_kind [OF Obj.prems(1-3) assms] by blast
  note ps = canonicalizeValue_obj [OF Obj.prems(1)] and qs = canonicalizeValue_obj [OF Obj.prems(2) [unfolded w]]
  let ?g = "\<lambda>p. (fst p, canonicalJson (snd p))"
  have "map ?g (sort_key fst ps) = map ?g (sort_key fst qs) \<and> r = s"
  proof (rule join_unique [of _ _ "entry_text shown" ?g "CHR ''}''"])
    show "join_with CHR '','' (map (entry_text shown) (sort_key fst ps)) @ CHR ''}'' # r =
        join_with CHR '','' (map (entry_text shown) (sort_key fst qs)) @ CHR ''}'' # s"
      using Obj.prems(3) ps qs by simp
    show "?g x = ?g y \<and> r' = s'"
      if en: "x \<in> set (sort_key fst ps)" "y \<in> set (sort_key fst qs)" "entry_text shown x @ r' = entry_text shown y @ s'"
        "delimited r'" "delimited s'" for x y r' s'
    proof -
      have "json_quote (fst x) @ CHR '':'' # the (canonicalizeValue shown (snd x)) @ r' =
          json_quote (fst y) @ CHR '':'' # the (canonicalizeValue shown (snd y)) @ s'"
        using en(3) by (simp add: entry_text_def member_text_def)
      from json_quote_unique [OF this] have "fst x = fst y"
        "the (canonicalizeValue shown (snd x)) @ r' = the (canonicalizeValue shown (snd y)) @ s'" by simp_all
      moreover obtain a b where "canonicalizeValue shown (snd x) = Some a" "canonicalizeValue shown (snd y) = Some b"
        using ps qs en(1,2) by (metis not_None_eq set_sort)
      ultimately show ?thesis using Obj.IH [of x a "snd y" b r' s'] en by auto
    qed
  qed (simp_all add: number_chars_def entry_text_def member_text_def json_quote_def)
  then show ?case using w by (simp add: sort_key_map_fst)
next
  case (Num n)
  then obtain m where w: "w = JNum m" using same_kind [OF Num(1-3) assms] by blast
  then obtain a b where "n = Fin a" "m = Fin b" "t = shown a" "u = shown b"
    using Num(1,2) by (auto split: jsnum.splits)
  then show ?case using number_unique [OF assms] Num(3-5) w by auto
next
  case (Str a)
  then obtain b where "w = JStr b" using same_kind [OF Str(1-3) assms] by blast
  then show ?case using Str(1-3) json_quote_unique [of a r b s] by simp
next
  case Null
  have "w = JNull" using same_kind [OF Null(1-3) assms] by blast
  then show ?case using Null(1-3) by simp
next
  case (Bool b)
  have "w = JBool b" using same_kind [OF Bool(1-3) assms] by blast
  then show ?case using Bool(1-3) by simp
qed simp_all


text \<open>The two canonical forms, by sorting and by rebuilding, identify the same values.\<close>

lemma canonicalize_sorted: "is_json v \<Longrightarrow> canonicalize (canonicalJson v) = canonicalize v"
proof (induction v rule: json_induct)
  case (Obj ps)
  define qs where "qs = map (\<lambda>p. (fst p, canonicalJson (snd p))) (sort_key fst ps)"
  have d: "distinct (map fst ps)" using Obj.prems by simp
  have "distinct (map fst qs)" using d by (simp add: qs_def comp_def distinct_map)
  moreover have "map_option canonicalize \<circ> map_of qs = map_option canonicalize \<circ> map_of ps"
  proof
    fix k
    have "map_of qs k = map_option canonicalJson (map_of ps k)"
      unfolding qs_def map_of_map_snd using map_of_sort_key_distinct [OF d, of fst] by simp
    then show "(map_option canonicalize \<circ> map_of qs) k = (map_option canonicalize \<circ> map_of ps) k"
      using Obj.IH Obj.prems map_of_SomeD [of ps k] by (cases "map_of ps k") force+
  qed
  ultimately show ?case using d canonicalize_obj_eq [of qs ps] by (simp add: sort_key_map_fst qs_def)
qed auto

lemma canonicalJson_rebuilt: "is_json v \<Longrightarrow> canonicalJson (canonicalize v) = canonicalJson v"
proof (induction v rule: json_induct)
  case (Obj ps)
  define qs where "qs = rebuild_sorted (map fst ps) (map_of (map (\<lambda>p. (fst p, canonicalize (snd p))) ps))"
  let ?g = "\<lambda>p. (fst p, canonicalJson (snd p))"
  have d: "distinct (map fst ps)" using Obj.prems by simp
  have q: "map_of qs = map_option canonicalize \<circ> map_of ps" unfolding qs_def by (rule map_of_canonical_obj)
  have dq: "distinct (map fst qs)"
  proof -
    have "distinct (map fst (fold (\<lambda>k. obj_set k (the (m k))) ks acc))" if "distinct (map fst acc)"
      for m :: "string \<rightharpoonup> jsval" and ks acc
      using that by (induction ks arbitrary: acc) (auto intro: jsobj.invar_put)
    then show ?thesis by (simp add: qs_def rebuild_sorted_def)
  qed
  have "map_of (map ?g qs) k = map_of (map ?g ps) k" for k
    using Obj.IH Obj.prems map_of_SomeD [of ps k] by (cases "map_of ps k") (force simp: map_of_map_snd q)+
  then have m: "set (map ?g qs) = set (map ?g ps)"
    using d dq by (intro map_of_inject_set [THEN iffD1]) (auto simp: comp_def)
  have "sort_key fst (map ?g qs) = sort_key fst (map ?g ps)"
  proof (rule map_sorted_distinct_set_unique [of fst])
    show "set (sort_key fst (map ?g qs)) = set (sort_key fst (map ?g ps))" using m by simp
    have "distinct (map fst (map ?g ps))" using d by (simp add: comp_def)
    then show "inj_on fst (set (sort_key fst (map ?g qs)) \<union> set (sort_key fst (map ?g ps)))"
      unfolding distinct_map using m by simp
  qed (use d dq in \<open>simp_all add: comp_def distinct_map sort_key_map_fst\<close>)
  then show ?case unfolding canonicalize.simps qs_def [symmetric] canonicalJson.simps by simp
qed auto


lemma text_canonicalJson: "canonicalizeValue shown (canonicalJson v) = canonicalizeValue shown v"
proof (induction v rule: json_induct)
  case (Arr xs)
  then have "map (canonicalizeValue shown) (map canonicalJson xs) = map (canonicalizeValue shown) xs" by simp
  then show ?case by (simp only: canonicalJson.simps canonicalizeValue.simps)
next
  case (Obj ps)
  let ?t = "\<lambda>p. (fst p, canonicalizeValue shown (snd p))"
  have "map ?t (sort_key fst (map (\<lambda>p. (fst p, canonicalJson (snd p))) ps)) = map ?t (sort_key fst ps)"
    using Obj by (simp add: sort_key_map_fst)
  moreover have "sort_key fst (map ?t (sort_key fst ps)) = sort_key fst (map ?t ps)"
    unfolding sort_key_map_fst by (simp add: sort_key_id_if_sorted)
  ultimately have "sort_key fst (map ?t (sort_key fst (map (\<lambda>p. (fst p, canonicalJson (snd p))) ps))) = sort_key fst (map ?t ps)"
    by simp
  then show ?case by (simp only: canonicalJson.simps canonicalizeValue.simps)
qed simp_all

lemma text_of_json: "is_json v \<Longrightarrow> canonicalizeValue shown v \<noteq> None"
proof (induction v rule: json_induct)
  case (Arr xs)
  then have "those (map (canonicalizeValue shown) xs) = Some (map (the \<circ> canonicalizeValue shown) xs)"
    by (auto simp: those_map_eq)
  then show ?case by simp
next
  case (Obj ps)
  let ?f = "\<lambda>p. map_option (member_text (fst p)) (canonicalizeValue shown (snd p))"
  have "those (map ?f (sort_key fst ps)) = Some (map (the \<circ> ?f) (sort_key fst ps))" using Obj by (auto simp: those_map_eq)
  then show ?case by (simp add: sort_key_map_fst comp_def)
next
  case (Num n)
  then show ?case by (cases n) auto
qed simp_all

lemma text_canonicalize: "is_json v \<Longrightarrow> is_json w \<Longrightarrow> canonicalize v = canonicalize w \<Longrightarrow>
    canonicalizeValue shown v = canonicalizeValue shown w"
  by (metis text_canonicalJson canonicalJson_rebuilt)


text \<open>
  C36. The digest of an envelope is the same before and after it was stored: the columns give the
  members back in another order, and the digest does not depend on it. Verifying an intent that
  nobody changed therefore succeeds.
\<close>

theorem digest_survives_storage:
  assumes "is_json (ev_target e)" "is_json (ev_parameters e)" "is_json (ev_providerPreconditions e)"
  shows "digestActionIntent sha shown (envelope_json (stored_envelope e)) = digestActionIntent sha shown (envelope_json e) \<and>
    digestActionIntent sha shown (envelope_json e) \<noteq> None"
proof -
  have col: "is_json (stored_json v) \<and> canonicalize (stored_json v) = canonicalize v" if "is_json v" for v
    using jsonb_canonical [OF that] by (auto simp: stored_json_def)
  have js: "is_json (envelope_json e)" "is_json (envelope_json (stored_envelope e))"
    using assms col by (simp_all add: envelope_json_def stored_envelope_def)
  have "canonicalize (envelope_json (stored_envelope e)) = canonicalize (envelope_json e)"
    using col [OF assms(1)] col [OF assms(2)] col [OF assms(3)] by (simp add: envelope_json_def stored_envelope_def)
  then show ?thesis using text_canonicalize [OF js(2,1)] text_of_json [OF js(1)] by (simp add: digestActionIntent_def)
qed

section \<open>Escaping\<close>

definition html_escape :: "char \<Rightarrow> string" where
  "html_escape c = (if c = CHR ''&'' then ''&amp;'' else if c = CHR ''<'' then ''&lt;'' else if c = CHR ''>'' then ''&gt;''
     else if c = CHR 0x22 then ''&quot;'' else if c = CHR 0x27 then ''&#39;'' else [c])"

lemma replace_char_append: "replace_char c w (s @ t) = replace_char c w s @ replace_char c w t"
  by (simp add: replace_char_def)

lemma escape_one_pass: "escapeSafeDisplayText s = concat (map html_escape s)"
proof (induction s)
  case Nil
  then show ?case by (simp add: escapeSafeDisplayText_def replace_char_def)
next
  case (Cons c s)
  have "escapeSafeDisplayText (c # s) = escapeSafeDisplayText [c] @ escapeSafeDisplayText s"
    unfolding escapeSafeDisplayText_def replace_char_append [symmetric] by simp
  moreover have "escapeSafeDisplayText [c] = html_escape c"
    by (simp add: escapeSafeDisplayText_def html_escape_def replace_char_def)
  ultimately show ?case using Cons by simp
qed

fun html_unescape :: "string \<Rightarrow> char \<times> string" where
  "html_unescape (x # xs) = (if x \<noteq> CHR ''&'' then (x, xs)
     else if take 4 xs = ''amp;'' then (CHR ''&'', drop 4 xs) else if take 3 xs = ''lt;'' then (CHR ''<'', drop 3 xs)
     else if take 3 xs = ''gt;'' then (CHR ''>'', drop 3 xs) else if take 5 xs = ''quot;'' then (CHR 0x22, drop 5 xs)
     else (CHR 0x27, drop 4 xs))"
| "html_unescape [] = (CHR 0x00, [])"

lemma html_unescape: "html_unescape (html_escape c @ r) = (c, r)"
  by (simp add: html_escape_def)

lemma html_escape_inj: "concat (map html_escape a) = concat (map html_escape b) \<Longrightarrow> a = b"
proof (induction a arbitrary: b)
  case Nil
  then show ?case by (cases b) (auto simp: html_escape_def split: if_splits)
next
  case (Cons x xs)
  have ne: "html_escape c \<noteq> []" for c by (simp add: html_escape_def)
  obtain y ys where b: "b = y # ys" using Cons.prems ne by (cases b) auto
  have "html_unescape (html_escape x @ concat (map html_escape xs)) = html_unescape (html_escape y @ concat (map html_escape ys))"
    using Cons.prems b by simp
  then show ?case using Cons.IH b by (simp add: html_unescape)
qed

text \<open>
  C37. What a reviewer is shown is faithful and inert: the five replacements, one after the other,
  act as one pass over the text, the result contains no angle bracket and no quote, and
  different texts are shown differently.
\<close>

theorem display_text_escaped:
  "escapeSafeDisplayText s = concat (map html_escape s) \<and>
   set (escapeSafeDisplayText s) \<inter> {CHR ''<'', CHR ''>'', CHR 0x22, CHR 0x27} = {} \<and> inj escapeSafeDisplayText"
proof (intro conjI)
  show "escapeSafeDisplayText s = concat (map html_escape s)" by (rule escape_one_pass)
  have "set (html_escape c) \<inter> {CHR ''<'', CHR ''>'', CHR 0x22, CHR 0x27} = {}" for c by (simp add: html_escape_def)
  then show "set (escapeSafeDisplayText s) \<inter> {CHR ''<'', CHR ''>'', CHR 0x22, CHR 0x27} = {}"
    unfolding escape_one_pass by fastforce
  show "inj escapeSafeDisplayText" using html_escape_inj by (auto simp: inj_def escape_one_pass)
qed


section \<open>Two limits on a display\<close>

text \<open>A display whose JSON text has exactly 8192 octets; the text of its column has three more.\<close>

definition wide_display :: display where
  "wide_display = \<lparr>dp_title = replicate 200 CHR ''t'', dp_description = Some (replicate 7963 CHR ''d''), dp_details = None\<rparr>"

definition wide_input :: intent_input where
  "wide_input = \<lparr>ni_workspaceId = ''ws'', ni_executionId = ''e1'', ni_nodeId = ''n1'', ni_connectionId = ''cn'',
     ni_connector = ''github'', ni_actionFamily = ''issues'', ni_requiredScopes = [''repo''], ni_operationId = ''op'',
     ni_operationRevision = ''1'', ni_target = JNull, ni_normalizedParameters = JNull, ni_providerPreconditions = JNull,
     ni_safeDisplay = wide_display, ni_digestVersion = ACTION_INTENT_DIGEST_VERSION,
     ni_canonicalDigest = replicate 43 CHR ''A'', ni_canonicalEnvelope = \<lparr>ev_version = 1, ev_operationRevision = ''1'',
       ev_connectionId = ''cn'', ev_connector = ''github'', ev_operation = ''op'', ev_target = JNull, ev_parameters = JNull,
       ev_providerPreconditions = JNull\<rparr>,
     ni_invocationIdempotencyKey = ''k'', ni_expiresAt = 0\<rparr>"

lemma utf8_length_append [simp]: "utf8_length (a @ b) = utf8_length a + utf8_length b"
  "utf8_length [] = 0" "utf8_length (c # s) = (if of_char c < (128 :: nat) then 1 else 2) + utf8_length s"
  by (simp_all add: utf8_length_def)

lemma utf8_length_quote_plain:
  assumes "of_char c \<in> {35 .. 91 :: nat} \<union> {93 .. 126}"
  shows "utf8_length (json_quote (replicate n c)) = n + 2"
proof -
  have "json_char c = [c]" using assms by (auto simp: json_char_def Let_def)
  then have "concat (map json_char (replicate n c)) = replicate n c" by (induction n) auto
  moreover have "(of_char c :: nat) < 128" using assms by auto
  ultimately show ?thesis by (simp add: json_quote_def utf8_length_def sum_list_replicate)
qed

lemma wide_display_length:
  "utf8_length (display_text colon comma wide_display) = 8189 + 2 * utf8_length colon + utf8_length comma"
proof -
  have "utf8_length (json_quote ''title'') = 7" "utf8_length (json_quote ''description'') = 13"
    by (simp_all add: json_quote_def json_char_def)
  moreover have "utf8_length (json_quote (replicate 200 CHR ''t'')) = 202"
    "utf8_length (json_quote (replicate 7963 CHR ''d'')) = 7965"
    by (subst utf8_length_quote_plain, simp, simp)+
  ultimately show ?thesis
    by (simp add: display_text_def display_members_def wide_display_def)
qed

text \<open>
  C38. The validation of a display and the table disagree about its size. The code counts the
  octets of the JSON text it would send, the table those of the text of its column, which has
  a space after every colon and comma: there is a display that passes the validation and whose
  insertion the table refuses, so the caller gets an error of the database in place of the
  validation error the code prepares.
\<close>

theorem display_limits_disagree:
  "validateSafeDisplay (stored_display wide_display) = Some wide_display \<and>
   intent_checks (\<lambda>_. utf8_length (display_text '': '' '', '' wide_display))
     (new_intent ''i1'' 0 wide_input x ''env'' ''s1'' None ''r1'') = Inl (CheckViolation ''action_intents_display_check'')"
proof
  have "safeDisplaySchema (stored_display wide_display) = Some wide_display"
    by (simp add: safeDisplaySchema_def stored_display_def wide_display_def field_def own_prop_def optional_text_def
        text_record_def)
  moreover have "utf8_length (display_text '':'' '','' wide_display) = 8192"
    unfolding wide_display_length by (simp add: utf8_length_def)
  ultimately show "validateSafeDisplay (stored_display wide_display) = Some wide_display"
    by (simp add: validateSafeDisplay_def)
  have "utf8_length (display_text '': '' '', '' wide_display) = 8195"
    unfolding wide_display_length by (simp add: utf8_length_def)
  moreover have "list_all base64url_char (replicate 43 CHR ''A'')"
    by (simp add: list_all_iff base64url_char_def less_eq_char_def)
  ultimately show "intent_checks (\<lambda>_. utf8_length (display_text '': '' '', '' wide_display))
     (new_intent ''i1'' 0 wide_input x ''env'' ''s1'' None ''r1'') = Inl (CheckViolation ''action_intents_display_check'')"
    by (simp add: intent_checks_def new_intent_def wide_input_def)
qed

section \<open>Witnesses\<close>

text \<open>A spelling of numbers, in unary.\<close>

definition tally :: "rat \<Rightarrow> string" where
  "tally r = (case quotient_of r of (a, b) \<Rightarrow>
     (if a < 0 then ''-'' else []) @ replicate (nat \<bar>a\<bar>) CHR ''1'' @ ''.'' @ replicate (nat b) CHR ''1'')"

lemma tally_spells: "spells_numbers tally"
proof -
  have "r = s" if eq: "tally r = tally s" for r s
  proof -
    obtain a b c e where q: "quotient_of r = (a, b)" "quotient_of s = (c, e)" by (metis surj_pair)
    have pos: "0 < b" "0 < e" using q quotient_of_denom_pos by blast+
    let ?i = "\<lambda>a :: int. (if a < 0 then ''-'' else []) @ replicate (nat \<bar>a\<bar>) CHR ''1''"
    have "?i a @ CHR ''.'' # replicate (nat b) CHR ''1'' = ?i c @ CHR ''.'' # replicate (nat e) CHR ''1''"
      using eq q by (simp add: tally_def)
    then have "?i a = ?i c \<and> replicate (nat b) CHR ''1'' = replicate (nat e) CHR ''1''"
      by (subst (asm) append_Cons_eq_iff) auto
    then have ones: "?i a = ?i c" "nat b = nat e" by (auto dest: arg_cong [of _ _ length])
    have "(CHR ''-'' \<in> set (?i a)) = (a < 0)" "length (filter (\<lambda>c. c = CHR ''1'') (?i a)) = nat \<bar>a\<bar>" for a by auto
    then have "(a < 0) = (c < 0)" "nat \<bar>a\<bar> = nat \<bar>c\<bar>" using ones(1) by metis+
    then have "a = c" "b = e" using pos ones(2) by auto
    then show ?thesis using q quotient_of_inject [of r s] by simp
  qed
  then show ?thesis by (auto simp: spells_numbers_def inj_def tally_def number_chars_def split: prod.split)
qed



theorem digest_survives_storage_witness:
  "digestActionIntent id tally (envelope_json (stored_envelope (ni_canonicalEnvelope wide_input\<lparr>ev_target :=
      JObj [(''repository'', JStr ''linea''), (''owner'', JStr ''o'')]\<rparr>))) =
   digestActionIntent id tally (envelope_json (ni_canonicalEnvelope wide_input\<lparr>ev_target :=
      JObj [(''repository'', JStr ''linea''), (''owner'', JStr ''o'')]\<rparr>))"
  using digest_survives_storage [of "ni_canonicalEnvelope wide_input\<lparr>ev_target :=
      JObj [(''repository'', JStr ''linea''), (''owner'', JStr ''o'')]\<rparr>" id tally]
  by (simp add: wide_input_def)

end
