(* ===== verification/Connections.thy ===== *)
theory Connections
  imports Approvals
begin

text \<open>
  Connections of external subjects to providers: \<^verbatim>\<open>packages/db/src/repositories/connection.repository.ts\<close>
  and \<^verbatim>\<open>recordConnectionFact\<close> of \<^verbatim>\<open>connector-audit.repository.ts\<close>. A connection is authorized through a
  request that is claimed once, holds an encrypted credential while it is active, and when it is
  revoked its credential moves to a delivery that a worker sends to the provider.

  Parameters: \<open>collate\<close>, the sort key of \<^verbatim>\<open>localeCompare\<close>; \<open>encrypt\<close>, the encryption of a credential under
  the key ring; \<open>parse_url\<close>, the \<^verbatim>\<open>URL\<close> constructor, which throws on \<open>None\<close>. The conventions are those of
  \<open>Approvals\<close>.
\<close>

section \<open>Audit facts\<close>

definition recordConnectionFact ::
  "uuid \<Rightarrow> connection_row \<Rightarrow> string \<Rightarrow> timestamp \<Rightarrow> string option \<Rightarrow> string option \<Rightarrow> string option \<Rightarrow> db \<Rightarrow>
     db_error + db" where
  "recordConnectionFact fid c factType occurredAt outcome failureClass label d =
    bindE (retentionContext (cn_environmentId c) (cn_externalSubjectId c) d) (\<lambda>(days, reference).
      (case auditExpiry occurredAt of
         None \<Rightarrow> Inl (AppError ''Invalid time value'')
       | Some auditExpiresAt \<Rightarrow> Inr (d\<lparr>connectorAuditFacts := connectorAuditFacts d @
           [\<lparr>cf_id = fid, cf_workspaceId = cn_workspaceId c, cf_environmentId = cn_environmentId c,
             cf_externalSubjectId = cn_externalSubjectId c, cf_subjectReference = reference,
             cf_connectionId = cn_id c, cf_actionIntentId = None, cf_decisionId = None, cf_factType = factType,
             cf_provider = cn_provider c, cf_operationId = None, cf_digest = None,
             cf_outcome = outcome, cf_failureClass = failureClass, cf_accountLabel = label, cf_display = None,
             cf_contentExpiresAt = min (occurredAt div 1000 * 1000 + days * DAY) auditExpiresAt, cf_contentErasedAt = None,
             cf_auditExpiresAt = auditExpiresAt, cf_occurredAt = occurredAt\<rparr>]\<rparr>)))"

section \<open>The table of connections\<close>

text \<open>Check constraints in the order of their names, then the unique indexes.\<close>

definition connection_checks :: "connection_row \<Rightarrow> db_error + unit" where
  "connection_checks c =
    (if \<not> (cn_status c = ''active'' \<and> cn_credentialEncrypted c \<noteq> None \<and> cn_revokedAt c = None \<or>
           cn_status c = ''reauthorization_required'' \<and> cn_credentialEncrypted c = None \<and> cn_revokedAt c = None \<or>
           cn_status c = ''revoked'' \<and> cn_credentialEncrypted c = None \<and> cn_revokedAt c \<noteq> None)
     then Inl (CheckViolation ''connections_credential_state_check'')
     else if \<not> (cn_ownership c = Personal \<and> cn_externalSubjectId c \<noteq> None \<and> cn_authorizationKind c = Delegated_user \<or>
           cn_ownership c = Environment_owned \<and> cn_externalSubjectId c = None \<and>
             cn_authorizationKind c = Github_app_installation \<and> cn_provider c = ''github'')
     then Inl (CheckViolation ''connections_ownership_check'')
     else if cn_scopes c = [] then Inl (CheckViolation ''connections_scopes_check'')
     else if cn_status c \<notin> {''active'', ''reauthorization_required'', ''revoked''}
     then Inl (CheckViolation ''connections_status_check'')
     else Inr ())"

definition connection_slot :: "connection_row \<Rightarrow> uuid \<times> uuid \<times> uuid option \<times> string \<times> string" where
  "connection_slot c = (cn_workspaceId c, cn_environmentId c, cn_externalSubjectId c, cn_provider c, cn_providerAccountId c)"

definition open_connection :: "connection_row \<Rightarrow> bool" where
  "open_connection c \<longleftrightarrow> cn_status c \<noteq> ''revoked''"

definition insert_connection :: "connection_row \<Rightarrow> db \<Rightarrow> db_error + (db \<times> connection_row)" where
  "insert_connection c d =
    bindE (connection_checks c) (\<lambda>_.
      if list_ex (\<lambda>x. cn_id x = cn_id c) (connections d) then Inl (UniqueViolation ''connections_pkey'')
      else if open_connection c \<and> cn_externalSubjectId c \<noteq> None \<and>
          list_ex (\<lambda>x. open_connection x \<and> connection_slot x = connection_slot c) (connections d)
      then Inl (UniqueViolation ''connections_active_ownership_uidx'')
      else if \<not> list_ex (\<lambda>e. env_id e = cn_environmentId c \<and> env_workspaceId e = cn_workspaceId c) (environments d)
      then Inl (ForeignKeyViolation ''connections_environment_fkey'')
      else if cn_externalSubjectId c \<noteq> None \<and>
          \<not> list_ex (\<lambda>x. Some (xs_id x) = cn_externalSubjectId c \<and> xs_workspaceId x = cn_workspaceId c) (externalSubjects d)
      then Inl (ForeignKeyViolation ''connections_subject_fkey'')
      else Inr (d\<lparr>connections := connections d @ [c]\<rparr>, c))"

definition update_connection ::
  "(connection_row \<Rightarrow> bool) \<Rightarrow> (connection_row \<Rightarrow> connection_row) \<Rightarrow> db \<Rightarrow> db_error + (db \<times> connection_row option)" where
  "update_connection p g d = (case update_where p g (connections d) of (rows, ret) \<Rightarrow>
     bindE (for_each connection_checks ret) (\<lambda>_. Inr (d\<lparr>connections := rows\<rparr>, first_row ret)))"

record connection_owner =
  co_workspaceId :: uuid
  co_environmentId :: uuid
  co_externalSubjectId :: uuid

definition ownedConnection :: "connection_owner \<Rightarrow> uuid option \<Rightarrow> connection_row \<Rightarrow> bool" where
  "ownedConnection o' cid c \<longleftrightarrow> cn_workspaceId c = co_workspaceId o' \<and> cn_environmentId c = co_environmentId o' \<and>
     cn_externalSubjectId c = Some (co_externalSubjectId o') \<and>
     (case truthy_string cid of None \<Rightarrow> True | Some i \<Rightarrow> cn_id c = i)"

definition visibleConnection :: "connection_owner \<Rightarrow> uuid option \<Rightarrow> db \<Rightarrow> connection_row \<Rightarrow> bool" where
  "visibleConnection o' cid d c \<longleftrightarrow> cn_workspaceId c = co_workspaceId o' \<and> cn_environmentId c = co_environmentId o' \<and>
     (case truthy_string cid of None \<Rightarrow> True | Some i \<Rightarrow> cn_id c = i) \<and>
     (cn_externalSubjectId c = Some (co_externalSubjectId o') \<or>
      cn_ownership c = Environment_owned \<and>
        (list_ex (\<lambda>g. cg_connectionId g = cn_id c \<and> cg_externalSubjectId g = co_externalSubjectId o' \<and>
           cg_revokedAt g = None) (accessGrants d) \<or>
         list_ex (\<lambda>r. cr_connectionId r = cn_id c \<and> cr_externalSubjectId r = co_externalSubjectId o' \<and>
           cr_revokedAt r = None) (reviewerAssignments d)))"

definition getVisibleConnection :: "connection_owner \<Rightarrow> uuid \<Rightarrow> db \<Rightarrow> connection_row option" where
  "getVisibleConnection o' cid d = find (visibleConnection o' (Some cid) d) (connections d)"

definition connection_key :: "connection_row \<Rightarrow> timestamp \<times> uuid" where
  "connection_key c = (cn_createdAt c, cn_id c)"

definition listConnections :: "connection_owner \<Rightarrow> db \<Rightarrow> connection_row list" where
  "listConnections o' d = rev (sort_key connection_key (filter (visibleConnection o' None d) (connections d)))"

definition getConnection :: "connection_owner \<Rightarrow> uuid \<Rightarrow> db \<Rightarrow> connection_row option" where
  "getConnection o' cid d = find (ownedConnection o' (Some cid)) (connections d)"

definition findConnections :: "connection_owner \<Rightarrow> nat \<Rightarrow> (timestamp \<times> uuid) option \<Rightarrow> db \<Rightarrow> connection_row list" where
  "findConnections o' limit cursor d = take limit (rev (sort_key connection_key (filter (\<lambda>c.
     visibleConnection o' None d c \<and> (case cursor of None \<Rightarrow> True | Some k \<Rightarrow> connection_key c < k)) (connections d))))"

section \<open>Uses\<close>

definition recordConnectionReadUse :: "read_use \<Rightarrow> db \<Rightarrow> db_error + (db \<times> read_use)" where
  "recordConnectionReadUse u d =
    (if \<not> list_ex (\<lambda>e. env_id e = ru_environmentId u \<and> env_workspaceId e = ru_workspaceId u) (environments d)
     then Inl (ForeignKeyViolation ''connection_read_uses_environment_fkey'')
     else if \<not> list_ex (\<lambda>x. xs_id x = ru_externalSubjectId u \<and> xs_workspaceId x = ru_workspaceId u) (externalSubjects d)
     then Inl (ForeignKeyViolation ''connection_read_uses_subject_fkey'')
     else if \<not> list_ex (\<lambda>c. cn_id c = ru_connectionId u \<and> cn_workspaceId c = ru_workspaceId u) (connections d)
     then Inl (ForeignKeyViolation ''connection_read_uses_connection_fkey'')
     else if \<not> list_ex (\<lambda>x. ex_id x = ru_executionId u \<and> ex_workspaceId x = ru_workspaceId u) (executions d)
     then Inl (ForeignKeyViolation ''connection_read_uses_execution_fkey'')
     else Inr (d\<lparr>connectionReadUses := connectionReadUses d @ [u]\<rparr>, u))"

definition use_key :: "read_use \<Rightarrow> timestamp \<times> uuid" where
  "use_key u = (ru_occurredAt u, ru_id u)"

definition findConnectionReadUses ::
  "connection_owner \<Rightarrow> uuid \<Rightarrow> nat \<Rightarrow> (timestamp \<times> uuid) option \<Rightarrow> db \<Rightarrow> read_use list" where
  "findConnectionReadUses o' cid limit cursor d = take limit (rev (sort_key use_key (filter (\<lambda>u.
     ru_workspaceId u = co_workspaceId o' \<and> ru_environmentId u = co_environmentId o' \<and>
     ru_externalSubjectId u = co_externalSubjectId o' \<and> ru_connectionId u = cid \<and>
     (case cursor of None \<Rightarrow> True | Some k \<Rightarrow> use_key u < k)) (connectionReadUses d))))"

text \<open>The joins of \<^verbatim>\<open>getConnectorReadAuthority\<close>; an equality with a null column is not true.\<close>

definition read_subject :: "execution \<Rightarrow> uuid \<Rightarrow> uuid \<Rightarrow> db \<Rightarrow> bool" where
  "read_subject x env s d \<longleftrightarrow>
     list_ex (\<lambda>y. xs_id y = s \<and> xs_workspaceId y = ex_workspaceId x \<and> xs_status y = Verified) (externalSubjects d) \<and>
     list_ex (\<lambda>m. se_environmentId m = env \<and> se_externalSubjectId m = s \<and> se_workspaceId m = ex_workspaceId x)
       (subjectEnvironments d)"

definition read_connection :: "execution \<Rightarrow> uuid \<Rightarrow> uuid \<Rightarrow> uuid \<Rightarrow> db \<Rightarrow> connection_row \<Rightarrow> bool" where
  "read_connection x env s cid d c \<longleftrightarrow> cn_id c = cid \<and> cn_workspaceId c = ex_workspaceId x \<and> cn_environmentId c = env \<and>
     (cn_externalSubjectId c = Some s \<or>
      cn_ownership c = Environment_owned \<and>
        list_ex (\<lambda>g. cg_connectionId g = cn_id c \<and> cg_environmentId g = env \<and> cg_workspaceId g = ex_workspaceId x \<and>
          cg_externalSubjectId g = s \<and> cg_revokedAt g = None) (accessGrants d))"

record read_authority =
  ra_connection :: connection_row
  ra_externalSubjectId :: uuid
  ra_providerPolicy :: provider_policy

definition getConnectorReadAuthority :: "uuid \<Rightarrow> uuid \<Rightarrow> uuid \<Rightarrow> db \<Rightarrow> read_authority option" where
  "getConnectorReadAuthority xid ws cid d =
    (case find (\<lambda>x. ex_id x = xid \<and> ex_workspaceId x = ws) (executions d) of
       None \<Rightarrow> None
     | Some x \<Rightarrow>
         (case (ex_environmentId x, ex_externalSubjectRecordId x) of
            (Some env, Some s) \<Rightarrow>
              (case (find (\<lambda>e. env_id e = env \<and> env_workspaceId e = ex_workspaceId x \<and> env_enabled e) (environments d),
                     find (read_connection x env s cid d) (connections d)) of
                 (Some e, Some c) \<Rightarrow>
                   if \<not> read_subject x env s d \<or> s = [] then None
                   else map_option (\<lambda>p. \<lparr>ra_connection = c, ra_externalSubjectId = s, ra_providerPolicy = p\<rparr>)
                     (find (\<lambda>p. pp_provider p = cn_provider c) (env_connectorAccessPolicy e))
               | _ \<Rightarrow> None)
          | _ \<Rightarrow> None))"

section \<open>Credentials\<close>

definition current_version :: "connection_owner \<Rightarrow> uuid \<Rightarrow> int \<Rightarrow> connection_row \<Rightarrow> bool" where
  "current_version o' cid v c \<longleftrightarrow> ownedConnection o' (Some cid) c \<and> cn_status c = ''active'' \<and> cn_credentialVersion c = v"

definition rotateConnectionCredential ::
  "uuid \<Rightarrow> connection_owner \<Rightarrow> uuid \<Rightarrow> int \<Rightarrow> string \<Rightarrow> timestamp \<Rightarrow> db \<Rightarrow> db_error + (db \<times> connection_row option)" where
  "rotateConnectionCredential fid o' cid v secret now d =
    bindE (update_connection (current_version o' cid v)
        (\<lambda>c. c\<lparr>cn_credentialEncrypted := Some secret, cn_credentialVersion := cn_credentialVersion c + 1, cn_updatedAt := now\<rparr>) d)
      (\<lambda>(d1, res). (case res of
         None \<Rightarrow> Inr (d1, None)
       | Some c \<Rightarrow> bindE (recordConnectionFact fid c ''connection.credential_rotated'' now (Some ''active'') None None d1)
           (\<lambda>d2. Inr (d2, Some c))))"

definition requireConnectionReauthorization ::
  "uuid \<Rightarrow> connection_owner \<Rightarrow> uuid \<Rightarrow> int \<Rightarrow> timestamp \<Rightarrow> db \<Rightarrow> db_error + (db \<times> connection_row option)" where
  "requireConnectionReauthorization fid o' cid v now d =
    bindE (update_connection (current_version o' cid v)
        (\<lambda>c. c\<lparr>cn_status := ''reauthorization_required'', cn_credentialEncrypted := None,
           cn_credentialVersion := cn_credentialVersion c + 1, cn_updatedAt := now\<rparr>) d)
      (\<lambda>(d1, res). (case res of
         None \<Rightarrow> Inr (d1, None)
       | Some c \<Rightarrow> bindE (recordConnectionFact fid c ''connection.reauthorization_required'' now
           (Some ''reauthorization_required'') None None d1) (\<lambda>d2. Inr (d2, Some c))))"


section \<open>Deliveries of revocations\<close>

definition delivery_payload_check :: "revocation_delivery \<Rightarrow> db_error + unit" where
  "delivery_payload_check r =
    (if rd_deliveredAt r = None \<and> rd_credentialEncrypted r \<noteq> None \<or> rd_deliveredAt r \<noteq> None \<and> rd_credentialEncrypted r = None
     then Inr () else Inl (CheckViolation ''connection_revocation_deliveries_payload_check''))"

text \<open>The insertion: identifiers come from the application; the columns not given have their defaults.\<close>

definition new_delivery ::
  "uuid \<Rightarrow> uuid \<Rightarrow> uuid \<Rightarrow> uuid \<Rightarrow> uuid option \<Rightarrow> string \<Rightarrow> string \<Rightarrow> string \<Rightarrow> timestamp \<Rightarrow> timestamp \<Rightarrow> timestamp \<Rightarrow>
     revocation_delivery" where
  "new_delivery i ws env s cid provider account secret availableAt expiresAt now = \<lparr>rd_id = i, rd_workspaceId = ws,
     rd_environmentId = env, rd_externalSubjectId = s, rd_connectionId = cid, rd_provider = provider,
     rd_providerAccountId = Some account, rd_credentialEncrypted = Some secret, rd_expiresAt = expiresAt,
     rd_availableAt = availableAt, rd_attemptCount = 0, rd_lastAttemptAt = None, rd_lastFailureClass = None,
     rd_claimedBy = None, rd_claimExpiresAt = None, rd_deliveredAt = None, rd_createdAt = now\<rparr>"

definition insert_delivery :: "revocation_delivery \<Rightarrow> db \<Rightarrow> db_error + db" where
  "insert_delivery r d =
    (if list_ex (\<lambda>x. rd_id x = rd_id r) (connectionRevocationDeliveries d)
     then Inl (UniqueViolation ''connection_revocation_deliveries_pkey'')
     else if rd_connectionId r \<noteq> None \<and>
         \<not> list_ex (\<lambda>c. Some (cn_id c) = rd_connectionId r \<and> cn_workspaceId c = rd_workspaceId r) (connections d)
     then Inl (ForeignKeyViolation ''connection_revocation_deliveries_connection_fkey'')
     else if \<not> list_ex (\<lambda>e. env_id e = rd_environmentId r \<and> env_workspaceId e = rd_workspaceId r) (environments d)
     then Inl (ForeignKeyViolation ''connection_revocation_deliveries_environment_fkey'')
     else if \<not> list_ex (\<lambda>x. xs_id x = rd_externalSubjectId r \<and> xs_workspaceId x = rd_workspaceId r) (externalSubjects d)
     then Inl (ForeignKeyViolation ''connection_revocation_deliveries_subject_fkey'')
     else Inr (d\<lparr>connectionRevocationDeliveries := connectionRevocationDeliveries d @ [r]\<rparr>))"

definition update_delivery ::
  "(revocation_delivery \<Rightarrow> bool) \<Rightarrow> (revocation_delivery \<Rightarrow> revocation_delivery) \<Rightarrow> db \<Rightarrow>
     db_error + (db \<times> revocation_delivery option)" where
  "update_delivery p g d = (case update_where p g (connectionRevocationDeliveries d) of (rows, ret) \<Rightarrow>
     bindE (for_each delivery_payload_check ret) (\<lambda>_.
       Inr (d\<lparr>connectionRevocationDeliveries := rows\<rparr>, first_row ret)))"

definition delivery_due :: "timestamp \<Rightarrow> revocation_delivery \<Rightarrow> bool" where
  "delivery_due now r \<longleftrightarrow> rd_deliveredAt r = None \<and> rd_availableAt r \<le> now \<and> now < rd_expiresAt r \<and>
     (rd_claimedBy r = None \<or> sql_lte (rd_claimExpiresAt r) now)"

text \<open>The candidate of a claim: the first due delivery whose row no other transaction has locked.\<close>

definition claimRevocationDelivery ::
  "uuid set \<Rightarrow> string \<Rightarrow> timestamp \<Rightarrow> timestamp \<Rightarrow> db \<Rightarrow> db_error + (db \<times> revocation_delivery option)" where
  "claimRevocationDelivery locked who now claimExpiresAt d =
    (case first_row (sort_key (\<lambda>r. (rd_availableAt r, rd_id r))
        (filter (\<lambda>r. delivery_due now r \<and> rd_id r \<notin> locked) (connectionRevocationDeliveries d))) of
       None \<Rightarrow> Inr (d, None)
     | Some r \<Rightarrow> update_delivery (\<lambda>x. rd_id x = rd_id r)
         (\<lambda>x. x\<lparr>rd_attemptCount := rd_attemptCount x + 1, rd_lastAttemptAt := Some now, rd_claimedBy := Some who,
            rd_claimExpiresAt := Some claimExpiresAt\<rparr>) d)"

definition stageAuthorizationCredentialRevocation ::
  "uuid \<Rightarrow> connection_owner \<Rightarrow> string \<Rightarrow> string \<Rightarrow> string \<Rightarrow> timestamp \<Rightarrow> timestamp \<Rightarrow> timestamp \<Rightarrow> db \<Rightarrow> db_error + db" where
  "stageAuthorizationCredentialRevocation i o' provider account secret availableAt expiresAt now d =
     insert_delivery (new_delivery i (co_workspaceId o') (co_environmentId o') (co_externalSubjectId o') None provider account
       secret availableAt expiresAt now) d"

definition held_delivery :: "uuid \<Rightarrow> string \<Rightarrow> revocation_delivery \<Rightarrow> bool" where
  "held_delivery i who r \<longleftrightarrow> rd_id r = i \<and> rd_claimedBy r = Some who \<and> rd_deliveredAt r = None"

definition completeRevocationDelivery ::
  "uuid \<Rightarrow> uuid \<Rightarrow> string \<Rightarrow> timestamp \<Rightarrow> db \<Rightarrow> db_error + (db \<times> bool)" where
  "completeRevocationDelivery fid i who deliveredAt d =
    bindE (update_delivery (held_delivery i who)
        (\<lambda>r. r\<lparr>rd_deliveredAt := Some deliveredAt, rd_credentialEncrypted := None, rd_claimedBy := None,
           rd_claimExpiresAt := None\<rparr>) d) (\<lambda>(d1, res).
      (case res of
         None \<Rightarrow> Inr (d1, False)
       | Some r \<Rightarrow>
           (case truthy_string (rd_connectionId r) of
              None \<Rightarrow> Inr (d1, True)
            | Some cid \<Rightarrow>
                (case find (\<lambda>c. cn_id c = cid) (connections d1) of
                   None \<Rightarrow> Inl (AppError ''Revocation Connection is missing'')
                 | Some c \<Rightarrow> bindE (recordConnectionFact fid c ''connection.revocation_payload_destroyed'' deliveredAt
                     (Some ''delivered'') None None d1) (\<lambda>d2. Inr (d2, True))))))"

definition recordRevocationDeliveryFailure ::
  "uuid \<Rightarrow> string \<Rightarrow> timestamp \<Rightarrow> string \<Rightarrow> db \<Rightarrow> db_error + (db \<times> bool)" where
  "recordRevocationDeliveryFailure i who retryAt failureClass d =
    bindE (update_delivery (held_delivery i who)
        (\<lambda>r. r\<lparr>rd_availableAt := retryAt, rd_lastFailureClass := Some failureClass, rd_claimedBy := None,
           rd_claimExpiresAt := None\<rparr>) d) (\<lambda>(d1, res). Inr (d1, res \<noteq> None))"

definition renewRevocationDeliveryClaim ::
  "uuid \<Rightarrow> string \<Rightarrow> timestamp \<Rightarrow> db \<Rightarrow> db_error + (db \<times> bool)" where
  "renewRevocationDeliveryClaim i who claimExpiresAt d =
    bindE (update_delivery (held_delivery i who) (\<lambda>r. r\<lparr>rd_claimExpiresAt := Some claimExpiresAt\<rparr>) d)
      (\<lambda>(d1, res). Inr (d1, res \<noteq> None))"

definition expired_fact :: "(uuid \<Rightarrow> uuid) \<Rightarrow> timestamp \<Rightarrow> revocation_delivery \<Rightarrow> db \<Rightarrow> db_error + db" where
  "expired_fact fact_of now r d =
    (case Option.bind (rd_connectionId r) (\<lambda>cid. find (\<lambda>c. cn_id c = cid) (connections d)) of
       None \<Rightarrow> Inr d
     | Some c \<Rightarrow> recordConnectionFact (fact_of (rd_id r)) c ''connection.revocation_payload_destroyed'' now (Some ''expired'')
         (Some (case rd_lastFailureClass r of None \<Rightarrow> ''not_delivered'' | Some f \<Rightarrow> f)) None d)"

definition deleteExpiredRevocationDeliveries ::
  "(uuid \<Rightarrow> uuid) \<Rightarrow> timestamp \<Rightarrow> db \<Rightarrow> db_error + (db \<times> nat)" where
  "deleteExpiredRevocationDeliveries fact_of now d =
    (let expired = filter (\<lambda>r. rd_deliveredAt r = None \<and> rd_expiresAt r \<le> now) (connectionRevocationDeliveries d) in
     bindE (each_db (expired_fact fact_of now) expired d) (\<lambda>d1.
       if expired = [] then Inr (d1, 0)
       else Inr (d1\<lparr>connectionRevocationDeliveries := filter (\<lambda>r. rd_id r \<notin> set (map rd_id expired))
           (connectionRevocationDeliveries d1)\<rparr>,
         length (filter (\<lambda>r. rd_id r \<in> set (map rd_id expired)) (connectionRevocationDeliveries d1)))))"

section \<open>Revoking\<close>

record revoke_input =
  rv_expectedCredentialVersion :: int
  rv_deliveryId :: "uuid option"
  rv_revocationCredentialEncrypted :: "string option"
  rv_actorEndUserSessionId :: uuid
  rv_expiresAt :: timestamp
  rv_now :: timestamp

datatype revoke_result = Rv_revoked connection_row "uuid option" | Rv_not_found | Rv_conflict

definition revocable :: "connection_owner \<Rightarrow> uuid \<Rightarrow> int \<Rightarrow> connection_row \<Rightarrow> bool" where
  "revocable o' cid v c \<longleftrightarrow> ownedConnection o' (Some cid) c \<and> open_connection c \<and> cn_credentialVersion c = v"

definition stage_revocation :: "timestamp \<Rightarrow> connection_owner \<Rightarrow> uuid \<Rightarrow> revoke_input \<Rightarrow> connection_row \<Rightarrow> db \<Rightarrow> db_error + db" where
  "stage_revocation now o' cid inp c d =
    (case (truthy_string (rv_deliveryId inp), truthy_string (rv_revocationCredentialEncrypted inp)) of
       (Some i, Some secret) \<Rightarrow> insert_delivery (new_delivery i (co_workspaceId o') (co_environmentId o') (co_externalSubjectId o')
         (Some cid) (cn_provider c) (cn_providerAccountId c) secret now (rv_expiresAt inp) (rv_now inp)) d
     | _ \<Rightarrow> Inr d)"

text \<open>\<open>now\<close> is the clock of the database, which fills columns with a default.\<close>

definition revokeConnection ::
  "(jsval \<Rightarrow> nat) \<Rightarrow> (uuid \<Rightarrow> uuid) \<Rightarrow> (uuid \<Rightarrow> uuid) \<Rightarrow> uuid \<Rightarrow> uuid \<Rightarrow> timestamp \<Rightarrow> connection_owner \<Rightarrow> uuid \<Rightarrow> revoke_input \<Rightarrow>
     db \<Rightarrow> db_error + (db \<times> revoke_result)" where
  "revokeConnection octets event_of fact_of fid mid now o' cid inp d =
    bindE (update_connection (revocable o' cid (rv_expectedCredentialVersion inp))
        (\<lambda>c. c\<lparr>cn_status := ''revoked'', cn_credentialEncrypted := None, cn_revokedAt := Some (rv_now inp),
           cn_updatedAt := rv_now inp\<rparr>) d) (\<lambda>(d1, res).
      (case res of
         None \<Rightarrow> Inr (d1, case getConnection o' cid d1 of None \<Rightarrow> Rv_not_found | Some _ \<Rightarrow> Rv_conflict)
       | Some c \<Rightarrow>
           bindE (cancelNonExecutingActionIntents octets event_of fact_of now (co_workspaceId o') (Sc_connection (cn_id c))
               (C_end_user_session (rv_actorEndUserSessionId inp) (co_externalSubjectId o')) (rv_now inp) d1) (\<lambda>(d2, _).
           bindE (stage_revocation now o' cid inp c d2) (\<lambda>d3.
           bindE (recordConnectionFact fid c ''connection.revoked'' (rv_now inp) (Some ''revoked'') None
               (Some (cn_accountLabel c)) d3) (\<lambda>d4.
           bindE (createPublicEvent octets mid now (cn_workspaceId c) (cn_environmentId c) (Some (co_externalSubjectId o'))
               ''connection.revoked'' [(''connectionId'', JStr (cn_id c))] d4) (\<lambda>(d5, _).
             Inr (d5, Rv_revoked c (rv_deliveryId inp))))))))"


section \<open>Authorization requests\<close>

definition sameValues :: "(string \<Rightarrow> string) \<Rightarrow> string list \<Rightarrow> string list \<Rightarrow> bool" where
  "sameValues collate l r = (sort_key collate l = sort_key collate r)"

record url_parts =
  url_protocol :: string
  url_host :: string
  url_origin :: string

definition origin :: "(string \<Rightarrow> url_parts option) \<Rightarrow> string \<Rightarrow> string option" where
  "origin parse_url v = map_option (\<lambda>u. if url_origin u = ''null'' then url_protocol u @ ''//'' @ url_host u else url_origin u)
     (parse_url v)"

definition requested_environment :: "connection_owner \<Rightarrow> db \<Rightarrow> environment_row option" where
  "requested_environment o' d = find (\<lambda>e. env_id e = co_environmentId o' \<and> env_workspaceId e = co_workspaceId o' \<and> env_enabled e \<and>
     list_ex (\<lambda>m. se_environmentId m = env_id e \<and> se_workspaceId m = env_workspaceId e \<and>
       se_externalSubjectId m = co_externalSubjectId o') (subjectEnvironments d)) (environments d)"

definition getConnectionAuthorizationPolicy :: "connection_owner \<Rightarrow> string \<Rightarrow> db \<Rightarrow> provider_policy option" where
  "getConnectionAuthorizationPolicy o' provider d = Option.bind (requested_environment o' d) (\<lambda>e.
     find (\<lambda>p. pp_provider p = provider) (env_connectorAccessPolicy e))"

definition getConnectionAuthorizationRequest :: "connection_owner \<Rightarrow> uuid \<Rightarrow> db \<Rightarrow> authorization_request option" where
  "getConnectionAuthorizationRequest o' i d = find (\<lambda>q. cq_id q = i \<and> cq_workspaceId q = co_workspaceId o' \<and>
     cq_environmentId q = co_environmentId o' \<and> cq_externalSubjectId q = co_externalSubjectId o')
     (connectionAuthorizationRequests d)"

record create_authorization =
  ca_id :: uuid
  ca_owner :: connection_owner
  ca_endUserSessionId :: uuid
  ca_provider :: string
  ca_actionFamilies :: "string list"
  ca_scopes :: "string list"
  ca_returnUri :: string
  ca_stateHash :: string
  ca_codeVerifierEncrypted :: string
  ca_expiresAt :: timestamp
  ca_targetConnectionId :: "uuid option"

datatype create_authorization_result =
    Au_created authorization_request
  | Au_environment_unavailable
  | Au_provider_denied
  | Au_scope_denied
  | Au_connection_unavailable
  | Au_connection_scope_insufficient
  | Au_return_uri_denied

definition new_authorization :: "timestamp \<Rightarrow> create_authorization \<Rightarrow> authorization_request" where
  "new_authorization now inp = \<lparr>cq_id = ca_id inp, cq_workspaceId = co_workspaceId (ca_owner inp),
     cq_environmentId = co_environmentId (ca_owner inp), cq_externalSubjectId = co_externalSubjectId (ca_owner inp),
     cq_endUserSessionId = Some (ca_endUserSessionId inp), cq_provider = ca_provider inp, cq_scopes = ca_scopes inp,
     cq_returnUri = ca_returnUri inp, cq_stateHash = ca_stateHash inp,
     cq_codeVerifierEncrypted = Some (ca_codeVerifierEncrypted inp), cq_targetConnectionId = ca_targetConnectionId inp,
     cq_resultConnectionId = None, cq_outcome = None, cq_expiresAt = ca_expiresAt inp, cq_claimedAt = None,
     cq_completedAt = None, cq_createdAt = now\<rparr>"

definition insert_authorization :: "authorization_request \<Rightarrow> db \<Rightarrow> db_error + db" where
  "insert_authorization q d =
    (if cq_scopes q = [] then Inl (CheckViolation ''connection_authorization_requests_scopes_check'')
     else if list_ex (\<lambda>x. cq_id x = cq_id q) (connectionAuthorizationRequests d)
     then Inl (UniqueViolation ''connection_authorization_requests_pkey'')
     else if list_ex (\<lambda>x. cq_stateHash x = cq_stateHash q) (connectionAuthorizationRequests d)
     then Inl (UniqueViolation ''connection_authorization_requests_state_hash_uidx'')
     else if \<not> list_ex (\<lambda>x. xs_id x = cq_externalSubjectId q \<and> xs_workspaceId x = cq_workspaceId q) (externalSubjects d)
     then Inl (ForeignKeyViolation ''connection_authorization_requests_subject_fkey'')
     else if \<not> list_ex (\<lambda>s. Some (eu_id s) = cq_endUserSessionId q) (endUserSessions d)
     then Inl (ForeignKeyViolation ''connection_authorization_requests_session_fkey'')
     else Inr (d\<lparr>connectionAuthorizationRequests := connectionAuthorizationRequests d @ [q]\<rparr>))"

definition reauthorization_target :: "create_authorization \<Rightarrow> db \<Rightarrow> create_authorization_result option" where
  "reauthorization_target inp d = (case truthy_string (ca_targetConnectionId inp) of
       None \<Rightarrow> None
     | Some cid \<Rightarrow>
         (case find (\<lambda>c. ownedConnection (ca_owner inp) (Some cid) c \<and> cn_provider c = ca_provider inp \<and> open_connection c)
             (connections d) of
            None \<Rightarrow> Some Au_connection_unavailable
          | Some c \<Rightarrow>
              if cn_status c = ''active'' \<and> list_ex (\<lambda>s. s \<notin> set (ca_scopes inp)) (cn_scopes c)
              then Some Au_connection_scope_insufficient
              else if cn_status c = ''active'' \<and> list_all (\<lambda>s. s \<in> set (cn_scopes c)) (ca_scopes inp)
              then Some Au_connection_scope_insufficient
              else None))"

definition createConnectionAuthorizationRequest ::
  "(string \<Rightarrow> string) \<Rightarrow> (string \<Rightarrow> url_parts option) \<Rightarrow> timestamp \<Rightarrow> create_authorization \<Rightarrow> db \<Rightarrow>
     db_error + (db \<times> create_authorization_result)" where
  "createConnectionAuthorizationRequest collate parse_url now inp d =
    (case requested_environment (ca_owner inp) d of
       None \<Rightarrow> Inr (d, Au_environment_unavailable)
     | Some e \<Rightarrow>
         (case origin parse_url (ca_returnUri inp) of
            None \<Rightarrow> Inl (AppError ''Invalid URL'')
          | Some og \<Rightarrow>
              if og \<notin> set (env_allowedRedirectOrigins e) then Inr (d, Au_return_uri_denied)
              else (case find (\<lambda>p. pp_provider p = ca_provider inp) (env_connectorAccessPolicy e) of
                  None \<Rightarrow> Inr (d, Au_provider_denied)
                | Some p \<Rightarrow>
                    if \<not> sameValues collate (pp_actionFamilies p) (ca_actionFamilies inp) then Inr (d, Au_provider_denied)
                    else if list_ex (\<lambda>s. s \<notin> set (pp_maxScopes p)) (ca_scopes inp) then Inr (d, Au_scope_denied)
                    else (case reauthorization_target inp d of
                        Some denied \<Rightarrow> Inr (d, denied)
                      | None \<Rightarrow> bindE (insert_authorization (new_authorization now inp) d)
                          (\<lambda>d1. Inr (d1, Au_created (new_authorization now inp)))))))"

definition claimable_request :: "string \<Rightarrow> string \<Rightarrow> timestamp \<Rightarrow> authorization_request \<Rightarrow> bool" where
  "claimable_request provider stateHash now q \<longleftrightarrow> cq_provider q = provider \<and> cq_stateHash q = stateHash \<and>
     cq_claimedAt q = None \<and> cq_completedAt q = None \<and> now < cq_expiresAt q"

definition claimConnectionAuthorizationRequest ::
  "string \<Rightarrow> string \<Rightarrow> timestamp \<Rightarrow> db \<Rightarrow> db \<times> authorization_request option" where
  "claimConnectionAuthorizationRequest provider stateHash now d =
    (case update_where (claimable_request provider stateHash now) (\<lambda>q. q\<lparr>cq_claimedAt := Some now\<rparr>)
        (connectionAuthorizationRequests d) of
       (rows, ret) \<Rightarrow> (d\<lparr>connectionAuthorizationRequests := rows\<rparr>, first_row ret))"

definition failConnectionAuthorizationRequest :: "uuid \<Rightarrow> timestamp \<Rightarrow> timestamp \<Rightarrow> db \<Rightarrow> db \<times> bool" where
  "failConnectionAuthorizationRequest i claimedAt completedAt d =
    (case update_where (\<lambda>q. cq_id q = i \<and> cq_claimedAt q = Some claimedAt \<and> cq_completedAt q = None)
        (\<lambda>q. q\<lparr>cq_completedAt := Some completedAt, cq_outcome := Some ''failed'', cq_codeVerifierEncrypted := None,
           cq_endUserSessionId := None\<rparr>) (connectionAuthorizationRequests d) of
       (rows, ret) \<Rightarrow> (d\<lparr>connectionAuthorizationRequests := rows\<rparr>, ret \<noteq> []))"

definition deleteExpiredConnectionAuthorizationRequests :: "timestamp \<Rightarrow> db \<Rightarrow> db \<times> nat" where
  "deleteExpiredConnectionAuthorizationRequests now d =
    (d\<lparr>connectionAuthorizationRequests := filter (\<lambda>q. \<not> cq_expiresAt q \<le> now) (connectionAuthorizationRequests d)\<rparr>,
     length (filter (\<lambda>q. cq_expiresAt q \<le> now) (connectionAuthorizationRequests d)))"


section \<open>Completing an authorization\<close>

text \<open>The deliveries that concern the account the request was granted for.\<close>

definition account_delivery :: "authorization_request \<Rightarrow> string \<Rightarrow> revocation_delivery \<Rightarrow> bool" where
  "account_delivery q account r \<longleftrightarrow> rd_provider r = cq_provider q \<and>
     (rd_providerAccountId r = Some account \<or>
      rd_providerAccountId r = None \<and> rd_workspaceId r = cq_workspaceId q \<and> rd_environmentId r = cq_environmentId q \<and>
        rd_externalSubjectId r = cq_externalSubjectId q)"

text \<open>\<^verbatim>\<open>Date\<close> values are compared in milliseconds.\<close>

definition delivery_races :: "authorization_request \<Rightarrow> revocation_delivery \<Rightarrow> bool" where
  "delivery_races q r \<longleftrightarrow> truthy_string (rd_claimedBy r) \<noteq> None \<or>
     (case rd_deliveredAt r of
        Some t \<Rightarrow> cq_createdAt q div 1000 \<le> t div 1000
      | None \<Rightarrow> (case rd_lastAttemptAt r of None \<Rightarrow> False | Some t \<Rightarrow> cq_createdAt q div 1000 \<le> t div 1000))"

definition superseded_fact :: "(uuid \<Rightarrow> uuid) \<Rightarrow> timestamp \<Rightarrow> revocation_delivery \<Rightarrow> db \<Rightarrow> db_error + db" where
  "superseded_fact fact_of now r d =
    (case Option.bind (truthy_string (rd_connectionId r)) (\<lambda>cid. find (\<lambda>c. cn_id c = cid) (connections d)) of
       None \<Rightarrow> Inr d
     | Some c \<Rightarrow> recordConnectionFact (fact_of (rd_id r)) c ''connection.revocation_payload_destroyed'' now
         (Some ''superseded'') None None d)"

definition fenceGoogleRevocations ::
  "(uuid \<Rightarrow> uuid) \<Rightarrow> authorization_request \<Rightarrow> string \<Rightarrow> uuid \<Rightarrow> timestamp \<Rightarrow> db \<Rightarrow> db_error + (db \<times> bool)" where
  "fenceGoogleRevocations fact_of q account currentDeliveryId now d =
    (if cq_provider q \<noteq> ''google'' then Inr (d, True)
     else
       let deliveries = filter (account_delivery q account) (connectionRevocationDeliveries d);
           pending = filter (\<lambda>r. rd_id r \<noteq> currentDeliveryId \<and> rd_deliveredAt r = None) deliveries
       in if list_ex (\<lambda>r. rd_id r \<noteq> currentDeliveryId \<and> delivery_races q r) deliveries then Inr (d, False)
          else bindE (each_db (superseded_fact fact_of now) pending d) (\<lambda>d1.
            Inr (d1\<lparr>connectionRevocationDeliveries :=
              filter (\<lambda>r. rd_id r \<notin> set (map rd_id pending)) (connectionRevocationDeliveries d1)\<rparr>, True)))"

record complete_authorization =
  cp_authorizationRequestId :: uuid
  cp_claimedAt :: timestamp
  cp_connectionId :: uuid
  cp_providerAccountId :: string
  cp_accountLabel :: string
  cp_grantedScopes :: "string list"
  cp_actionFamilies :: "string list"
  cp_requiredScopes :: "string list"
  cp_credentialPlaintext :: string
  cp_revocationDeliveryId :: uuid
  cp_now :: timestamp

definition request_environment :: "authorization_request \<Rightarrow> db \<Rightarrow> environment_row option" where
  "request_environment q d = find (\<lambda>e. env_id e = cq_environmentId q \<and> env_workspaceId e = cq_workspaceId q \<and>
     list_ex (\<lambda>m. se_environmentId m = cq_environmentId q \<and> se_workspaceId m = cq_workspaceId q \<and>
       se_externalSubjectId m = cq_externalSubjectId q) (subjectEnvironments d)) (environments d)"

definition request_subject :: "authorization_request \<Rightarrow> db \<Rightarrow> external_subject option" where
  "request_subject q d = find (\<lambda>x. xs_id x = cq_externalSubjectId q \<and> xs_workspaceId x = cq_workspaceId q) (externalSubjects d)"

definition request_session :: "authorization_request \<Rightarrow> db \<Rightarrow> end_user_session option" where
  "request_session q d = find (\<lambda>s. Some (eu_id s) = cq_endUserSessionId q \<and> eu_workspaceId s = cq_workspaceId q \<and>
     eu_environmentId s = cq_environmentId q \<and> eu_externalSubjectId s = cq_externalSubjectId q) (endUserSessions d)"

definition unique_sorted :: "(string \<Rightarrow> string) \<Rightarrow> string list \<Rightarrow> string list" where
  "unique_sorted collate xs = sort_key collate (rev (remdups (rev xs)))"

definition authority_holds ::
  "(string \<Rightarrow> string) \<Rightarrow> authorization_request \<Rightarrow> complete_authorization \<Rightarrow> db \<Rightarrow> bool" where
  "authority_holds collate q inp d =
    (case (request_environment q d, request_subject q d, request_session q d) of
       (Some e, Some x, Some s) \<Rightarrow>
         (case find (\<lambda>p. pp_provider p = cq_provider q) (env_connectorAccessPolicy e) of
            None \<Rightarrow> False
          | Some p \<Rightarrow>
              let granted = unique_sorted collate (cp_grantedScopes inp) in
              env_enabled e \<and> xs_status x = Verified \<and> eu_revokedAt s = None \<and>
              \<not> eu_expiresAt s div 1000 \<le> cp_now inp div 1000 \<and>
              sameValues collate (pp_actionFamilies p) (cp_actionFamilies inp) \<and> cq_scopes q = cp_requiredScopes inp \<and>
              list_all (\<lambda>v. v \<in> set (pp_maxScopes p)) (cq_scopes q) \<and> cp_requiredScopes inp = granted \<and>
              list_all (\<lambda>v. v \<in> set (pp_maxScopes p)) granted)
     | _ \<Rightarrow> False)"

definition account_connection :: "authorization_request \<Rightarrow> string \<Rightarrow> connection_row \<Rightarrow> bool" where
  "account_connection q account c \<longleftrightarrow> cn_workspaceId c = cq_workspaceId q \<and> cn_environmentId c = cq_environmentId q \<and>
     cn_externalSubjectId c = Some (cq_externalSubjectId q) \<and> cn_provider c = cq_provider q \<and>
     cn_providerAccountId c = account \<and> open_connection c"

definition target_connection :: "authorization_request \<Rightarrow> uuid \<Rightarrow> connection_row \<Rightarrow> bool" where
  "target_connection q cid c \<longleftrightarrow> cn_id c = cid \<and> cn_workspaceId c = cq_workspaceId q \<and> cn_environmentId c = cq_environmentId q \<and>
     cn_externalSubjectId c = Some (cq_externalSubjectId q) \<and> cn_provider c = cq_provider q \<and> open_connection c"

record credential_context =
  cx_workspaceId :: uuid
  cx_environmentId :: uuid
  cx_externalSubjectId :: "uuid option"
  cx_recordId :: uuid
  cx_provider :: string

definition connect ::
  "(string \<Rightarrow> credential_context \<Rightarrow> string) \<Rightarrow> authorization_request \<Rightarrow> complete_authorization \<Rightarrow> connection_row option \<Rightarrow>
     db \<Rightarrow> db_error + (db \<times> connection_row)" where
  "connect encrypt q inp existing d =
    (let cid = (case existing of None \<Rightarrow> cp_connectionId inp | Some c \<Rightarrow> cn_id c);
         secret = encrypt (cp_credentialPlaintext inp) \<lparr>cx_workspaceId = cq_workspaceId q, cx_environmentId = cq_environmentId q,
           cx_externalSubjectId = Some (cq_externalSubjectId q), cx_recordId = cid, cx_provider = cq_provider q\<rparr>
     in case existing of
          Some x \<Rightarrow> bindE (update_connection (\<lambda>c. cn_id c = cn_id x)
              (\<lambda>c. c\<lparr>cn_accountLabel := cp_accountLabel inp, cn_status := ''active'', cn_scopes := cp_grantedScopes inp,
                 cn_credentialEncrypted := Some secret, cn_credentialVersion := cn_credentialVersion c + 1,
                 cn_updatedAt := cp_now inp\<rparr>) d)
            (\<lambda>(d1, res). case res of None \<Rightarrow> Inl (AppError ''Cannot read properties of undefined'') | Some c \<Rightarrow> Inr (d1, c))
        | None \<Rightarrow> insert_connection \<lparr>cn_id = cp_connectionId inp, cn_workspaceId = cq_workspaceId q,
              cn_environmentId = cq_environmentId q, cn_externalSubjectId = Some (cq_externalSubjectId q),
              cn_ownership = Personal, cn_authorizationKind = Delegated_user, cn_provider = cq_provider q,
              cn_providerAccountId = cp_providerAccountId inp, cn_accountLabel = cp_accountLabel inp,
              cn_status = ''active'', cn_scopes = cp_grantedScopes inp, cn_credentialEncrypted = Some secret,
              cn_credentialVersion = 1, cn_createdAt = cp_now inp, cn_updatedAt = cp_now inp, cn_revokedAt = None\<rparr> d)"

definition unclaimed_staging :: "authorization_request \<Rightarrow> uuid \<Rightarrow> revocation_delivery \<Rightarrow> bool" where
  "unclaimed_staging q i r \<longleftrightarrow> rd_id r = i \<and> rd_workspaceId r = cq_workspaceId q \<and> rd_environmentId r = cq_environmentId q \<and>
     rd_externalSubjectId r = cq_externalSubjectId q \<and> rd_provider r = cq_provider q \<and> rd_connectionId r = None \<and>
     rd_claimedBy r = None \<and> rd_deliveredAt r = None"

definition finish_authorization ::
  "uuid \<Rightarrow> authorization_request \<Rightarrow> complete_authorization \<Rightarrow> bool \<Rightarrow> connection_row \<Rightarrow> db \<Rightarrow> db_error + db" where
  "finish_authorization fid q inp renewed c d =
    (let d1 = d\<lparr>connectionAuthorizationRequests := fst (update_where (\<lambda>x. cq_id x = cq_id q)
           (\<lambda>x. x\<lparr>cq_completedAt := Some (cp_now inp), cq_outcome := Some ''succeeded'', cq_resultConnectionId := Some (cn_id c),
              cq_codeVerifierEncrypted := None, cq_endUserSessionId := None\<rparr>) (connectionAuthorizationRequests d))\<rparr>
     in if \<not> list_ex (unclaimed_staging q (cp_revocationDeliveryId inp)) (connectionRevocationDeliveries d1)
        then Inl (AppError ''Authorization credential cleanup was already claimed'')
        else recordConnectionFact fid c (if renewed then ''connection.refreshed'' else ''connection.created'') (cp_now inp)
          (Some ''active'') None (Some (cn_accountLabel c))
          (d1\<lparr>connectionRevocationDeliveries := filter (\<lambda>r. \<not> unclaimed_staging q (cp_revocationDeliveryId inp) r)
            (connectionRevocationDeliveries d1)\<rparr>))"

definition grant_connection ::
  "(string \<Rightarrow> credential_context \<Rightarrow> string) \<Rightarrow> uuid \<Rightarrow> authorization_request \<Rightarrow> complete_authorization \<Rightarrow> db \<Rightarrow>
     db_error + (db \<times> connection_row option)" where
  "grant_connection encrypt fid q inp d =
    (let account = find (account_connection q (cp_providerAccountId inp)) (connections d);
         wanted = truthy_string (cq_targetConnectionId q);
         target = Option.bind wanted (\<lambda>cid. find (target_connection q cid) (connections d));
         existing = (case target of None \<Rightarrow> account | Some c \<Rightarrow> Some c)
     in if wanted \<noteq> None \<and> map_option cn_providerAccountId target \<noteq> Some (cp_providerAccountId inp) then Inr (d, None)
        else if (case existing of None \<Rightarrow> False | Some c \<Rightarrow> cn_status c = ''active'' \<and>
            list_ex (\<lambda>s. s \<notin> set (cp_grantedScopes inp)) (cn_scopes c)) then Inr (d, None)
        else bindE (connect encrypt q inp existing d) (\<lambda>(d1, c).
          bindE (finish_authorization fid q inp (existing \<noteq> None) c d1) (\<lambda>d2. Inr (d2, Some c))))"

text \<open>\<open>None\<close> is the outcome \<^verbatim>\<open>invalid\<close>.\<close>

definition completeConnectionAuthorizationRequest ::
  "(string \<Rightarrow> string) \<Rightarrow> (string \<Rightarrow> credential_context \<Rightarrow> string) \<Rightarrow> (uuid \<Rightarrow> uuid) \<Rightarrow> uuid \<Rightarrow> complete_authorization \<Rightarrow> db \<Rightarrow>
     db_error + (db \<times> connection_row option)" where
  "completeConnectionAuthorizationRequest collate encrypt fact_of fid inp d =
    (case find (\<lambda>q. cq_id q = cp_authorizationRequestId inp) (connectionAuthorizationRequests d) of
       None \<Rightarrow> Inr (d, None)
     | Some q \<Rightarrow>
         if map_option (\<lambda>t. t div 1000) (cq_claimedAt q) \<noteq> Some (cp_claimedAt inp div 1000) \<or> cq_completedAt q \<noteq> None \<or>
           truthy_string (cq_endUserSessionId q) = None then Inr (d, None)
         else if \<not> authority_holds collate q inp d then Inr (d, None)
         else bindE (fenceGoogleRevocations fact_of q (cp_providerAccountId inp) (cp_revocationDeliveryId inp) (cp_now inp) d)
           (\<lambda>(d1, clear). if \<not> clear then Inr (d1, None) else grant_connection encrypt fid q inp d1))"


section \<open>What the transactions change\<close>

definition conn_frame :: "db \<Rightarrow> connection_row list \<times> revocation_delivery list \<times> authorization_request list" where
  "conn_frame d = (connections d, connectionRevocationDeliveries d, connectionAuthorizationRequests d)"

lemma conn_frame_simps [simp]:
  "conn_frame (d\<lparr>connectorAuditFacts := v1\<rparr>) = conn_frame d" "conn_frame (d\<lparr>outboxMessages := v2\<rparr>) = conn_frame d"
  "conn_frame (d\<lparr>auditLogs := v3\<rparr>) = conn_frame d" "conn_frame (d\<lparr>actionIntents := v4\<rparr>) = conn_frame d"
  "conn_frame (d\<lparr>approvalRequests := v5\<rparr>) = conn_frame d" "conn_frame (d\<lparr>connectionReadUses := v6\<rparr>) = conn_frame d"
  by (simp_all add: conn_frame_def)

lemma connection_fact_frame:
  "recordConnectionFact fid c ty t oc fc lb d = Inr d' \<Longrightarrow> conn_frame d' = conn_frame d"
  by (auto simp: recordConnectionFact_def bindE_eq_Inr split: option.splits)

lemma public_event_frame:
  "createPublicEvent octets mid now ws env s ty data d = Inr (d', m) \<Longrightarrow> conn_frame d' = conn_frame d"
  by (auto simp: createPublicEvent_def Let_def insert_message_def split: if_splits)

lemma intent_fact_frame:
  "recordActionIntentFact fid i ty tm dc oc fc d = Inr d' \<Longrightarrow> conn_frame d' = conn_frame d"
  by (auto simp: recordActionIntentFact_def bindE_eq_Inr split: option.splits)

lemma approval_cancellation_frame:
  "recordApprovalCancellation octets ev now actor r d = Inr d' \<Longrightarrow> conn_frame d' = conn_frame d"
  by (auto simp: recordApprovalCancellation_def Let_def bindE_eq_Inr dest: public_event_frame split: option.splits)

lemma cancel_conn_frame:
  assumes "cancelNonExecutingActionIntents octets ev fa now ws scope actor t d = Inr (d', res)"
  shows "conn_frame d' = conn_frame d"
proof -
  let ?fact = "\<lambda>i. recordActionIntentFact (fa (ai_id i)) i ''action_intent.cancelled'' t None (Some ''cancelled'') None"
  from assms consider "d' = d" | (go) is1 is2 rs1 rs2 d1 where
    "each_db ?fact is1 (d\<lparr>actionIntents := is2\<rparr>) = Inr d1"
    "each_db (recordApprovalCancellation octets ev now actor) rs1 (d1\<lparr>approvalRequests := rs2\<rparr>) = Inr d'"
    by (auto simp: cancelNonExecutingActionIntents_def Let_def bindE_eq_Inr split_beta split: if_splits)
  then show ?thesis
  proof cases
    case go
    have "conn_frame d1 = conn_frame d" using each_db_frame [OF go(1), of conn_frame, OF intent_fact_frame] by simp
    moreover have "conn_frame d' = conn_frame d1"
      using each_db_frame [OF go(2), of conn_frame, OF approval_cancellation_frame] by simp
    ultimately show ?thesis by simp
  qed simp
qed

lemma update_connection_effect:
  assumes "update_connection p g d = Inr (d', res)"
  shows "conn_frame d' = (fst (update_where p g (connections d)), connectionRevocationDeliveries d, connectionAuthorizationRequests d)"
    and "res = first_row (snd (update_where p g (connections d)))"
    and "\<forall>c \<in> set (snd (update_where p g (connections d))). connection_checks c = Inr ()"
proof -
  obtain rows ret where u: "update_where p g (connections d) = (rows, ret)" by fastforce
  with assms have "for_each connection_checks ret = Inr ()" and d': "d' = d\<lparr>connections := rows\<rparr>" "res = first_row ret"
    by (auto simp: update_connection_def bindE_eq_Inr)
  then show "\<forall>c \<in> set (snd (update_where p g (connections d))). connection_checks c = Inr ()"
    using u by (auto simp: for_each_Inr)
  show "conn_frame d' = (fst (update_where p g (connections d)), connectionRevocationDeliveries d, connectionAuthorizationRequests d)"
    "res = first_row (snd (update_where p g (connections d)))"
    using d' u by (simp_all add: conn_frame_def)
qed

lemma update_delivery_effect:
  assumes "update_delivery p g d = Inr (d', res)"
  shows "conn_frame d' = (connections d, fst (update_where p g (connectionRevocationDeliveries d)), connectionAuthorizationRequests d)"
    and "res = first_row (snd (update_where p g (connectionRevocationDeliveries d)))"
    and "\<forall>r \<in> set (snd (update_where p g (connectionRevocationDeliveries d))). delivery_payload_check r = Inr ()"
proof -
  obtain rows ret where u: "update_where p g (connectionRevocationDeliveries d) = (rows, ret)" by fastforce
  with assms have "for_each delivery_payload_check ret = Inr ()"
    and d': "d' = d\<lparr>connectionRevocationDeliveries := rows\<rparr>" "res = first_row ret"
    by (auto simp: update_delivery_def bindE_eq_Inr)
  then show "\<forall>r \<in> set (snd (update_where p g (connectionRevocationDeliveries d))). delivery_payload_check r = Inr ()"
    using u by (auto simp: for_each_Inr)
  show "conn_frame d' = (connections d, fst (update_where p g (connectionRevocationDeliveries d)), connectionAuthorizationRequests d)"
    "res = first_row (snd (update_where p g (connectionRevocationDeliveries d)))"
    using d' u by (simp_all add: conn_frame_def)
qed

end
