(* ===== verification/Connection_Protocol.thy ===== *)
theory Connection_Protocol
  imports Connections
begin

text \<open>
  Connections and the deliveries of their revocations under every interleaving of end users,
  workers and sweeps. \<open>connection_move\<close> and \<open>delivery_move\<close> are the life cycles of one row; every
  transaction of \<^verbatim>\<open>connection.repository.ts\<close> moves each row by at most one step.
\<close>

section \<open>Life cycles\<close>

inductive connection_move :: "connection_row \<Rightarrow> connection_row \<Rightarrow> bool" where
  cm_rotate: "cn_status c = ''active'' \<Longrightarrow> connection_move c
    (c\<lparr>cn_credentialEncrypted := Some s, cn_credentialVersion := cn_credentialVersion c + 1, cn_updatedAt := t\<rparr>)"
| cm_reauthorize: "cn_status c = ''active'' \<Longrightarrow> connection_move c
    (c\<lparr>cn_status := ''reauthorization_required'', cn_credentialEncrypted := None,
       cn_credentialVersion := cn_credentialVersion c + 1, cn_updatedAt := t\<rparr>)"
| cm_renew: "open_connection c \<Longrightarrow> (cn_status c = ''active'' \<longrightarrow> set (cn_scopes c) \<subseteq> set scopes) \<Longrightarrow> connection_move c
    (c\<lparr>cn_accountLabel := l, cn_status := ''active'', cn_scopes := scopes, cn_credentialEncrypted := Some s,
       cn_credentialVersion := cn_credentialVersion c + 1, cn_updatedAt := t\<rparr>)"
| cm_revoke: "open_connection c \<Longrightarrow> connection_move c
    (c\<lparr>cn_status := ''revoked'', cn_credentialEncrypted := None, cn_revokedAt := Some t, cn_updatedAt := t\<rparr>)"

inductive delivery_move :: "timestamp \<Rightarrow> string option \<Rightarrow> revocation_delivery \<Rightarrow> revocation_delivery \<Rightarrow> bool" for now where
  dm_claim: "delivery_due now r \<Longrightarrow> delivery_move now (Some who) r
    (r\<lparr>rd_attemptCount := rd_attemptCount r + 1, rd_lastAttemptAt := Some now, rd_claimedBy := Some who,
       rd_claimExpiresAt := Some t\<rparr>)"
| dm_deliver: "rd_claimedBy r = Some who \<Longrightarrow> rd_deliveredAt r = None \<Longrightarrow> delivery_move now (Some who) r
    (r\<lparr>rd_deliveredAt := Some t, rd_credentialEncrypted := None, rd_claimedBy := None, rd_claimExpiresAt := None\<rparr>)"
| dm_retry: "rd_claimedBy r = Some who \<Longrightarrow> rd_deliveredAt r = None \<Longrightarrow> delivery_move now (Some who) r
    (r\<lparr>rd_availableAt := t, rd_lastFailureClass := Some f, rd_claimedBy := None, rd_claimExpiresAt := None\<rparr>)"
| dm_renew: "rd_claimedBy r = Some who \<Longrightarrow> rd_deliveredAt r = None \<Longrightarrow> delivery_move now (Some who) r
    (r\<lparr>rd_claimExpiresAt := Some t\<rparr>)"

text \<open>A delivery may be dropped before it is delivered: when it expires, or when nobody holds it.\<close>

definition droppable :: "timestamp \<Rightarrow> revocation_delivery \<Rightarrow> bool" where
  "droppable now r \<longleftrightarrow> rd_deliveredAt r = None \<and> (rd_expiresAt r \<le> now \<or> truthy_string (rd_claimedBy r) = None)"

definition connections_change :: "db \<Rightarrow> db \<Rightarrow> bool" where
  "connections_change d d' \<longleftrightarrow>
     (\<exists>p g. connections d' = fst (update_where p g (connections d)) \<and>
        (\<forall>c \<in> set (connections d). p c \<longrightarrow> connection_move c (g c) \<and> connection_checks (g c) = Inr ())) \<or>
     (\<exists>c. connections d' = connections d @ [c] \<and> cn_id c \<notin> cn_id ` set (connections d) \<and> cn_status c = ''active'' \<and>
        connection_checks c = Inr () \<and>
        (\<forall>x \<in> set (connections d). open_connection x \<longrightarrow> connection_slot x \<noteq> connection_slot c))"

definition deliveries_change :: "timestamp \<Rightarrow> string option \<Rightarrow> db \<Rightarrow> db \<Rightarrow> bool" where
  "deliveries_change now a d d' \<longleftrightarrow>
     (\<exists>p g. connectionRevocationDeliveries d' = fst (update_where p g (connectionRevocationDeliveries d)) \<and>
        (\<forall>r \<in> set (connectionRevocationDeliveries d). p r \<longrightarrow> delivery_move now a r (g r) \<and> delivery_payload_check (g r) = Inr ())) \<or>
     (\<exists>r. connectionRevocationDeliveries d' = connectionRevocationDeliveries d @ [r] \<and>
        rd_id r \<notin> rd_id ` set (connectionRevocationDeliveries d) \<and> rd_deliveredAt r = None \<and> rd_credentialEncrypted r \<noteq> None) \<or>
     (\<exists>p. connectionRevocationDeliveries d' = filter p (connectionRevocationDeliveries d) \<and>
        (\<forall>r \<in> set (connectionRevocationDeliveries d). \<not> p r \<longrightarrow> droppable now r))"

lemma connections_same: "connections d' = connections d \<Longrightarrow> connections_change d d'"
  unfolding connections_change_def
  by (intro disjI1 exI [of _ "\<lambda>_. False"] exI [of _ id]) (simp add: update_where_def)

lemma deliveries_same:
  "connectionRevocationDeliveries d' = connectionRevocationDeliveries d \<Longrightarrow> deliveries_change now a d d'"
  unfolding deliveries_change_def
  by (intro disjI1 exI [of _ "\<lambda>_. False"] exI [of _ id]) (simp add: update_where_def)

lemma connections_moved:
  assumes "update_connection p g d = Inr (d1, res)" "connections d' = connections d1"
    "\<And>c. c \<in> set (connections d) \<Longrightarrow> p c \<Longrightarrow> connection_move c (g c)"
  shows "connections_change d d'"
  unfolding connections_change_def
proof (intro disjI1 exI conjI ballI impI)
  show "connections d' = fst (update_where p g (connections d))"
    using update_connection_effect(1) [OF assms(1)] assms(2) by (simp add: conn_frame_def)
  show "connection_checks (g c) = Inr ()" if "c \<in> set (connections d)" "p c" for c
    using update_connection_effect(3) [OF assms(1)] that by (auto simp: update_where_def)
qed (use assms(3) in blast)

lemma deliveries_moved:
  assumes "update_delivery p g d = Inr (d1, res)"
    "connectionRevocationDeliveries d' = connectionRevocationDeliveries d1"
    "\<And>r. r \<in> set (connectionRevocationDeliveries d) \<Longrightarrow> p r \<Longrightarrow> delivery_move now a r (g r)"
  shows "deliveries_change now a d d'"
  unfolding deliveries_change_def
proof (intro disjI1 exI conjI ballI impI)
  show "connectionRevocationDeliveries d' = fst (update_where p g (connectionRevocationDeliveries d))"
    using update_delivery_effect(1) [OF assms(1)] assms(2) by (simp add: conn_frame_def)
  show "delivery_payload_check (g r) = Inr ()" if "r \<in> set (connectionRevocationDeliveries d)" "p r" for r
    using update_delivery_effect(3) [OF assms(1)] that by (auto simp: update_where_def)
qed (use assms(3) in blast)

section \<open>Effects\<close>

lemma rotate_change:
  assumes "rotateConnectionCredential fid o' cid v s now d = Inr (d', res)"
  shows "connections_change d d'" "connectionRevocationDeliveries d' = connectionRevocationDeliveries d"
proof -
  let ?g = "\<lambda>c. c\<lparr>cn_credentialEncrypted := Some s, cn_credentialVersion := cn_credentialVersion c + 1, cn_updatedAt := now\<rparr>"
  from assms obtain d1 r where u: "update_connection (current_version o' cid v) ?g d = Inr (d1, r)"
    and rest: "conn_frame d' = conn_frame d1"
    by (auto simp: rotateConnectionCredential_def bindE_eq_Inr dest!: connection_fact_frame split: option.splits)
  show "connections_change d d'"
    by (rule connections_moved [OF u]) (use rest in \<open>auto simp: conn_frame_def current_version_def intro: cm_rotate\<close>)
  show "connectionRevocationDeliveries d' = connectionRevocationDeliveries d"
    using rest update_connection_effect(1) [OF u] by (simp add: conn_frame_def)
qed

lemma reauthorize_change:
  assumes "requireConnectionReauthorization fid o' cid v now d = Inr (d', res)"
  shows "connections_change d d'" "connectionRevocationDeliveries d' = connectionRevocationDeliveries d"
proof -
  let ?g = "\<lambda>c. c\<lparr>cn_status := ''reauthorization_required'', cn_credentialEncrypted := None,
           cn_credentialVersion := cn_credentialVersion c + 1, cn_updatedAt := now\<rparr>"
  from assms obtain d1 r where u: "update_connection (current_version o' cid v) ?g d = Inr (d1, r)"
    and rest: "conn_frame d' = conn_frame d1"
    by (auto simp: requireConnectionReauthorization_def bindE_eq_Inr dest!: connection_fact_frame split: option.splits)
  show "connections_change d d'"
    by (rule connections_moved [OF u]) (use rest in \<open>auto simp: conn_frame_def current_version_def intro: cm_reauthorize\<close>)
  show "connectionRevocationDeliveries d' = connectionRevocationDeliveries d"
    using rest update_connection_effect(1) [OF u] by (simp add: conn_frame_def)
qed

lemma insert_delivery_change:
  assumes "insert_delivery r d = Inr d'" "rd_deliveredAt r = None" "rd_credentialEncrypted r \<noteq> None"
  shows "deliveries_change now a d d'" "connections d' = connections d"
proof -
  have d': "d' = d\<lparr>connectionRevocationDeliveries := connectionRevocationDeliveries d @ [r]\<rparr>"
    "rd_id r \<notin> rd_id ` set (connectionRevocationDeliveries d)"
    using assms(1) by (auto simp: insert_delivery_def list_ex_iff split: if_splits)
  then show "deliveries_change now a d d'" unfolding deliveries_change_def using assms(2,3) by auto
  show "connections d' = connections d" using d' by simp
qed

lemma revoke_change:
  assumes "revokeConnection octets ev fa fid mid t o' cid inp d = Inr (d', res)"
  shows "connections_change d d'" "deliveries_change now a d d'"
proof -
  let ?g = "\<lambda>c. c\<lparr>cn_status := ''revoked'', cn_credentialEncrypted := None, cn_revokedAt := Some (rv_now inp),
           cn_updatedAt := rv_now inp\<rparr>"
  from assms obtain d1 r where u: "update_connection (revocable o' cid (rv_expectedCredentialVersion inp)) ?g d = Inr (d1, r)"
    by (auto simp: revokeConnection_def bindE_eq_Inr)
  have f1: "connections d1 = fst (update_where (revocable o' cid (rv_expectedCredentialVersion inp)) ?g (connections d))"
    "connectionRevocationDeliveries d1 = connectionRevocationDeliveries d"
    using update_connection_effect(1) [OF u] by (simp_all add: conn_frame_def)
  have "connections d' = connections d1 \<and> deliveries_change now a d1 d'"
  proof (cases r)
    case None
    then have "d' = d1" using assms u by (auto simp: revokeConnection_def)
    then show ?thesis by (simp add: deliveries_same)
  next
    case (Some c)
    with assms u obtain d2 d3 x where d2: "cancelNonExecutingActionIntents octets ev fa t (co_workspaceId o')
        (Sc_connection (cn_id c)) (C_end_user_session (rv_actorEndUserSessionId inp) (co_externalSubjectId o')) (rv_now inp) d1
        = Inr (d2, x)" and d3: "stage_revocation t o' cid inp c d2 = Inr d3" and d4: "conn_frame d' = conn_frame d3"
      by (auto simp: revokeConnection_def bindE_eq_Inr dest!: connection_fact_frame public_event_frame)
    have "connections d3 = connections d2 \<and> deliveries_change now a d2 d3"
      using d3 insert_delivery_change
      by (auto simp: stage_revocation_def new_delivery_def deliveries_same split: option.splits)
    then show ?thesis
      using cancel_conn_frame [OF d2] d4 by (simp add: conn_frame_def deliveries_change_def)
  qed
  then show "connections_change d d'" "deliveries_change now a d d'"
    using f1 connections_moved [OF u] by (auto simp: revocable_def deliveries_change_def intro: cm_revoke)
qed


lemma claim_delivery_change:
  assumes "claimRevocationDelivery locked who now t d = Inr (d', res)" "distinct (map rd_id (connectionRevocationDeliveries d))"
  shows "deliveries_change now (Some who) d d'" "connections d' = connections d"
proof -
  let ?g = "\<lambda>x. x\<lparr>rd_attemptCount := rd_attemptCount x + 1, rd_lastAttemptAt := Some now, rd_claimedBy := Some who,
            rd_claimExpiresAt := Some t\<rparr>"
  consider "d' = d" | (go) r where "r \<in> set (connectionRevocationDeliveries d)" "delivery_due now r"
    "update_delivery (\<lambda>x. rd_id x = rd_id r) ?g d = Inr (d', res)"
    using assms(1) by (auto simp: claimRevocationDelivery_def dest!: first_row_Some split: option.splits)
  then have "deliveries_change now (Some who) d d' \<and> connections d' = connections d"
  proof cases
    case go
    have "deliveries_change now (Some who) d d'"
      by (rule deliveries_moved [OF go(3) refl])
         (use distinct_rows_eq [OF assms(2) go(1)] go(2) in \<open>force intro: dm_claim\<close>)
    then show ?thesis using update_delivery_effect(1) [OF go(3)] by (simp add: conn_frame_def)
  qed (simp add: deliveries_same)
  then show "deliveries_change now (Some who) d d'" "connections d' = connections d" by simp_all
qed

lemma complete_delivery_change:
  assumes "completeRevocationDelivery fid i who t d = Inr (d', res)"
  shows "deliveries_change now (Some who) d d'" "connections d' = connections d"
proof -
  let ?g = "\<lambda>r. r\<lparr>rd_deliveredAt := Some t, rd_credentialEncrypted := None, rd_claimedBy := None, rd_claimExpiresAt := None\<rparr>"
  from assms obtain d1 r where u: "update_delivery (held_delivery i who) ?g d = Inr (d1, r)"
    by (auto simp: completeRevocationDelivery_def bindE_eq_Inr)
  have rest: "conn_frame d' = conn_frame d1"
  proof (cases r)
    case (Some x)
    then show ?thesis using assms u
      by (cases "truthy_string (rd_connectionId x)"; cases "find (\<lambda>c. Some (cn_id c) = truthy_string (rd_connectionId x)) (connections d1)")
         (auto simp: completeRevocationDelivery_def bindE_eq_Inr dest!: connection_fact_frame split: option.splits)
  qed (use assms u in \<open>simp add: completeRevocationDelivery_def\<close>)
  show "deliveries_change now (Some who) d d'"
    by (rule deliveries_moved [OF u]) (use rest in \<open>auto simp: conn_frame_def held_delivery_def intro: dm_deliver\<close>)
  show "connections d' = connections d" using rest update_delivery_effect(1) [OF u] by (simp add: conn_frame_def)
qed

lemma fail_delivery_change:
  assumes "recordRevocationDeliveryFailure i who t f d = Inr (d', res)"
  shows "deliveries_change now (Some who) d d'" "connections d' = connections d"
proof -
  let ?g = "\<lambda>r. r\<lparr>rd_availableAt := t, rd_lastFailureClass := Some f, rd_claimedBy := None, rd_claimExpiresAt := None\<rparr>"
  from assms obtain r where u: "update_delivery (held_delivery i who) ?g d = Inr (d', r)"
    by (auto simp: recordRevocationDeliveryFailure_def bindE_eq_Inr)
  show "deliveries_change now (Some who) d d'"
    by (rule deliveries_moved [OF u]) (auto simp: held_delivery_def intro: dm_retry)
  show "connections d' = connections d" using update_delivery_effect(1) [OF u] by (simp add: conn_frame_def)
qed

lemma renew_delivery_change:
  assumes "renewRevocationDeliveryClaim i who t d = Inr (d', res)"
  shows "deliveries_change now (Some who) d d'" "connections d' = connections d"
proof -
  from assms obtain r where u: "update_delivery (held_delivery i who) (\<lambda>r. r\<lparr>rd_claimExpiresAt := Some t\<rparr>) d = Inr (d', r)"
    by (auto simp: renewRevocationDeliveryClaim_def bindE_eq_Inr)
  show "deliveries_change now (Some who) d d'"
    by (rule deliveries_moved [OF u]) (auto simp: held_delivery_def intro: dm_renew)
  show "connections d' = connections d" using update_delivery_effect(1) [OF u] by (simp add: conn_frame_def)
qed

lemma expire_deliveries_change:
  assumes "deleteExpiredRevocationDeliveries fact_of now d = Inr (d', n)" "distinct (map rd_id (connectionRevocationDeliveries d))"
  shows "deliveries_change now a d d'" "connections d' = connections d"
proof -
  let ?x = "\<lambda>r. rd_deliveredAt r = None \<and> rd_expiresAt r \<le> now"
  define expired where "expired = filter ?x (connectionRevocationDeliveries d)"
  have f: "conn_frame d2 = conn_frame d1" if "expired_fact fact_of now r d1 = Inr d2" for r d1 d2
    using that by (auto simp: expired_fact_def dest: connection_fact_frame split: option.splits)
  from assms(1) obtain d1 where d1: "each_db (expired_fact fact_of now) expired d = Inr d1"
    and d': "d' = (if expired = [] then d1 else d1\<lparr>connectionRevocationDeliveries :=
      filter (\<lambda>r. rd_id r \<notin> set (map rd_id expired)) (connectionRevocationDeliveries d1)\<rparr>)"
    unfolding deleteExpiredRevocationDeliveries_def Let_def expired_def [symmetric]
    by (cases "each_db (expired_fact fact_of now) expired d") (simp_all split: if_splits)
  have d1': "connections d1 = connections d" "connectionRevocationDeliveries d1 = connectionRevocationDeliveries d"
    using each_db_frame [OF d1, of conn_frame, OF f] by (simp_all add: conn_frame_def)
  then show "connections d' = connections d" using d' by simp
  have "connectionRevocationDeliveries d' = filter (\<lambda>r. rd_id r \<notin> set (map rd_id expired)) (connectionRevocationDeliveries d)"
    using d' d1' by simp
  moreover have "droppable now r" if "r \<in> set (connectionRevocationDeliveries d)" "rd_id r \<in> set (map rd_id expired)" for r
  proof -
    from that(2) obtain x where "x \<in> set (connectionRevocationDeliveries d)" "?x x" "rd_id x = rd_id r"
      by (auto simp: expired_def)
    then have "x = r" using distinct_rows_eq [OF assms(2)] that(1) by metis
    then show ?thesis using \<open>?x x\<close> by (simp add: droppable_def)
  qed
  ultimately show "deliveries_change now a d d'"
    unfolding deliveries_change_def by (intro disjI2 exI [of _ "\<lambda>r. rd_id r \<notin> set (map rd_id expired)"]) simp
qed

section \<open>Completing an authorization\<close>

lemma fence_effect:
  assumes "fenceGoogleRevocations fact_of q account cur t d = Inr (d', clear)"
  shows "connections d' = connections d" "connectionAuthorizationRequests d' = connectionAuthorizationRequests d"
    "clear \<Longrightarrow> cq_provider q = ''google'' \<Longrightarrow>
      \<not> (\<exists>r \<in> set (connectionRevocationDeliveries d). account_delivery q account r \<and> rd_id r \<noteq> cur \<and> delivery_races q r) \<and>
      connectionRevocationDeliveries d' = filter (\<lambda>r. rd_id r \<notin> rd_id ` {r \<in> set (connectionRevocationDeliveries d).
        account_delivery q account r \<and> rd_id r \<noteq> cur \<and> rd_deliveredAt r = None}) (connectionRevocationDeliveries d)"
    "\<not> clear \<or> cq_provider q \<noteq> ''google'' \<Longrightarrow> d' = d"
proof -
  define pending where "pending = filter (\<lambda>r. rd_id r \<noteq> cur \<and> rd_deliveredAt r = None)
    (filter (account_delivery q account) (connectionRevocationDeliveries d))"
  have f: "conn_frame d2 = conn_frame d1" if "superseded_fact fact_of t r d1 = Inr d2" for r d1 d2
    using that by (auto simp: superseded_fact_def dest: connection_fact_frame split: option.splits)
  consider (skip) "cq_provider q \<noteq> ''google''" "d' = d" | (stop) "d' = d" "\<not> clear"
    | (go) d1 where "cq_provider q = ''google''" "clear" "each_db (superseded_fact fact_of t) pending d = Inr d1"
        "d' = d1\<lparr>connectionRevocationDeliveries := filter (\<lambda>r. rd_id r \<notin> set (map rd_id pending)) (connectionRevocationDeliveries d1)\<rparr>"
        "\<not> list_ex (\<lambda>r. rd_id r \<noteq> cur \<and> delivery_races q r) (filter (account_delivery q account) (connectionRevocationDeliveries d))"
    using assms by (auto simp: fenceGoogleRevocations_def Let_def pending_def bindE_eq_Inr split: if_splits)
  note cases = this
  show "connections d' = connections d" "connectionAuthorizationRequests d' = connectionAuthorizationRequests d"
    using cases by (cases; use each_db_frame [of _ _ d, where h = conn_frame, OF _ f] in \<open>fastforce simp: conn_frame_def\<close>)+
  show "d' = d" if "\<not> clear \<or> cq_provider q \<noteq> ''google''" using cases that by cases auto
  assume "clear" "cq_provider q = ''google''"
  with cases obtain d1 where go: "each_db (superseded_fact fact_of t) pending d = Inr d1"
    "d' = d1\<lparr>connectionRevocationDeliveries := filter (\<lambda>r. rd_id r \<notin> set (map rd_id pending)) (connectionRevocationDeliveries d1)\<rparr>"
    "\<not> list_ex (\<lambda>r. rd_id r \<noteq> cur \<and> delivery_races q r) (filter (account_delivery q account) (connectionRevocationDeliveries d))"
    by cases auto
  have "connectionRevocationDeliveries d1 = connectionRevocationDeliveries d"
    using each_db_frame [OF go(1), of conn_frame, OF f] by (simp add: conn_frame_def)
  moreover have "set (map rd_id pending) = rd_id ` {r \<in> set (connectionRevocationDeliveries d).
        account_delivery q account r \<and> rd_id r \<noteq> cur \<and> rd_deliveredAt r = None}" by (auto simp: pending_def)
  ultimately show "\<not> (\<exists>r \<in> set (connectionRevocationDeliveries d). account_delivery q account r \<and> rd_id r \<noteq> cur \<and> delivery_races q r) \<and>
      connectionRevocationDeliveries d' = filter (\<lambda>r. rd_id r \<notin> rd_id ` {r \<in> set (connectionRevocationDeliveries d).
        account_delivery q account r \<and> rd_id r \<noteq> cur \<and> rd_deliveredAt r = None}) (connectionRevocationDeliveries d)"
    using go(2,3) by (auto simp: list_ex_iff)
qed


text \<open>What \<open>grant_connection\<close> reuses, and the row it leaves.\<close>

definition reused :: "authorization_request \<Rightarrow> complete_authorization \<Rightarrow> db \<Rightarrow> connection_row option" where
  "reused q inp d = (case Option.bind (truthy_string (cq_targetConnectionId q)) (\<lambda>cid. find (target_connection q cid) (connections d)) of
     None \<Rightarrow> find (account_connection q (cp_providerAccountId inp)) (connections d) | Some c \<Rightarrow> Some c)"

lemma reused_row:
  assumes "reused q inp d = Some c"
  shows "c \<in> set (connections d) \<and> open_connection c \<and> cn_provider c = cq_provider q \<and>
    cn_externalSubjectId c = Some (cq_externalSubjectId q)"
proof -
  from assms consider cid where "find (target_connection q cid) (connections d) = Some c"
    | "find (account_connection q (cp_providerAccountId inp)) (connections d) = Some c"
    by (auto simp: reused_def bind_eq_Some_conv split: option.splits)
  then show ?thesis by cases (auto dest!: find_row_Some simp: target_connection_def account_connection_def)
qed

lemma grant_effect:
  assumes "grant_connection encrypt fid q inp d = Inr (d', res)"
  shows "res = None \<and> d' = d \<or>
    (\<exists>c d1. res = Some c \<and> connect encrypt q inp (reused q inp d) d = Inr (d1, c) \<and>
      (\<forall>x. reused q inp d = Some x \<and> cn_status x = ''active'' \<longrightarrow> set (cn_scopes x) \<subseteq> set (cp_grantedScopes inp)) \<and>
      connections d' = connections d1 \<and>
      (\<exists>r \<in> set (connectionRevocationDeliveries d1). unclaimed_staging q (cp_revocationDeliveryId inp) r) \<and>
      connectionRevocationDeliveries d' = filter (\<lambda>r. \<not> unclaimed_staging q (cp_revocationDeliveryId inp) r)
        (connectionRevocationDeliveries d1))"
proof (cases res)
  case None
  then show ?thesis using assms by (auto simp: grant_connection_def Let_def bindE_eq_Inr split: if_splits)
next
  case (Some c)
  have ex: "(case Option.bind (truthy_string (cq_targetConnectionId q)) (\<lambda>cid. find (target_connection q cid) (connections d)) of
      None \<Rightarrow> find (account_connection q (cp_providerAccountId inp)) (connections d) | Some c \<Rightarrow> Some c) = reused q inp d"
    by (simp add: reused_def)
  from assms Some obtain d1 where c: "connect encrypt q inp (reused q inp d) d = Inr (d1, c)"
    and f: "finish_authorization fid q inp (reused q inp d \<noteq> None) c d1 = Inr d'"
    and s: "\<not> (case reused q inp d of None \<Rightarrow> False | Some x \<Rightarrow> cn_status x = ''active'' \<and>
      list_ex (\<lambda>s. s \<notin> set (cp_grantedScopes inp)) (cn_scopes x))"
    by (auto simp: grant_connection_def Let_def bindE_eq_Inr ex split: if_splits)
  have "conn_frame d' = (connections d1, filter (\<lambda>r. \<not> unclaimed_staging q (cp_revocationDeliveryId inp) r)
      (connectionRevocationDeliveries d1), snd (snd (conn_frame d')))"
    "\<exists>r \<in> set (connectionRevocationDeliveries d1). unclaimed_staging q (cp_revocationDeliveryId inp) r"
    using f by (auto simp: finish_authorization_def Let_def list_ex_iff conn_frame_def split: if_splits
        dest!: connection_fact_frame [unfolded conn_frame_def])
  then show ?thesis using Some c s by (auto simp: list_ex_iff conn_frame_def split: option.splits)
qed

lemma connect_effect:
  assumes "connect encrypt q inp (reused q inp d) d = Inr (d1, c)" "distinct (map cn_id (connections d))"
    "\<forall>x. reused q inp d = Some x \<and> cn_status x = ''active'' \<longrightarrow> set (cn_scopes x) \<subseteq> set (cp_grantedScopes inp)"
  shows "connections_change d d1 \<and> connectionRevocationDeliveries d1 = connectionRevocationDeliveries d \<and>
    c \<in> set (connections d1) \<and> cn_status c = ''active'' \<and> cn_scopes c = cp_grantedScopes inp \<and>
    cn_provider c = cq_provider q \<and> cn_externalSubjectId c = Some (cq_externalSubjectId q)"
proof (cases "reused q inp d")
  case None
  with assms(1) obtain secret where i: "insert_connection \<lparr>cn_id = cp_connectionId inp, cn_workspaceId = cq_workspaceId q,
              cn_environmentId = cq_environmentId q, cn_externalSubjectId = Some (cq_externalSubjectId q),
              cn_ownership = Personal, cn_authorizationKind = Delegated_user, cn_provider = cq_provider q,
              cn_providerAccountId = cp_providerAccountId inp, cn_accountLabel = cp_accountLabel inp,
              cn_status = ''active'', cn_scopes = cp_grantedScopes inp, cn_credentialEncrypted = Some secret,
              cn_credentialVersion = 1, cn_createdAt = cp_now inp, cn_updatedAt = cp_now inp, cn_revokedAt = None\<rparr> d = Inr (d1, c)"
    by (auto simp: connect_def Let_def)
  then have c: "cn_status c = ''active''" "cn_scopes c = cp_grantedScopes inp" "cn_provider c = cq_provider q"
    "cn_externalSubjectId c = Some (cq_externalSubjectId q)" and d1: "d1 = d\<lparr>connections := connections d @ [c]\<rparr>"
    and n: "cn_id c \<notin> cn_id ` set (connections d)" "connection_checks c = Inr ()"
      "open_connection c \<Longrightarrow> cn_externalSubjectId c \<noteq> None \<Longrightarrow>
        \<forall>x \<in> set (connections d). open_connection x \<longrightarrow> connection_slot x \<noteq> connection_slot c"
    by (auto simp: insert_connection_def bindE_eq_Inr list_ex_iff split: if_splits)
  have "open_connection c" using c(1) by (simp add: open_connection_def)
  then show ?thesis using c d1 n unfolding connections_change_def by auto
next
  case (Some x)
  let ?g = "\<lambda>secret c. c\<lparr>cn_accountLabel := cp_accountLabel inp, cn_status := ''active'', cn_scopes := cp_grantedScopes inp,
                 cn_credentialEncrypted := Some secret, cn_credentialVersion := cn_credentialVersion c + 1,
                 cn_updatedAt := cp_now inp\<rparr>"
  from assms(1) Some obtain secret where u: "update_connection (\<lambda>c. cn_id c = cn_id x) (?g secret) d = Inr (d1, Some c)"
    by (auto simp: connect_def Let_def bindE_eq_Inr split: option.splits)
  note x = reused_row [OF Some]
  have only: "y = x" if "y \<in> set (connections d)" "cn_id y = cn_id x" for y
    using distinct_rows_eq [OF assms(2) that(1)] x that(2) by blast
  have "connections_change d d1"
    by (rule connections_moved [OF u refl]) (use only x assms(3) Some in \<open>auto intro!: cm_renew\<close>)
  moreover have "c = ?g secret x" "connections d1 = fst (update_where (\<lambda>c. cn_id c = cn_id x) (?g secret) (connections d))"
    "connectionRevocationDeliveries d1 = connectionRevocationDeliveries d"
    using update_connection_effect(1,2) [OF u] update_where_one [OF assms(2), of x "?g secret"] x
    by (simp_all add: conn_frame_def first_row_def)
  ultimately show ?thesis using x by (auto simp: set_update_where)
qed

lemma complete_effect:
  assumes "completeConnectionAuthorizationRequest collate encrypt fact_of fid inp d = Inr (d', res)"
    "distinct (map cn_id (connections d))" "distinct (map rd_id (connectionRevocationDeliveries d))"
  shows "connections_change d d'" "deliveries_change now a d d'"
proof -
  consider "d' = d" | (go) q d1 where "fenceGoogleRevocations fact_of q (cp_providerAccountId inp) (cp_revocationDeliveryId inp)
      (cp_now inp) d = Inr (d1, True)" "grant_connection encrypt fid q inp d1 = Inr (d', res)"
    | (stop) q where "fenceGoogleRevocations fact_of q (cp_providerAccountId inp) (cp_revocationDeliveryId inp)
      (cp_now inp) d = Inr (d', False)"
    using assms(1)
    by (auto simp: completeConnectionAuthorizationRequest_def bindE_eq_Inr split: option.splits if_splits)
  then have "connections_change d d' \<and> deliveries_change now a d d'"
  proof cases
    case stop
    then show ?thesis using fence_effect(4) by (metis connections_same deliveries_same)
  next
    case (go q d1)
    note fe = fence_effect [OF go(1)]
    have c1: "connections d1 = connections d" using fe(1) .
    obtain p where p: "connectionRevocationDeliveries d1 = filter p (connectionRevocationDeliveries d)"
      "\<forall>r \<in> set (connectionRevocationDeliveries d). \<not> p r \<longrightarrow> droppable now r"
    proof (cases "cq_provider q = ''google''")
      case google: True
      let ?P = "{r \<in> set (connectionRevocationDeliveries d). account_delivery q (cp_providerAccountId inp) r \<and>
        rd_id r \<noteq> cp_revocationDeliveryId inp \<and> rd_deliveredAt r = None}"
      note ge = fe(3) [OF TrueI google]
      have "droppable now r" if r: "r \<in> set (connectionRevocationDeliveries d)" "rd_id r \<in> rd_id ` ?P" for r
      proof -
        from r(2) obtain x where x: "x \<in> ?P" "rd_id x = rd_id r" by auto
        then have "x = r" using distinct_rows_eq [OF assms(3)] r(1) by blast
        then show ?thesis using x ge by (auto simp: droppable_def delivery_races_def)
      qed
      then show ?thesis using ge by (intro that [of "\<lambda>r. rd_id r \<notin> rd_id ` ?P"]) auto
    next
      case False
      then have "d1 = d" using fe(4) by blast
      then show ?thesis by (intro that [of "\<lambda>_. True"]) auto
    qed
    show ?thesis using grant_effect [OF go(2)]
    proof (elim disjE exE conjE)
      assume "d' = d1"
      then show ?thesis using c1 p connections_same unfolding deliveries_change_def by auto
    next
      fix c d2
      let ?s = "\<lambda>r. \<not> unclaimed_staging q (cp_revocationDeliveryId inp) r"
      assume c: "connect encrypt q inp (reused q inp d1) d1 = Inr (d2, c)"
        "\<forall>x. reused q inp d1 = Some x \<and> cn_status x = ''active'' \<longrightarrow> set (cn_scopes x) \<subseteq> set (cp_grantedScopes inp)"
        "connections d' = connections d2"
        "connectionRevocationDeliveries d' = filter ?s (connectionRevocationDeliveries d2)"
      have ce: "connections_change d1 d2" "connectionRevocationDeliveries d2 = connectionRevocationDeliveries d1"
        using connect_effect [OF c(1) _ c(2)] assms(2) c1 by auto
      have "connections_change d d'" using ce(1) c(3) c1 by (simp add: connections_change_def)
      moreover have "deliveries_change now a d d'"
        unfolding deliveries_change_def using p ce(2) c(4)
        by (intro disjI2 exI [of _ "\<lambda>r. p r \<and> ?s r"])
           (auto simp: conj_commute droppable_def unclaimed_staging_def truthy_string_def)
      ultimately show ?thesis by simp
    qed
  qed (simp add: connections_same deliveries_same)
  then show "connections_change d d'" "deliveries_change now a d d'" by simp_all
qed


section \<open>The protocol\<close>

inductive connection_step :: "timestamp \<Rightarrow> string option \<Rightarrow> db \<Rightarrow> db \<Rightarrow> bool" for now where
  cs_create: "createConnectionAuthorizationRequest collate parse_url now ca d = Inr (d', res1) \<Longrightarrow> connection_step now None d d'"
| cs_claim: "claimConnectionAuthorizationRequest p h now d = (d', res2) \<Longrightarrow> connection_step now None d d'"
| cs_fail: "failConnectionAuthorizationRequest i t1 t2 d = (d', res3) \<Longrightarrow> connection_step now None d d'"
| cs_sweep_requests: "deleteExpiredConnectionAuthorizationRequests now d = (d', n) \<Longrightarrow> connection_step now None d d'"
| cs_complete: "completeConnectionAuthorizationRequest collate encrypt fact_of fid cp d = Inr (d', res4) \<Longrightarrow>
    connection_step now None d d'"
| cs_use: "recordConnectionReadUse u d = Inr (d', u') \<Longrightarrow> connection_step now None d d'"
| cs_rotate: "rotateConnectionCredential fid o' cid v s now d = Inr (d', res5) \<Longrightarrow> connection_step now None d d'"
| cs_reauthorize: "requireConnectionReauthorization fid o' cid v now d = Inr (d', res5) \<Longrightarrow> connection_step now None d d'"
| cs_revoke: "revokeConnection octets ev fa fid mid now o' cid rv d = Inr (d', res6) \<Longrightarrow> connection_step now None d d'"
| cs_stage: "stageAuthorizationCredentialRevocation i o' p acc s t1 t2 now d = Inr d' \<Longrightarrow> connection_step now None d d'"
| cs_take: "claimRevocationDelivery locked who now t1 d = Inr (d', res7) \<Longrightarrow> connection_step now (Some who) d d'"
| cs_deliver: "completeRevocationDelivery fid i who t1 d = Inr (d', b) \<Longrightarrow> connection_step now (Some who) d d'"
| cs_retry: "recordRevocationDeliveryFailure i who t1 f d = Inr (d', b) \<Longrightarrow> connection_step now (Some who) d d'"
| cs_renew: "renewRevocationDeliveryClaim i who t1 d = Inr (d', b) \<Longrightarrow> connection_step now (Some who) d d'"
| cs_sweep: "deleteExpiredRevocationDeliveries fact_of now d = Inr (d', n) \<Longrightarrow> connection_step now None d d'"

definition connection_inv :: "db \<Rightarrow> bool" where
  "connection_inv d \<longleftrightarrow> distinct (map cn_id (connections d)) \<and> (\<forall>c \<in> set (connections d). connection_checks c = Inr ()) \<and>
     distinct (map connection_slot (filter open_connection (connections d))) \<and>
     distinct (map rd_id (connectionRevocationDeliveries d)) \<and>
     (\<forall>r \<in> set (connectionRevocationDeliveries d). delivery_payload_check r = Inr ())"

lemma create_only:
  assumes "createConnectionAuthorizationRequest collate parse_url now ca d = Inr (d', res)"
  shows "connections d' = connections d" "connectionRevocationDeliveries d' = connectionRevocationDeliveries d"
  using assms
  by (auto simp: createConnectionAuthorizationRequest_def insert_authorization_def bindE_eq_Inr split: option.splits if_splits)

lemma claim_only:
  assumes "claimConnectionAuthorizationRequest p h now d = (d', res)"
  shows "connections d' = connections d" "connectionRevocationDeliveries d' = connectionRevocationDeliveries d"
  using assms by (auto simp: claimConnectionAuthorizationRequest_def split: prod.splits)

lemma fail_only:
  assumes "failConnectionAuthorizationRequest i t1 t2 d = (d', res)"
  shows "connections d' = connections d" "connectionRevocationDeliveries d' = connectionRevocationDeliveries d"
  using assms by (auto simp: failConnectionAuthorizationRequest_def split: prod.splits)

lemma sweep_only:
  assumes "deleteExpiredConnectionAuthorizationRequests now d = (d', n)"
  shows "connections d' = connections d" "connectionRevocationDeliveries d' = connectionRevocationDeliveries d"
  using assms by (auto simp: deleteExpiredConnectionAuthorizationRequests_def)

lemmas requests_only = create_only claim_only fail_only sweep_only

lemma connection_step_change:
  assumes "connection_step now a d d'" "connection_inv d"
  shows "connections_change d d' \<and> deliveries_change now a d d'"
proof -
  have ids: "distinct (map cn_id (connections d))" "distinct (map rd_id (connectionRevocationDeliveries d))"
    using assms(2) by (auto simp: connection_inv_def)
  from assms(1) show ?thesis
  proof cases
    case (cs_use u u')
    then show ?thesis by (auto simp: recordConnectionReadUse_def connections_same deliveries_same split: if_splits)
  next
    case (cs_stage i o' p acc s t1 t2)
    note st = cs_stage(2) [unfolded stageAuthorizationCredentialRevocation_def]
    show ?thesis using insert_delivery_change [OF st] connections_same by (simp add: new_delivery_def)
  next
    case (cs_complete collate encrypt fact_of fid cp res4)
    then show ?thesis using complete_effect [OF cs_complete(2) ids] by blast
  next
    case (cs_rotate fid o' cid v s res5)
    then show ?thesis using rotate_change [OF cs_rotate(2)] deliveries_same by blast
  next
    case (cs_reauthorize fid o' cid v res5)
    then show ?thesis using reauthorize_change [OF cs_reauthorize(2)] deliveries_same by blast
  next
    case (cs_revoke octets ev fa fid mid o' cid rv res6)
    then show ?thesis using revoke_change [OF cs_revoke(2)] by blast
  next
    case (cs_take locked who t1 res7)
    then show ?thesis using claim_delivery_change [OF cs_take(2) ids(2)] connections_same by blast
  next
    case (cs_deliver fid i who t1 b)
    then show ?thesis using complete_delivery_change [OF cs_deliver(2)] connections_same by blast
  next
    case (cs_retry i who t1 f b)
    then show ?thesis using fail_delivery_change [OF cs_retry(2)] connections_same by blast
  next
    case (cs_renew i who t1 b)
    then show ?thesis using renew_delivery_change [OF cs_renew(2)] connections_same by blast
  next
    case (cs_sweep fact_of n)
    then show ?thesis using expire_deliveries_change [OF cs_sweep(2) ids(2)] connections_same by blast
  next
    case (cs_create collate parse_url ca res1)
    then show ?thesis using requests_only connections_same deliveries_same by metis
  next
    case (cs_claim p h res2)
    then show ?thesis using requests_only connections_same deliveries_same by metis
  next
    case (cs_fail i t1 t2 res3)
    then show ?thesis using requests_only connections_same deliveries_same by metis
  next
    case (cs_sweep_requests n)
    then show ?thesis using requests_only connections_same deliveries_same by metis
  qed
qed

lemma move_id: "connection_move c c' \<Longrightarrow> cn_id c' = cn_id c \<and> connection_slot c' = connection_slot c \<and> open_connection c"
  by (cases rule: connection_move.cases) (auto simp: connection_slot_def open_connection_def)

lemma delivery_move_id: "delivery_move now a r r' \<Longrightarrow> rd_id r' = rd_id r \<and> rd_deliveredAt r = None"
  by (cases rule: delivery_move.cases) (auto simp: delivery_due_def)

lemma filter_open_slots:
  assumes "\<forall>c \<in> set cs. p c \<longrightarrow> connection_move c (g c)" "distinct (map connection_slot (filter open_connection cs))"
  shows "distinct (map connection_slot (filter open_connection (fst (update_where p g cs))))"
  using assms
proof (induction cs)
  case (Cons c cs)
  let ?u = "\<lambda>c. if p c then g c else c"
  have slot: "connection_slot (?u x) = connection_slot x \<and> (open_connection (?u x) \<longrightarrow> open_connection x)"
    if "x \<in> set (c # cs)" for x using Cons.prems(1) that move_id [of x "g x"] by (cases "p x") auto
  have sub: "connection_slot ` set (filter open_connection (map ?u cs)) \<subseteq> connection_slot ` set (filter open_connection cs)"
    using slot by fastforce
  have ih: "distinct (map connection_slot (filter open_connection (map ?u cs)))"
    using Cons by (auto simp: update_where_def split: if_splits)
  show ?case
  proof (cases "open_connection (?u c)")
    case True
    then have "open_connection c" using slot by auto
    then have "connection_slot c \<notin> connection_slot ` set (filter open_connection cs)" using Cons.prems(2) by auto
    then have "connection_slot (?u c) \<notin> connection_slot ` set (filter open_connection (map ?u cs))" using sub slot by auto
    then show ?thesis using ih True by (simp add: update_where_def)
  qed (use ih in \<open>simp add: update_where_def\<close>)
qed (simp add: update_where_def)

lemma connections_change_inv:
  assumes "connections_change d d'" "distinct (map cn_id (connections d))" "\<forall>c \<in> set (connections d). connection_checks c = Inr ()"
    "distinct (map connection_slot (filter open_connection (connections d)))"
  shows "distinct (map cn_id (connections d')) \<and> (\<forall>c \<in> set (connections d'). connection_checks c = Inr ()) \<and>
    distinct (map connection_slot (filter open_connection (connections d')))"
  using assms(1) unfolding connections_change_def
proof (elim disjE exE conjE)
  fix p g
  assume e: "connections d' = fst (update_where p g (connections d))"
    and m: "\<forall>c \<in> set (connections d). p c \<longrightarrow> connection_move c (g c) \<and> connection_checks (g c) = Inr ()"
  have "map cn_id (connections d') = map cn_id (connections d)"
    unfolding e using m move_id by (intro map_update_where) blast
  then show ?thesis using assms(2-4) m filter_open_slots [of "connections d" p g] by (auto simp: e set_update_where)
qed (use assms(2-4) in auto)

lemma deliveries_change_inv:
  assumes "deliveries_change now a d d'" "distinct (map rd_id (connectionRevocationDeliveries d))"
    "\<forall>r \<in> set (connectionRevocationDeliveries d). delivery_payload_check r = Inr ()"
  shows "distinct (map rd_id (connectionRevocationDeliveries d')) \<and>
    (\<forall>r \<in> set (connectionRevocationDeliveries d'). delivery_payload_check r = Inr ())"
  using assms(1) unfolding deliveries_change_def
proof (elim disjE exE conjE)
  fix p g
  assume e: "connectionRevocationDeliveries d' = fst (update_where p g (connectionRevocationDeliveries d))"
    and m: "\<forall>r \<in> set (connectionRevocationDeliveries d). p r \<longrightarrow> delivery_move now a r (g r) \<and> delivery_payload_check (g r) = Inr ()"
  have "map rd_id (connectionRevocationDeliveries d') = map rd_id (connectionRevocationDeliveries d)"
    unfolding e using m delivery_move_id by (intro map_update_where) blast
  then show ?thesis using assms(2,3) m by (auto simp: e set_update_where)
qed (use assms(2,3) in \<open>auto simp: distinct_map_filter delivery_payload_check_def\<close>)

lemma connection_step_inv: "connection_inv d \<Longrightarrow> connection_step now a d d' \<Longrightarrow> connection_inv d'"
  using connection_step_change [of now a d d'] connections_change_inv [of d d'] deliveries_change_inv [of now a d d']
  by (auto simp: connection_inv_def)

definition delivery_live :: "timestamp \<Rightarrow> revocation_delivery \<Rightarrow> bool" where
  "delivery_live now r \<longleftrightarrow> truthy_string (rd_claimedBy r) \<noteq> None \<and> sql_gt (rd_claimExpiresAt r) now \<and> now < rd_expiresAt r"

lemma live_kept:
  assumes "deliveries_change now a d d'" "r \<in> set (connectionRevocationDeliveries d)"
    "delivery_live now r \<and> rd_claimedBy r \<noteq> a \<or> rd_deliveredAt r \<noteq> None"
  shows "r \<in> set (connectionRevocationDeliveries d')"
proof -
  have "\<not> delivery_move now a r r'" for r'
  proof
    assume "delivery_move now a r r'"
    then show False using assms(3)
      by (cases rule: delivery_move.cases; cases "rd_claimExpiresAt r")
         (auto simp: delivery_live_def delivery_due_def truthy_string_def)
  qed
  moreover have "\<not> droppable now r" using assms(3) by (auto simp: droppable_def delivery_live_def)
  ultimately show ?thesis using assms(1,2) unfolding deliveries_change_def by (auto simp: set_update_where)
qed

interpretation conns: leased_rows connections "\<lambda>_. None" "\<lambda>(_ :: timestamp) _. False" "\<lambda>c. \<not> open_connection c"
  connection_step connection_inv
proof unfold_locales
  show "r \<in> set (connections d')" if "connection_inv d" "connection_step t a d d'" "r \<in> set (connections d)" "\<not> open_connection r"
    for d t a d' r
    using connection_step_change [OF that(2,1)] that(3,4) move_id by (fastforce simp: connections_change_def set_update_where)
qed (auto intro: connection_step_inv)

interpretation revocations: leased_rows connectionRevocationDeliveries rd_claimedBy delivery_live
  "\<lambda>r. rd_deliveredAt r \<noteq> None" connection_step connection_inv
proof unfold_locales
  show "delivery_live t' r" if "delivery_live t r" "t' \<le> t" for t t' r
    using that by (cases "rd_claimExpiresAt r") (auto simp: delivery_live_def)
qed (use connection_step_inv connection_step_change live_kept in blast)+


lemma checked_credential: "connection_checks c = Inr () \<Longrightarrow> (cn_credentialEncrypted c \<noteq> None) = (cn_status c = ''active'')"
  by (cases "cn_status c = ''active''"; cases "cn_status c = ''revoked''"; cases "cn_credentialEncrypted c")
     (simp_all add: connection_checks_def split: if_splits)

lemma checked_payload: "delivery_payload_check r = Inr () \<Longrightarrow> (rd_credentialEncrypted r = None) = (rd_deliveredAt r \<noteq> None)"
  by (cases "rd_deliveredAt r"; cases "rd_credentialEncrypted r") (simp_all add: delivery_payload_check_def)

section \<open>Theorems\<close>

text \<open>
  C31. Every transaction moves a connection and a revocation delivery by at most one step of its
  life cycle. A connection is never taken away, keeps its identity, and the version of its
  credential never goes back; a revoked one never changes. A delivery disappears only when it
  expires or while nobody holds it.
\<close>

theorem connections_refine_lifecycle:
  assumes "connection_inv d" "connection_step now a d d'"
  shows "connection_inv d' \<and>
    (\<forall>c' \<in> set (connections d'). c' \<in> set (connections d) \<or> (\<exists>c \<in> set (connections d). connection_move c c') \<or>
       cn_status c' = ''active'' \<and> cn_id c' \<notin> cn_id ` set (connections d)) \<and>
    (\<forall>c \<in> set (connections d). \<exists>c' \<in> set (connections d'). cn_id c' = cn_id c \<and> connection_slot c' = connection_slot c \<and>
       cn_credentialVersion c \<le> cn_credentialVersion c' \<and> (\<not> open_connection c \<longrightarrow> c' = c)) \<and>
    (\<forall>r \<in> set (connectionRevocationDeliveries d). r \<in> set (connectionRevocationDeliveries d') \<or> droppable now r \<or>
       (\<exists>r' \<in> set (connectionRevocationDeliveries d'). delivery_move now a r r'))"
proof (intro conjI)
  note ch = connection_step_change [OF assms(2,1)]
  have mono: "cn_credentialVersion c \<le> cn_credentialVersion c'" if "connection_move c c'" for c c'
    using that by cases auto
  show "connection_inv d'" using assms by (rule connection_step_inv)
  show "\<forall>c' \<in> set (connections d'). c' \<in> set (connections d) \<or> (\<exists>c \<in> set (connections d). connection_move c c') \<or>
       cn_status c' = ''active'' \<and> cn_id c' \<notin> cn_id ` set (connections d)"
    using ch by (fastforce simp: connections_change_def set_update_where)
  show "\<forall>c \<in> set (connections d). \<exists>c' \<in> set (connections d'). cn_id c' = cn_id c \<and> connection_slot c' = connection_slot c \<and>
       cn_credentialVersion c \<le> cn_credentialVersion c' \<and> (\<not> open_connection c \<longrightarrow> c' = c)"
  proof
    fix c
    assume c: "c \<in> set (connections d)"
    from ch consider p g where "connections d' = fst (update_where p g (connections d))"
        "\<forall>c \<in> set (connections d). p c \<longrightarrow> connection_move c (g c)"
      | x where "connections d' = connections d @ [x]"
      unfolding connections_change_def by blast
    then show "\<exists>c' \<in> set (connections d'). cn_id c' = cn_id c \<and> connection_slot c' = connection_slot c \<and>
       cn_credentialVersion c \<le> cn_credentialVersion c' \<and> (\<not> open_connection c \<longrightarrow> c' = c)"
    proof cases
      case (1 p g)
      then show ?thesis using c move_id [of c "g c"] mono [of c "g c"]
        by (cases "p c") (auto simp: set_update_where intro: bexI [of _ "g c"] bexI [of _ c])
    qed (use c in auto)
  qed
  show "\<forall>r \<in> set (connectionRevocationDeliveries d). r \<in> set (connectionRevocationDeliveries d') \<or> droppable now r \<or>
       (\<exists>r' \<in> set (connectionRevocationDeliveries d'). delivery_move now a r r')"
    using ch by (fastforce simp: deliveries_change_def set_update_where)
qed

text \<open>
  C30. Credentials stay where they belong. After any run of end users, workers and sweeps a
  connection has a credential exactly while it is active, of each account of a subject at most
  one connection is open, a delivered revocation holds no credential any more, and what was
  revoked or delivered never changes. While a worker's claim of a delivery lives, nobody else
  changes that delivery.
\<close>

theorem credentials_confined:
  assumes "connection_inv d" "run_steps connection_step as d d'"
  shows "connection_inv d' \<and>
    (\<forall>c \<in> set (connections d'). (cn_credentialEncrypted c \<noteq> None) = (cn_status c = ''active'')) \<and>
    distinct (map connection_slot (filter open_connection (connections d'))) \<and>
    (\<forall>r \<in> set (connectionRevocationDeliveries d'). (rd_credentialEncrypted r = None) = (rd_deliveredAt r \<noteq> None)) \<and>
    (\<forall>c \<in> set (connections d). \<not> open_connection c \<longrightarrow> c \<in> set (connections d')) \<and>
    (\<forall>r \<in> set (connectionRevocationDeliveries d). rd_deliveredAt r \<noteq> None \<longrightarrow> r \<in> set (connectionRevocationDeliveries d')) \<and>
    (\<forall>r \<in> set (connectionRevocationDeliveries d). \<forall>T. delivery_live T r \<and> (\<forall>(t, a) \<in> set as. t \<le> T \<and> a \<noteq> rd_claimedBy r) \<longrightarrow>
       r \<in> set (connectionRevocationDeliveries d'))"
proof (intro conjI ballI allI impI)
  show inv: "connection_inv d'" using conns.run_inv [OF assms(2,1)] .
  then show "distinct (map connection_slot (filter open_connection (connections d')))" by (simp add: connection_inv_def)
  show "(cn_credentialEncrypted c \<noteq> None) = (cn_status c = ''active'')" if "c \<in> set (connections d')" for c
    using inv that checked_credential by (simp add: connection_inv_def)
  show "(rd_credentialEncrypted r = None) = (rd_deliveredAt r \<noteq> None)" if "r \<in> set (connectionRevocationDeliveries d')" for r
    using inv that checked_payload by (simp add: connection_inv_def)
  show "c \<in> set (connections d')" if "c \<in> set (connections d)" "\<not> open_connection c" for c
    using conns.run_finished [OF assms(2,1) that] .
  show "r \<in> set (connectionRevocationDeliveries d')" if "r \<in> set (connectionRevocationDeliveries d)" "rd_deliveredAt r \<noteq> None" for r
    using revocations.run_finished [OF assms(2,1) that] .
  fix r T
  assume "r \<in> set (connectionRevocationDeliveries d)" "delivery_live T r \<and> (\<forall>(t, a) \<in> set as. t \<le> T \<and> a \<noteq> rd_claimedBy r)"
  then show "r \<in> set (connectionRevocationDeliveries d')" using revocations.run_leased [OF assms(2,1)] by blast
qed

text \<open>
  C32. A completed authorization is safe from older revocations. When it completes, the connection
  is active and has exactly the granted scopes, all of them allowed by the environment's policy
  for the provider; and for Google, where revoking one token revokes the whole grant, no
  undelivered revocation of that account is left and every delivered one was delivered before
  the authorization was requested.
\<close>

theorem authorization_completes_fenced:
  assumes "connection_inv d" "completeConnectionAuthorizationRequest collate encrypt fact_of fid inp d = Inr (d', Some c)"
  shows "\<exists>q \<in> set (connectionAuthorizationRequests d). \<exists>e \<in> set (environments d). \<exists>p \<in> set (env_connectorAccessPolicy e).
    cq_id q = cp_authorizationRequestId inp \<and> env_enabled e \<and> pp_provider p = cn_provider c \<and>
    c \<in> set (connections d') \<and> cn_status c = ''active'' \<and> cn_scopes c = cp_grantedScopes inp \<and>
    set (cn_scopes c) = set (cq_scopes q) \<and> set (cn_scopes c) \<subseteq> set (pp_maxScopes p) \<and>
    (cn_provider c = ''google'' \<longrightarrow> (\<forall>r \<in> set (connectionRevocationDeliveries d'). rd_provider r = ''google'' \<and>
       rd_providerAccountId r = Some (cp_providerAccountId inp) \<longrightarrow>
       (\<exists>t. rd_deliveredAt r = Some t \<and> t div 1000 < cq_createdAt q div 1000)))"
proof -
  let ?acc = "cp_providerAccountId inp" and ?cur = "cp_revocationDeliveryId inp"
  from assms(2) obtain q d1 where q: "find (\<lambda>q. cq_id q = cp_authorizationRequestId inp) (connectionAuthorizationRequests d) = Some q"
    and au: "authority_holds collate q inp d" and f: "fenceGoogleRevocations fact_of q ?acc ?cur (cp_now inp) d = Inr (d1, True)"
    and g: "grant_connection encrypt fid q inp d1 = Inr (d', Some c)"
    by (auto simp: completeConnectionAuthorizationRequest_def bindE_eq_Inr split: option.splits if_splits)
  from au obtain e x s p where e: "request_environment q d = Some e" "find (\<lambda>p. pp_provider p = cq_provider q) (env_connectorAccessPolicy e) = Some p"
    and ok: "env_enabled e" "cq_scopes q = unique_sorted collate (cp_grantedScopes inp)"
      "list_all (\<lambda>v. v \<in> set (pp_maxScopes p)) (cq_scopes q)"
    by (auto simp: authority_holds_def Let_def split: option.splits)
  from grant_effect [OF g] obtain d2 where c: "connect encrypt q inp (reused q inp d1) d1 = Inr (d2, c)"
      "\<forall>x. reused q inp d1 = Some x \<and> cn_status x = ''active'' \<longrightarrow> set (cn_scopes x) \<subseteq> set (cp_grantedScopes inp)"
      "connections d' = connections d2" "\<exists>r \<in> set (connectionRevocationDeliveries d2). unclaimed_staging q ?cur r"
      "connectionRevocationDeliveries d' = filter (\<lambda>r. \<not> unclaimed_staging q ?cur r) (connectionRevocationDeliveries d2)"
    by auto
  have inv: "distinct (map cn_id (connections d1))" "distinct (map rd_id (connectionRevocationDeliveries d))"
    using assms(1) fence_effect(1) [OF f] by (auto simp: connection_inv_def)
  note ce = connect_effect [OF c(1) inv(1) c(2)]
  have scopes: "set (cq_scopes q) = set (cp_grantedScopes inp)" using ok(2) by (simp add: unique_sorted_def)
  show ?thesis
  proof (intro bexI [of _ q] bexI [of _ e] bexI [of _ p] conjI impI ballI)
    show "q \<in> set (connectionAuthorizationRequests d)" "cq_id q = cp_authorizationRequestId inp"
      "e \<in> set (environments d)" "p \<in> set (env_connectorAccessPolicy e)" "pp_provider p = cn_provider c"
      using find_row_Some [OF q] find_row_Some [OF e(1) [unfolded request_environment_def]] find_row_Some [OF e(2)] ce by auto
    show "set (cn_scopes c) \<subseteq> set (pp_maxScopes p)" using ok(3) scopes ce by (auto simp: list_all_iff)
    fix r
    assume r: "cn_provider c = ''google''" "r \<in> set (connectionRevocationDeliveries d')"
      "rd_provider r = ''google'' \<and> rd_providerAccountId r = Some ?acc"
    then have google: "cq_provider q = ''google''" using ce by simp
    note fe = fence_effect(3) [OF f TrueI google]
    have r2: "r \<in> set (connectionRevocationDeliveries d1)" "\<not> unclaimed_staging q ?cur r" using r(2) c(5) ce by auto
    then have rd: "r \<in> set (connectionRevocationDeliveries d)" using fe by auto
    from c(4) ce obtain y where y: "y \<in> set (connectionRevocationDeliveries d1)" "unclaimed_staging q ?cur y" by auto
    then have "y \<in> set (connectionRevocationDeliveries d)" "rd_id y = ?cur" using fe by (auto simp: unclaimed_staging_def)
    then have "rd_id r \<noteq> ?cur" using y(2) r2(2) distinct_rows_eq [OF inv(2) rd] by metis
    moreover have "account_delivery q ?acc r" using r google by (simp add: account_delivery_def)
    ultimately have "rd_deliveredAt r \<noteq> None" "\<not> delivery_races q r" using fe rd r2(1) by auto
    then show "\<exists>t. rd_deliveredAt r = Some t \<and> t div 1000 < cq_createdAt q div 1000"
      by (auto simp: delivery_races_def)
  qed (use ce ok scopes c(3) in auto)
qed


text \<open>
  C33. A credential version is used up by one change: after a rotation with an expected version,
  a second rotation, a demand for reauthorization and a revocation that expect the same version
  change nothing, and the revocation reports the conflict. So two workers that refresh the same
  credential cannot overwrite each other.
\<close>

theorem credential_version_used_once:
  assumes "connection_inv d" "rotateConnectionCredential fid o' cid v s now d = Inr (d1, Some c)" "cid \<noteq> []"
  shows "cn_credentialVersion c = v + 1 \<and> cn_credentialEncrypted c = Some s \<and> getConnection o' cid d1 = Some c \<and>
    rotateConnectionCredential fid2 o' cid v s2 now2 d1 = Inr (d1, None) \<and>
    requireConnectionReauthorization fid2 o' cid v now2 d1 = Inr (d1, None) \<and>
    (rv_expectedCredentialVersion inp = v \<longrightarrow> revokeConnection octets ev fa fid2 mid now2 o' cid inp d1 = Inr (d1, Rv_conflict))"
proof -
  let ?g = "\<lambda>c. c\<lparr>cn_credentialEncrypted := Some s, cn_credentialVersion := cn_credentialVersion c + 1, cn_updatedAt := now\<rparr>"
  have ids: "distinct (map cn_id (connections d))" using assms(1) by (simp add: connection_inv_def)
  from assms(2) obtain d0 where u: "update_connection (current_version o' cid v) ?g d = Inr (d0, Some c)"
    and f: "conn_frame d1 = conn_frame d0"
    by (auto simp: rotateConnectionCredential_def bindE_eq_Inr dest!: connection_fact_frame split: option.splits)
  have d1: "connections d1 = fst (update_where (current_version o' cid v) ?g (connections d))"
    using f update_connection_effect(1) [OF u] by (simp add: conn_frame_def)
  have "c \<in> ?g ` {x \<in> set (connections d). current_version o' cid v x}"
    using update_connection_effect(2) [OF u] first_row_Some [of "snd (update_where (current_version o' cid v) ?g (connections d))" c]
    by (auto simp: update_where_def)
  then obtain x where x: "x \<in> set (connections d)" "current_version o' cid v x" "c = ?g x" by auto
  have c: "ownedConnection o' (Some cid) c" "cn_credentialVersion c = v + 1" "cn_id c = cid" "c \<in> set (connections d1)"
    using x d1 assms(3) by (auto simp: current_version_def ownedConnection_def truthy_string_def set_update_where split: list.splits)
  have ids1: "distinct (map cn_id (connections d1))"
    unfolding d1 using ids by (subst map_update_where) auto
  have only: "y = c" if "y \<in> set (connections d1)" "ownedConnection o' (Some cid) y" for y
    using distinct_rows_eq [OF ids1 that(1) c(4)] c(3) that(2) assms(3) by (auto simp: ownedConnection_def truthy_string_def split: list.splits)
  have none: "update_connection p g' d1 = Inr (d1, None)" if "\<And>y. p y \<Longrightarrow> ownedConnection o' (Some cid) y \<and> cn_credentialVersion y = v"
    for p g'
  proof -
    have "update_where p g' (connections d1) = (connections d1, [])" by (rule update_where_id) (use that only c(2) in fastforce)
    then show ?thesis by (simp add: update_connection_def first_row_def)
  qed
  have found: "getConnection o' cid d1 = Some c"
  proof -
    obtain y where "find (ownedConnection o' (Some cid)) (connections d1) = Some y"
      using c(1,4) by (cases "find (ownedConnection o' (Some cid)) (connections d1)") (auto simp: find_None_iff)
    then show ?thesis using only find_row_Some [of _ "connections d1" y] by (auto simp: getConnection_def)
  qed
  have "rotateConnectionCredential fid2 o' cid v s2 now2 d1 = Inr (d1, None)"
    "requireConnectionReauthorization fid2 o' cid v now2 d1 = Inr (d1, None)"
    using none [of "current_version o' cid v"]
    by (simp_all add: rotateConnectionCredential_def requireConnectionReauthorization_def current_version_def)
  moreover have "revokeConnection octets ev fa fid2 mid now2 o' cid inp d1 = Inr (d1, Rv_conflict)"
    if "rv_expectedCredentialVersion inp = v"
    using that found none [of "revocable o' cid v"] by (simp add: revokeConnection_def revocable_def)
  ultimately show ?thesis using c x found by simp
qed

section \<open>Witnesses\<close>

definition demo_owner :: connection_owner where
  "demo_owner = \<lparr>co_workspaceId = ''ws'', co_environmentId = ''env'', co_externalSubjectId = ''s1''\<rparr>"

definition demo_connection :: connection_row where
  "demo_connection = \<lparr>cn_id = ''c1'', cn_workspaceId = ''ws'', cn_environmentId = ''env'', cn_externalSubjectId = Some ''s1'',
     cn_ownership = Personal, cn_authorizationKind = Delegated_user, cn_provider = ''google'', cn_providerAccountId = ''acc'',
     cn_accountLabel = ''me'', cn_status = ''active'', cn_scopes = [''openid''], cn_credentialEncrypted = Some ''k'',
     cn_credentialVersion = 3, cn_createdAt = 0, cn_updatedAt = 0, cn_revokedAt = None\<rparr>"

definition demo_delivery :: "uuid \<Rightarrow> revocation_delivery" where
  "demo_delivery i = new_delivery i ''ws'' ''env'' ''s1'' None ''google'' ''acc'' ''k'' 0 900000000 0"

definition demo_request :: "uuid option \<Rightarrow> authorization_request" where
  "demo_request target = \<lparr>cq_id = ''q1'', cq_workspaceId = ''ws'', cq_environmentId = ''env'', cq_externalSubjectId = ''s1'',
     cq_endUserSessionId = Some ''e1'', cq_provider = ''google'', cq_scopes = [''openid''], cq_returnUri = ''u'',
     cq_stateHash = ''h'', cq_codeVerifierEncrypted = Some ''v'', cq_targetConnectionId = target, cq_resultConnectionId = None,
     cq_outcome = None, cq_expiresAt = 900000000, cq_claimedAt = Some 2000, cq_completedAt = None, cq_createdAt = 1000\<rparr>"

definition demo_db :: "uuid option \<Rightarrow> connection_row list \<Rightarrow> db" where
  "demo_db target cs = empty_db\<lparr>environments := [\<lparr>env_id = ''env'', env_workspaceId = ''ws'', env_applicationId = ''app'',
       env_name = ''dev'', env_enabled = True, env_allowedRedirectOrigins = [], env_contentRetentionDays = 30,
       env_connectorAccessPolicy = [\<lparr>pp_provider = ''google'', pp_actionFamilies = [''mail''], pp_maxScopes = [''openid'', ''send'']\<rparr>]\<rparr>],
     externalSubjects := [\<lparr>xs_id = ''s1'', xs_workspaceId = ''ws'', xs_status = Verified, xs_auditReference = ''a1''\<rparr>],
     subjectEnvironments := [\<lparr>se_workspaceId = ''ws'', se_environmentId = ''env'', se_externalSubjectId = ''s1''\<rparr>],
     endUserSessions := [\<lparr>eu_id = ''e1'', eu_workspaceId = ''ws'', eu_environmentId = ''env'', eu_externalSubjectId = ''s1'',
       eu_expiresAt = 900000000, eu_revokedAt = None\<rparr>],
     connections := cs, connectionAuthorizationRequests := [demo_request target],
     connectionRevocationDeliveries := [demo_delivery ''old'', demo_delivery ''staged'']\<rparr>"

definition demo_input :: complete_authorization where
  "demo_input = \<lparr>cp_authorizationRequestId = ''q1'', cp_claimedAt = 2000, cp_connectionId = ''c9'', cp_providerAccountId = ''acc'',
     cp_accountLabel = ''me'', cp_grantedScopes = [''openid''], cp_actionFamilies = [''mail''], cp_requiredScopes = [''openid''],
     cp_credentialPlaintext = ''p'', cp_revocationDeliveryId = ''staged'', cp_now = 3000\<rparr>"

definition demo_encrypt :: "string \<Rightarrow> credential_context \<Rightarrow> string" where
  "demo_encrypt s x = s @ cx_recordId x"

lemma demo_inv: "connection_inv (demo_db None [])" "connection_inv (demo_db None [demo_connection])"
  by code_simp+

lemma demo_take:
  obtains d' r where "claimRevocationDelivery {} ''w1'' 3000 60000 (demo_db None []) = Inr (d', Some r)"
    "connectionRevocationDeliveries d' = [demo_delivery ''old''\<lparr>rd_attemptCount := 1, rd_lastAttemptAt := Some 3000,
       rd_claimedBy := Some ''w1'', rd_claimExpiresAt := Some 60000\<rparr>, demo_delivery ''staged'']"
proof -
  have "map_sum id (\<lambda>(d', res). (res \<noteq> None, connectionRevocationDeliveries d'))
      (claimRevocationDelivery {} ''w1'' 3000 60000 (demo_db None [])) =
    Inr (True, [demo_delivery ''old''\<lparr>rd_attemptCount := 1, rd_lastAttemptAt := Some 3000,
       rd_claimedBy := Some ''w1'', rd_claimExpiresAt := Some 60000\<rparr>, demo_delivery ''staged''])"
    by code_simp
  then show thesis using that
    by (cases "claimRevocationDelivery {} ''w1'' 3000 60000 (demo_db None [])") (auto simp: not_None_eq)
qed

theorem connections_refine_lifecycle_witness:
  "\<exists>d'. connection_step 3000 (Some ''w1'') (demo_db None []) d' \<and> connection_inv d' \<and>
     (\<exists>r \<in> set (connectionRevocationDeliveries d'). rd_claimedBy r = Some ''w1'' \<and> delivery_move 3000 (Some ''w1'') (demo_delivery ''old'') r)"
proof -
  obtain d' r where t: "claimRevocationDelivery {} ''w1'' 3000 60000 (demo_db None []) = Inr (d', Some r)"
    and ds: "connectionRevocationDeliveries d' = [demo_delivery ''old''\<lparr>rd_attemptCount := 1, rd_lastAttemptAt := Some 3000,
       rd_claimedBy := Some ''w1'', rd_claimExpiresAt := Some 60000\<rparr>, demo_delivery ''staged'']" by (rule demo_take)
  have step: "connection_step 3000 (Some ''w1'') (demo_db None []) d'" using t by (rule cs_take)
  have "delivery_move 3000 (Some ''w1'') (demo_delivery ''old'') (demo_delivery ''old''\<lparr>rd_attemptCount := 1,
      rd_lastAttemptAt := Some 3000, rd_claimedBy := Some ''w1'', rd_claimExpiresAt := Some 60000\<rparr>)"
    using dm_claim [of 3000 "demo_delivery ''old''" "''w1''" 60000] by (simp add: demo_delivery_def new_delivery_def delivery_due_def)
  then show ?thesis using step connections_refine_lifecycle [OF demo_inv(1) step] ds by (intro exI [of _ d']) auto
qed

theorem credentials_confined_witness:
  "\<exists>(d' :: db) d''. run_steps connection_step [(3000, Some ''w1''), (4000, None)] (demo_db None []) d'' \<and>
     (\<forall>r \<in> set (connectionRevocationDeliveries d''). (rd_credentialEncrypted r = None) = (rd_deliveredAt r \<noteq> None)) \<and>
     (\<exists>r \<in> set (connectionRevocationDeliveries d'). rd_claimedBy r = Some ''w1'' \<and> r \<in> set (connectionRevocationDeliveries d''))"
proof -
  obtain d' r where t: "claimRevocationDelivery {} ''w1'' 3000 60000 (demo_db None []) = Inr (d', Some r)"
    and ds: "connectionRevocationDeliveries d' = [demo_delivery ''old''\<lparr>rd_attemptCount := 1, rd_lastAttemptAt := Some 3000,
       rd_claimedBy := Some ''w1'', rd_claimExpiresAt := Some 60000\<rparr>, demo_delivery ''staged'']" by (rule demo_take)
  have step: "connection_step 3000 (Some ''w1'') (demo_db None []) d'" using t by (rule cs_take)
  obtain d'' n where sweep: "deleteExpiredConnectionAuthorizationRequests 4000 d' = (d'', n)" by fastforce
  have rest: "run_steps connection_step [(4000, None)] d' d''"
    by (rule run_cons [of connection_step, OF cs_sweep_requests [OF sweep] run_nil])
  have run: "run_steps connection_step [(3000, Some ''w1''), (4000, None)] (demo_db None []) d''"
    by (rule run_cons [of connection_step, OF step rest])
  have inv: "connection_inv d'" using connection_step_inv [OF demo_inv(1) step] .
  let ?r = "demo_delivery ''old''\<lparr>rd_attemptCount := 1, rd_lastAttemptAt := Some 3000, rd_claimedBy := Some ''w1'',
      rd_claimExpiresAt := Some 60000\<rparr>"
  have "delivery_live 5000 ?r" by code_simp
  moreover have "x \<in> set (connectionRevocationDeliveries d'')" if "x \<in> set (connectionRevocationDeliveries d')"
    "delivery_live 5000 x" "rd_claimedBy x \<noteq> None" for x
    using credentials_confined [OF inv rest] that by (elim conjE) (drule (1) bspec, auto)+
  ultimately have kept: "?r \<in> set (connectionRevocationDeliveries d'')" using ds by simp
  show ?thesis
  proof (rule exI [of _ d'], rule exI [of _ d''], intro conjI)
    show "run_steps connection_step [(3000, Some ''w1''), (4000, None)] (demo_db None []) d''" by (rule run)
    show "\<forall>r \<in> set (connectionRevocationDeliveries d''). (rd_credentialEncrypted r = None) = (rd_deliveredAt r \<noteq> None)"
      using credentials_confined [OF demo_inv(1) run] by blast
    show "\<exists>r \<in> set (connectionRevocationDeliveries d'). rd_claimedBy r = Some ''w1'' \<and> r \<in> set (connectionRevocationDeliveries d'')"
      using kept ds by (intro bexI [of _ ?r]) simp_all
  qed
qed

theorem authorization_completes_fenced_witness:
  "\<exists>d' c. completeConnectionAuthorizationRequest id demo_encrypt id ''f1'' demo_input (demo_db None []) = Inr (d', Some c) \<and>
     cn_status c = ''active'' \<and> (\<forall>r \<in> set (connectionRevocationDeliveries d').
       rd_provider r = ''google'' \<and> rd_providerAccountId r = Some ''acc'' \<longrightarrow> rd_deliveredAt r \<noteq> None)"
proof -
  have "map_sum id (\<lambda>(d', res). map_option cn_provider res)
      (completeConnectionAuthorizationRequest id demo_encrypt id ''f1'' demo_input (demo_db None [])) = Inr (Some ''google'')"
    by code_simp
  then obtain d' c where c: "completeConnectionAuthorizationRequest id demo_encrypt id ''f1'' demo_input (demo_db None []) = Inr (d', Some c)"
    "cn_provider c = ''google''"
    by (cases "completeConnectionAuthorizationRequest id demo_encrypt id ''f1'' demo_input (demo_db None [])") auto
  then show ?thesis using authorization_completes_fenced [OF demo_inv(1) c(1)]
    by (intro exI [of _ d'] exI [of _ c]) (auto simp: demo_input_def)
qed

theorem credential_version_used_once_witness:
  "\<exists>d1 c. rotateConnectionCredential ''f1'' demo_owner ''c1'' 3 ''new'' 5000 (demo_db None [demo_connection]) = Inr (d1, Some c) \<and>
     cn_credentialVersion c = 4 \<and>
     rotateConnectionCredential ''f2'' demo_owner ''c1'' 3 ''other'' 6000 d1 = Inr (d1, None)"
proof -
  have "map_sum id (\<lambda>(d', res). res \<noteq> None)
      (rotateConnectionCredential ''f1'' demo_owner ''c1'' 3 ''new'' 5000 (demo_db None [demo_connection])) = Inr True"
    by code_simp
  then obtain d1 c where c: "rotateConnectionCredential ''f1'' demo_owner ''c1'' 3 ''new'' 5000 (demo_db None [demo_connection]) = Inr (d1, Some c)"
    by (cases "rotateConnectionCredential ''f1'' demo_owner ''c1'' 3 ''new'' 5000 (demo_db None [demo_connection])") auto
  then show ?thesis using credential_version_used_once [OF demo_inv(2) c] by (intro exI [of _ d1] exI [of _ c]) auto
qed


end
