(* ===== verification/Intent_Protocol.thy ===== *)
theory Intent_Protocol
  imports Action_Intents Store_Protocol
begin

text \<open>
  Action intents under every interleaving of requests, decisions, workers and cancellations. The
  specification of one intent is the automaton \<open>intent_row_step\<close>; every transaction of the
  repository moves each intent by at most one step of it, and none is dispatched without the
  consent of a reviewer to exactly what it does.
\<close>

section \<open>The life of an intent\<close>

text \<open>
  The guards: a reviewer approved the digest of the intent, and the worker holds the lease of the
  execution the intent belongs to.
\<close>

definition consented :: "db \<Rightarrow> action_intent \<Rightarrow> bool" where
  "consented d i \<longleftrightarrow> (\<exists>r \<in> set (approvalRequests d). \<exists>c \<in> set (approvalDecisions d).
     ar_id r = ai_approvalRequestId i \<and> ar_status r = A_decided \<and> ar_actionIntentDigest r = Some (ai_canonicalDigest i) \<and>
     ad_approvalRequestId c = ai_approvalRequestId i \<and> ad_outcome c = D_approved \<and> ad_actorKind c = K_external_subject \<and>
     ad_reason c = By_human)"

definition lessee :: "db \<Rightarrow> timestamp \<Rightarrow> string \<Rightarrow> action_intent \<Rightarrow> bool" where
  "lessee d now who i \<longleftrightarrow> (\<exists>x \<in> set (executions d). ex_id x = ai_executionId i \<and> ex_status x = Running \<and>
     ex_leasedBy x = Some who \<and> sql_gt (ex_leaseExpiresAt x) now)"

inductive intent_row_step :: "db \<Rightarrow> timestamp \<Rightarrow> string option \<Rightarrow> action_intent \<Rightarrow> action_intent \<Rightarrow> bool" for d now where
  ir_reject: "ai_status i = I_awaiting_consent \<Longrightarrow>
    intent_row_step d now None i (i\<lparr>ai_status := I_rejected, ai_updatedAt := now\<rparr>)"
| ir_cancel: "ai_status i \<in> {I_awaiting_consent, I_ready} \<Longrightarrow>
    intent_row_step d now a i (i\<lparr>ai_status := I_cancelled, ai_updatedAt := t\<rparr>)"
| ir_claim: "ai_status i \<in> {I_awaiting_consent, I_ready} \<Longrightarrow> consented d i \<Longrightarrow> lessee d now who i \<Longrightarrow>
    intent_row_step d now (Some who) i (i\<lparr>ai_status := I_executing, ai_executionClaimId := Some who, ai_updatedAt := now\<rparr>)"
| ir_recover: "ai_status i = I_executing \<Longrightarrow> ai_executionClaimId i \<noteq> Some who \<Longrightarrow> consented d i \<Longrightarrow> lessee d now who i \<Longrightarrow>
    intent_row_step d now (Some who) i (i\<lparr>ai_executionClaimId := Some who, ai_updatedAt := now\<rparr>)"
| ir_abandon: "ai_status i = I_executing \<Longrightarrow> unknown = (ai_dispatchStartedAt i \<noteq> None) \<Longrightarrow> lessee d now who i \<Longrightarrow>
    intent_row_step d now (Some who) i (i\<lparr>ai_status := (if unknown then I_outcome_unknown else I_failed),
      ai_executionClaimId := Some who, ai_normalizedError := Some (recovered_error unknown), ai_updatedAt := now\<rparr>)"
| ir_dispatch: "ai_status i = I_executing \<Longrightarrow> ai_executionClaimId i = Some who \<Longrightarrow> consented d i \<Longrightarrow>
    lessee d now who i \<Longrightarrow>
    intent_row_step d now (Some who) i (start_dispatch now i)"
| ir_complete: "ai_status i = I_executing \<Longrightarrow> ai_executionClaimId i = Some who \<Longrightarrow> lessee d now who i \<Longrightarrow>
    intent_row_step d now (Some who) i (i\<lparr>ai_status := I_succeeded, ai_normalizedResult := res, ai_updatedAt := now\<rparr>)"
| ir_fail: "ai_status i = I_executing \<Longrightarrow> ai_executionClaimId i = Some who \<Longrightarrow>
    status \<in> {I_failed, I_stale, I_outcome_unknown} \<Longrightarrow> lessee d now who i \<Longrightarrow>
    intent_row_step d now (Some who) i (i\<lparr>ai_status := status, ai_normalizedError := Some err, ai_updatedAt := now\<rparr>)"

definition intent_ok :: "action_intent \<Rightarrow> bool" where
  "intent_ok i \<longleftrightarrow> (ai_status i \<in> I_claimed) = (ai_executionClaimId i \<noteq> None) \<and>
     0 \<le> ai_providerAttemptCount i \<and> (ai_dispatchStartedAt i = None) = (ai_providerAttemptCount i = 0) \<and>
     (ai_status i \<notin> I_claimed \<longrightarrow> ai_dispatchStartedAt i = None)"

text \<open>What never changes of an intent.\<close>

definition intent_key :: "action_intent \<Rightarrow> uuid \<times> uuid \<times> string \<times> uuid \<times> string \<times> string \<times> intent_envelope" where
  "intent_key i = (ai_id i, ai_approvalRequestId i, ai_canonicalDigest i, ai_executionId i, ai_nodeId i,
     ai_invocationIdempotencyKey i, ai_canonicalEnvelope i)"

text \<open>The invocation an intent stands for, a unique index of the table.\<close>

definition intent_call :: "action_intent \<Rightarrow> uuid \<times> string \<times> string" where
  "intent_call i = (ai_executionId i, ai_nodeId i, ai_invocationIdempotencyKey i)"

lemma key_call: "intent_key i = intent_key j \<Longrightarrow> intent_call i = intent_call j \<and> ai_id i = ai_id j"
  by (simp add: intent_key_def intent_call_def)

lemma row_step_key: "intent_row_step d now a i i' \<Longrightarrow> intent_key i' = intent_key i"
  by (cases rule: intent_row_step.cases) (auto simp: intent_key_def start_dispatch_def)

lemma start_dispatch_simps [simp]:
  "ai_status (start_dispatch now i) = ai_status i" "ai_executionClaimId (start_dispatch now i) = ai_executionClaimId i"
  "ai_providerAttemptCount (start_dispatch now i) = ai_providerAttemptCount i + 1"
  "ai_dispatchStartedAt (start_dispatch now i) \<noteq> None" "ai_id (start_dispatch now i) = ai_id i"
  by (simp_all add: start_dispatch_def split: option.split)

lemma row_step_intent_ok:
  assumes "intent_row_step d now a i i'" "intent_ok i"
  shows "intent_ok i'"
  using assms(1)
proof cases
  case (ir_abandon unknown who)
  then show ?thesis using assms(2) by (cases unknown) (simp_all add: intent_ok_def I_claimed_def)
next
  case (ir_dispatch who)
  then show ?thesis using assms(2) by (simp add: intent_ok_def I_claimed_def)
next
  case (ir_fail who status err)
  then have "status \<in> I_claimed" by (auto simp: I_claimed_def)
  then show ?thesis using ir_fail assms(2) by (simp add: intent_ok_def I_claimed_def)
next
  case (ir_cancel t)
  then have "ai_status i \<notin> I_claimed" by (auto simp: I_claimed_def)
  then show ?thesis using ir_cancel assms(2) by (simp add: intent_ok_def) (auto simp: I_claimed_def)
next
  case (ir_claim who)
  then have "ai_status i \<notin> I_claimed" by (auto simp: I_claimed_def)
  then show ?thesis using ir_claim assms(2) by (simp add: intent_ok_def) (auto simp: I_claimed_def)
qed (use assms(2) in \<open>auto simp: intent_ok_def I_claimed_def\<close>)

lemma row_step_open: "intent_row_step d now a i i' \<Longrightarrow> \<not> terminalActionIntent i"
  by (cases rule: intent_row_step.cases) (auto simp: terminalActionIntent_def)

section \<open>Effects of the transactions\<close>

definition intent_frame ::
  "db \<Rightarrow> action_intent list \<times> approval_request list \<times> approval_decision list \<times> execution list \<times> wait_timer list" where
  "intent_frame d = (actionIntents d, approvalRequests d, approvalDecisions d, executions d, waitTimers d)"

lemma fact_intents:
  assumes "recordActionIntentFact fid i ty tm dc oc fc d = Inr d'"
  shows "intent_frame d' = intent_frame d"
  using assms by (auto simp: recordActionIntentFact_def bindE_eq_Inr intent_frame_def split: option.splits)

lemma event_intents:
  assumes "intent_event octets f now i ty d = Inr d'"
  shows "intent_frame d' = intent_frame d"
  using assms
  by (auto simp: intent_event_def bindE_eq_Inr createPublicEvent_def Let_def insert_message_def intent_frame_def
      split: if_splits)

lemma update_intent_effect:
  assumes "update_intent octets p g d = Inr (d', res)"
  shows "intent_frame d' = (fst (update_where p g (actionIntents d)), approvalRequests d, approvalDecisions d, executions d, waitTimers d)"
    and "res = first_row (snd (update_where p g (actionIntents d)))"
  using assms by (auto simp: update_intent_def bindE_eq_Inr intent_frame_def split: prod.splits)

lemma update_then_frame:
  assumes "bindE (update_intent octets p g d) h = Inr (d', r)"
    "\<And>d1 res. h (d1, res) = Inr (d', r) \<Longrightarrow> intent_frame d' = intent_frame d1"
  shows "intent_frame d' = (fst (update_where p g (actionIntents d)), approvalRequests d, approvalDecisions d, executions d,
    waitTimers d)"
proof -
  from assms(1) obtain d1 res where "update_intent octets p g d = Inr (d1, res)" "h (d1, res) = Inr (d', r)"
    by (auto simp: bindE_eq_Inr)
  then show ?thesis using update_intent_effect(1) assms(2) by metis
qed

definition moves_intents :: "timestamp \<Rightarrow> string option \<Rightarrow> db \<Rightarrow> db \<Rightarrow> bool" where
  "moves_intents now a d d' \<longleftrightarrow> executions d' = executions d \<and> waitTimers d' = waitTimers d \<and>
     (\<exists>p g. actionIntents d' = fst (update_where p g (actionIntents d)) \<and>
        (\<forall>i \<in> set (actionIntents d). p i \<longrightarrow> intent_row_step d now a i (g i)))"

lemma moves_intentsI:
  assumes "intent_frame d' = (fst (update_where p g (actionIntents d)), approvalRequests d, approvalDecisions d, executions d, waitTimers d)"
    "\<And>i. i \<in> set (actionIntents d) \<Longrightarrow> p i \<Longrightarrow> intent_row_step d now a i (g i)"
  shows "moves_intents now a d d' \<and> approvalRequests d' = approvalRequests d \<and> approvalDecisions d' = approvalDecisions d"
  using assms unfolding moves_intents_def intent_frame_def by auto

lemma moves_none: "intent_frame d' = intent_frame d \<Longrightarrow>
    moves_intents now a d d' \<and> approvalRequests d' = approvalRequests d \<and> approvalDecisions d' = approvalDecisions d"
  by (rule moves_intentsI [of _ "\<lambda>_. False"]) (auto simp: update_where_def intent_frame_def)

lemma reject_moves:
  assumes "rejectActionIntent octets f now iid d = Inr (d', res)"
  shows "moves_intents now None d d' \<and> approvalRequests d' = approvalRequests d \<and> approvalDecisions d' = approvalDecisions d"
proof (rule moves_intentsI)
  show "intent_frame d' = (fst (update_where (intent_in iid {I_awaiting_consent})
      (\<lambda>i. i\<lparr>ai_status := I_rejected, ai_updatedAt := now\<rparr>) (actionIntents d)), approvalRequests d, approvalDecisions d,
      executions d, waitTimers d)"
    using assms
    by (auto simp: rejectActionIntent_def bindE_eq_Inr dest!: update_intent_effect(1) fact_intents split: option.splits)
  show "intent_row_step d now None i (i\<lparr>ai_status := I_rejected, ai_updatedAt := now\<rparr>)"
    if "intent_in iid {I_awaiting_consent} i" for i
    using that by (auto simp: intent_in_def intro: ir_reject)
qed

lemma failRecovered_frame:
  assumes "failRecoveredActionIntent octets f i inp prior d = Inr (d', res)"
  shows "intent_frame d' = (fst (update_where (held_intent (ai_id i) prior)
      (\<lambda>x. x\<lparr>ai_status := (if ai_dispatchStartedAt i \<noteq> None then I_outcome_unknown else I_failed),
         ai_executionClaimId := Some (cl_executionClaimId inp),
         ai_normalizedError := Some (recovered_error (ai_dispatchStartedAt i \<noteq> None)), ai_updatedAt := cl_now inp\<rparr>)
      (actionIntents d)), approvalRequests d, approvalDecisions d, executions d, waitTimers d)"
proof -
  let ?g = "\<lambda>x. x\<lparr>ai_status := (if ai_dispatchStartedAt i \<noteq> None then I_outcome_unknown else I_failed),
         ai_executionClaimId := Some (cl_executionClaimId inp),
         ai_normalizedError := Some (recovered_error (ai_dispatchStartedAt i \<noteq> None)), ai_updatedAt := cl_now inp\<rparr>"
  from assms obtain d1 r where u: "update_intent octets (held_intent (ai_id i) prior) ?g d = Inr (d1, r)"
    and rest: "intent_frame d' = intent_frame d1"
    by (auto simp: failRecoveredActionIntent_def Let_def bindE_eq_Inr dest!: fact_intents event_intents split: option.splits)
  from update_intent_effect(1) [OF u] rest show ?thesis by simp
qed


text \<open>A transaction that reads one intent and updates it by its key.\<close>

lemma intent_by_id:
  assumes "distinct (map ai_id (actionIntents d))" "find (\<lambda>i. ai_id i = iid) (actionIntents d) = Some i"
    "x \<in> set (actionIntents d)" "ai_id x = iid"
  shows "x = i"
  using find_row_Some [OF assms(2)] distinct_rows_eq [OF assms(1,3)] assms(4) by simp

lemma active_lessee:
  assumes "activeExecutionClaim (intent_execution i d) inp"
  shows "lessee d (cl_now inp) (cl_executionClaimId inp) i"
proof -
  from assms obtain x e where x: "intent_execution i d = Some x" "ex_status x = Running"
    "ex_leasedBy x = Some (cl_executionClaimId inp)" "ex_leaseExpiresAt x = Some e" "cl_now inp div 1000 < e div 1000"
    by (auto simp: activeExecutionClaim_def split: option.splits)
  have "cl_now inp < e" using x(5) zdiv_mono1 [of e "cl_now inp" 1000] by linarith
  with x find_row_Some [OF x(1) [unfolded intent_execution_def]] show ?thesis by (auto simp: lessee_def)
qed

lemma locked_lessee:
  assumes "lockActiveActionIntentExecution iid who now d" "distinct (map ai_id (actionIntents d))"
    "i \<in> set (actionIntents d)" "ai_id i = iid"
  shows "lessee d now who i"
proof -
  from assms(1) obtain x j where x: "x \<in> set (executions d)" "j \<in> set (actionIntents d)" "ai_executionId j = ex_id x"
    "ai_id j = iid" "ex_status x = Running" "ex_leasedBy x = Some who" "sql_gt (ex_leaseExpiresAt x) now"
    by (auto simp: lockActiveActionIntentExecution_def list_ex_iff held_intent_def)
  then have "j = i" using distinct_rows_eq [OF assms(2) x(2) assms(3)] assms(4) by simp
  with x show ?thesis by (auto simp: lessee_def)
qed

lemma current_consented:
  assumes "intent_current i inp d"
  shows "consented d i"
proof -
  from assms obtain c r where c: "getApprovalDecision (ai_approvalRequestId i) d = Some c" "intent_request i d = Some r"
    "ar_status r = A_decided" "ar_actionIntentDigest r = Some (ai_canonicalDigest i)" "ad_outcome c = D_approved"
    "ad_actorKind c = K_external_subject" "ad_reason c = By_human"
    by (auto simp: intent_current_def currentIntentApproval_def split: option.splits)
  with find_row_Some [OF c(1) [unfolded getApprovalDecision_def]] find_row_Some [OF c(2) [unfolded intent_request_def]]
  show ?thesis by (auto simp: consented_def)
qed

lemma failRecovered_moves:
  assumes "failRecoveredActionIntent octets f i inp prior d = Inr (d', res)"
    "lessee d (cl_now inp) (cl_executionClaimId inp) i"
    "\<And>x. x \<in> set (actionIntents d) \<Longrightarrow> ai_id x = ai_id i \<Longrightarrow> x = i"
  shows "moves_intents (cl_now inp) (Some (cl_executionClaimId inp)) d d' \<and>
    approvalRequests d' = approvalRequests d \<and> approvalDecisions d' = approvalDecisions d"
proof (rule moves_intentsI [OF failRecovered_frame [OF assms(1)]])
  fix x
  assume x: "x \<in> set (actionIntents d)" "held_intent (ai_id i) prior x"
  then have "x = i" "ai_status i = I_executing" using assms(3) by (auto simp: held_intent_def)
  then show "intent_row_step d (cl_now inp) (Some (cl_executionClaimId inp)) x
      (x\<lparr>ai_status := if ai_dispatchStartedAt i \<noteq> None then I_outcome_unknown else I_failed,
         ai_executionClaimId := Some (cl_executionClaimId inp),
         ai_normalizedError := Some (recovered_error (ai_dispatchStartedAt i \<noteq> None)), ai_updatedAt := cl_now inp\<rparr>)"
    using ir_abandon [of i "ai_dispatchStartedAt i \<noteq> None" d "cl_now inp" "cl_executionClaimId inp"] assms(2) by simp
qed

lemma recover_moves:
  assumes "recoverExecutingActionIntent octets f i inp d = Inr (d', res)"
    "\<And>x. x \<in> set (actionIntents d) \<Longrightarrow> ai_id x = ai_id i \<Longrightarrow> x = i"
  shows "moves_intents (cl_now inp) (Some (cl_executionClaimId inp)) d d' \<and>
    approvalRequests d' = approvalRequests d \<and> approvalDecisions d' = approvalDecisions d"
proof (cases "ai_executionClaimId i = Some (cl_executionClaimId inp) \<or> \<not> activeExecutionClaim (intent_execution i d) inp")
  case True
  then have "d' = d" using assms(1) by (auto simp: recoverExecutingActionIntent_def split: if_splits)
  then show ?thesis using moves_none by blast
next
  case False
  with assms(1) obtain prior where p: "truthy_string (ai_executionClaimId i) = Some prior"
    by (cases "truthy_string (ai_executionClaimId i)") (auto simp: recoverExecutingActionIntent_def)
  show ?thesis
  proof (cases "intent_current i inp d")
    case True
    let ?g = "\<lambda>x. x\<lparr>ai_executionClaimId := Some (cl_executionClaimId inp), ai_updatedAt := cl_now inp\<rparr>"
    from assms(1) False p True obtain d1 r where u: "update_intent octets (held_intent (ai_id i) prior) ?g d = Inr (d1, r)"
      and d1: "d' = d1"
      by (auto simp: recoverExecutingActionIntent_def bindE_eq_Inr split: option.splits)
    show ?thesis unfolding d1
      by (rule moves_intentsI [OF update_intent_effect(1) [OF u]])
         (use assms(2) False current_consented [OF True] active_lessee in \<open>auto simp: held_intent_def intro!: ir_recover\<close>)
  next
    case no: False
    with assms(1) False p have "failRecoveredActionIntent octets f i inp prior d = Inr (d', res)"
      by (auto simp: recoverExecutingActionIntent_def)
    then show ?thesis using failRecovered_moves assms(2) active_lessee False by blast
  qed
qed

lemma cancelUnauthorized_moves:
  assumes "cancelUnauthorizedActionIntent octets f i t d = Inr (d', res)"
  shows "moves_intents now a d d' \<and> approvalRequests d' = approvalRequests d \<and> approvalDecisions d' = approvalDecisions d"
proof (rule moves_intentsI)
  show "intent_frame d' = (fst (update_where (intent_in (ai_id i) {I_awaiting_consent, I_ready})
      (\<lambda>i. i\<lparr>ai_status := I_cancelled, ai_updatedAt := t\<rparr>) (actionIntents d)), approvalRequests d, approvalDecisions d,
      executions d, waitTimers d)"
    using assms
    by (auto simp: cancelUnauthorizedActionIntent_def bindE_eq_Inr dest!: update_intent_effect(1) fact_intents
        split: option.splits)
  show "intent_row_step d now a x (x\<lparr>ai_status := I_cancelled, ai_updatedAt := t\<rparr>)"
    if "intent_in (ai_id i) {I_awaiting_consent, I_ready} x" for x
    using that by (auto simp: intent_in_def intro: ir_cancel)
qed

lemma make_ready_frame:
  assumes "make_ready octets f i now d = Inr d'"
  shows "intent_frame d' = (fst (update_where (\<lambda>x. ai_id x = ai_id i \<and> ai_status i = I_awaiting_consent)
      (\<lambda>x. x\<lparr>ai_status := I_ready, ai_updatedAt := now\<rparr>) (actionIntents d)), approvalRequests d, approvalDecisions d,
      executions d, waitTimers d)"
proof (cases "ai_status i = I_awaiting_consent")
  case True
  with assms obtain d1 r where "update_intent octets (\<lambda>x. ai_id x = ai_id i)
      (\<lambda>x. x\<lparr>ai_status := I_ready, ai_updatedAt := now\<rparr>) d = Inr (d1, r)" "intent_frame d' = intent_frame d1"
    by (auto simp: make_ready_def bindE_eq_Inr dest!: fact_intents split: option.splits)
  with update_intent_effect(1) True show ?thesis by fastforce
qed (use assms in \<open>simp add: make_ready_def intent_frame_def update_where_def\<close>)

lemma claimReady_moves:
  assumes "claimReadyActionIntent octets f i c inp d = Inr (d', res)" "i \<in> set (actionIntents d)"
    "\<And>x. x \<in> set (actionIntents d) \<Longrightarrow> ai_id x = ai_id i \<Longrightarrow> x = i" "ai_status i \<in> {I_awaiting_consent, I_ready}"
    "consented d i" "lessee d (cl_now inp) (cl_executionClaimId inp) i"
  shows "moves_intents (cl_now inp) (Some (cl_executionClaimId inp)) d d' \<and>
    approvalRequests d' = approvalRequests d \<and> approvalDecisions d' = approvalDecisions d"
proof (rule moves_intentsI)
  let ?now = "cl_now inp" and ?who = "Some (cl_executionClaimId inp)"
  let ?e = "\<lambda>x. x\<lparr>ai_status := I_executing, ai_executionClaimId := ?who, ai_updatedAt := ?now\<rparr>"
  from assms(1) obtain d1 d2 r where d1: "make_ready octets f i ?now d = Inr d1"
    and u: "update_intent octets (intent_in (ai_id i) {I_ready}) ?e d1 = Inr (d2, r)" and d': "intent_frame d' = intent_frame d2"
    by (auto simp: claimReadyActionIntent_def bindE_eq_Inr dest!: fact_intents split: option.splits)
  have "fst (update_where (intent_in (ai_id i) {I_ready}) ?e (actionIntents d1)) =
      fst (update_where (\<lambda>x. ai_id x = ai_id i) ?e (actionIntents d))"
    using make_ready_frame [OF d1] assms(3,4)
    by (fastforce simp: intent_frame_def update_where_def intent_in_def)
  then show "intent_frame d' = (fst (update_where (\<lambda>x. ai_id x = ai_id i) ?e (actionIntents d)),
      approvalRequests d, approvalDecisions d, executions d, waitTimers d)"
    using d' update_intent_effect(1) [OF u] make_ready_frame [OF d1] by (simp add: intent_frame_def)
  show "intent_row_step d ?now ?who x (?e x)" if "x \<in> set (actionIntents d)" "ai_id x = ai_id i" for x
    using assms(3) [OF that] assms(4-6) by (auto intro: ir_claim)
qed

lemma claim_moves:
  assumes "claimApprovedActionIntent octets f inp d = Inr (d', res)" "distinct (map ai_id (actionIntents d))"
  shows "moves_intents (cl_now inp) (Some (cl_executionClaimId inp)) d d' \<and>
    approvalRequests d' = approvalRequests d \<and> approvalDecisions d' = approvalDecisions d"
proof (cases "d' = d")
  case False
  with assms(1) obtain i where i: "find (\<lambda>i. ai_id i = cl_actionIntentId inp) (actionIntents d) = Some i" "\<not> terminalActionIntent i"
    by (auto simp: claimApprovedActionIntent_def split: option.splits if_splits)
  have only: "x = i" if "x \<in> set (actionIntents d)" "ai_id x = ai_id i" for x
    using intent_by_id [OF assms(2) i(1) that(1)] that(2) find_row_Some [OF i(1)] by simp
  consider (recover) v where "recoverExecutingActionIntent octets f i inp d = Inr (d', v)"
    | (cancel) v where "cancelUnauthorizedActionIntent octets f i (cl_now inp) d = Inr (d', v)"
    | (claim) cn v where "claimReadyActionIntent octets f i cn inp d = Inr (d', v)" "ai_status i \<noteq> I_executing"
        "intent_current i inp d" "activeExecutionClaim (intent_execution i d) inp"
    using assms(1) i False
    by (auto simp: claimApprovedActionIntent_def bindE_eq_Inr split: option.splits if_splits)
  then show ?thesis
  proof cases
    case claim
    moreover from this(2) i(2) have "ai_status i \<in> {I_awaiting_consent, I_ready}"
      by (cases "ai_status i") (auto simp: terminalActionIntent_def)
    ultimately show ?thesis
      using claimReady_moves only find_row_Some [OF i(1)] current_consented active_lessee by blast
  qed (use recover_moves cancelUnauthorized_moves only in blast)+
qed (use moves_none in blast)


lemma begin_moves:
  assumes "beginActionIntentDispatch octets f inp d = Inr (d', res)" "distinct (map ai_id (actionIntents d))"
  shows "moves_intents (cl_now inp) (Some (cl_executionClaimId inp)) d d' \<and>
    approvalRequests d' = approvalRequests d \<and> approvalDecisions d' = approvalDecisions d"
proof (cases "d' = d")
  case False
  with assms(1) obtain i where i: "find (\<lambda>i. ai_id i = cl_actionIntentId inp) (actionIntents d) = Some i"
    by (auto simp: beginActionIntentDispatch_def split: option.splits)
  have only: "x = i" if "x \<in> set (actionIntents d)" "ai_id x = ai_id i" for x
    using intent_by_id [OF assms(2) i that(1)] that(2) find_row_Some [OF i] by simp
  have locked: "lockActiveActionIntentExecution (cl_actionIntentId inp) (cl_executionClaimId inp) (cl_now inp) d"
    using assms(1) i False by (auto simp: beginActionIntentDispatch_def split: if_splits)
  have lease: "lessee d (cl_now inp) (cl_executionClaimId inp) i"
    using locked_lessee [OF locked assms(2)] find_row_Some [OF i] by blast
  consider (fail) v where "failRecoveredActionIntent octets f i inp (cl_executionClaimId inp) d = Inr (d', v)"
    | (start) "intent_current i inp d" "update_intent octets (held_intent (cl_actionIntentId inp) (cl_executionClaimId inp))
        (start_dispatch (cl_now inp)) d = Inr (d', res)"
    using assms(1) i False by (auto simp: beginActionIntentDispatch_def bindE_eq_Inr split: if_splits)
  then show ?thesis
  proof cases
    case start
    show ?thesis
    proof (rule moves_intentsI [OF update_intent_effect(1) [OF start(2)]])
      fix x
      assume x: "x \<in> set (actionIntents d)" "held_intent (cl_actionIntentId inp) (cl_executionClaimId inp) x"
      then have "x = i" using only find_row_Some [OF i] by (simp add: held_intent_def)
      then show "intent_row_step d (cl_now inp) (Some (cl_executionClaimId inp)) x (start_dispatch (cl_now inp) x)"
        using x lease current_consented [OF start(1)] by (auto simp: held_intent_def intro: ir_dispatch)
    qed
  qed (use failRecovered_moves only lease in blast)
qed (use moves_none in blast)

lemma complete_moves:
  assumes "completeActionIntent octets f iid who v t d = Inr (d', res)" "distinct (map ai_id (actionIntents d))"
  shows "moves_intents t (Some who) d d' \<and> approvalRequests d' = approvalRequests d \<and>
    approvalDecisions d' = approvalDecisions d"
proof (cases "lockActiveActionIntentExecution iid who t d")
  case True
  let ?g = "\<lambda>i. i\<lparr>ai_status := I_succeeded,
      ai_normalizedResult := (if v = JUndef then ai_normalizedResult i else jsonb_column v), ai_updatedAt := t\<rparr>"
  have "intent_frame d' = (fst (update_where (held_intent iid who) ?g (actionIntents d)), approvalRequests d,
      approvalDecisions d, executions d, waitTimers d)"
    using assms(1) [unfolded completeActionIntent_def] True
    by (simp only: not_not simp_thms if_False if_True)
       (erule update_then_frame, auto simp: bindE_eq_Inr dest!: fact_intents event_intents split: option.splits)
  then show ?thesis
    by (rule moves_intentsI) (rule ir_complete, simp_all add: held_intent_def locked_lessee [OF True assms(2)])
next
  case False
  then have "d' = d" using assms by (simp add: completeActionIntent_def)
  then show ?thesis using moves_none by blast
qed

lemma fail_moves:
  assumes "failActionIntent octets f iid who err v t d = Inr (d', res)" "v \<in> {I_failed, I_stale, I_outcome_unknown}"
    "distinct (map ai_id (actionIntents d))"
  shows "moves_intents t (Some who) d d' \<and> approvalRequests d' = approvalRequests d \<and>
    approvalDecisions d' = approvalDecisions d"
proof (cases "lockActiveActionIntentExecution iid who t d")
  case True
  have "intent_frame d' = (fst (update_where (held_intent iid who)
      (\<lambda>i. i\<lparr>ai_status := v, ai_normalizedError := Some err, ai_updatedAt := t\<rparr>) (actionIntents d)), approvalRequests d,
      approvalDecisions d, executions d, waitTimers d)"
    using assms(1) [unfolded failActionIntent_def] True
    by (simp only: not_not simp_thms if_False if_True)
       (erule update_then_frame, auto simp: bindE_eq_Inr dest!: fact_intents event_intents split: option.splits)
  then show ?thesis
    by (rule moves_intentsI)
       (use assms(2) locked_lessee [OF True assms(3)] in \<open>auto simp: held_intent_def intro!: ir_fail\<close>)
next
  case False
  then have "d' = d" using assms by (simp add: failActionIntent_def)
  then show ?thesis using moves_none by blast
qed

text \<open>Cancelling: open intents of the scope, and the pending requests they wait for.\<close>

lemma recordApprovalCancellation_frame:
  "recordApprovalCancellation octets ev now actor r d = Inr d' \<Longrightarrow> intent_frame d' = intent_frame d"
  by (auto simp: recordApprovalCancellation_def Let_def bindE_eq_Inr createPublicEvent_def insert_message_def
      intent_frame_def split: option.splits if_splits)

definition cancels_requests :: "uuid set \<Rightarrow> timestamp \<Rightarrow> db \<Rightarrow> db \<Rightarrow> bool" where
  "cancels_requests ids t d d' \<longleftrightarrow> approvalDecisions d' = approvalDecisions d \<and>
     approvalRequests d' = fst (update_where (\<lambda>r. ar_id r \<in> ids \<and> ar_status r = A_pending) (mark_cancelled t) (approvalRequests d))"

definition scoped_intents :: "uuid \<Rightarrow> cancel_scope \<Rightarrow> db \<Rightarrow> action_intent list" where
  "scoped_intents ws scope d = filter (\<lambda>i. ai_workspaceId i = ws \<and> cancellationScopePredicate scope i) (actionIntents d)"

definition open_intent :: "action_intent \<Rightarrow> bool" where
  "open_intent i \<longleftrightarrow> ai_status i = I_awaiting_consent \<or> ai_status i = I_ready"

lemma cancel_effect:
  assumes "cancelNonExecutingActionIntents octets ev fa now ws scope actor t d = Inr (d', cs, es)"
  shows "d' = d \<and> cs = [] \<or>
    intent_frame d' = (fst (update_where (\<lambda>i. ai_id i \<in> ai_id ` set (filter open_intent (scoped_intents ws scope d)))
        (\<lambda>i. i\<lparr>ai_status := I_cancelled, ai_updatedAt := t\<rparr>) (actionIntents d)),
      fst (update_where (\<lambda>r. ar_id r \<in> ai_approvalRequestId ` set (scoped_intents ws scope d) \<and> ar_status r = A_pending)
        (mark_cancelled t) (approvalRequests d)),
      approvalDecisions d, executions d, waitTimers d)"
proof -
  define scoped where "scoped = scoped_intents ws scope d"
  define open_ids where "open_ids = set (map ai_id (filter open_intent scoped))"
  let ?g = "\<lambda>i. i\<lparr>ai_status := I_cancelled, ai_updatedAt := t\<rparr>"
  let ?p = "\<lambda>r. ar_id r \<in> set (map ai_approvalRequestId scoped) \<and> ar_status r = A_pending"
  have fold_defs: "filter (\<lambda>i. ai_workspaceId i = ws \<and> cancellationScopePredicate scope i) (actionIntents d) = scoped"
    "(\<lambda>i. ai_status i = I_awaiting_consent \<or> ai_status i = I_ready) = open_intent"
    by (auto simp: scoped_def scoped_intents_def open_intent_def)
  consider (stop) "d' = d" "cs = []" | (go) d1 where
    "each_db (\<lambda>i. recordActionIntentFact (fa (ai_id i)) i ''action_intent.cancelled'' t None (Some ''cancelled'') None)
      (snd (update_where (\<lambda>i. ai_id i \<in> open_ids) ?g (actionIntents d)))
      (d\<lparr>actionIntents := fst (update_where (\<lambda>i. ai_id i \<in> open_ids) ?g (actionIntents d))\<rparr>) = Inr d1"
    "each_db (recordApprovalCancellation octets ev now actor)
      (snd (update_where ?p (mark_cancelled t) (approvalRequests d1)))
      (d1\<lparr>approvalRequests := fst (update_where ?p (mark_cancelled t) (approvalRequests d1))\<rparr>) = Inr d'"
    using assms
    by (auto simp: cancelNonExecutingActionIntents_def Let_def bindE_eq_Inr fold_defs open_ids_def split_beta
        split: if_splits)
  then show ?thesis
  proof cases
    case go
    note e1 = each_db_frame [OF go(1), of intent_frame, OF fact_intents, unfolded intent_frame_def, simplified]
    note e2 = each_db_frame [OF go(2), of intent_frame, OF recordApprovalCancellation_frame, unfolded intent_frame_def, simplified]
    show ?thesis using e1 e2 by (simp add: intent_frame_def open_ids_def scoped_def)
  qed simp
qed

lemma cancel_moves:
  assumes "cancelNonExecutingActionIntents octets ev fa now ws scope actor t d = Inr (d', cs, es)"
    "distinct (map ai_id (actionIntents d))"
  shows "moves_intents now None d d' \<and> (\<exists>ids. cancels_requests ids t d d')"
  using cancel_effect [OF assms(1)]
proof
  assume "d' = d \<and> cs = []"
  moreover have "cancels_requests {} t d d" by (simp add: cancels_requests_def update_where_def)
  ultimately show ?thesis using moves_none by blast
next
  let ?p = "\<lambda>i. ai_id i \<in> ai_id ` set (filter open_intent (scoped_intents ws scope d))"
  let ?g = "\<lambda>i. i\<lparr>ai_status := I_cancelled, ai_updatedAt := t\<rparr>"
  assume e: "intent_frame d' = (fst (update_where ?p ?g (actionIntents d)),
      fst (update_where (\<lambda>r. ar_id r \<in> ai_approvalRequestId ` set (scoped_intents ws scope d) \<and> ar_status r = A_pending)
        (mark_cancelled t) (approvalRequests d)),
      approvalDecisions d, executions d, waitTimers d)"
  have "intent_row_step d now None i (?g i)" if "i \<in> set (actionIntents d)" "?p i" for i
  proof -
    from that(2) obtain j where j: "j \<in> set (actionIntents d)" "ai_id j = ai_id i" "open_intent j"
      by (auto simp: scoped_intents_def)
    then have "j = i" using distinct_rows_eq [OF assms(2) j(1) that(1)] by simp
    with j(3) show ?thesis by (auto simp: open_intent_def intro: ir_cancel)
  qed
  then have "moves_intents now None d d'"
    unfolding moves_intents_def using e by (intro conjI exI [of _ ?p] exI [of _ ?g]) (auto simp: intent_frame_def)
  moreover have "cancels_requests (ai_approvalRequestId ` set (scoped_intents ws scope d)) t d d'"
    unfolding cancels_requests_def using e by (simp add: intent_frame_def)
  ultimately show ?thesis by blast
qed

section \<open>Requests and decisions do not touch intents\<close>

lemma audience_event_intents: "audience_event octets mid now r ty data d = Inr d' \<Longrightarrow> intent_frame d' = intent_frame d"
  by (auto simp: audience_event_def bindE_eq_Inr createPublicEvent_def Let_def insert_message_def intent_frame_def
      split: if_splits option.splits)

lemma decision_fact_intents: "recordActionIntentDecisionFact fid r c d = Inr d' \<Longrightarrow> intent_frame d' = intent_frame d"
  by (auto simp: recordActionIntentDecisionFact_def dest: fact_intents split: if_splits option.splits)

lemma resume_intents: "actionIntents (resumeDecisionExecution mid now r d) = actionIntents d"
  by (simp add: resumeDecisionExecution_def update_executions_def split_beta createWorkflowExecutionMessage_def Let_def
      insert_message_def split: option.split)

lemma recordDecision_intents:
  assumes "recordDecision octets f now r inp d = Inr (d', r', c)"
  shows "actionIntents d' = actionIntents d"
proof -
  let ?c = "decision_row (new_decision f) r inp"
  from assms obtain d1 where d1: "insert_decision ?c d = Inr d1" by (auto simp: recordDecision_def Let_def bindE_eq_Inr)
  obtain rows ret where u: "update_where (pending_request (ar_id r)) mark_decided (approvalRequests d1) = (rows, ret)"
    by (cases "update_where (pending_request (ar_id r)) mark_decided (approvalRequests d1)")
  from assms d1 u obtain d2 where
    d2: "recordActionIntentDecisionFact (new_fact f) r ?c (d1\<lparr>approvalRequests := rows\<rparr>) = Inr d2"
    and d3: "audience_event octets (event_message f) now r ''approval_request.decided'' (decided_data r ?c)
        (recordApprovalDecisionAudit r inp (resumeDecisionExecution (wake_message f) now r d2)) = Inr d'"
    by (cases ret) (auto simp: recordDecision_def Let_def bindE_eq_Inr)
  have i1: "actionIntents d1 = actionIntents d" using d1 by (auto simp: insert_decision_def split: if_splits)
  have "actionIntents d2 = actionIntents d1" using decision_fact_intents [OF d2] by (simp add: intent_frame_def)
  moreover have "actionIntents d' = actionIntents d2"
    using audience_event_intents [OF d3] resume_intents [of "wake_message f" now r d2]
    by (simp add: intent_frame_def recordApprovalDecisionAudit_def split_beta)
  ultimately show ?thesis using i1 by simp
qed

lemma recordTimeoutDecision_intents:
  "recordTimeoutDecision octets f r now d = Inr (d', r', c) \<Longrightarrow> actionIntents d' = actionIntents d"
  by (auto simp: recordTimeoutDecision_def dest: recordDecision_intents split: option.splits)

lemma createApprovalRequest_intents:
  "createApprovalRequest octets f now inp d = Inr (d', res) \<Longrightarrow> actionIntents d' = actionIntents d"
  by (auto simp: createApprovalRequest_def Let_def bindE_eq_Inr intent_frame_def dest!: audience_event_intents split: if_splits)

lemma decide_pending_intents:
  assumes "decide_pending octets digest f now r inp d = Inr (d', res)"
  shows "actionIntents d' = actionIntents d"
proof -
  from assms obtain d1 rv where rv: "reservePublicRequest (decision_reservation digest (new_record f) inp) d = Inr (d1, rv)"
    by (auto simp: decide_pending_def bindE_eq_Inr)
  then have d1: "actionIntents d1 = actionIntents d"
    by (auto simp: reservePublicRequest_def split: option.splits if_splits)
  show ?thesis
  proof (cases rv)
    case (Reserved rid)
    then obtain d2 r' c where "recordDecision octets f now r (external_decision r inp now d1) d1 = Inr (d2, r', c)"
      "finalizePublicRequest rid (ad_id c) d2 = Inr d'"
      using assms rv by (auto simp: decide_pending_def bindE_eq_Inr)
    then show ?thesis using d1 recordDecision_intents
      by (fastforce simp: finalizePublicRequest_def split: prod.splits list.splits)
  qed (use assms rv d1 in \<open>auto simp: decide_pending_def\<close>)
qed

lemma approval_step_intents:
  assumes "approval_step now a d d'"
  shows "actionIntents d' = actionIntents d"
  using assms
proof cases
  case (ap_create f octets inp res)
  then show ?thesis using createApprovalRequest_intents by blast
next
  case (ap_decide f octets ws rid inp res')
  then show ?thesis
    by (auto simp: decideWorkspaceApprovalRequest_def bindE_eq_Inr dest: recordTimeoutDecision_intents
        recordDecision_intents split: option.splits if_splits)
next
  case (ap_decide_external f octets digest xinp xres)
  then show ?thesis
    by (auto simp: decideExternalApprovalRequest_def bindE_eq_Inr dest: recordTimeoutDecision_intents
        decide_pending_intents split: option.splits if_splits approval_status.splits)
next
  case (ap_timeout f octets locked res')
  then show ?thesis
    by (auto simp: claimAndDecideTimedOutApprovalRequest_def bindE_eq_Inr dest: recordTimeoutDecision_intents
        split: option.splits)
qed

section \<open>Creating\<close>

lemma insert_intent_effect:
  assumes "insert_intent octets i d = Inr (d', res)"
  shows "res = None \<and> d' = d \<or>
    res = Some i \<and> intent_call i \<notin> intent_call ` set (actionIntents d) \<and> intent_frame d' = (actionIntents d @ [i], approvalRequests d, approvalDecisions d, executions d, waitTimers d)"
  using assms by (auto simp: insert_intent_def bindE_eq_Inr intent_frame_def intent_call_def list_ex_iff split: if_splits)

definition adds_intent :: "uuid \<Rightarrow> db \<Rightarrow> db \<Rightarrow> bool" where
  "adds_intent iid d d' \<longleftrightarrow> executions d' = executions d \<and> waitTimers d' = waitTimers d \<and> (\<exists>i. actionIntents d' = actionIntents d @ [i] \<and> ai_id i = iid \<and>
     intent_call i \<notin> intent_call ` set (actionIntents d) \<and> ai_status i = I_awaiting_consent \<and> intent_ok i)"

lemma record_intent_effect:
  assumes "record_intent octets f now inp x env s grant r d = Inr (d', res)"
  shows "approvalRequests d' = approvalRequests d \<and> approvalDecisions d' = approvalDecisions d \<and>
    (executions d' = executions d \<and> waitTimers d' = waitTimers d \<and> actionIntents d' = actionIntents d \<or>
     adds_intent (ii_intent f) d d')"
proof -
  let ?i = "new_intent (ii_intent f) now inp x env s grant (ar_id r)"
  have new: "ai_id ?i = ii_intent f" "ai_status ?i = I_awaiting_consent" "intent_ok ?i"
    by (simp_all add: new_intent_def intent_ok_def I_claimed_def)
  from assms obtain d1 v where ins: "insert_intent octets ?i d = Inr (d1, v)"
    by (auto simp: record_intent_def bindE_eq_Inr)
  have "intent_frame d' = intent_frame d1"
    using assms ins by (auto simp: record_intent_def bindE_eq_Inr dest!: fact_intents split: option.splits)
  with insert_intent_effect [OF ins] new show ?thesis by (auto simp: adds_intent_def intent_frame_def)
qed

lemma create_intent_effect:
  assumes "createActionIntent octets f now inp d = Inr (d', res)"
  shows "(\<exists>d1. (d1 = d \<or> creates (ii_approval f) d d1) \<and> approvalRequests d' = approvalRequests d1 \<and>
      approvalDecisions d' = approvalDecisions d1) \<and>
    (executions d' = executions d \<and> waitTimers d' = waitTimers d \<and> actionIntents d' = actionIntents d \<or>
     adds_intent (ii_intent f) d d')"
proof (cases "d' = d")
  case False
  with assms obtain x env s grant where rc: "request_consent octets f now inp x env s grant d = Inr (d', res)"
    by (auto simp: createActionIntent_def Let_def bindE_eq_Inr split: option.splits if_splits)
  then obtain d1 made where c: "createApprovalRequest octets (ii_approval f) now (consent_request inp x env s) d = Inr (d1, made)"
    by (auto simp: request_consent_def bindE_eq_Inr)
  define found where "found = (case made of Some r \<Rightarrow> Some r
    | None \<Rightarrow> find (\<lambda>r. ar_executionId r = ex_id x \<and> ar_nodeId r = ni_nodeId inp) (approvalRequests d1))"
  have rest: "d' = d1 \<or> (\<exists>r. record_intent octets f now inp x env s grant r d1 = Inr (d', res))"
    using rc c
    by (cases found; cases "findInvokedActionIntent inp d1")
       (auto simp: request_consent_def Let_def found_def [symmetric] bindE_eq_Inr split: if_splits)
  have d1: "d1 = d \<or> creates (ii_approval f) d d1" using createApprovalRequest_effect [OF c] by blast
  have same: "executions d1 = executions d" "waitTimers d1 = waitTimers d" "actionIntents d1 = actionIntents d"
    using createApprovalRequest_intents [OF c] d1 creates_tables by blast+
  from rest have "approvalRequests d' = approvalRequests d1 \<and> approvalDecisions d' = approvalDecisions d1 \<and>
      (executions d' = executions d1 \<and> waitTimers d' = waitTimers d1 \<and> actionIntents d' = actionIntents d1 \<or>
       adds_intent (ii_intent f) d1 d')"
    using record_intent_effect by blast
  then show ?thesis using d1 same unfolding adds_intent_def by metis
qed auto


section \<open>The protocol\<close>

definition fresh_intent :: "intent_ids \<Rightarrow> db \<Rightarrow> bool" where
  "fresh_intent f d \<longleftrightarrow> ii_intent f \<notin> ai_id ` set (actionIntents d) \<and> fresh_approval (ii_approval f) d"

inductive intent_step :: "timestamp \<Rightarrow> string option \<Rightarrow> db \<Rightarrow> db \<Rightarrow> bool" for now where
  is_create: "fresh_intent f d \<Longrightarrow> createActionIntent octets f now inp d = Inr (d', res) \<Longrightarrow> intent_step now None d d'"
| is_reject: "rejectActionIntent octets f now iid d = Inr (d', res') \<Longrightarrow> intent_step now None d d'"
| is_claim: "claimApprovedActionIntent octets f cinp d = Inr (d', res'') \<Longrightarrow> cl_now cinp = now \<Longrightarrow>
    intent_step now (Some (cl_executionClaimId cinp)) d d'"
| is_begin: "beginActionIntentDispatch octets f cinp d = Inr (d', res') \<Longrightarrow> cl_now cinp = now \<Longrightarrow>
    intent_step now (Some (cl_executionClaimId cinp)) d d'"
| is_complete: "completeActionIntent octets f iid who v now d = Inr (d', res') \<Longrightarrow> intent_step now (Some who) d d'"
| is_fail: "failActionIntent octets f iid who err st now d = Inr (d', res') \<Longrightarrow>
    st \<in> {I_failed, I_stale, I_outcome_unknown} \<Longrightarrow> intent_step now (Some who) d d'"
| is_cancel: "cancelNonExecutingActionIntents octets ev fa now ws scope actor t d = Inr (d', cs, es) \<Longrightarrow>
    intent_step now None d d'"
| is_approval: "approval_step now None d d' \<Longrightarrow> intent_step now None d d'"

lemma intent_step_intents:
  assumes "intent_step now a d d'" "distinct (map ai_id (actionIntents d))"
  shows "(\<exists>p g. actionIntents d' = fst (update_where p g (actionIntents d)) \<and>
      (\<forall>i \<in> set (actionIntents d). p i \<longrightarrow> intent_row_step d now a i (g i))) \<or>
    (\<exists>i. actionIntents d' = actionIntents d @ [i] \<and> ai_id i \<notin> ai_id ` set (actionIntents d) \<and>
      intent_call i \<notin> intent_call ` set (actionIntents d) \<and> ai_status i = I_awaiting_consent \<and> intent_ok i)"
proof -
  have same: ?thesis if "actionIntents d' = actionIntents d"
    by (intro disjI1 exI [of _ "\<lambda>_. False"] exI [of _ id]) (simp add: that update_where_def)
  have moved: ?thesis if "moves_intents now a d d'" using that unfolding moves_intents_def by blast
  from assms(1) show ?thesis
  proof cases
    case (is_create f octets inp res)
    then have "actionIntents d' = actionIntents d \<or> adds_intent (ii_intent f) d d'"
      using create_intent_effect [OF is_create(3)] by blast
    then show ?thesis
    proof
      assume "adds_intent (ii_intent f) d d'"
      then obtain i where i: "actionIntents d' = actionIntents d @ [i]" "ai_id i = ii_intent f"
        "intent_call i \<notin> intent_call ` set (actionIntents d)" "ai_status i = I_awaiting_consent" "intent_ok i"
        unfolding adds_intent_def by blast
      then show ?thesis using is_create(2) by (intro disjI2 exI [of _ i]) (simp add: fresh_intent_def)
    qed (rule same)
  next
    case (is_reject octets f iid res')
    then show ?thesis using reject_moves moved by blast
  next
    case (is_claim octets f cinp res'')
    then show ?thesis using claim_moves [OF _ assms(2)] moved by blast
  next
    case (is_begin octets f cinp res')
    then show ?thesis using begin_moves [OF _ assms(2)] moved by blast
  next
    case (is_complete octets f iid who v res')
    then show ?thesis using complete_moves [OF _ assms(2)] moved by blast
  next
    case (is_fail octets f iid who err st res')
    then show ?thesis using fail_moves [OF _ _ assms(2)] moved by blast
  next
    case (is_cancel octets ev fa ws scope actor t cs es)
    then show ?thesis using cancel_moves [OF _ assms(2)] moved by blast
  next
    case is_approval
    then show ?thesis using approval_step_intents same by blast
  qed
qed

text \<open>A step leaves executions and timers alone, unless it decides a request and so wakes an execution.\<close>

lemma intent_step_executions:
  assumes "intent_step now a d d'" "distinct (map ai_id (actionIntents d))"
  shows "executions d' = executions d \<and> waitTimers d' = waitTimers d \<or> approval_step now None d d'"
  using assms(1)
proof cases
  case (is_create f octets inp res)
  then show ?thesis using create_intent_effect [OF is_create(3)] by (auto simp: adds_intent_def)
next
  case (is_reject octets f iid res')
  then show ?thesis using reject_moves [of octets f now iid d d'] by (auto simp: moves_intents_def)
next
  case (is_claim octets f cinp res'')
  then show ?thesis using claim_moves [OF _ assms(2)] by (auto simp: moves_intents_def)
next
  case (is_begin octets f cinp res')
  then show ?thesis using begin_moves [OF _ assms(2)] by (auto simp: moves_intents_def)
next
  case (is_complete octets f iid who v res')
  then show ?thesis using complete_moves [OF _ assms(2)] by (auto simp: moves_intents_def)
next
  case (is_fail octets f iid who err st res')
  then show ?thesis using fail_moves [OF _ _ assms(2)] by (auto simp: moves_intents_def)
next
  case (is_cancel octets ev fa ws scope actor t cs es)
  then show ?thesis using cancel_moves [OF _ assms(2)] by (auto simp: moves_intents_def)
qed blast

text \<open>What a step does to requests and decisions: nothing, creates one, cancels some, or decides one.\<close>

lemma intent_step_approvals:
  assumes "intent_step now a d d'" "distinct (map ai_id (actionIntents d))"
  shows "approvalRequests d' = approvalRequests d \<and> approvalDecisions d' = approvalDecisions d \<or>
    (\<exists>f d1. fresh_approval f d \<and> creates f d d1 \<and> approvalRequests d' = approvalRequests d1 \<and>
       approvalDecisions d' = approvalDecisions d1) \<or>
    (\<exists>ids t. cancels_requests ids t d d') \<or> approval_step now None d d'"
  using assms(1)
proof cases
  case (is_create f octets inp res)
  then have "fresh_approval (ii_approval f) d" by (simp add: fresh_intent_def)
  then show ?thesis using create_intent_effect [OF is_create(3)] by blast
next
  case (is_reject octets f iid res')
  then show ?thesis using reject_moves by blast
next
  case (is_claim octets f cinp res'')
  then show ?thesis using claim_moves [OF _ assms(2)] by blast
next
  case (is_begin octets f cinp res')
  then show ?thesis using begin_moves [OF _ assms(2)] by blast
next
  case (is_complete octets f iid who v res')
  then show ?thesis using complete_moves [OF _ assms(2)] by blast
next
  case (is_fail octets f iid who err st res')
  then show ?thesis using fail_moves [OF _ _ assms(2)] by blast
next
  case (is_cancel octets ev fa ws scope actor t cs es)
  then show ?thesis using cancel_moves [OF _ assms(2)] by blast
qed blast

lemma mark_cancelled_simps [simp]:
  "ar_id (mark_cancelled t r) = ar_id r" "ar_executionId (mark_cancelled t r) = ar_executionId r"
  "ar_nodeId (mark_cancelled t r) = ar_nodeId r" "ar_status (mark_cancelled t r) = A_cancelled"
  "ar_expiresAt (mark_cancelled t r) = ar_expiresAt r" "ar_timeoutAction (mark_cancelled t r) = ar_timeoutAction r"
  "ar_requestedAt (mark_cancelled t r) = ar_requestedAt r" "ar_cancelledAt (mark_cancelled t r) = Some t"
  by (simp_all add: mark_cancelled_def)

lemma mark_cancelled_fits [simp]: "decision_fits (mark_cancelled t r) c = decision_fits r c"
  unfolding decision_fits_def mark_cancelled_simps by (rule refl)

lemma cancels_inv:
  assumes "approval_inv d" "cancels_requests ids t d d'"
  shows "approval_inv d'"
proof -
  let ?p = "\<lambda>r. ar_id r \<in> ids \<and> ar_status r = A_pending"
  let ?u = "fst (update_where ?p (mark_cancelled t) (approvalRequests d))"
  have t: "approvalRequests d' = ?u" "approvalDecisions d' = approvalDecisions d"
    using assms(2) by (auto simp: cancels_requests_def)
  have keys: "map ar_id ?u = map ar_id (approvalRequests d)"
    "map (\<lambda>x. (ar_executionId x, ar_nodeId x)) ?u = map (\<lambda>x. (ar_executionId x, ar_nodeId x)) (approvalRequests d)"
    by (simp_all add: map_update_where)
  have ok: "request_ok (mark_cancelled t r)" if "request_ok r" for r
    using that by (simp add: request_ok_def split: option.splits)
  have rows: "\<forall>r \<in> set (approvalRequests d). request_ok r \<and>
      (ar_status r = A_decided \<longleftrightarrow> ar_id r \<in> ad_approvalRequestId ` set (approvalDecisions d))"
    using assms(1) by (simp add: approval_inv_def)
  have "request_ok r \<and> (ar_status r = A_decided \<longleftrightarrow> ar_id r \<in> ad_approvalRequestId ` set (approvalDecisions d))"
    if r: "r \<in> set ?u" for r
  proof -
    from r consider "r \<in> set (approvalRequests d)" | x where "x \<in> set (approvalRequests d)" "?p x" "r = mark_cancelled t x"
      by (auto simp: set_update_where)
    then show ?thesis
    proof cases
      case (2 x)
      then have "ar_id x \<notin> ad_approvalRequestId ` set (approvalDecisions d)" using rows by auto
      then show ?thesis using 2 rows ok by auto
    qed (use rows in blast)
  qed
  moreover have "\<exists>r \<in> set ?u. decision_fits r c" if c: "c \<in> set (approvalDecisions d)" for c
  proof -
    obtain r where r: "r \<in> set (approvalRequests d)" "decision_fits r c" using assms(1) c by (auto simp: approval_inv_def)
    then show ?thesis
      by (cases "?p r") (auto simp: set_update_where intro: bexI [of _ "mark_cancelled t r"] bexI [of _ r])
  qed
  ultimately show ?thesis using assms(1) keys unfolding approval_inv_def t by simp
qed

lemma approval_inv_tables:
  "approval_inv d \<Longrightarrow> approvalRequests d' = approvalRequests d \<Longrightarrow> approvalDecisions d' = approvalDecisions d \<Longrightarrow> approval_inv d'"
  by (simp add: approval_inv_def)

lemma intent_step_approval_inv:
  assumes "approval_inv d" "intent_step now a d d'" "distinct (map ai_id (actionIntents d))"
  shows "approval_inv d'"
  using intent_step_approvals [OF assms(2,3)] approval_inv_tables [OF assms(1)] approval_inv_tables creates_inv [OF assms(1)]
    cancels_inv [OF assms(1)] approval_step_inv [OF assms(1)] by blast


section \<open>The whole store\<close>

text \<open>Every transaction of the store and of the connectors, by any process.\<close>

inductive system_step :: "timestamp \<Rightarrow> string option \<Rightarrow> db \<Rightarrow> db \<Rightarrow> bool" for now where
  sys_store: "store_step now a d d' \<Longrightarrow> system_step now a d d'"
| sys_intent: "intent_step now a d d' \<Longrightarrow> system_step now a d d'"

lemma system_step_intents:
  assumes "system_step now a d d'" "distinct (map ai_id (actionIntents d))"
  shows "(\<exists>p g. actionIntents d' = fst (update_where p g (actionIntents d)) \<and>
      (\<forall>i \<in> set (actionIntents d). p i \<longrightarrow> intent_row_step d now a i (g i))) \<or>
    (\<exists>i. actionIntents d' = actionIntents d @ [i] \<and> ai_id i \<notin> ai_id ` set (actionIntents d) \<and>
      intent_call i \<notin> intent_call ` set (actionIntents d) \<and> ai_status i = I_awaiting_consent \<and> intent_ok i)"
  using assms(1)
proof cases
  case sys_store
  then have "actionIntents d' = actionIntents d"
    using store_step_approvals approval_step_intents by (fastforce simp: approval_tables_def)
  then show ?thesis
    by (intro disjI1 exI [of _ "\<lambda>_. False"] exI [of _ id]) (simp add: update_where_def)
next
  case sys_intent
  then show ?thesis using intent_step_intents assms(2) by blast
qed

lemma system_step_approvals:
  assumes "system_step now a d d'" "distinct (map ai_id (actionIntents d))"
  shows "approvalRequests d' = approvalRequests d \<and> approvalDecisions d' = approvalDecisions d \<or>
    (\<exists>f d1. fresh_approval f d \<and> creates f d d1 \<and> approvalRequests d' = approvalRequests d1 \<and>
       approvalDecisions d' = approvalDecisions d1) \<or>
    (\<exists>ids t. cancels_requests ids t d d') \<or> approval_step now None d d'"
  using assms(1)
proof cases
  case sys_store
  then show ?thesis using store_step_approvals by (fastforce simp: approval_tables_def)
next
  case sys_intent
  then show ?thesis using intent_step_approvals assms(2) by blast
qed

lemma approval_step_decisions:
  assumes "approval_step now a d d'" "c \<in> set (approvalDecisions d)"
  shows "c \<in> set (approvalDecisions d')"
  using approval_run_decisions [OF run_cons [of approval_step, OF assms(1) run_nil] assms(2)] .

lemma consented_keeps:
  assumes "system_step now a d d'" "distinct (map ai_id (actionIntents d))" "consented d i" "intent_key i' = intent_key i"
  shows "consented d' i'"
proof -
  from assms(3) obtain r c where r: "r \<in> set (approvalRequests d)" "c \<in> set (approvalDecisions d)"
    "ar_id r = ai_approvalRequestId i" "ar_status r = A_decided" "ar_actionIntentDigest r = Some (ai_canonicalDigest i)"
    "ad_approvalRequestId c = ai_approvalRequestId i" "ad_outcome c = D_approved" "ad_actorKind c = K_external_subject"
    "ad_reason c = By_human"
    by (auto simp: consented_def)
  have "r \<in> set (approvalRequests d') \<and> c \<in> set (approvalDecisions d')"
    using system_step_approvals [OF assms(1,2)]
  proof (elim disjE exE conjE)
    fix f d1
    assume "creates f d d1" "approvalRequests d' = approvalRequests d1" "approvalDecisions d' = approvalDecisions d1"
    then show ?thesis using r(1,2) creates_tables [of f d d1] by auto
  next
    fix ids t
    assume "cancels_requests ids t d d'"
    then show ?thesis using r(1,2,4) by (auto simp: cancels_requests_def set_update_where)
  next
    assume "approval_step now None d d'"
    then show ?thesis using r(1,2,4) approval_step_keeps approval_step_decisions by fastforce
  qed (use r(1,2) in simp)
  then show ?thesis using r assms(4) unfolding consented_def intent_key_def by (metis prod.inject)
qed

definition intent_inv :: "db \<Rightarrow> bool" where
  "intent_inv d \<longleftrightarrow> approval_inv d \<and> distinct (map ai_id (actionIntents d)) \<and> distinct (map intent_call (actionIntents d)) \<and>
     (\<forall>i \<in> set (actionIntents d). intent_ok i \<and> (ai_status i \<in> I_claimed \<longrightarrow> consented d i))"

lemma row_step_claimed:
  "intent_row_step d now a i i' \<Longrightarrow> ai_status i' \<in> I_claimed \<Longrightarrow> ai_status i \<in> I_claimed \<or> consented d i"
  by (cases rule: intent_row_step.cases) (auto simp: I_claimed_def)

lemma system_step_inv:
  assumes "intent_inv d" "system_step now a d d'"
  shows "intent_inv d'"
proof -
  have ids: "distinct (map ai_id (actionIntents d))" and calls: "distinct (map intent_call (actionIntents d))"
    and inv: "approval_inv d"
    and rows: "\<And>i. i \<in> set (actionIntents d) \<Longrightarrow> intent_ok i \<and> (ai_status i \<in> I_claimed \<longrightarrow> consented d i)"
    using assms(1) by (auto simp: intent_inv_def)
  have keeps: "consented d' i'" if "consented d i" "intent_key i' = intent_key i" for i i'
    using consented_keeps [OF assms(2) ids that] .
  have "approval_inv d'"
    using system_step_approvals [OF assms(2) ids] approval_inv_tables creates_inv [OF inv] cancels_inv [OF inv]
      approval_step_inv [OF inv] inv by blast
  moreover have "distinct (map ai_id (actionIntents d')) \<and> distinct (map intent_call (actionIntents d')) \<and>
      (\<forall>i \<in> set (actionIntents d'). intent_ok i \<and> (ai_status i \<in> I_claimed \<longrightarrow> consented d' i))"
    using system_step_intents [OF assms(2) ids]
  proof
    assume "\<exists>p g. actionIntents d' = fst (update_where p g (actionIntents d)) \<and>
      (\<forall>i \<in> set (actionIntents d). p i \<longrightarrow> intent_row_step d now a i (g i))"
    then obtain p g where e: "actionIntents d' = fst (update_where p g (actionIntents d))"
      and s: "\<And>i. i \<in> set (actionIntents d) \<Longrightarrow> p i \<Longrightarrow> intent_row_step d now a i (g i)" by blast
    have same: "intent_call (g i) = intent_call i \<and> ai_id (g i) = ai_id i" if "i \<in> set (actionIntents d)" "p i" for i
      using key_call [OF row_step_key [OF s [OF that]]] by simp
    then have "map ai_id (actionIntents d') = map ai_id (actionIntents d)" unfolding e by (intro map_update_where) blast
    moreover have "map intent_call (actionIntents d') = map intent_call (actionIntents d)"
      unfolding e using same by (intro map_update_where) blast
    moreover have "intent_ok (g i) \<and> (ai_status (g i) \<in> I_claimed \<longrightarrow> consented d' (g i))"
      if i: "i \<in> set (actionIntents d)" "p i" for i
      using row_step_intent_ok [OF s [OF i]] row_step_claimed [OF s [OF i]] row_step_key [OF s [OF i]] rows [OF i(1)] keeps
      by blast
    then have "\<forall>i \<in> set (actionIntents d'). intent_ok i \<and> (ai_status i \<in> I_claimed \<longrightarrow> consented d' i)"
      unfolding e set_update_where using rows keeps by blast
    ultimately show ?thesis using ids calls by simp
  next
    assume "\<exists>i. actionIntents d' = actionIntents d @ [i] \<and> ai_id i \<notin> ai_id ` set (actionIntents d) \<and>
      intent_call i \<notin> intent_call ` set (actionIntents d) \<and> ai_status i = I_awaiting_consent \<and> intent_ok i"
    then obtain i where i: "actionIntents d' = actionIntents d @ [i]" "ai_id i \<notin> ai_id ` set (actionIntents d)"
      "intent_call i \<notin> intent_call ` set (actionIntents d)" "ai_status i = I_awaiting_consent" "intent_ok i" by blast
    have "\<forall>j \<in> set (actionIntents d). intent_ok j \<and> (ai_status j \<in> I_claimed \<longrightarrow> consented d' j)" using rows keeps by blast
    then show ?thesis using ids calls i by (simp add: I_claimed_def)
  qed
  ultimately show ?thesis by (simp add: intent_inv_def)
qed

lemma system_step_keeps:
  assumes "intent_inv d" "system_step now a d d'" "i \<in> set (actionIntents d)" "\<And>i'. \<not> intent_row_step d now a i i'"
  shows "i \<in> set (actionIntents d')"
proof -
  have "distinct (map ai_id (actionIntents d))" using assms(1) by (simp add: intent_inv_def)
  from system_step_intents [OF assms(2) this] show ?thesis
    using assms(3,4) by (auto simp: set_update_where)
qed

interpretation intents: leased_rows actionIntents ai_executionClaimId "\<lambda>(_ :: timestamp) _. False" terminalActionIntent
  system_step intent_inv
  by unfold_locales (auto intro: system_step_inv system_step_keeps dest: row_step_open)

text \<open>
  C12. Nothing is dispatched without consent. Whatever workers, reviewers, pollers and
  cancellations do, and in whatever order, every intent that was ever claimed for execution or
  sent to a provider has a decision of an external subject that approves it, recorded before,
  on a request whose digest is the digest of that intent; a timeout never approves one. The
  invariant of the tables is kept.
\<close>

theorem dispatch_needs_consent:
  assumes "intent_inv d0" "run_steps system_step as d0 d" "i \<in> set (actionIntents d)"
    "ai_dispatchStartedAt i \<noteq> None \<or> ai_status i \<in> I_claimed"
  shows "intent_inv d \<and> consented d i"
proof -
  have inv: "intent_inv d" using intents.run_inv [OF assms(2,1)] .
  then have "intent_ok i" "ai_status i \<in> I_claimed \<longrightarrow> consented d i" using assms(3) by (auto simp: intent_inv_def)
  then show ?thesis using inv assms(4) by (auto simp: intent_ok_def)
qed



section \<open>A cancelled consent strands its execution\<close>

text \<open>
  C28. Revoking a connection, a grant or a subject cancels the pending requests of its intents and
  requeues nothing. An execution that is paused on such a request, with no timer of its own,
  stays paused: from then on neither the poller of wait timers, nor a decision, nor a timeout
  changes it. The gateway has a branch for an intent that was cancelled while the execution
  waited for it, which such an execution never reaches.
\<close>

theorem cancelled_consent_strands:
  assumes "cancelNonExecutingActionIntents octets ev fa now ws scope actor t d = Inr (d', cs, es)" "cs \<noteq> []"
    "distinct (map wt_id (waitTimers d))" "distinct (map ar_id (approvalRequests d))"
    "x \<in> set (executions d)" "ex_status x = Paused" "ex_id x \<notin> open_timers d"
    "\<forall>r \<in> set (approvalRequests d). ar_executionId r = ex_id x \<and> ar_status r = A_pending \<longrightarrow>
      (\<exists>i \<in> set (actionIntents d). ai_workspaceId i = ws \<and> cancellationScopePredicate scope i \<and> ai_approvalRequestId i = ar_id r)"
  shows "x \<in> set (executions d') \<and> ex_id x \<notin> open_timers d' \<union> open_requests d' \<and>
    (\<forall>mid locked now'. x \<in> set (executions (fst (claimAndResolveDueWaitTimer mid locked now' d')))) \<and>
    (\<forall>now' d''. approval_step now' None d' d'' \<longrightarrow> x \<in> set (executions d''))"
proof -
  have e: "executions d' = executions d" "waitTimers d' = waitTimers d"
    "approvalRequests d' = fst (update_where (\<lambda>r. ar_id r \<in> ai_approvalRequestId ` set (scoped_intents ws scope d) \<and>
      ar_status r = A_pending) (mark_cancelled t) (approvalRequests d))"
    using cancel_effect [OF assms(1)] assms(2) by (auto simp: intent_frame_def)
  have none: "ar_status r \<noteq> A_pending" if "r \<in> set (approvalRequests d')" "ar_executionId r = ex_id x" for r
    using that assms(8) unfolding e(3) set_update_where scoped_intents_def by (fastforce simp: image_iff)
  have timers: "ex_id x \<notin> open_timers d'" using assms(7) e(2) by (simp add: open_timers_def)
  have "x \<in> set (executions (fst (claimAndResolveDueWaitTimer mid locked now' d')))" for mid locked now'
  proof -
    obtain d2 r where w: "claimAndResolveDueWaitTimer mid locked now' d' = (d2, r)"
      by (cases "claimAndResolveDueWaitTimer mid locked now' d'")
    have "distinct (map wt_id (waitTimers d'))" using assms(3) e(2) by simp
    from wake_timer_effect [OF w this] show ?thesis
    proof (elim disjE bexE conjE)
      fix due
      assume due: "due \<in> set (waitTimers d')" "due_timer now' due"
        and ex: "executions d2 = fst (update_where (paused_row (wt_executionId due)) wake (executions d'))"
      have "wt_executionId due \<noteq> ex_id x" using timers due by (auto simp: open_timers_def due_timer_def image_iff)
      then show ?thesis using w ex assms(5) e(1) update_where_keeps [of x "executions d'"]
        by (auto simp: paused_row_def)
    qed (use w assms(5) e(1) in simp)
  qed
  moreover have "x \<in> set (executions d'')" if st: "approval_step now' None d' d''" for now' d''
  proof -
    obtain f where "quiet d' d'' \<or> creates f d' d'' \<or> (\<exists>r c. decides f now' r c d' d'')"
      using approval_step_effect [OF st] by blast
    then show ?thesis
    proof (elim disjE exE)
      fix r c
      assume dec: "decides f now' r c d' d''"
      then have "ar_executionId r \<noteq> ex_id x" using none unfolding decides_def by blast
      then show ?thesis using decides_tables [OF dec] assms(5) e(1) update_where_keeps [of x "executions d'"]
        by (auto simp: paused_row_def)
    qed (use quiet_tables creates_tables assms(5) e(1) in auto)
  qed
  ultimately show ?thesis using assms(5) e(1) timers none by (auto simp: open_requests_def)
qed

section \<open>An example\<close>

definition sample_digest :: string where
  "sample_digest = replicate 43 (CHR ''d'')"

definition sample_connection :: connection_row where
  "sample_connection = \<lparr>cn_id = ''cn'', cn_workspaceId = ''ws'', cn_environmentId = ''env'', cn_externalSubjectId = Some ''s1'',
     cn_ownership = Personal, cn_authorizationKind = Delegated_user, cn_provider = ''github'', cn_providerAccountId = ''acc'',
     cn_accountLabel = ''me'', cn_status = ''active'', cn_scopes = [''repo''], cn_credentialEncrypted = Some ''k'',
     cn_credentialVersion = 1, cn_createdAt = 0, cn_updatedAt = 0, cn_revokedAt = None\<rparr>"

definition sample_environment :: environment_row where
  "sample_environment = \<lparr>env_id = ''env'', env_workspaceId = ''ws'', env_applicationId = ''app'', env_name = ''dev'',
     env_enabled = True, env_allowedRedirectOrigins = [], env_contentRetentionDays = 30,
     env_connectorAccessPolicy = [\<lparr>pp_provider = ''github'', pp_actionFamilies = [''issues''], pp_maxScopes = [''repo'']\<rparr>]\<rparr>"

definition sample_subject :: external_subject where
  "sample_subject = \<lparr>xs_id = ''s1'', xs_workspaceId = ''ws'', xs_status = Verified, xs_auditReference = ''a1''\<rparr>"

definition sample_input :: intent_input where
  "sample_input = \<lparr>ni_workspaceId = ''ws'', ni_executionId = ''x1'', ni_nodeId = ''issue'', ni_connectionId = ''cn'',
     ni_connector = ''github'', ni_actionFamily = ''issues'', ni_requiredScopes = [''repo''], ni_operationId = ''create'',
     ni_operationRevision = ''1'', ni_target = JNull, ni_normalizedParameters = JNull, ni_providerPreconditions = JNull,
     ni_safeDisplay = \<lparr>dp_title = ''Open an issue'', dp_description = None, dp_details = None\<rparr>,
     ni_digestVersion = ACTION_INTENT_DIGEST_VERSION, ni_canonicalDigest = sample_digest,
     ni_canonicalEnvelope = \<lparr>ev_version = 1, ev_operationRevision = ''1'', ev_connectionId = ''cn'', ev_connector = ''github'',
       ev_operation = ''create'', ev_target = JNull, ev_parameters = JNull, ev_providerPreconditions = JNull\<rparr>,
     ni_invocationIdempotencyKey = ''key'', ni_expiresAt = 900000000\<rparr>"

definition sample_request :: "approval_status \<Rightarrow> approval_request" where
  "sample_request v = (consent_request sample_input example_row ''env'' ''s1'')\<lparr>ar_id := ''r1'', ar_status := v\<rparr>"

definition sample_decision :: approval_decision where
  "sample_decision = decision_row ''c1'' (sample_request A_decided) \<lparr>di_outcome = D_approved,
     di_actor = Act_subject ''s1'' ''session'', di_reason = By_human, di_comment = None, di_idempotencyKey = Some ''k1'',
     di_decidedAt = 50000, di_reviewerAssignmentId = None\<rparr>"

definition sample_intent :: action_intent where
  "sample_intent = new_intent ''i1'' 0 sample_input example_row ''env'' ''s1'' None ''r1''"

definition sample_ids :: intent_ids where
  "sample_ids = \<lparr>ii_intent = ''i2'', ii_fact = ''f1'', ii_fact2 = ''f2'', ii_event = ''m3'', ii_approval = example_ids\<rparr>"

definition sample_claim :: claim_input where
  "sample_claim = \<lparr>cl_actionIntentId = ''i1'', cl_executionClaimId = ''w1'', cl_provider = ''github'',
     cl_actionFamily = ''issues'', cl_requiredScopes = [''repo''], cl_now = 60000\<rparr>"

definition approved_store :: db where
  "approved_store = empty_db\<lparr>executions := [example_row\<lparr>ex_leaseExpiresAt := Some 900000\<rparr>],
     connections := [sample_connection], environments := [sample_environment], externalSubjects := [sample_subject],
     approvalRequests := [sample_request A_decided], approvalDecisions := [sample_decision], actionIntents := [sample_intent]\<rparr>"

lemma approved_store_inv: "intent_inv approved_store"
  by (simp add: intent_inv_def approval_inv_def approved_store_def empty_db_def sample_request_def consent_request_def
      request_ok_def decision_fits_def sample_decision_def sample_intent_def new_intent_def intent_ok_def I_claimed_def
      sample_input_def)


theorem dispatch_needs_consent_witness:
  "\<exists>d' res. claimApprovedActionIntent (\<lambda>_. 0) sample_ids sample_claim approved_store = Inr (d', res) \<and>
     (\<exists>i \<in> set (actionIntents d'). ai_status i = I_executing \<and> consented d' i)"
proof -
  have "map_sum id (\<lambda>(d', res). map ai_status (actionIntents d'))
      (claimApprovedActionIntent (\<lambda>_. 0) sample_ids sample_claim approved_store) = Inr [I_executing]"
    by code_simp
  then obtain d' res where s: "claimApprovedActionIntent (\<lambda>_. 0) sample_ids sample_claim approved_store = Inr (d', res)"
    and st: "map ai_status (actionIntents d') = [I_executing]"
    by (cases "claimApprovedActionIntent (\<lambda>_. 0) sample_ids sample_claim approved_store") auto
  have run: "run_steps system_step [(60000, Some ''w1'')] approved_store d'"
    by (rule run_cons [of system_step, OF sys_intent run_nil])
       (use is_claim [OF s] in \<open>simp add: sample_claim_def\<close>)
  obtain i where i: "i \<in> set (actionIntents d')" "ai_status i = I_executing" using st by auto
  then have "ai_status i \<in> I_claimed" by (simp add: I_claimed_def)
  with dispatch_needs_consent [OF approved_store_inv run i(1)] i s show ?thesis by blast
qed


definition paused_on_consent :: db where
  "paused_on_consent = approved_store\<lparr>executions := [example_row\<lparr>ex_status := Paused, ex_leasedBy := None,
     ex_leaseExpiresAt := None\<rparr>], approvalRequests := [sample_request A_pending], approvalDecisions := [],
     subjectEnvironments := [\<lparr>se_workspaceId = ''ws'', se_environmentId = ''env'', se_externalSubjectId = ''s1''\<rparr>]\<rparr>"

theorem cancelled_consent_strands_witness:
  "\<exists>d' cs es. cancelNonExecutingActionIntents (\<lambda>_. 0) id id 60000 ''ws'' (Sc_connection ''cn'')
      (C_workspace_member ''u1'') 60000 paused_on_consent = Inr (d', cs, es) \<and>
     (\<forall>x \<in> set (executions paused_on_consent). \<forall>now' d''. approval_step now' None d' d'' \<longrightarrow> x \<in> set (executions d''))"
proof -
  let ?c = "cancelNonExecutingActionIntents (\<lambda>_. 0) id id 60000 ''ws'' (Sc_connection ''cn'')
      (C_workspace_member ''u1'') 60000 paused_on_consent"
  have "map_sum id (\<lambda>(d', cs, es). map ai_status cs) ?c = Inr [I_cancelled]" by code_simp
  then obtain d' cs es where s: "?c = Inr (d', cs, es)" "cs \<noteq> []" by (cases ?c) auto
  have "distinct (map wt_id (waitTimers paused_on_consent))" "distinct (map ar_id (approvalRequests paused_on_consent))"
    "\<forall>x \<in> set (executions paused_on_consent). ex_status x = Paused \<and> ex_id x \<notin> open_timers paused_on_consent"
    "\<forall>r \<in> set (approvalRequests paused_on_consent).
      \<exists>i \<in> set (actionIntents paused_on_consent). ai_workspaceId i = ''ws'' \<and>
        cancellationScopePredicate (Sc_connection ''cn'') i \<and> ai_approvalRequestId i = ar_id r"
    by (simp_all add: paused_on_consent_def approved_store_def empty_db_def open_timers_def sample_intent_def new_intent_def
        sample_input_def sample_request_def consent_request_def)
  then have "\<forall>x \<in> set (executions paused_on_consent). \<forall>now' d''. approval_step now' None d' d'' \<longrightarrow> x \<in> set (executions d'')"
    using cancelled_consent_strands [OF s] by meson
  with s(1) show ?thesis by (intro exI conjI)
qed

definition twin_intents :: db where
  "twin_intents = paused_on_consent\<lparr>
     actionIntents := [sample_intent\<lparr>ai_createdAt := 5000100\<rparr>,
       sample_intent\<lparr>ai_id := ''i0'', ai_createdAt := 5000900, ai_approvalRequestId := ''r0''\<rparr>],
     approvalRequests := [sample_request A_pending, (sample_request A_pending)\<lparr>ar_id := ''r0'', ar_nodeId := ''other''\<rparr>]\<rparr>"



end
