(* ===== verification/Connector_Credentials.thy ===== *)
theory Connector_Credentials
  imports Intent_Digest Connections Datetime
begin

text \<open>
  How the connector gateway talks to the outside, and the credentials it uses: programs that
  suspend at every transaction, every call of a provider operation and every HTTP request;
  \<^verbatim>\<open>bounded-response.ts\<close>, \<^verbatim>\<open>google-scopes.ts\<close>, \<^verbatim>\<open>google-endpoint.ts\<close>, \<^verbatim>\<open>google-credential-refresh.ts\<close> and
  \<^verbatim>\<open>github-installation-credential.ts\<close>.

  What those files take from the platform is collected in \<open>gateway_config\<close>: the hash, ciphers, the
  parsers of URLs, of JSON and of ISO dates, the signature of a token, the order of
  \<^verbatim>\<open>localeCompare\<close>, the environment variables.
\<close>

section \<open>Programs\<close>

datatype thrown =
    Gateway_error string string
  | Js_error string
  | Db_error db_error
  | Provider_error jsval
  | Invalid_grant_error

record connector_credential =
  cc_accountId :: string
  cc_accessToken :: string
  cc_expiresAt :: "string option"
  cc_installationId :: jsval
  cc_scopes :: "string list"

text \<open>
  A call of a method of an operation: its identifier, the arguments, the credential, and the
  idempotency key of the invocation.
\<close>

datatype provider_call =
    Execute string jsval jsval connector_credential string
  | Revalidate string jsval jsval connector_credential
  | Read_resource string jsval connector_credential

datatype http_request =
    Refresh_token string string string string
  | Installation_token string string "(string \<times> string) list"

text \<open>A response arrives in chunks of octets; reading it may fail after the last one.\<close>

record http_response =
  hr_ok :: bool
  hr_contentLength :: "string option"
  hr_chunks :: "string list"
  hr_failure :: "thrown option"

text \<open>What a program observes when it acts: the clock, its abort signal, generated identifiers.\<close>

record moment =
  mo_now :: timestamp
  mo_aborted :: bool
  mo_ids :: intent_ids
  mo_fact :: uuid

text \<open>\<open>Stuck\<close> stands for a program that neither acts nor returns any more.\<close>

datatype 'a program =
    Return 'a
  | Stuck
  | Throw thrown
  | Transact "moment \<Rightarrow> db \<Rightarrow> db" "moment \<Rightarrow> db \<Rightarrow> 'a program"
  | Call provider_call "thrown + jsval \<Rightarrow> 'a program"
  | Fetch http_request "thrown + http_response \<Rightarrow> 'a program"

primrec andThen :: "'a program \<Rightarrow> ('a \<Rightarrow> 'b program) \<Rightarrow> 'b program" where
  "andThen (Return v) k = k v"
| "andThen Stuck k = Stuck"
| "andThen (Throw e) k = Throw e"
| "andThen (Transact f g) k = Transact f (\<lambda>m d. andThen (g m d) k)"
| "andThen (Call c g) k = Call c (\<lambda>r. andThen (g r) k)"
| "andThen (Fetch q g) k = Fetch q (\<lambda>r. andThen (g r) k)"

text \<open>The outcome of a \<^verbatim>\<open>try\<close> block as a value.\<close>

primrec tried :: "'a program \<Rightarrow> (thrown + 'a) program" where
  "tried (Return v) = Return (Inr v)"
| "tried Stuck = Stuck"
| "tried (Throw e) = Return (Inl e)"
| "tried (Transact f g) = Transact f (\<lambda>m d. tried (g m d))"
| "tried (Call c g) = Call c (\<lambda>r. tried (g r))"
| "tried (Fetch q g) = Fetch q (\<lambda>r. tried (g r))"

definition of_result :: "thrown + 'a \<Rightarrow> 'a program" where
  "of_result r = (case r of Inl e \<Rightarrow> Throw e | Inr v \<Rightarrow> Return v)"

definition observe :: "(moment \<Rightarrow> 'a) \<Rightarrow> 'a program" where
  "observe f = Transact (\<lambda>_ d. d) (\<lambda>m _. Return (f m))"

definition lookup_db :: "(db \<Rightarrow> 'a) \<Rightarrow> 'a program" where
  "lookup_db f = Transact (\<lambda>_ d. d) (\<lambda>_ d. Return (f d))"

text \<open>A transaction that fails leaves the database as it was.\<close>

definition txn :: "(moment \<Rightarrow> db \<Rightarrow> db_error + (db \<times> 'a)) \<Rightarrow> 'a program" where
  "txn f = Transact (\<lambda>m d. case f m d of Inl _ \<Rightarrow> d | Inr (d', _) \<Rightarrow> d')
     (\<lambda>m d. case f m d of Inl e \<Rightarrow> Throw (Db_error e) | Inr (_, v) \<Rightarrow> Return v)"

record gateway_config =
  gc_octets :: "jsval \<Rightarrow> nat"
  gc_sha :: "string \<Rightarrow> string"
  gc_shown :: "rat \<Rightarrow> string"
  gc_decrypt :: "string \<Rightarrow> credential_context \<Rightarrow> jsval option"
  gc_encrypt :: "jsval \<Rightarrow> credential_context \<Rightarrow> string"
  gc_datetime :: "string \<Rightarrow> int option"
  gc_collate :: "string \<Rightarrow> string"
  gc_parse_json :: "string \<Rightarrow> jsval option"
  gc_parse_url :: "string \<Rightarrow> (string \<times> string) option"
  gc_jwt :: "string \<Rightarrow> string \<Rightarrow> int \<Rightarrow> string option"
  gc_clientId :: "string option"
  gc_clientSecret :: "string option"
  gc_tokenUrl :: "string option"

section \<open>Bounded responses\<close>

fun read_chunks :: "nat \<Rightarrow> nat \<Rightarrow> string list \<Rightarrow> thrown option \<Rightarrow> thrown + string list" where
  "read_chunks maximum received [] failure = (case failure of Some e \<Rightarrow> Inl e | None \<Rightarrow> Inr [])"
| "read_chunks maximum received (c # cs) failure =
    (if received + length c > maximum then Inl (Js_error ''Provider response exceeded limit'')
     else bindE (read_chunks maximum (received + length c) cs failure) (\<lambda>rest. Inr (c # rest)))"

definition declared_length :: "string option \<Rightarrow> nat option" where
  "declared_length v = (case v of None \<Rightarrow> None | Some s \<Rightarrow> if s = [] then None else nat_literal 10 s)"

definition readBoundedResponseText :: "nat \<Rightarrow> http_response \<Rightarrow> thrown + string" where
  "readBoundedResponseText maximum r =
    (if (case declared_length (hr_contentLength r) of None \<Rightarrow> False | Some n \<Rightarrow> n > maximum)
     then Inl (Js_error ''Provider response exceeded limit'')
     else bindE (read_chunks maximum 0 (hr_chunks r) (hr_failure r)) (\<lambda>cs. Inr (concat cs)))"

definition readBoundedJsonResponse :: "gateway_config \<Rightarrow> nat \<Rightarrow> http_response \<Rightarrow> thrown + jsval" where
  "readBoundedJsonResponse cfg maximum r = bindE (readBoundedResponseText maximum r) (\<lambda>t.
     case gc_parse_json cfg t of None \<Rightarrow> Inl (Js_error ''SyntaxError'') | Some v \<Rightarrow> Inr v)"

section \<open>Google\<close>

definition normalizeGoogleGrantedScopes :: "(string \<Rightarrow> string) \<Rightarrow> string \<Rightarrow> string list" where
  "normalizeGoogleGrantedScopes collate v = unique_sorted collate
     (map (\<lambda>s. if s = ''https://www.googleapis.com/auth/userinfo.email'' then ''email'' else s)
       (filter (\<lambda>s. s \<noteq> []) (split_on CHR '' '' v)))"

definition googleEndpointUrl :: "gateway_config \<Rightarrow> string \<Rightarrow> thrown + string" where
  "googleEndpointUrl cfg v = (case gc_parse_url cfg v of
       None \<Rightarrow> Inl (Js_error ''Invalid URL'')
     | Some (protocol, hostname) \<Rightarrow>
         if protocol \<noteq> ''https:'' \<and> \<not> (protocol = ''http:'' \<and> hostname \<in> {''localhost'', ''127.0.0.1'', ''[::1]''})
         then Inl (Js_error ''Google endpoint must use HTTPS'') else Inr v)"

record google_credential =
  gg_accountId :: string
  gg_accountLabel :: string
  gg_accessToken :: string
  gg_refreshToken :: string
  gg_expiresAt :: "string option"
  gg_grantedScopes :: "string list"

definition z_datetime_nullable :: "gateway_config \<Rightarrow> jsval \<Rightarrow> string option option" where
  "z_datetime_nullable cfg v = (case v of
       JNull \<Rightarrow> Some None
     | JStr s \<Rightarrow> if gc_datetime cfg s = None then None else Some (Some s)
     | _ \<Rightarrow> None)"

definition z_string_range :: "nat \<Rightarrow> nat \<Rightarrow> jsval \<Rightarrow> string option" where
  "z_string_range lo hi v = (case v of JStr s \<Rightarrow> if lo \<le> length s \<and> length s \<le> hi then Some s else None | _ \<Rightarrow> None)"

definition parseStoredGoogleCredential :: "gateway_config \<Rightarrow> jsval \<Rightarrow> google_credential option" where
  "parseStoredGoogleCredential cfg v = (case v of
       JObj ps \<Rightarrow>
         (case (z_string_min1 (own_prop ps ''accountId''), z_string_min1 (own_prop ps ''accountLabel''),
                z_string_min1 (own_prop ps ''accessToken''), z_string_min1 (own_prop ps ''refreshToken''),
                z_datetime_nullable cfg (own_prop ps ''expiresAt''), z_array z_string_min1 (own_prop ps ''grantedScopes'')) of
            (Some acc, Some lab, Some tok, Some ref, Some expiry, Some sc) \<Rightarrow>
              if sc = [] then None
              else Some \<lparr>gg_accountId = acc, gg_accountLabel = lab, gg_accessToken = tok, gg_refreshToken = ref,
                gg_expiresAt = expiry, gg_grantedScopes = sc\<rparr>
          | _ \<Rightarrow> None)
     | _ \<Rightarrow> None)"

definition google_json :: "google_credential \<Rightarrow> jsval" where
  "google_json c = JObj [(''accountId'', JStr (gg_accountId c)), (''accountLabel'', JStr (gg_accountLabel c)),
     (''accessToken'', JStr (gg_accessToken c)), (''refreshToken'', JStr (gg_refreshToken c)),
     (''expiresAt'', (case gg_expiresAt c of None \<Rightarrow> JNull | Some s \<Rightarrow> JStr s)),
     (''grantedScopes'', JArr (map JStr (gg_grantedScopes c)))]"

record refresh_response =
  rr_access_token :: string
  rr_refresh_token :: "string option"
  rr_expires_in :: int
  rr_scope :: "string option"

definition refreshResponseSchema :: "jsval \<Rightarrow> refresh_response option" where
  "refreshResponseSchema v = (case v of
       JObj ps \<Rightarrow>
         (case (z_string_range 1 8192 (own_prop ps ''access_token''),
                z_optional (z_string_range 1 8192) (own_prop ps ''refresh_token''),
                z_int (own_prop ps ''expires_in''),
                z_optional (z_string_range 1 10000) (own_prop ps ''scope'')) of
            (Some tok, Some ref, Some n, Some sc) \<Rightarrow>
              if 0 < n \<and> n \<le> 86400
              then Some \<lparr>rr_access_token = tok, rr_refresh_token = ref, rr_expires_in = n, rr_scope = sc\<rparr> else None
          | _ \<Rightarrow> None)
     | _ \<Rightarrow> None)"

definition invalid_grant :: "jsval \<Rightarrow> bool" where
  "invalid_grant v = (case v of JObj ps \<Rightarrow> own_prop ps ''error'' = JStr ''invalid_grant'' | _ \<Rightarrow> False)"

definition refreshed_credential :: "gateway_config \<Rightarrow> int \<Rightarrow> google_credential \<Rightarrow> refresh_response \<Rightarrow> google_credential" where
  "refreshed_credential cfg ms c t = c\<lparr>gg_accessToken := rr_access_token t,
     gg_refreshToken := (case rr_refresh_token t of None \<Rightarrow> gg_refreshToken c | Some r \<Rightarrow> r),
     gg_expiresAt := Some (toISOString (ms + rr_expires_in t * 1000)),
     gg_grantedScopes := (case rr_scope t of None \<Rightarrow> gg_grantedScopes c
       | Some s \<Rightarrow> normalizeGoogleGrantedScopes (gc_collate cfg) s)\<rparr>"

definition refresh_answer :: "gateway_config \<Rightarrow> google_credential \<Rightarrow> http_response \<Rightarrow> google_credential program" where
  "refresh_answer cfg c r = (case readBoundedJsonResponse cfg 64000 r of
       Inl _ \<Rightarrow> Throw (Js_error ''Google refresh response failed'')
     | Inr v \<Rightarrow>
         if \<not> hr_ok r
         then Throw (if invalid_grant v then Invalid_grant_error else Js_error ''Google credential refresh failed'')
         else (case refreshResponseSchema v of
             None \<Rightarrow> Throw (Js_error ''ZodError'')
           | Some t \<Rightarrow> observe (\<lambda>m. refreshed_credential cfg (mo_now m div 1000) c t)))"

definition refreshGoogleCredential :: "gateway_config \<Rightarrow> google_credential \<Rightarrow> google_credential program" where
  "refreshGoogleCredential cfg c = (case (truthy_string (gc_clientId cfg), truthy_string (gc_clientSecret cfg)) of
       (Some cid, Some secret) \<Rightarrow>
         andThen (of_result (googleEndpointUrl cfg
             (case gc_tokenUrl cfg of None \<Rightarrow> ''https://oauth2.googleapis.com/token'' | Some u \<Rightarrow> u))) (\<lambda>url.
           Fetch (Refresh_token url cid secret (gg_refreshToken c)) (\<lambda>rep. case rep of
               Inl e \<Rightarrow> Throw e
             | Inr r \<Rightarrow> refresh_answer cfg c r))
     | _ \<Rightarrow> Throw (Js_error ''Google Connector credential refresh is unavailable''))"

definition connectorCredential :: "google_credential \<Rightarrow> string list \<Rightarrow> connector_credential" where
  "connectorCredential c scopes = \<lparr>cc_accountId = gg_accountId c, cc_accessToken = gg_accessToken c,
     cc_expiresAt = gg_expiresAt c, cc_installationId = JUndef, cc_scopes = scopes\<rparr>"

section \<open>GitHub installations\<close>

record installation_credential =
  gh_appClientId :: string
  gh_privateKey :: string
  gh_installationId :: int
  gh_accountId :: string
  gh_accountLabel :: string
  gh_permissions :: "(string \<times> string) list"

definition permissionsSchema :: "jsval \<Rightarrow> (string \<times> string) list option" where
  "permissionsSchema v = (case v of
       JObj ps \<Rightarrow> those (map (\<lambda>(k, v). map_option (Pair k) (z_enum [''read'', ''write''] v)) ps)
     | _ \<Rightarrow> None)"

definition githubInstallationCredentialSchema :: "jsval \<Rightarrow> installation_credential option" where
  "githubInstallationCredentialSchema v = Option.bind (z_strict
       [''kind'', ''appClientId'', ''privateKey'', ''installationId'', ''accountId'', ''accountLabel'', ''permissions''] v)
     (\<lambda>v. case v of
        JObj ps \<Rightarrow>
          (case (own_prop ps ''kind'', z_string_range 1 64 (own_prop ps ''appClientId''),
                 z_string_range 1 20000 (own_prop ps ''privateKey''), z_int (own_prop ps ''installationId''),
                 z_string_min1 (own_prop ps ''accountId''), z_string_min1 (own_prop ps ''accountLabel''),
                 permissionsSchema (own_prop ps ''permissions'')) of
             (JStr kind, Some app, Some key, Some n, Some acc, Some lab, Some per) \<Rightarrow>
               if kind = ''github_app_installation'' \<and> 0 < n \<and> n \<le> max_safe_int
               then Some \<lparr>gh_appClientId = app, gh_privateKey = key, gh_installationId = n, gh_accountId = acc,
                 gh_accountLabel = lab, gh_permissions = per\<rparr> else None
           | _ \<Rightarrow> None)
      | _ \<Rightarrow> None)"

definition githubInstallationScopes :: "(string \<Rightarrow> string) \<Rightarrow> (string \<times> string) list \<Rightarrow> string list" where
  "githubInstallationScopes collate ps = sort_key collate (concat (map (\<lambda>(name, level).
     if level = ''write'' then [name @ '':read'', name @ '':write''] else [name @ '':read'']) ps))"

definition grants_permissions :: "(string \<times> string) list \<Rightarrow> (string \<times> string) list \<Rightarrow> bool" where
  "grants_permissions granted wanted \<longleftrightarrow> list_all (\<lambda>(name, level).
     map_of granted name = Some ''write'' \<or> map_of granted name = Some level) wanted"

definition github_failed :: thrown where
  "github_failed = Js_error ''GitHub provider request failed''"

definition installationJwt :: "gateway_config \<Rightarrow> string \<Rightarrow> string \<Rightarrow> string program" where
  "installationJwt cfg app key = andThen (observe (\<lambda>m. gc_jwt cfg app key (mo_now m div 1000000))) (\<lambda>res.
     case res of None \<Rightarrow> Throw (Js_error ''GitHub App requires an RSA private key'') | Some t \<Rightarrow> Return t)"

definition installation_token :: "gateway_config \<Rightarrow> jsval \<Rightarrow> (string \<times> string \<times> (string \<times> string) list) option" where
  "installation_token cfg v = (case v of
       JObj ps \<Rightarrow>
         (case (z_string_min1 (own_prop ps ''token''), z_string (own_prop ps ''expires_at''),
                permissionsSchema (own_prop ps ''permissions'')) of
            (Some tok, Some expiry, Some per) \<Rightarrow> if gc_datetime cfg expiry = None then None else Some (tok, expiry, per)
          | _ \<Rightarrow> None)
     | _ \<Rightarrow> None)"

definition token_answer :: "gateway_config \<Rightarrow> installation_credential \<Rightarrow> http_response \<Rightarrow> connector_credential program" where
  "token_answer cfg c r =
    (if \<not> hr_ok r then Throw github_failed
     else andThen (of_result (readBoundedJsonResponse cfg (1024 * 1024) r)) (\<lambda>v.
       case installation_token cfg v of
         None \<Rightarrow> Throw (Js_error ''ZodError'')
       | Some (tok, expiry, per) \<Rightarrow>
           andThen (observe (\<lambda>m. mo_now m div 1000)) (\<lambda>ms.
             if the (gc_datetime cfg expiry) \<le> ms \<or> \<not> grants_permissions per (gh_permissions c)
             then Throw github_failed
             else Return \<lparr>cc_accountId = gh_accountId c, cc_accessToken = tok, cc_expiresAt = Some expiry,
               cc_installationId = JInt (gh_installationId c),
               cc_scopes = githubInstallationScopes (gc_collate cfg) (gh_permissions c)\<rparr>)))"

definition resolveGithubInstallationCredential ::
  "gateway_config \<Rightarrow> installation_credential \<Rightarrow> connector_credential program" where
  "resolveGithubInstallationCredential cfg c =
    andThen (installationJwt cfg (gh_appClientId c) (gh_privateKey c)) (\<lambda>jwt.
      Fetch (Installation_token (''/app/installations/'' @ nat_str (nat (gh_installationId c)) @ ''/access_tokens'') jwt
          (gh_permissions c)) (\<lambda>rep. case rep of
          Inl e \<Rightarrow> Throw e
        | Inr r \<Rightarrow> token_answer cfg c r))"

end
