(* ===== verification/Connector_Gateway.thy ===== *)
theory Connector_Gateway
  imports Connector_Credentials
begin

text \<open>
  The connector gateway, \<^verbatim>\<open>packages/connectors/src/connector-gateway.ts\<close>, with the operations it runs
  (\<^verbatim>\<open>connector-read-operation.ts\<close>, \<^verbatim>\<open>connector-side-effect-operation.ts\<close>): every method is a program that
  suspends at each transaction of the repositories and each call of a provider. An operation is
  the record of its schemas and pure methods; its asynchronous methods are calls.
\<close>

section \<open>Operations\<close>

record read_operation =
  ro_id :: string
  ro_provider :: string
  ro_actionFamily :: string
  ro_requiredScopes :: "string list"
  ro_installationPermissions :: "(string \<times> string) list option"
  ro_providerErrorMessage :: string
  ro_inputSchema :: "jsval \<Rightarrow> jsval option"
  ro_outputSchema :: "jsval \<Rightarrow> jsval option"

datatype retry_safety = Provider_idempotency | No_retry

record normalized_side_effect =
  ns_target :: jsval
  ns_parameters :: jsval
  ns_providerPreconditions :: jsval

text \<open>A schema or method that throws gives no value.\<close>

record side_effect_operation =
  so_id :: string
  so_revision :: string
  so_provider :: string
  so_actionFamily :: string
  so_requiredScopes :: "string list"
  so_installationPermissions :: "(string \<times> string) list option"
  so_inputSchema :: "jsval \<Rightarrow> jsval option"
  so_parametersSchema :: "jsval \<Rightarrow> jsval option"
  so_preconditionsSchema :: "jsval \<Rightarrow> jsval option"
  so_resultSchema :: "jsval \<Rightarrow> jsval option"
  so_providerErrorSchema :: "connector_error \<Rightarrow> connector_error option"
  so_retrySafety :: retry_safety
  so_normalize :: "jsval \<Rightarrow> normalized_side_effect option"
  so_display :: "intent_envelope \<Rightarrow> jsval option"
  so_normalizeProviderError :: "thrown \<Rightarrow> connector_error"

datatype connector_operation = Read_operation read_operation | Side_effect_operation side_effect_operation

type_synonym registry = "string \<Rightarrow> connector_operation option"

definition registeredReadOperation :: "registry \<Rightarrow> string \<Rightarrow> read_operation option" where
  "registeredReadOperation reg oid = (case reg oid of
       Some (Read_operation r) \<Rightarrow> if ro_providerErrorMessage r \<noteq> [] \<and> ro_id r = oid then Some r else None
     | _ \<Rightarrow> None)"

definition registeredSideEffectOperation :: "registry \<Rightarrow> string \<Rightarrow> side_effect_operation option" where
  "registeredSideEffectOperation reg oid = (case reg oid of
       Some (Side_effect_operation s) \<Rightarrow> if so_id s = oid then Some s else None
     | _ \<Rightarrow> None)"

definition requiredConnectionScopes ::
  "string list \<Rightarrow> (string \<times> string) list option \<Rightarrow> authorization_kind \<Rightarrow> thrown + string list" where
  "requiredConnectionScopes scopes permissions kind = (case kind of
       Delegated_user \<Rightarrow> Inr scopes
     | Github_app_installation \<Rightarrow>
         (case permissions of
            None \<Rightarrow> Inl (Js_error ''Operation does not support GitHub installation authority'')
          | Some ps \<Rightarrow> Inr (map (\<lambda>(name, level). name @ '':'' @ level) ps)))"

definition read_scopes :: "read_operation \<Rightarrow> authorization_kind \<Rightarrow> thrown + string list" where
  "read_scopes r = requiredConnectionScopes (ro_requiredScopes r) (ro_installationPermissions r)"

definition side_effect_scopes :: "side_effect_operation \<Rightarrow> authorization_kind \<Rightarrow> thrown + string list" where
  "side_effect_scopes s = requiredConnectionScopes (so_requiredScopes s) (so_installationPermissions s)"

record gateway_input =
  gi_executionId :: uuid
  gi_workspaceId :: uuid
  gi_nodeId :: string
  gi_connectionId :: uuid
  gi_operationId :: string
  gi_operationInput :: jsval
  gi_invocationIdempotencyKey :: string
  gi_executionClaimId :: string

datatype gateway_result =
    Completed jsval
  | Awaiting_consent uuid
  | Rejected_action uuid decision_reason

definition gateway_rejected :: thrown where
  "gateway_rejected = Gateway_error ''Connector operation rejected'' ''connector_rejected''"

section \<open>Credentials\<close>

record stored_credential =
  sc_accountId :: string
  sc_accessToken :: string
  sc_expiresAt :: "string option"
  sc_installationId :: jsval

text \<open>The schema passes other members through, among them an \<^verbatim>\<open>installationId\<close>.\<close>

definition storedCredentialSchema :: "gateway_config \<Rightarrow> jsval \<Rightarrow> stored_credential option" where
  "storedCredentialSchema cfg v = (case v of
       JObj ps \<Rightarrow>
         (case (z_string_min1 (own_prop ps ''accountId''), z_string_min1 (own_prop ps ''accessToken''),
                z_datetime_nullable cfg (own_prop ps ''expiresAt'')) of
            (Some acc, Some tok, Some expiry) \<Rightarrow> Some \<lparr>sc_accountId = acc, sc_accessToken = tok, sc_expiresAt = expiry,
               sc_installationId = own_prop ps ''installationId''\<rparr>
          | _ \<Rightarrow> None)
     | _ \<Rightarrow> None)"

definition gateway_errors_only :: "'a program \<Rightarrow> 'a program" where
  "gateway_errors_only p = andThen (tried p) (\<lambda>r. case r of
       Inr v \<Rightarrow> Return v
     | Inl (Gateway_error msg code) \<Rightarrow> Throw (Gateway_error msg code)
     | Inl _ \<Rightarrow> Throw gateway_rejected)"

definition requireReauthorization :: "connection_owner \<Rightarrow> connection_row \<Rightarrow> connection_row option program" where
  "requireReauthorization o' c = txn (\<lambda>m. requireConnectionReauthorization (mo_fact m) o' (cn_id c) (cn_credentialVersion c) (mo_now m))"

definition refreshGoogleConnection ::
  "gateway_config \<Rightarrow> (connection_row \<Rightarrow> connector_credential program) \<Rightarrow> connection_row \<Rightarrow> uuid \<Rightarrow> credential_context \<Rightarrow>
     google_credential \<Rightarrow> connector_credential program" where
  "refreshGoogleConnection cfg resolve c s context credential =
    (let o' = \<lparr>co_workspaceId = cn_workspaceId c, co_environmentId = cn_environmentId c, co_externalSubjectId = s\<rparr> in
     andThen (tried (refreshGoogleCredential cfg credential)) (\<lambda>res. case res of
         Inl e \<Rightarrow>
           if e = Invalid_grant_error then andThen (requireReauthorization o' c) (\<lambda>_. Throw gateway_rejected)
           else Throw gateway_rejected
       | Inr g \<Rightarrow> gateway_errors_only (
           if list_ex (\<lambda>sc. sc \<notin> set (gg_grantedScopes g)) (cn_scopes c)
           then andThen (requireReauthorization o' c) (\<lambda>_. Throw gateway_rejected)
           else andThen (txn (\<lambda>m. rotateConnectionCredential (mo_fact m) o' (cn_id c) (cn_credentialVersion c)
                 (gc_encrypt cfg (google_json g) context) (mo_now m))) (\<lambda>rotated. case rotated of
               Some _ \<Rightarrow> Return (connectorCredential g (cn_scopes c))
             | None \<Rightarrow>
                 andThen (lookup_db (getConnection o' (cn_id c))) (\<lambda>latest. case latest of
                     None \<Rightarrow> Throw gateway_rejected
                   | Some l \<Rightarrow> if cn_status l \<noteq> ''active'' then Throw gateway_rejected else resolve l)))))"

text \<open>
  When another worker rotates the credential at the same time the source starts over with the
  row it finds. The number is how often that may happen before the program counts as stuck.

  The promise of \<^verbatim>\<open>resolveGithubInstallationCredential\<close> is returned and not awaited in the \<^verbatim>\<open>try\<close> block,
  so its errors are not turned into gateway errors.
\<close>

primrec resolveCredential :: "gateway_config \<Rightarrow> nat \<Rightarrow> connection_row \<Rightarrow> connector_credential program" where
  "resolveCredential cfg 0 c = Stuck"
| "resolveCredential cfg (Suc n) c = (case truthy_string (cn_credentialEncrypted c) of
       None \<Rightarrow> Throw gateway_rejected
     | Some secret \<Rightarrow>
         let context = \<lparr>cx_workspaceId = cn_workspaceId c, cx_environmentId = cn_environmentId c,
           cx_externalSubjectId = cn_externalSubjectId c, cx_recordId = cn_id c, cx_provider = cn_provider c\<rparr>
         in (case gc_decrypt cfg secret context of
            None \<Rightarrow> Throw gateway_rejected
          | Some parsed \<Rightarrow>
              if cn_authorizationKind c = Github_app_installation
              then (case githubInstallationCredentialSchema parsed of
                  None \<Rightarrow> Throw gateway_rejected
                | Some g \<Rightarrow> resolveGithubInstallationCredential cfg g)
              else (case storedCredentialSchema cfg parsed of
                  None \<Rightarrow> Throw gateway_rejected
                | Some credential \<Rightarrow>
                    andThen (observe (\<lambda>m. mo_now m div 1000 + (if cn_provider c = ''google'' then 60000 else 0))) (\<lambda>limit.
                      if (case truthy_string (sc_expiresAt credential) of None \<Rightarrow> True
                          | Some t \<Rightarrow> the (gc_datetime cfg t) > limit)
                      then Return \<lparr>cc_accountId = sc_accountId credential, cc_accessToken = sc_accessToken credential,
                        cc_expiresAt = sc_expiresAt credential, cc_installationId = sc_installationId credential,
                        cc_scopes = cn_scopes c\<rparr>
                      else (case cn_externalSubjectId c of
                          None \<Rightarrow> Throw gateway_rejected
                        | Some s \<Rightarrow>
                            if cn_provider c \<noteq> ''google'' then Throw gateway_rejected
                            else (case parseStoredGoogleCredential cfg parsed of
                                None \<Rightarrow> Throw gateway_rejected
                              | Some g \<Rightarrow> refreshGoogleConnection cfg (resolveCredential cfg n) c s context g))))))"

section \<open>Reading\<close>

definition read_use_row ::
  "gateway_input \<Rightarrow> read_authority \<Rightarrow> string \<Rightarrow> string \<Rightarrow> moment \<Rightarrow> read_use" where
  "read_use_row inp au oid outcome m = \<lparr>ru_id = mo_fact m, ru_workspaceId = cn_workspaceId (ra_connection au),
     ru_environmentId = cn_environmentId (ra_connection au), ru_externalSubjectId = ra_externalSubjectId au,
     ru_connectionId = cn_id (ra_connection au), ru_executionId = gi_executionId inp, ru_operationId = oid,
     ru_outcome = outcome, ru_occurredAt = mo_now m\<rparr>"

definition readAuthority :: "gateway_input \<Rightarrow> read_authority option program" where
  "readAuthority inp = lookup_db (getConnectorReadAuthority (gi_executionId inp) (gi_workspaceId inp) (gi_connectionId inp))"

definition check_read_authority :: "read_operation \<Rightarrow> read_authority \<Rightarrow> thrown + unit" where
  "check_read_authority r au = (let c = ra_connection au; p = ra_providerPolicy au in
     bindE (throw_if (cn_status c = ''reauthorization_required'')
       (Gateway_error ''Connection requires reauthorization'' ''connection_reauthorization_required'')) (\<lambda>_.
     bindE (throw_if (cn_status c \<noteq> ''active'') gateway_rejected) (\<lambda>_.
     bindE (throw_if (cn_provider c \<noteq> ro_provider r \<or> ro_actionFamily r \<notin> set (pp_actionFamilies p)) gateway_rejected) (\<lambda>_.
     bindE (read_scopes r (cn_authorizationKind c)) (\<lambda>scopes.
     bindE (throw_if (\<not> set scopes \<subseteq> set (pp_maxScopes p)) gateway_rejected) (\<lambda>_.
     throw_if (\<not> set scopes \<subseteq> set (cn_scopes c))
       (Gateway_error ''Connection needs additional scopes'' ''connection_scope_insufficient'')))))))"

definition check_shared_authority :: "read_operation \<Rightarrow> connection_row \<Rightarrow> read_authority option \<Rightarrow> thrown + unit" where
  "check_shared_authority r c current =
     bindE (read_scopes r (cn_authorizationKind c)) (\<lambda>scopes. case current of
         None \<Rightarrow> Inl gateway_rejected
       | Some au \<Rightarrow> throw_if (cn_status (ra_connection au) \<noteq> ''active'' \<or>
           cn_credentialVersion (ra_connection au) \<noteq> cn_credentialVersion c \<or>
           ro_actionFamily r \<notin> set (pp_actionFamilies (ra_providerPolicy au)) \<or>
           \<not> set scopes \<subseteq> set (cn_scopes (ra_connection au)) \<inter> set (pp_maxScopes (ra_providerPolicy au))) gateway_rejected)"

definition call_read :: "read_operation \<Rightarrow> jsval \<Rightarrow> connector_credential \<Rightarrow> jsval program" where
  "call_read r v credential = Call (Read_resource (ro_id r) v credential) (\<lambda>rep. case rep of
       Inl e \<Rightarrow> Throw e
     | Inr out \<Rightarrow> (case ro_outputSchema r out of None \<Rightarrow> Throw (Js_error ''ZodError'') | Some w \<Rightarrow> Return w))"

definition perform_read ::
  "read_operation \<Rightarrow> gateway_input \<Rightarrow> read_authority \<Rightarrow> connector_credential \<Rightarrow> jsval program" where
  "perform_read r inp au credential = (case ro_inputSchema r (gi_operationInput inp) of
       None \<Rightarrow> Throw (Gateway_error ''Connector input is invalid'' ''connector_rejected'')
     | Some v \<Rightarrow>
         andThen (tried (call_read r v credential)) (\<lambda>res. case res of
             Inl _ \<Rightarrow> andThen (txn (\<lambda>m. recordConnectionReadUse (read_use_row inp au (ro_id r) ''failed'' m))) (\<lambda>_.
               Throw (Gateway_error (ro_providerErrorMessage r) ''connector_rejected''))
           | Inr out \<Rightarrow> andThen (txn (\<lambda>m. recordConnectionReadUse (read_use_row inp au (ro_id r) ''succeeded'' m))) (\<lambda>_.
               Return out)))"

definition executeRead :: "gateway_config \<Rightarrow> nat \<Rightarrow> registry \<Rightarrow> gateway_input \<Rightarrow> jsval program" where
  "executeRead cfg n reg inp = (case registeredReadOperation reg (gi_operationId inp) of
       None \<Rightarrow> Throw gateway_rejected
     | Some r \<Rightarrow>
         andThen (readAuthority inp) (\<lambda>au. case au of
             None \<Rightarrow> Throw gateway_rejected
           | Some au \<Rightarrow>
               andThen (of_result (check_read_authority r au)) (\<lambda>_.
               andThen (resolveCredential cfg n (ra_connection au)) (\<lambda>credential.
                 if cc_accountId credential \<noteq> cn_providerAccountId (ra_connection au) then Throw gateway_rejected
                 else if cn_ownership (ra_connection au) = Environment_owned
                 then andThen (readAuthority inp) (\<lambda>current.
                      andThen (of_result (check_shared_authority r (ra_connection au) current)) (\<lambda>_.
                        perform_read r inp au credential))
                 else perform_read r inp au credential))))"

section \<open>Side effects\<close>

definition retryProviderRequest :: "side_effect_operation \<Rightarrow> bool \<Rightarrow> nat \<Rightarrow> nat \<Rightarrow> bool \<Rightarrow> bool" where
  "retryProviderRequest s outcomeUnknown attempt maximumAttempts stop \<longleftrightarrow>
     outcomeUnknown \<and> so_retrySafety s = Provider_idempotency \<and> attempt < maximumAttempts \<and> \<not> stop"

definition providerFailureStatus :: "string \<Rightarrow> bool \<Rightarrow> intent_status" where
  "providerFailureStatus code outcomeUnknown =
     (if outcomeUnknown then I_outcome_unknown else if code = ''precondition_failed'' then I_stale else I_failed)"

definition failSideEffect ::
  "gateway_config \<Rightarrow> action_intent \<Rightarrow> string \<Rightarrow> connector_error \<Rightarrow> intent_status \<Rightarrow> 'a program" where
  "failSideEffect cfg i who err status =
    andThen (txn (\<lambda>m. failActionIntent (gc_octets cfg) (mo_ids m) (ai_id i) who err status (mo_now m))) (\<lambda>failed.
      case failed of
        None \<Rightarrow> Throw (Js_error ''Action Intent failure was lost'')
      | Some _ \<Rightarrow> Throw (Gateway_error (ce_message err) (ce_code err)))"

definition requireCurrentProviderPreconditions ::
  "gateway_config \<Rightarrow> side_effect_operation \<Rightarrow> action_intent \<Rightarrow> jsval \<Rightarrow> jsval \<Rightarrow> connector_credential \<Rightarrow> string \<Rightarrow> unit program" where
  "requireCurrentProviderPreconditions cfg s i parameters preconditions credential who =
    Call (Revalidate (so_id s) parameters preconditions credential) (\<lambda>rep. case rep of
        Inl _ \<Rightarrow> failSideEffect cfg i who \<lparr>ce_code = ''provider_failed'',
          ce_message = ''Connector provider precondition check failed'', ce_outcomeUnknown = False\<rparr> I_failed
      | Inr v \<Rightarrow> if truthy v then Return ()
          else failSideEffect cfg i who \<lparr>ce_code = ''precondition_failed'',
            ce_message = ''Connector target changed before execution'', ce_outcomeUnknown = False\<rparr> I_stale)"

definition beginDispatch ::
  "gateway_config \<Rightarrow> side_effect_operation \<Rightarrow> action_intent \<Rightarrow> string \<Rightarrow> string list \<Rightarrow> action_intent option program" where
  "beginDispatch cfg s i who scopes = txn (\<lambda>m. beginActionIntentDispatch (gc_octets cfg) (mo_ids m)
     \<lparr>cl_actionIntentId = ai_id i, cl_executionClaimId = who, cl_provider = so_provider s,
      cl_actionFamily = so_actionFamily s, cl_requiredScopes = scopes, cl_now = mo_now m\<rparr>)"

definition call_execute ::
  "side_effect_operation \<Rightarrow> action_intent \<Rightarrow> jsval \<Rightarrow> jsval \<Rightarrow> connector_credential \<Rightarrow> (thrown + jsval \<Rightarrow> 'a program) \<Rightarrow> 'a program" where
  "call_execute s i parameters preconditions credential k =
    Call (Execute (so_id s) parameters preconditions credential (ai_invocationIdempotencyKey i)) (\<lambda>rep. k (case rep of
        Inl e \<Rightarrow> Inl e
      | Inr v \<Rightarrow> (case so_resultSchema s v of None \<Rightarrow> Inl (Js_error ''ZodError'') | Some w \<Rightarrow> Inr w)))"

definition completeDispatch :: "gateway_config \<Rightarrow> action_intent \<Rightarrow> string \<Rightarrow> jsval \<Rightarrow> jsval program" where
  "completeDispatch cfg i who result =
    andThen (txn (\<lambda>m. completeActionIntent (gc_octets cfg) (mo_ids m) (ai_id i) who result (mo_now m))) (\<lambda>completed.
      case completed of
        None \<Rightarrow> Throw (Js_error ''Action Intent completion was lost'')
      | Some _ \<Rightarrow> Return result)"

text \<open>The loop of \<^verbatim>\<open>invokeSideEffect\<close>, after \<open>attempt\<close> attempts.\<close>

function dispatch_loop ::
  "gateway_config \<Rightarrow> side_effect_operation \<Rightarrow> action_intent \<Rightarrow> string \<Rightarrow> jsval \<Rightarrow> jsval \<Rightarrow> connector_credential \<Rightarrow>
     nat \<Rightarrow> nat \<Rightarrow> jsval program" where
  "dispatch_loop cfg s i who parameters preconditions credential maximumAttempts attempt =
    andThen (of_result (side_effect_scopes s
        (if truthy (cc_installationId credential) then Github_app_installation else Delegated_user))) (\<lambda>scopes.
    andThen (beginDispatch cfg s i who scopes) (\<lambda>dispatch. case dispatch of
        None \<Rightarrow> Throw (Gateway_error ''Action Intent execution claim was lost'' ''execution_in_progress'')
      | Some _ \<Rightarrow>
          call_execute s i parameters preconditions credential (\<lambda>res. case res of
              Inr result \<Rightarrow> completeDispatch cfg i who result
            | Inl e \<Rightarrow>
                (case so_providerErrorSchema s (so_normalizeProviderError s e) of
                   None \<Rightarrow> Throw (Js_error ''ZodError'')
                 | Some err \<Rightarrow>
                     andThen (observe mo_aborted) (\<lambda>stop.
                       if retryProviderRequest s (ce_outcomeUnknown err) (attempt + 1) maximumAttempts stop
                       then dispatch_loop cfg s i who parameters preconditions credential maximumAttempts (attempt + 1)
                       else failSideEffect cfg i who err (providerFailureStatus (ce_code err) (ce_outcomeUnknown err)))))))"
  by pat_completeness auto

termination
  by (relation "measure (\<lambda>(_, _, _, _, _, _, _, maximumAttempts, attempt). maximumAttempts - attempt)")
     (auto simp: retryProviderRequest_def)

declare dispatch_loop.simps [simp del]

definition invokeSideEffect ::
  "gateway_config \<Rightarrow> side_effect_operation \<Rightarrow> action_intent \<Rightarrow> connector_credential \<Rightarrow> string \<Rightarrow> jsval program" where
  "invokeSideEffect cfg s i credential who =
    (case (so_parametersSchema s (ev_parameters (ai_canonicalEnvelope i)),
           so_preconditionsSchema s (ev_providerPreconditions (ai_canonicalEnvelope i))) of
       (Some parameters, Some preconditions) \<Rightarrow>
         andThen (if ai_dispatchStartedAt i = None
             then requireCurrentProviderPreconditions cfg s i parameters preconditions credential who else Return ()) (\<lambda>_.
           dispatch_loop cfg s i who parameters preconditions credential
             (if so_retrySafety s = Provider_idempotency then 2 else 1) 0)
     | _ \<Rightarrow> Throw (Js_error ''ZodError''))"

definition unreconciled :: connector_error where
  "unreconciled = \<lparr>ce_code = ''outcome_unknown'', ce_message = ''Connector provider outcome could not be reconciled'',
     ce_outcomeUnknown = True\<rparr>"

definition dispatchClaimedSideEffect ::
  "gateway_config \<Rightarrow> nat \<Rightarrow> side_effect_operation \<Rightarrow> gateway_input \<Rightarrow> bool \<Rightarrow> action_intent \<Rightarrow> connection_row \<Rightarrow> gateway_result program" where
  "dispatchClaimedSideEffect cfg n s inp recovered i c =
    andThen (if recovered \<and> ai_dispatchStartedAt i \<noteq> None \<and> so_retrySafety s = No_retry
        then failSideEffect cfg i (gi_executionClaimId inp) unreconciled I_outcome_unknown else Return ()) (\<lambda>_.
    andThen (tried (resolveCredential cfg n c)) (\<lambda>res. case res of
        Inl _ \<Rightarrow>
          if ai_dispatchStartedAt i \<noteq> None
          then failSideEffect cfg i (gi_executionClaimId inp) unreconciled I_outcome_unknown
          else failSideEffect cfg i (gi_executionClaimId inp) \<lparr>ce_code = ''provider_failed'',
            ce_message = ''Connector credential became unavailable'', ce_outcomeUnknown = False\<rparr> I_failed
      | Inr credential \<Rightarrow>
          if ai_status i \<noteq> I_executing then Throw (Gateway_error ''Action Intent is not executable'' ''connector_rejected'')
          else andThen (invokeSideEffect cfg s i credential (gi_executionClaimId inp)) (\<lambda>v. Return (Completed v))))"

type_synonym consent = "action_intent \<times> approval_request \<times> approval_decision option"

definition resolveTerminalActionIntent :: "action_intent \<Rightarrow> approval_decision option \<Rightarrow> gateway_result program" where
  "resolveTerminalActionIntent i dec =
    (if ai_status i = I_succeeded
     then Return (Completed (case ai_normalizedResult i of None \<Rightarrow> JNull | Some v \<Rightarrow> v))
     else if ai_status i = I_rejected
     then (case dec of
         None \<Rightarrow> Throw (Js_error ''Action Intent Approval Request has no Decision'')
       | Some v \<Rightarrow> Return (Rejected_action (ai_id i) (ad_reason v)))
     else if ai_status i \<in> {I_failed, I_stale, I_outcome_unknown}
     then (case ai_normalizedError i of
         None \<Rightarrow> Throw (Js_error ''Terminal Action Intent is missing its error'')
       | Some e \<Rightarrow> Throw (Gateway_error (ce_message e) (ce_code e)))
     else Throw (Gateway_error ''Action Intent is not executable'' ''connector_rejected''))"

definition resolveActionIntentClaim ::
  "gateway_config \<Rightarrow> nat \<Rightarrow> side_effect_operation \<Rightarrow> gateway_input \<Rightarrow> approval_decision option \<Rightarrow> claim_result \<Rightarrow> gateway_result program" where
  "resolveActionIntentClaim cfg n s inp dec claimed = (case claimed of
       Cl_cancelled _ \<Rightarrow> Throw (Gateway_error ''Action Intent was cancelled'' ''cancelled'')
     | Cl_in_progress _ \<Rightarrow> Throw (Gateway_error ''Action Intent execution is already in progress'' ''execution_in_progress'')
     | Cl_not_ready _ \<Rightarrow> Throw (Gateway_error ''Action Intent is not executable'' ''connector_rejected'')
     | Cl_terminal i \<Rightarrow> resolveTerminalActionIntent i dec
     | Cl_claimed i c \<Rightarrow> dispatchClaimedSideEffect cfg n s inp False i c
     | Cl_recovered i c \<Rightarrow> dispatchClaimedSideEffect cfg n s inp True i c)"

definition intent_kind :: "action_intent \<Rightarrow> authorization_kind" where
  "intent_kind i = (case truthy_string (ai_connectionAccessGrantId i) of None \<Rightarrow> Delegated_user | Some _ \<Rightarrow> Github_app_installation)"

definition executeApprovedSideEffect ::
  "gateway_config \<Rightarrow> nat \<Rightarrow> side_effect_operation \<Rightarrow> gateway_input \<Rightarrow> consent \<Rightarrow> gateway_result program" where
  "executeApprovedSideEffect cfg n s inp consent = (case consent of (i, _, dec) \<Rightarrow>
    andThen (of_result (side_effect_scopes s (intent_kind i))) (\<lambda>scopes.
    andThen (txn (\<lambda>m. claimApprovedActionIntent (gc_octets cfg) (mo_ids m)
        \<lparr>cl_actionIntentId = ai_id i, cl_executionClaimId = gi_executionClaimId inp, cl_provider = so_provider s,
         cl_actionFamily = so_actionFamily s, cl_requiredScopes = scopes, cl_now = mo_now m\<rparr>)) (\<lambda>claimed.
      case claimed of
        None \<Rightarrow> Throw (Js_error ''Action Intent was not claimable'')
      | Some v \<Rightarrow> resolveActionIntentClaim cfg n s inp dec v)))"

definition verifyConsentDigest :: "gateway_config \<Rightarrow> side_effect_operation \<Rightarrow> action_intent \<Rightarrow> approval_request \<Rightarrow> thrown + unit" where
  "verifyConsentDigest cfg s i r =
    (case digestActionIntent (gc_sha cfg) (gc_shown cfg) (envelope_json (ai_canonicalEnvelope i)) of
       None \<Rightarrow>
         if ai_operationRevision i \<noteq> so_revision s \<or> ai_digestVersion i \<noteq> ACTION_INTENT_DIGEST_VERSION
         then Inl (Gateway_error ''Action Intent digest verification failed'' ''digest_mismatch'')
         else Inl (Js_error ''Value is not canonical JSON'')
     | Some digest \<Rightarrow> throw_if (ai_operationRevision i \<noteq> so_revision s \<or> ai_digestVersion i \<noteq> ACTION_INTENT_DIGEST_VERSION \<or>
         digest \<noteq> ai_canonicalDigest i \<or> ar_actionIntentDigest r \<noteq> Some (ai_canonicalDigest i))
         (Gateway_error ''Action Intent digest verification failed'' ''digest_mismatch''))"

definition resolveSideEffectConsent ::
  "gateway_config \<Rightarrow> nat \<Rightarrow> side_effect_operation \<Rightarrow> gateway_input \<Rightarrow> consent \<Rightarrow> gateway_result program" where
  "resolveSideEffectConsent cfg n s inp consent = (case consent of (i, r, dec) \<Rightarrow>
    if ar_status r = A_pending then Return (Awaiting_consent (ai_id i))
    else if ar_status r = A_cancelled then Throw (Gateway_error ''Action Intent was cancelled'' ''cancelled'')
    else (case dec of
        None \<Rightarrow> Throw (Js_error ''Action Intent Approval Request has no Decision'')
      | Some v \<Rightarrow>
          if ad_outcome v = D_rejected
          then andThen (txn (\<lambda>m. rejectActionIntent (gc_octets cfg) (mo_ids m) (mo_now m) (ai_id i))) (\<lambda>_.
            Return (Rejected_action (ai_id i) (ad_reason v)))
          else andThen (of_result (verifyConsentDigest cfg s i r)) (\<lambda>_.
            executeApprovedSideEffect cfg n s inp consent)))"

record prepared_side_effect =
  ps_normalized :: normalized_side_effect
  ps_envelope :: intent_envelope
  ps_canonicalDigest :: string
  ps_safeDisplay :: display

definition normalize_input :: "side_effect_operation \<Rightarrow> jsval \<Rightarrow> normalized_side_effect option" where
  "normalize_input s v =
     Option.bind (so_inputSchema s v) (\<lambda>w.
     Option.bind (so_normalize s w) (\<lambda>effect.
     Option.bind (so_parametersSchema s (ns_parameters effect)) (\<lambda>ps.
     Option.bind (so_preconditionsSchema s (ns_providerPreconditions effect)) (\<lambda>pre.
       Some (effect\<lparr>ns_parameters := ps, ns_providerPreconditions := pre\<rparr>)))))"

definition prepareSideEffect ::
  "gateway_config \<Rightarrow> side_effect_operation \<Rightarrow> gateway_input \<Rightarrow> thrown + prepared_side_effect" where
  "prepareSideEffect cfg s inp = (case normalize_input s (gi_operationInput inp) of
       None \<Rightarrow> Inl (Gateway_error ''Connector input is invalid'' ''validation_failed'')
     | Some effect \<Rightarrow>
         let e = \<lparr>ev_version = 1, ev_operationRevision = so_revision s, ev_connectionId = gi_connectionId inp,
               ev_connector = so_provider s, ev_operation = so_id s, ev_target = ns_target effect,
               ev_parameters = ns_parameters effect, ev_providerPreconditions = ns_providerPreconditions effect\<rparr>
         in (case (digestActionIntent (gc_sha cfg) (gc_shown cfg) (envelope_json e),
                   Option.bind (so_display s e) validateSafeDisplay) of
              (Some digest, Some display) \<Rightarrow> Inr \<lparr>ps_normalized = effect, ps_envelope = e, ps_canonicalDigest = digest,
                ps_safeDisplay = display\<rparr>
            | _ \<Rightarrow> Inl (Gateway_error ''Connector action is invalid'' ''validation_failed'')))"

definition consentFor :: "gateway_input \<Rightarrow> consent option program" where
  "consentFor inp = lookup_db (getActionIntentConsent (gi_workspaceId inp) (gi_executionId inp) (gi_nodeId inp)
     (gi_invocationIdempotencyKey inp))"

definition creation_input ::
  "side_effect_operation \<Rightarrow> gateway_input \<Rightarrow> prepared_side_effect \<Rightarrow> string list \<Rightarrow> timestamp \<Rightarrow> intent_input" where
  "creation_input s inp p scopes now = \<lparr>ni_workspaceId = gi_workspaceId inp, ni_executionId = gi_executionId inp,
     ni_nodeId = gi_nodeId inp, ni_connectionId = gi_connectionId inp, ni_connector = so_provider s,
     ni_actionFamily = so_actionFamily s, ni_requiredScopes = scopes, ni_operationId = so_id s,
     ni_operationRevision = so_revision s, ni_target = ns_target (ps_normalized p),
     ni_normalizedParameters = ns_parameters (ps_normalized p),
     ni_providerPreconditions = ns_providerPreconditions (ps_normalized p), ni_safeDisplay = ps_safeDisplay p,
     ni_digestVersion = ACTION_INTENT_DIGEST_VERSION, ni_canonicalDigest = ps_canonicalDigest p,
     ni_canonicalEnvelope = ps_envelope p, ni_invocationIdempotencyKey = gi_invocationIdempotencyKey inp,
     ni_expiresAt = (now div 1000 + 15 * 60000) * 1000\<rparr>"

definition creation_failure :: "create_intent_result \<Rightarrow> thrown + unit" where
  "creation_failure v = (case v of
       Cr_idempotency_conflict \<Rightarrow> Inl (Gateway_error ''Connector invocation idempotency conflict'' ''idempotency_conflict'')
     | Cr_authority_invalid \<Rightarrow> Inl gateway_rejected
     | Cr_reauthorization_required \<Rightarrow>
         Inl (Gateway_error ''Connection requires reauthorization'' ''connection_reauthorization_required'')
     | Cr_scope_insufficient \<Rightarrow>
         Inl (Gateway_error ''Connection needs additional scopes'' ''connection_scope_insufficient'')
     | _ \<Rightarrow> Inr ())"

definition requestConsent ::
  "gateway_config \<Rightarrow> nat \<Rightarrow> side_effect_operation \<Rightarrow> gateway_input \<Rightarrow> prepared_side_effect \<Rightarrow> authorization_kind \<Rightarrow>
     gateway_result program" where
  "requestConsent cfg n s inp p kind =
    andThen (of_result (side_effect_scopes s kind)) (\<lambda>scopes.
    andThen (txn (\<lambda>m. createActionIntent (gc_octets cfg) (mo_ids m) (mo_now m) (creation_input s inp p scopes (mo_now m)))) (\<lambda>created.
    andThen (of_result (creation_failure created)) (\<lambda>_.
    andThen (consentFor inp) (\<lambda>consent. case consent of
        None \<Rightarrow> Throw (Js_error ''Created Action Intent was not found'')
      | Some c \<Rightarrow> resolveSideEffectConsent cfg n s inp c))))"

definition executeSideEffect ::
  "gateway_config \<Rightarrow> nat \<Rightarrow> side_effect_operation \<Rightarrow> gateway_input \<Rightarrow> gateway_result program" where
  "executeSideEffect cfg n s inp =
    andThen (of_result (prepareSideEffect cfg s inp)) (\<lambda>p.
    andThen (consentFor inp) (\<lambda>existing. case existing of
        Some (i, r, dec) \<Rightarrow>
          if ai_canonicalDigest i \<noteq> ps_canonicalDigest p \<or> ai_connectionId i \<noteq> gi_connectionId inp
          then Throw (Gateway_error ''Connector invocation idempotency conflict'' ''idempotency_conflict'')
          else if ai_status i \<notin> {I_awaiting_consent, I_ready}
          then resolveSideEffectConsent cfg n s inp (i, r, dec)
          else requestConsent cfg n s inp p (intent_kind i)
      | None \<Rightarrow>
          andThen (readAuthority inp) (\<lambda>au. case au of
              None \<Rightarrow> Throw gateway_rejected
            | Some au \<Rightarrow> requestConsent cfg n s inp p (cn_authorizationKind (ra_connection au)))))"

definition execute :: "gateway_config \<Rightarrow> nat \<Rightarrow> registry \<Rightarrow> gateway_input \<Rightarrow> gateway_result program" where
  "execute cfg n reg inp = (case registeredReadOperation reg (gi_operationId inp) of
       Some _ \<Rightarrow> andThen (executeRead cfg n reg inp) (\<lambda>v. Return (Completed v))
     | None \<Rightarrow>
         (case registeredSideEffectOperation reg (gi_operationId inp) of
            None \<Rightarrow> Throw gateway_rejected
          | Some s \<Rightarrow> executeSideEffect cfg n s inp))"

end
