(* ===== verification/Gateway_Logic.thy ===== *)
theory Gateway_Logic
  imports Intent_Protocol Connector_Gateway
begin

text \<open>
  A logic of gateway programs: the predicate \<open>behaves\<close> tracks, through all actions of an invocation,
  what it knows about its intent, and allows a call of a provider only after the dispatch was
  recorded. Every program of the gateway behaves. The second part says which transactions claim an
  intent and which start a dispatch.
\<close>

section \<open>What an invocation knows\<close>

text \<open>
  Nothing; that an intent exists; that it holds the intent and may start a dispatch; that the
  dispatch is recorded and may be sent.
\<close>

datatype phase = Idle | Seen action_intent | Fresh action_intent | Begun action_intent

definition digest_ok :: "gateway_config \<Rightarrow> action_intent \<Rightarrow> bool" where
  "digest_ok cfg i \<longleftrightarrow>
     digestActionIntent (gc_sha cfg) (gc_shown cfg) (envelope_json (ai_canonicalEnvelope i)) = Some (ai_canonicalDigest i)"

definition txn_db :: "(moment \<Rightarrow> db \<Rightarrow> db_error + (db \<times> 'a)) \<Rightarrow> moment \<Rightarrow> db \<Rightarrow> db" where
  "txn_db f m d = (case f m d of Inl _ \<Rightarrow> d | Inr (d', _) \<Rightarrow> d')"

definition txn_next :: "(moment \<Rightarrow> db \<Rightarrow> db_error + (db \<times> 'a)) \<Rightarrow> ('a \<Rightarrow> 'b program) \<Rightarrow> moment \<Rightarrow> db \<Rightarrow> 'b program" where
  "txn_next f k m d = (case f m d of Inl e \<Rightarrow> Throw (Db_error e) | Inr (_, v) \<Rightarrow> k v)"

text \<open>The transactions of an invocation that neither claim an intent nor start a dispatch.\<close>

definition settles :: "string \<Rightarrow> moment \<Rightarrow> db \<Rightarrow> db \<Rightarrow> bool" where
  "settles who m d d' \<longleftrightarrow> intent_frame d' = intent_frame d \<or>
     (\<exists>octets inp res. createActionIntent octets (mo_ids m) (mo_now m) inp d = Inr (d', res)) \<or>
     (\<exists>octets iid res. rejectActionIntent octets (mo_ids m) (mo_now m) iid d = Inr (d', res)) \<or>
     (\<exists>octets iid v res. completeActionIntent octets (mo_ids m) iid who v (mo_now m) d = Inr (d', res)) \<or>
     (\<exists>octets iid err status res. status \<in> {I_failed, I_stale, I_outcome_unknown} \<and>
        failActionIntent octets (mo_ids m) iid who err status (mo_now m) d = Inr (d', res))"

definition claim_txn ::
  "gateway_config \<Rightarrow> side_effect_operation \<Rightarrow> string \<Rightarrow> string list \<Rightarrow> uuid \<Rightarrow> moment \<Rightarrow> db \<Rightarrow> db_error + (db \<times> claim_result option)" where
  "claim_txn cfg s who scopes iid m = claimApprovedActionIntent (gc_octets cfg) (mo_ids m)
     \<lparr>cl_actionIntentId = iid, cl_executionClaimId = who, cl_provider = so_provider s,
      cl_actionFamily = so_actionFamily s, cl_requiredScopes = scopes, cl_now = mo_now m\<rparr>"

definition begin_txn ::
  "gateway_config \<Rightarrow> side_effect_operation \<Rightarrow> string \<Rightarrow> string list \<Rightarrow> uuid \<Rightarrow> moment \<Rightarrow> db \<Rightarrow> db_error + (db \<times> action_intent option)" where
  "begin_txn cfg s who scopes iid m = beginActionIntentDispatch (gc_octets cfg) (mo_ids m)
     \<lparr>cl_actionIntentId = iid, cl_executionClaimId = who, cl_provider = so_provider s,
      cl_actionFamily = so_actionFamily s, cl_requiredScopes = scopes, cl_now = mo_now m\<rparr>"

definition may_dispatch :: "side_effect_operation \<Rightarrow> action_intent \<Rightarrow> bool" where
  "may_dispatch s i \<longleftrightarrow> so_retrySafety s = Provider_idempotency \<or> ai_dispatchStartedAt i = None"

definition claimed_phase :: "side_effect_operation \<Rightarrow> claim_result option \<Rightarrow> phase" where
  "claimed_phase s v = (case v of
       Some (Cl_claimed i _) \<Rightarrow> Fresh i
     | Some (Cl_recovered i _) \<Rightarrow> if may_dispatch s i then Fresh i else Idle
     | _ \<Rightarrow> Idle)"

definition called_phase :: "side_effect_operation \<Rightarrow> action_intent \<Rightarrow> phase" where
  "called_phase s i = (if so_retrySafety s = Provider_idempotency then Fresh i else Idle)"

definition found_phase :: "consent option \<Rightarrow> phase" where
  "found_phase c = (case c of None \<Rightarrow> Idle | Some (i, _) \<Rightarrow> Seen i)"

definition is_execute :: "provider_call \<Rightarrow> bool" where
  "is_execute c = (case c of Execute _ _ _ _ _ \<Rightarrow> True | _ \<Rightarrow> False)"

text \<open>The logic: in a phase, a program only does what the phase allows.\<close>

inductive behaves ::
  "gateway_config \<Rightarrow> side_effect_operation option \<Rightarrow> gateway_input \<Rightarrow> phase \<Rightarrow> 'a program \<Rightarrow> bool"
  for cfg opt inp where
  b_return: "behaves cfg opt inp ph (Return v)"
| b_throw: "behaves cfg opt inp ph (Throw e)"
| b_stuck: "behaves cfg opt inp ph Stuck"
| b_weaken: "behaves cfg opt inp Idle p \<Longrightarrow> behaves cfg opt inp ph p"
| b_settle: "(\<And>m d. settles (gi_executionClaimId inp) m d (f m d)) \<Longrightarrow> (\<And>m d. behaves cfg opt inp ph (g m d)) \<Longrightarrow>
    behaves cfg opt inp ph (Transact f g)"
| b_find: "(\<And>m d. f m d = d) \<Longrightarrow>
    (\<And>m d. behaves cfg opt inp (found_phase (getActionIntentConsent (gi_workspaceId inp) (gi_executionId inp)
       (gi_nodeId inp) (gi_invocationIdempotencyKey inp) d)) (g m d)) \<Longrightarrow>
    behaves cfg opt inp ph (Transact f g)"
| b_claim: "opt = Some s \<Longrightarrow> digest_ok cfg i \<Longrightarrow> F = claim_txn cfg s (gi_executionClaimId inp) scopes (ai_id i) \<Longrightarrow>
    (\<And>v. behaves cfg opt inp (claimed_phase s v) (k v)) \<Longrightarrow>
    behaves cfg opt inp (Seen i) (Transact (txn_db F) (txn_next F k))"
| b_begin: "opt = Some s \<Longrightarrow> F = begin_txn cfg s (gi_executionClaimId inp) scopes (ai_id i) \<Longrightarrow>
    (\<And>v. behaves cfg opt inp (Begun i) (k (Some v))) \<Longrightarrow> behaves cfg opt inp Idle (k None) \<Longrightarrow>
    behaves cfg opt inp (Fresh i) (Transact (txn_db F) (txn_next F k))"
| b_execute: "opt = Some s \<Longrightarrow> so_parametersSchema s (ev_parameters (ai_canonicalEnvelope i)) = Some ps \<Longrightarrow>
    so_preconditionsSchema s (ev_providerPreconditions (ai_canonicalEnvelope i)) = Some pre \<Longrightarrow>
    (\<And>r. behaves cfg opt inp (called_phase s i) (g r)) \<Longrightarrow>
    behaves cfg opt inp (Begun i) (Call (Execute (so_id s) ps pre credential (ai_invocationIdempotencyKey i)) g)"
| b_call: "\<not> is_execute c \<Longrightarrow> (\<And>r. behaves cfg opt inp ph (g r)) \<Longrightarrow> behaves cfg opt inp ph (Call c g)"
| b_fetch: "(\<And>r. behaves cfg opt inp ph (g r)) \<Longrightarrow> behaves cfg opt inp ph (Fetch q g)"

text \<open>Programs that leave the intents alone, or only settle one, behave in every phase and keep it.\<close>

inductive quiet :: "string \<Rightarrow> 'a program \<Rightarrow> bool" for who where
  q_return: "quiet who (Return v)"
| q_throw: "quiet who (Throw e)"
| q_stuck: "quiet who Stuck"
| q_settle: "(\<And>m d. settles who m d (f m d)) \<Longrightarrow> (\<And>m d. quiet who (g m d)) \<Longrightarrow> quiet who (Transact f g)"
| q_call: "\<not> is_execute c \<Longrightarrow> (\<And>r. quiet who (g r)) \<Longrightarrow> quiet who (Call c g)"
| q_fetch: "(\<And>r. quiet who (g r)) \<Longrightarrow> quiet who (Fetch q g)"

lemma quiet_andThen: "quiet who p \<Longrightarrow> (\<And>v. quiet who (k v)) \<Longrightarrow> quiet who (andThen p k)"
  by (induction rule: quiet.induct) (auto intro: quiet.intros)

lemma quiet_tried: "quiet who p \<Longrightarrow> quiet who (tried p)"
  by (induction rule: quiet.induct) (auto intro: quiet.intros)

lemma behaves_quiet:
  "quiet (gi_executionClaimId inp) p \<Longrightarrow> (\<And>v. behaves cfg opt inp ph (k v)) \<Longrightarrow> behaves cfg opt inp ph (andThen p k)"
  by (induction rule: quiet.induct) (auto intro: behaves.intros)

lemma quiet_behaves: "quiet (gi_executionClaimId inp) p \<Longrightarrow> behaves cfg opt inp ph p"
  by (induction rule: quiet.induct) (auto intro: behaves.intros)

lemma andThen_txn: "andThen (txn f) k = Transact (txn_db f) (txn_next f k)"
proof -
  have "andThen (case f m d of Inl e \<Rightarrow> Throw (Db_error e) | Inr (_, v) \<Rightarrow> Return v) k = txn_next f k m d" for m d
    by (simp add: txn_next_def split: sum.splits prod.splits)
  moreover have "(\<lambda>m d. case f m d of Inl _ \<Rightarrow> d | Inr (d', _) \<Rightarrow> d') = txn_db f" by (simp add: txn_db_def fun_eq_iff)
  ultimately show ?thesis by (simp add: txn_def)
qed

lemma andThen_next: "(\<lambda>m d. andThen (txn_next F g m d) k) = txn_next F (\<lambda>v. andThen (g v) k)"
  by (simp add: txn_next_def fun_eq_iff split: sum.splits prod.splits)

lemma behaves_andThen:
  assumes "behaves cfg opt inp ph p" "\<And>v. behaves cfg opt inp Idle (k v)"
  shows "behaves cfg opt inp ph (andThen p k)"
  using assms(1)
proof induction
  case (b_return ph v)
  show ?case unfolding andThen.simps by (rule b_weaken [OF assms(2)])
qed (auto simp: andThen_next intro: behaves.intros)

lemma quiet_of_result: "quiet who (of_result r)"
  by (cases r) (auto simp: of_result_def intro: quiet.intros)

lemma quiet_observe: "quiet who (observe f)"
  by (auto simp: observe_def settles_def intro: quiet.intros)

lemma quiet_lookup: "quiet who (lookup_db f)"
  by (auto simp: lookup_db_def settles_def intro: quiet.intros)

lemma quiet_txn:
  assumes "\<And>m d d' v. f m d = Inr (d', v) \<Longrightarrow> settles who m d d'"
  shows "quiet who (txn f)"
  unfolding txn_def
proof (rule q_settle)
  show "settles who m d (case f m d of Inl _ \<Rightarrow> d | Inr (d', _) \<Rightarrow> d')" for m d
  proof (cases "f m d")
    case (Inr r)
    then show ?thesis using assms [of m d "fst r" "snd r"] by (simp add: case_prod_beta)
  qed (simp add: settles_def)
qed (auto intro: quiet.intros split: sum.split)

lemmas quiet_rules = quiet.intros quiet_andThen quiet_tried quiet_of_result quiet_observe quiet_lookup

section \<open>The gateway behaves\<close>

lemma settles_frame: "intent_frame d' = intent_frame d \<Longrightarrow> settles who m d d'"
  by (simp add: settles_def)

lemma settles_fail:
  "failActionIntent octets (mo_ids m) iid who err status (mo_now m) d = Inr (d', res) \<Longrightarrow>
    status \<in> {I_failed, I_stale, I_outcome_unknown} \<Longrightarrow> settles who m d d'"
  unfolding settles_def by (rule disjI2, rule disjI2, rule disjI2, rule disjI2) (intro exI conjI)

lemma settles_complete:
  "completeActionIntent octets (mo_ids m) iid who v (mo_now m) d = Inr (d', res) \<Longrightarrow> settles who m d d'"
  unfolding settles_def by (rule disjI2, rule disjI2, rule disjI2, rule disjI1) (intro exI)

lemma settles_create:
  "createActionIntent octets (mo_ids m) (mo_now m) inp d = Inr (d', res) \<Longrightarrow> settles who m d d'"
  unfolding settles_def by (rule disjI2, rule disjI1) (intro exI)

lemma settles_reject:
  "rejectActionIntent octets (mo_ids m) (mo_now m) iid d = Inr (d', res) \<Longrightarrow> settles who m d d'"
  unfolding settles_def by (rule disjI2, rule disjI2, rule disjI1) (intro exI)

lemma connection_fact_intents:
  "recordConnectionFact fid c ty tm oc fc lb d = Inr d' \<Longrightarrow> intent_frame d' = intent_frame d"
  by (auto simp: recordConnectionFact_def bindE_eq_Inr intent_frame_def split: option.splits if_splits)

lemma update_connection_intents: "update_connection p g d = Inr (d', r) \<Longrightarrow> intent_frame d' = intent_frame d"
  by (auto simp: update_connection_def bindE_eq_Inr intent_frame_def split: prod.splits)

lemma reauthorize_settles: "requireConnectionReauthorization fid o' cid v t d = Inr (d', r) \<Longrightarrow> settles who m d d'"
  by (rule settles_frame)
     (auto simp: requireConnectionReauthorization_def bindE_eq_Inr dest!: update_connection_intents connection_fact_intents
      split: option.splits)

lemma rotate_settles: "rotateConnectionCredential fid o' cid v secret t d = Inr (d', r) \<Longrightarrow> settles who m d d'"
  by (rule settles_frame)
     (auto simp: rotateConnectionCredential_def bindE_eq_Inr dest!: update_connection_intents connection_fact_intents
      split: option.splits)

lemma read_use_settles: "recordConnectionReadUse u d = Inr (d', r) \<Longrightarrow> settles who m d d'"
  by (rule settles_frame) (auto simp: recordConnectionReadUse_def intent_frame_def split: if_splits)

lemma quiet_reauthorize: "quiet who (requireReauthorization o' c)"
  unfolding requireReauthorization_def by (rule quiet_txn) (rule reauthorize_settles)

lemma quiet_refresh: "quiet who (refreshGoogleCredential cfg c)"
  by (auto simp: refreshGoogleCredential_def refresh_answer_def split: option.split sum.split intro!: quiet_rules)

lemma quiet_installation: "quiet who (resolveGithubInstallationCredential cfg c)"
  by (auto simp: resolveGithubInstallationCredential_def installationJwt_def token_answer_def
      split: option.split sum.split intro!: quiet_rules)

lemma quiet_gateway_errors: "quiet who p \<Longrightarrow> quiet who (gateway_errors_only p)"
  by (auto simp: gateway_errors_only_def split: sum.split thrown.split intro!: quiet_rules)

lemma quiet_refresh_connection:
  assumes "\<And>l. quiet who (resolve l)"
  shows "quiet who (refreshGoogleConnection cfg resolve c x context g)"
  unfolding refreshGoogleConnection_def Let_def
  by (intro quiet_andThen quiet_tried quiet_refresh)
     (auto split: sum.split option.split
       intro!: quiet_gateway_errors quiet_rules quiet_reauthorize quiet_txn assms rotate_settles)

lemma quiet_credential: "quiet who (resolveCredential cfg n c)"
proof (induction n arbitrary: c)
  case (Suc n)
  then show ?case
    by (auto simp: Let_def split: option.split intro!: quiet_rules quiet_installation quiet_refresh_connection)
qed (simp add: quiet.intros)

lemma quiet_read: "quiet who (executeRead cfg n reg inp)"
proof -
  have read: "quiet who (perform_read r inp au c)" for r au c
    by (auto simp: perform_read_def call_read_def is_execute_def split: option.split sum.split
        intro!: quiet_rules quiet_txn read_use_settles)
  show ?thesis
    by (auto simp: executeRead_def readAuthority_def split: option.split intro!: quiet_rules quiet_credential read)
qed

lemma quiet_fail: "status \<in> {I_failed, I_stale, I_outcome_unknown} \<Longrightarrow> quiet who (failSideEffect cfg i who err status)"
  unfolding failSideEffect_def
  by (intro quiet_andThen quiet_txn) (erule settles_fail, auto split: option.split intro: quiet.intros)

lemma fail_stops: "andThen (failSideEffect cfg i who err status) k = failSideEffect cfg i who err status"
  unfolding failSideEffect_def andThen_txn andThen.simps andThen_next
  by (simp add: txn_next_def fun_eq_iff split: sum.splits option.splits)

lemma failure_status: "providerFailureStatus code unknown \<in> {I_failed, I_stale, I_outcome_unknown}"
  by (simp add: providerFailureStatus_def)

lemma quiet_complete: "quiet who (completeDispatch cfg i who v)"
  unfolding completeDispatch_def
  by (intro quiet_andThen quiet_txn) (erule settles_complete, auto split: option.split intro: quiet.intros)

lemma behaves_dispatch:
  assumes "opt = Some s" "who = gi_executionClaimId inp" "so_parametersSchema s (ev_parameters (ai_canonicalEnvelope i)) = Some ps"
    "so_preconditionsSchema s (ev_providerPreconditions (ai_canonicalEnvelope i)) = Some pre"
    "attempt + 1 = maximum \<or> so_retrySafety s = Provider_idempotency"
  shows "behaves cfg opt inp (Fresh i) (dispatch_loop cfg s i who ps pre credential maximum attempt)"
  using assms
proof (induction cfg s i who ps pre credential maximum attempt rule: dispatch_loop.induct)
  case (1 cfg s i who ps pre credential maximum attempt)
  have fail: "behaves cfg opt inp ph (failSideEffect cfg i who err (providerFailureStatus a b))" for ph err a b
    unfolding "1.prems"(2) by (rule quiet_behaves [OF quiet_fail [OF failure_status]])
  have finished: "behaves cfg opt inp ph (completeDispatch cfg i who v)" for ph v
    unfolding "1.prems"(2) by (rule quiet_behaves [OF quiet_complete])
  have again: "behaves cfg opt inp (called_phase s i) (case so_providerErrorSchema s (so_normalizeProviderError s e) of
      None \<Rightarrow> Throw (Js_error ''ZodError'')
    | Some err \<Rightarrow> andThen (observe mo_aborted) (\<lambda>stop.
        if retryProviderRequest s (ce_outcomeUnknown err) (attempt + 1) maximum stop
        then dispatch_loop cfg s i who ps pre credential maximum (attempt + 1)
        else failSideEffect cfg i who err (providerFailureStatus (ce_code err) (ce_outcomeUnknown err))))" for e
  proof (cases "so_providerErrorSchema s (so_normalizeProviderError s e)")
    case (Some err)
    have "behaves cfg opt inp (called_phase s i) (andThen (observe mo_aborted) (\<lambda>stop.
        if retryProviderRequest s (ce_outcomeUnknown err) (attempt + 1) maximum stop
        then dispatch_loop cfg s i who ps pre credential maximum (attempt + 1)
        else failSideEffect cfg i who err (providerFailureStatus (ce_code err) (ce_outcomeUnknown err))))"
    proof (rule behaves_quiet [OF quiet_observe])
      fix stop
      show "behaves cfg opt inp (called_phase s i)
          (if retryProviderRequest s (ce_outcomeUnknown err) (attempt + 1) maximum stop
           then dispatch_loop cfg s i who ps pre credential maximum (attempt + 1)
           else failSideEffect cfg i who err (providerFailureStatus (ce_code err) (ce_outcomeUnknown err)))"
      proof (cases "retryProviderRequest s (ce_outcomeUnknown err) (attempt + 1) maximum stop")
        case True
        then have "so_retrySafety s = Provider_idempotency" by (simp add: retryProviderRequest_def)
        with True "1.IH" "1.prems" Some show ?thesis by (simp add: called_phase_def)
      qed (simp add: fail)
    qed
    with Some show ?thesis by simp
  qed (simp add: b_throw)
  have sent: "behaves cfg opt inp (Begun i) (call_execute s i ps pre credential (\<lambda>res. case res of
      Inr result \<Rightarrow> completeDispatch cfg i who result
    | Inl e \<Rightarrow> (case so_providerErrorSchema s (so_normalizeProviderError s e) of
        None \<Rightarrow> Throw (Js_error ''ZodError'')
      | Some err \<Rightarrow> andThen (observe mo_aborted) (\<lambda>stop.
          if retryProviderRequest s (ce_outcomeUnknown err) (attempt + 1) maximum stop
          then dispatch_loop cfg s i who ps pre credential maximum (attempt + 1)
          else failSideEffect cfg i who err (providerFailureStatus (ce_code err) (ce_outcomeUnknown err))))))"
    unfolding call_execute_def
  proof (rule b_execute [OF "1.prems"(1,3,4)])
    show "behaves cfg opt inp (called_phase s i) (case res of
        Inr result \<Rightarrow> completeDispatch cfg i who result
      | Inl e \<Rightarrow> (case so_providerErrorSchema s (so_normalizeProviderError s e) of
          None \<Rightarrow> Throw (Js_error ''ZodError'')
        | Some err \<Rightarrow> andThen (observe mo_aborted) (\<lambda>stop.
            if retryProviderRequest s (ce_outcomeUnknown err) (attempt + 1) maximum stop
            then dispatch_loop cfg s i who ps pre credential maximum (attempt + 1)
            else failSideEffect cfg i who err (providerFailureStatus (ce_code err) (ce_outcomeUnknown err)))))" for res
      using again finished by (cases res) simp_all
  qed
  show ?case
    unfolding dispatch_loop.simps [of cfg s i who ps pre credential maximum attempt] beginDispatch_def andThen_txn
      begin_txn_def [symmetric]
    by (intro behaves_quiet quiet_of_result b_begin [OF "1.prems"(1)])
       (use sent "1.prems"(2) in \<open>auto intro: b_throw\<close>)
qed

lemma behaves_invoke:
  assumes "opt = Some s" "who = gi_executionClaimId inp"
  shows "behaves cfg opt inp (Fresh i) (invokeSideEffect cfg s i credential who)"
proof (cases "so_parametersSchema s (ev_parameters (ai_canonicalEnvelope i))")
  case ps: (Some ps)
  show ?thesis
  proof (cases "so_preconditionsSchema s (ev_providerPreconditions (ai_canonicalEnvelope i))")
    case (Some pre)
    let ?loop = "dispatch_loop cfg s i who ps pre credential (if so_retrySafety s = Provider_idempotency then 2 else 1) 0"
    have loop: "behaves cfg opt inp (Fresh i) ?loop"
      using behaves_dispatch [OF assms ps Some] by (cases "so_retrySafety s") simp_all
    have fail: "behaves cfg opt inp ph (failSideEffect cfg i who err v)" if "v \<in> {I_failed, I_stale}" for ph err v
      unfolding assms(2) by (rule quiet_behaves [OF quiet_fail]) (use that in auto)
    have "behaves cfg opt inp (Fresh i) (andThen (requireCurrentProviderPreconditions cfg s i ps pre credential who) (\<lambda>_. ?loop))"
      unfolding requireCurrentProviderPreconditions_def andThen.simps
      by (rule b_call) (use loop fail in \<open>auto simp: is_execute_def fail_stops split: sum.split\<close>)
    then show ?thesis using loop ps Some by (simp add: invokeSideEffect_def)
  qed (simp add: invokeSideEffect_def ps b_throw)
qed (simp add: invokeSideEffect_def b_throw)

lemma behaves_dispatchClaimed:
  assumes "opt = Some s"
  shows "behaves cfg opt inp (if recovered \<and> \<not> may_dispatch s i then Idle else Fresh i)
    (dispatchClaimedSideEffect cfg n s inp recovered i c)"
proof -
  let ?who = "gi_executionClaimId inp"
  have fail: "behaves cfg opt inp ph' (failSideEffect cfg i ?who err v)" if "v \<in> {I_failed, I_outcome_unknown}" for ph' err v
    by (rule quiet_behaves [OF quiet_fail]) (use that in auto)
  show ?thesis
  proof (cases "recovered \<and> \<not> may_dispatch s i")
    case False
    have "behaves cfg opt inp (Fresh i) (andThen (invokeSideEffect cfg s i credential ?who) (\<lambda>v. Return (Completed v)))" for credential
      by (rule behaves_andThen [OF behaves_invoke [OF assms(1) refl]]) (rule b_return)
    with fail have rest: "behaves cfg opt inp (Fresh i) (andThen (tried (resolveCredential cfg n c)) (\<lambda>res. case res of
        Inl _ \<Rightarrow>
          if ai_dispatchStartedAt i \<noteq> None then failSideEffect cfg i ?who unreconciled I_outcome_unknown
          else failSideEffect cfg i ?who \<lparr>ce_code = ''provider_failed'',
            ce_message = ''Connector credential became unavailable'', ce_outcomeUnknown = False\<rparr> I_failed
      | Inr credential \<Rightarrow>
          if ai_status i \<noteq> I_executing then Throw (Gateway_error ''Action Intent is not executable'' ''connector_rejected'')
          else andThen (invokeSideEffect cfg s i credential ?who) (\<lambda>v. Return (Completed v))))"
      by (intro behaves_quiet quiet_tried quiet_credential) (auto intro: b_throw split: sum.split)
    from False have "\<not> (recovered \<and> ai_dispatchStartedAt i \<noteq> None \<and> so_retrySafety s = No_retry)"
      by (auto simp: may_dispatch_def)
    then show ?thesis
      unfolding dispatchClaimedSideEffect_def if_not_P [OF False] by (simp only: if_False andThen.simps rest)
  next
    case True
    then have "recovered \<and> ai_dispatchStartedAt i \<noteq> None \<and> so_retrySafety s = No_retry"
      by (cases "so_retrySafety s") (auto simp: may_dispatch_def)
    then show ?thesis
      unfolding dispatchClaimedSideEffect_def by (simp add: fail_stops) (auto intro: fail)
  qed
qed

lemma behaves_claimed:
  assumes "opt = Some s"
  shows "behaves cfg opt inp (claimed_phase s (Some v)) (resolveActionIntentClaim cfg n s inp dec v)"
proof (cases v)
  case (Cl_claimed i c)
  then show ?thesis using behaves_dispatchClaimed [OF assms, of cfg inp False i n c]
    by (simp add: claimed_phase_def resolveActionIntentClaim_def)
next
  case (Cl_recovered i c)
  then show ?thesis using behaves_dispatchClaimed [OF assms, of cfg inp True i n c]
    by (simp add: claimed_phase_def resolveActionIntentClaim_def split: if_splits)
next
  case (Cl_terminal i)
  then show ?thesis
    by (auto simp: claimed_phase_def resolveActionIntentClaim_def resolveTerminalActionIntent_def
        split: option.split intro: behaves.intros)
qed (simp_all add: claimed_phase_def resolveActionIntentClaim_def b_throw)

lemma behaves_approved:
  assumes "opt = Some s" "digest_ok cfg i"
  shows "behaves cfg opt inp (Seen i) (executeApprovedSideEffect cfg n s inp (i, r, dec))"
  unfolding executeApprovedSideEffect_def andThen_txn claim_txn_def [symmetric] prod.case
proof (intro behaves_quiet quiet_of_result b_claim [OF assms])
  show "behaves cfg opt inp (claimed_phase s v)
      (case v of None \<Rightarrow> Throw (Js_error ''Action Intent was not claimable'')
       | Some w \<Rightarrow> resolveActionIntentClaim cfg n s inp dec w)" for v
    using behaves_claimed [OF assms(1)] by (cases v) (simp_all add: b_throw)
qed auto

lemma digest_verified: "verifyConsentDigest cfg s i r = Inr v \<Longrightarrow> digest_ok cfg i"
  by (auto simp: verifyConsentDigest_def digest_ok_def throw_if_def split: option.splits if_splits)

lemma behaves_consent:
  assumes "opt = Some s"
  shows "behaves cfg opt inp (Seen i) (resolveSideEffectConsent cfg n s inp (i, r, dec))"
proof -
  have "quiet (gi_executionClaimId inp) (txn (\<lambda>m. rejectActionIntent (gc_octets cfg) (mo_ids m) (mo_now m) (ai_id i)))"
    by (rule quiet_txn) (erule settles_reject)
  then have reject: "behaves cfg opt inp (Seen i)
      (andThen (txn (\<lambda>m. rejectActionIntent (gc_octets cfg) (mo_ids m) (mo_now m) (ai_id i))) (\<lambda>_. Return x))" for x
    by (rule behaves_quiet) (rule b_return)
  have go: "behaves cfg opt inp (Seen i) (andThen (of_result (verifyConsentDigest cfg s i r))
      (\<lambda>_. executeApprovedSideEffect cfg n s inp (i, r, dec)))" for dec
    using behaves_approved [OF assms digest_verified]
    by (cases "verifyConsentDigest cfg s i r") (auto simp: of_result_def intro: b_throw)
  show ?thesis unfolding resolveSideEffectConsent_def prod.case
    using reject go by (auto split: option.split intro: behaves.intros)
qed

lemma behaves_found:
  assumes "\<And>v. behaves cfg opt inp (found_phase v) (k v)"
  shows "behaves cfg opt inp ph (andThen (consentFor inp) k)"
  unfolding consentFor_def lookup_db_def andThen.simps by (rule b_find) (simp_all add: assms)

lemma behaves_request:
  assumes "opt = Some s"
  shows "behaves cfg opt inp ph (requestConsent cfg n s inp p kind)"
  unfolding requestConsent_def
proof (rule behaves_quiet [OF quiet_of_result], rule behaves_quiet, rule quiet_txn, erule settles_create,
    rule behaves_quiet [OF quiet_of_result], rule behaves_found)
  show "behaves cfg opt inp (found_phase v) (case v of None \<Rightarrow> Throw (Js_error ''Created Action Intent was not found'')
      | Some c \<Rightarrow> resolveSideEffectConsent cfg n s inp c)" for v
    using behaves_consent [OF assms] by (auto simp: found_phase_def b_throw split: option.split)
qed

lemma behaves_sideEffect:
  assumes "opt = Some s"
  shows "behaves cfg opt inp Idle (executeSideEffect cfg n s inp)"
  unfolding executeSideEffect_def
proof (rule behaves_quiet [OF quiet_of_result], rule behaves_found)
  fix p v
  have "behaves cfg opt inp Idle (andThen (readAuthority inp) (\<lambda>au. case au of None \<Rightarrow> Throw gateway_rejected
      | Some au \<Rightarrow> requestConsent cfg n s inp p (cn_authorizationKind (ra_connection au))))"
    unfolding readAuthority_def
    by (intro behaves_quiet quiet_lookup) (auto split: option.split intro: b_throw behaves_request [OF assms])
  then show "behaves cfg opt inp (found_phase v) (case v of
        Some (i, r, dec) \<Rightarrow>
          if ai_canonicalDigest i \<noteq> ps_canonicalDigest p \<or> ai_connectionId i \<noteq> gi_connectionId inp
          then Throw (Gateway_error ''Connector invocation idempotency conflict'' ''idempotency_conflict'')
          else if ai_status i \<notin> {I_awaiting_consent, I_ready} then resolveSideEffectConsent cfg n s inp (i, r, dec)
          else requestConsent cfg n s inp p (intent_kind i)
      | None \<Rightarrow> andThen (readAuthority inp) (\<lambda>au. case au of None \<Rightarrow> Throw gateway_rejected
          | Some au \<Rightarrow> requestConsent cfg n s inp p (cn_authorizationKind (ra_connection au))))"
    using behaves_consent [OF assms] behaves_request [OF assms]
    by (auto simp: found_phase_def b_throw split: option.split)
qed

lemma behaves_execute:
  "behaves cfg (registeredSideEffectOperation reg (gi_operationId inp)) inp Idle (execute cfg n reg inp)"
proof (cases "registeredReadOperation reg (gi_operationId inp)")
  case None
  then show ?thesis using behaves_sideEffect by (auto simp: execute_def split: option.split intro: b_throw)
next
  case (Some r)
  then show ?thesis by (simp add: execute_def behaves_quiet [OF quiet_read] b_return)
qed

section \<open>Which transactions start a dispatch\<close>

definition attempts :: "db \<Rightarrow> int list" where
  "attempts d = map ai_providerAttemptCount (actionIntents d)"

lemma attempts_frame: "intent_frame d' = intent_frame d \<Longrightarrow> attempts d' = attempts d"
  by (simp add: attempts_def intent_frame_def)

lemma attempts_update:
  assumes "update_intent octets p g d = Inr (d', res)" "\<And>i. ai_providerAttemptCount (g i) = ai_providerAttemptCount i"
  shows "attempts d' = attempts d"
proof -
  have "actionIntents d' = fst (update_where p g (actionIntents d))"
    using update_intent_effect(1) [OF assms(1)] by (simp add: intent_frame_def)
  then show ?thesis using map_update_where [of "actionIntents d" p ai_providerAttemptCount g] assms(2) by (simp add: attempts_def)
qed

lemma attempts_event: "intent_event octets f t i ty d = Inr d' \<Longrightarrow> attempts d' = attempts d"
  by (rule attempts_frame) (rule event_intents)

lemma attempts_fact: "recordActionIntentFact fid i ty tm dc oc fc d = Inr d' \<Longrightarrow> attempts d' = attempts d"
  by (rule attempts_frame) (rule fact_intents)

lemma attempts_after_update:
  assumes "bindE (update_intent octets p g d) h = Inr (d', r)" "\<And>i. ai_providerAttemptCount (g i) = ai_providerAttemptCount i"
    "\<And>d1 res. h (d1, res) = Inr (d', r) \<Longrightarrow> attempts d' = attempts d1"
  shows "attempts d' = attempts d"
  using assms attempts_update [OF _ assms(2)] by (fastforce simp: bindE_eq_Inr)

lemma complete_attempts:
  assumes "completeActionIntent octets f iid who v t d = Inr (d', res)"
  shows "attempts d' = attempts d"
proof (cases "lockActiveActionIntentExecution iid who t d")
  case True
  then show ?thesis
    using assms [unfolded completeActionIntent_def] True
    by (simp only: not_not simp_thms if_False if_True)
       (erule attempts_after_update, auto simp: bindE_eq_Inr dest!: attempts_event attempts_fact split: option.splits)
qed (use assms in \<open>simp add: completeActionIntent_def\<close>)

lemma fail_attempts:
  assumes "failActionIntent octets f iid who err v t d = Inr (d', res)"
  shows "attempts d' = attempts d"
proof (cases "lockActiveActionIntentExecution iid who t d")
  case True
  then show ?thesis
    using assms [unfolded failActionIntent_def] True
    by (simp only: not_not simp_thms if_False if_True)
       (erule attempts_after_update, auto simp: bindE_eq_Inr dest!: attempts_event attempts_fact split: option.splits)
qed (use assms in \<open>simp add: failActionIntent_def\<close>)

lemma failRecovered_attempts:
  assumes "failRecoveredActionIntent octets f i inp prior d = Inr (d', res)"
  shows "attempts d' = attempts d"
  using assms unfolding failRecoveredActionIntent_def Let_def
  by (rule attempts_after_update) (auto simp: bindE_eq_Inr dest!: attempts_event attempts_fact split: option.splits)

lemma recover_attempts:
  assumes "recoverExecutingActionIntent octets f i inp d = Inr (d', res)"
  shows "attempts d' = attempts d"
proof (cases "\<exists>prior v. failRecoveredActionIntent octets f i inp prior d = Inr (d', v)")
  case False
  with assms have "d' = d \<or> (\<exists>prior r. update_intent octets (held_intent (ai_id i) prior)
      (\<lambda>x. x\<lparr>ai_executionClaimId := Some (cl_executionClaimId inp), ai_updatedAt := cl_now inp\<rparr>) d = Inr (d', r))"
    by (fastforce simp: recoverExecutingActionIntent_def bindE_eq_Inr split: if_splits option.splits)
  then show ?thesis using attempts_update by fastforce
qed (use failRecovered_attempts in blast)

lemma claimReady_attempts:
  assumes "claimReadyActionIntent octets f i c inp d = Inr (d', res)"
  shows "attempts d' = attempts d"
proof -
  from assms obtain d1 where d1: "make_ready octets f i (cl_now inp) d = Inr d1"
    and u: "bindE (update_intent octets (intent_in (ai_id i) {I_ready})
        (\<lambda>x. x\<lparr>ai_status := I_executing, ai_executionClaimId := Some (cl_executionClaimId inp),
           ai_updatedAt := cl_now inp\<rparr>) d1) (\<lambda>(d2, res).
      (case res of
         None \<Rightarrow> Inr (d2, Cl_in_progress i)
       | Some v \<Rightarrow> bindE (recordActionIntentFact (ii_fact2 f) v ''action_intent.executing'' (cl_now inp) None
           (Some ''executing'') None d2) (\<lambda>d3. Inr (d3, Cl_claimed v c)))) = Inr (d', res)"
    by (auto simp: claimReadyActionIntent_def bindE_eq_Inr)
  have "attempts d1 = attempts d"
    using make_ready_frame [OF d1]
      map_update_where [of "actionIntents d" _ ai_providerAttemptCount "\<lambda>x. x\<lparr>ai_status := I_ready, ai_updatedAt := cl_now inp\<rparr>"]
    by (simp add: attempts_def intent_frame_def)
  moreover have "attempts d' = attempts d1"
    using u by (rule attempts_after_update) (auto simp: bindE_eq_Inr dest!: attempts_fact split: option.splits)
  ultimately show ?thesis by simp
qed

lemma claim_attempts:
  assumes "claimApprovedActionIntent octets f inp d = Inr (d', res)"
  shows "attempts d' = attempts d"
proof -
  have "attempts d' = attempts d" if "cancelUnauthorizedActionIntent octets f i t d = Inr (d', v)" for i t v
    using that unfolding cancelUnauthorizedActionIntent_def
    by (rule attempts_after_update) (auto simp: bindE_eq_Inr dest!: attempts_fact split: option.splits)
  then show ?thesis
    using assms
    by (auto simp: claimApprovedActionIntent_def bindE_eq_Inr dest: recover_attempts claimReady_attempts
        split: option.splits if_splits)
qed

lemma begin_none_attempts:
  assumes "beginActionIntentDispatch octets f inp d = Inr (d', None)"
  shows "attempts d' = attempts d"
proof (cases "\<exists>g. update_intent octets (held_intent (cl_actionIntentId inp) (cl_executionClaimId inp)) g d = Inr (d', None)")
  case True
  then obtain g where u: "update_intent octets (held_intent (cl_actionIntentId inp) (cl_executionClaimId inp)) g d = Inr (d', None)"
    by blast
  have "snd (update_where (held_intent (cl_actionIntentId inp) (cl_executionClaimId inp)) g (actionIntents d)) = []"
    using update_intent_effect(2) [OF u] by (cases "snd (update_where (held_intent (cl_actionIntentId inp) (cl_executionClaimId inp)) g (actionIntents d))") (auto simp: first_row_def)
  then show ?thesis
    using update_intent_effect(1) [OF u]
    by (simp add: attempts_def intent_frame_def update_where_def filter_empty_conv)
next
  case False
  then show ?thesis
    using assms
    by (auto simp: beginActionIntentDispatch_def bindE_eq_Inr dest: failRecovered_attempts split: option.splits if_splits)
qed


lemma updated_row:
  assumes "update_intent octets p g d = Inr (d', Some v)"
  shows "\<exists>i \<in> set (actionIntents d). p i \<and> v = g i \<and> v \<in> set (actionIntents d')"
proof -
  have "v \<in> set (snd (update_where p g (actionIntents d)))"
    using update_intent_effect(2) [OF assms] by (auto simp: first_row_def split: list.splits)
  then obtain i where i: "i \<in> set (actionIntents d)" "p i" "v = g i" by (auto simp: update_where_def)
  moreover have "actionIntents d' = fst (update_where p g (actionIntents d))"
    using update_intent_effect(1) [OF assms] by (simp add: intent_frame_def)
  ultimately show ?thesis by (auto simp: set_update_where)
qed

definition take_intent :: "timestamp \<Rightarrow> string \<Rightarrow> action_intent \<Rightarrow> action_intent" where
  "take_intent now who i = i\<lparr>ai_status := I_executing, ai_executionClaimId := Some who, ai_updatedAt := now\<rparr>"

text \<open>A claim that succeeds takes an intent that its claimant does not hold yet, with its consent and lease.\<close>

definition takes :: "timestamp \<Rightarrow> string \<Rightarrow> uuid \<Rightarrow> db \<Rightarrow> db \<Rightarrow> action_intent \<Rightarrow> action_intent \<Rightarrow> bool" where
  "takes now who iid d d' i v \<longleftrightarrow> i \<in> set (actionIntents d) \<and> ai_id i = iid \<and> \<not> terminalActionIntent i \<and>
     \<not> (ai_status i = I_executing \<and> ai_executionClaimId i = Some who) \<and> consented d i \<and> lessee d now who i \<and>
     v = take_intent now who i \<and> v \<in> set (actionIntents d')"

lemma claimReady_takes:
  assumes "claimReadyActionIntent octets f i c inp d = Inr (d', Cl_claimed v c')" "i \<in> set (actionIntents d)"
    "\<And>x. x \<in> set (actionIntents d) \<Longrightarrow> ai_id x = ai_id i \<Longrightarrow> x = i"
  shows "v = take_intent (cl_now inp) (cl_executionClaimId inp) i \<and> v \<in> set (actionIntents d')"
proof -
  let ?e = "\<lambda>i. i\<lparr>ai_status := I_executing, ai_executionClaimId := Some (cl_executionClaimId inp), ai_updatedAt := cl_now inp\<rparr>"
  from assms(1) obtain d1 d2 where d1: "make_ready octets f i (cl_now inp) d = Inr d1"
    and u: "update_intent octets (intent_in (ai_id i) {I_ready}) ?e d1 = Inr (d2, Some v)" and d': "intent_frame d' = intent_frame d2"
    by (auto simp: claimReadyActionIntent_def bindE_eq_Inr dest!: fact_intents split: option.splits)
  from updated_row [OF u] obtain x where x: "x \<in> set (actionIntents d1)" "ai_id x = ai_id i" "v = ?e x" "v \<in> set (actionIntents d2)"
    by (auto simp: intent_in_def)
  have "set (actionIntents d1) \<subseteq> set (actionIntents d) \<union> (\<lambda>x. x\<lparr>ai_status := I_ready, ai_updatedAt := cl_now inp\<rparr>) ` set (actionIntents d)"
    using make_ready_frame [OF d1] by (auto simp: intent_frame_def set_update_where)
  then obtain y where y: "y \<in> set (actionIntents d)" "x = y \<or> x = y\<lparr>ai_status := I_ready, ai_updatedAt := cl_now inp\<rparr>"
    using x(1) by blast
  then have "ai_id y = ai_id i" using x(2) by auto
  then have "y = i" using assms(3) y(1) by blast
  then have "?e x = ?e i" using y(2) by auto
  then show ?thesis using x(3,4) d' by (simp add: intent_frame_def take_intent_def)
qed

lemma recover_takes:
  assumes "recoverExecutingActionIntent octets f i inp d = Inr (d', Cl_recovered v c)" "i \<in> set (actionIntents d)"
    "\<And>x. x \<in> set (actionIntents d) \<Longrightarrow> ai_id x = ai_id i \<Longrightarrow> x = i" "ai_status i = I_executing"
  shows "takes (cl_now inp) (cl_executionClaimId inp) (ai_id i) d d' i v"
proof -
  have never: "res \<noteq> Cl_recovered v c" if "failRecoveredActionIntent octets f i inp prior d = Inr (d', res)" for prior res
    using that by (auto simp: failRecoveredActionIntent_def bindE_eq_Inr Let_def split: option.splits)
  from assms(1) never obtain prior where p: "ai_executionClaimId i \<noteq> Some (cl_executionClaimId inp)"
    "activeExecutionClaim (intent_execution i d) inp" "intent_current i inp d"
    and u: "update_intent octets (held_intent (ai_id i) prior)
      (\<lambda>x. x\<lparr>ai_executionClaimId := Some (cl_executionClaimId inp), ai_updatedAt := cl_now inp\<rparr>) d = Inr (d', Some v)"
    by (auto simp: recoverExecutingActionIntent_def bindE_eq_Inr split: if_splits option.splits)
  from updated_row [OF u] assms(3) have "v = i\<lparr>ai_executionClaimId := Some (cl_executionClaimId inp), ai_updatedAt := cl_now inp\<rparr>"
    "v \<in> set (actionIntents d')" by (auto simp: held_intent_def)
  then show ?thesis
    using p assms(2,4) current_consented active_lessee by (auto simp: takes_def take_intent_def terminalActionIntent_def)
qed

lemma claim_takes:
  assumes "claimApprovedActionIntent octets f inp d = Inr (d', Some r)" "intent_inv d"
    "r = Cl_claimed v c \<or> r = Cl_recovered v c"
  shows "\<exists>i. takes (cl_now inp) (cl_executionClaimId inp) (cl_actionIntentId inp) d d' i v \<and>
    (r = Cl_claimed v c \<longrightarrow> ai_dispatchStartedAt v = None)"
proof -
  have ids: "distinct (map ai_id (actionIntents d))" using assms(2) by (simp add: intent_inv_def)
  from assms(1,3) obtain i where i: "find (\<lambda>i. ai_id i = cl_actionIntentId inp) (actionIntents d) = Some i" "\<not> terminalActionIntent i"
    by (auto simp: claimApprovedActionIntent_def split: option.splits if_splits)
  have mem: "i \<in> set (actionIntents d)" "ai_id i = cl_actionIntentId inp" using find_row_Some [OF i(1)] by auto
  have only: "x = i" if "x \<in> set (actionIntents d)" "ai_id x = ai_id i" for x
    using intent_by_id [OF ids i(1) that(1)] that(2) mem by simp
  have cancel: "res \<noteq> Cl_claimed v c \<and> res \<noteq> Cl_recovered v c"
    if "cancelUnauthorizedActionIntent octets f i t d = Inr (d', res)" for t res
    using that by (auto simp: cancelUnauthorizedActionIntent_def bindE_eq_Inr split: option.splits)
  have ready: "\<exists>w. res = Cl_claimed w cn \<or> res = Cl_in_progress i"
    if "claimReadyActionIntent octets f i cn inp d = Inr (d', res)" for cn res
    using that by (auto simp: claimReadyActionIntent_def bindE_eq_Inr split: option.splits)
  have recovered: "\<not> (\<exists>w e. res = Cl_claimed w e)" if "recoverExecutingActionIntent octets f i inp d = Inr (d', res)" for res
    using that by (auto simp: recoverExecutingActionIntent_def failRecoveredActionIntent_def Let_def bindE_eq_Inr split: if_splits option.splits)
  consider (recover) "recoverExecutingActionIntent octets f i inp d = Inr (d', Cl_recovered v c)" "r = Cl_recovered v c" "ai_status i = I_executing"
    | (claim) cn where "claimReadyActionIntent octets f i cn inp d = Inr (d', Cl_claimed v c)" "r = Cl_claimed v c" "ai_status i \<noteq> I_executing"
        "intent_current i inp d" "activeExecutionClaim (intent_execution i d) inp"
    using assms(1,3) i cancel ready recovered
    by (fastforce simp: claimApprovedActionIntent_def bindE_eq_Inr split: option.splits if_splits)
  then show ?thesis
  proof cases
    case recover
    then show ?thesis using recover_takes [OF recover(1) mem(1) only recover(3)] mem by auto
  next
    case (claim cn)
    have v: "v = take_intent (cl_now inp) (cl_executionClaimId inp) i" "v \<in> set (actionIntents d')"
      using claimReady_takes [OF claim(1) mem(1) only] by auto
    have "ai_status i \<notin> I_claimed" using claim(3) i(2) by (auto simp: I_claimed_def terminalActionIntent_def)
    then have "ai_dispatchStartedAt i = None" using assms(2) mem(1) by (auto simp: intent_inv_def intent_ok_def)
    then show ?thesis
      using v mem i(2) claim(3) current_consented [OF claim(4)] active_lessee [OF claim(5)]
      by (intro exI [of _ i]) (simp add: takes_def take_intent_def)
  qed
qed

lemma begin_starts:
  assumes "beginActionIntentDispatch octets f inp d = Inr (d', Some v)" "distinct (map ai_id (actionIntents d))"
  shows "\<exists>i \<in> set (actionIntents d). ai_id i = cl_actionIntentId inp \<and> ai_status i = I_executing \<and>
    ai_executionClaimId i = Some (cl_executionClaimId inp) \<and> consented d i \<and> lessee d (cl_now inp) (cl_executionClaimId inp) i \<and>
    actionIntents d' = map (\<lambda>x. if x = i then start_dispatch (cl_now inp) i else x) (actionIntents d)"
proof -
  from assms(1) obtain i where i: "find (\<lambda>i. ai_id i = cl_actionIntentId inp) (actionIntents d) = Some i"
    "ai_status i = I_executing" "ai_executionClaimId i = Some (cl_executionClaimId inp)"
    "lockActiveActionIntentExecution (cl_actionIntentId inp) (cl_executionClaimId inp) (cl_now inp) d" "intent_current i inp d"
    and u: "update_intent octets (held_intent (cl_actionIntentId inp) (cl_executionClaimId inp)) (start_dispatch (cl_now inp)) d = Inr (d', Some v)"
    by (auto simp: beginActionIntentDispatch_def bindE_eq_Inr split: option.splits if_splits)
  have mem: "i \<in> set (actionIntents d)" "ai_id i = cl_actionIntentId inp" using find_row_Some [OF i(1)] by auto
  have "held_intent (cl_actionIntentId inp) (cl_executionClaimId inp) x \<longleftrightarrow> x = i" if "x \<in> set (actionIntents d)" for x
    using intent_by_id [OF assms(2) i(1) that] mem i(2,3) by (auto simp: held_intent_def)
  then have "actionIntents d' = map (\<lambda>x. if x = i then start_dispatch (cl_now inp) i else x) (actionIntents d)"
    using update_intent_effect(1) [OF u] by (simp add: intent_frame_def update_where_def)
  then show ?thesis
    using mem i(2,3) current_consented [OF i(5)] locked_lessee [OF i(4) assms(2) mem] by blast
qed


end
