(* ===== verification/Gateway_Protocol.thy ===== *)
theory Gateway_Protocol
  imports Gateway_Logic
begin

text \<open>
  The connector gateway under concurrency. Any number of invocations run at the same time, on any
  number of workers; between two actions of one of them anything may happen: other invocations,
  reviewers, revocations, leases that expire and are taken over. The invariant ties what each
  invocation knows to the database and to the calls that were sent to providers.
\<close>

section \<open>The system\<close>

text \<open>
  Besides the database and the suspended invocations the state records the claim identifiers that
  ever held a lease, and the calls of providers in the order they were sent.
\<close>

record gateway_state =
  gs_db :: db
  gs_used :: "string set"
  gs_threads :: "(gateway_input \<times> gateway_result program) list"
  gs_calls :: "(gateway_input \<times> provider_call) list"

definition holds :: "db \<Rightarrow> uuid \<Rightarrow> string \<Rightarrow> bool" where
  "holds d xid who \<longleftrightarrow> (\<exists>x \<in> set (executions d). ex_id x = xid \<and> ex_leasedBy x = Some who)"

text \<open>A worker generates a new claim identifier for every lease it takes.\<close>

definition fresh_leases :: "string set \<Rightarrow> db \<Rightarrow> db \<Rightarrow> bool" where
  "fresh_leases used d d' \<longleftrightarrow> (\<forall>xid who. holds d' xid who \<longrightarrow> holds d xid who \<or> who \<notin> used)"

definition with_db :: "gateway_state \<Rightarrow> db \<Rightarrow> gateway_state" where
  "with_db g d' = g\<lparr>gs_db := d', gs_used := gs_used g \<union> {who. \<exists>xid. holds d' xid who}\<rparr>"

inductive gateway_step ::
  "gateway_config \<Rightarrow> registry \<Rightarrow> (uuid \<Rightarrow> string \<Rightarrow> string) \<Rightarrow> gateway_state \<Rightarrow> gateway_state \<Rightarrow> bool"
  for cfg reg node_operation where
  gw_store: "store_step now a (gs_db g) d' \<Longrightarrow> fresh_leases (gs_used g) (gs_db g) d' \<Longrightarrow>
    gateway_step cfg reg node_operation g (with_db g d')"
| gw_intent: "intent_step now None (gs_db g) d' \<Longrightarrow> fresh_leases (gs_used g) (gs_db g) d' \<Longrightarrow>
    gateway_step cfg reg node_operation g (with_db g d')"
| gw_other: "intent_frame d' = intent_frame (gs_db g) \<Longrightarrow> gateway_step cfg reg node_operation g (with_db g d')"
| gw_invoke: "gi_operationId inp = node_operation (gi_executionId inp) (gi_nodeId inp) \<Longrightarrow>
    gateway_step cfg reg node_operation g (g\<lparr>gs_threads := gs_threads g @ [(inp, execute cfg n reg inp)]\<rparr>)"
| gw_transact: "j < length (gs_threads g) \<Longrightarrow> gs_threads g ! j = (inp, Transact f k) \<Longrightarrow> fresh_intent (mo_ids m) (gs_db g) \<Longrightarrow>
    gateway_step cfg reg node_operation g
      ((with_db g (f m (gs_db g)))\<lparr>gs_threads := (gs_threads g)[j := (inp, k m (gs_db g))]\<rparr>)"
| gw_call: "j < length (gs_threads g) \<Longrightarrow> gs_threads g ! j = (inp, Call c k) \<Longrightarrow>
    gateway_step cfg reg node_operation g
      (g\<lparr>gs_threads := (gs_threads g)[j := (inp, k r)], gs_calls := gs_calls g @ [(inp, c)]\<rparr>)"
| gw_fetch: "j < length (gs_threads g) \<Longrightarrow> gs_threads g ! j = (inp, Fetch q k) \<Longrightarrow>
    gateway_step cfg reg node_operation g (g\<lparr>gs_threads := (gs_threads g)[j := (inp, k r')]\<rparr>)"

section \<open>The invariant\<close>

definition invocation :: "gateway_input \<Rightarrow> uuid \<times> string \<times> string" where
  "invocation inp = (gi_executionId inp, gi_nodeId inp, gi_invocationIdempotencyKey inp)"

abbreviation operation_of :: "registry \<Rightarrow> gateway_input \<Rightarrow> side_effect_operation option" where
  "operation_of reg inp \<equiv> registeredSideEffectOperation reg (gi_operationId inp)"

definition one_shot :: "registry \<Rightarrow> gateway_input \<Rightarrow> bool" where
  "one_shot reg inp \<longleftrightarrow> (\<exists>s. operation_of reg inp = Some s \<and> so_retrySafety s = No_retry)"

definition calls_for :: "gateway_input \<Rightarrow> (gateway_input \<times> provider_call) list \<Rightarrow> (gateway_input \<times> provider_call) list" where
  "calls_for inp cs = filter (\<lambda>(inp', c). is_execute c \<and> invocation inp' = invocation inp) cs"

definition row_of :: "db \<Rightarrow> action_intent \<Rightarrow> action_intent \<Rightarrow> bool" where
  "row_of d i row \<longleftrightarrow> row \<in> set (actionIntents d) \<and> intent_key row = intent_key i"

definition held :: "db \<Rightarrow> gateway_input \<Rightarrow> action_intent \<Rightarrow> bool" where
  "held d inp i \<longleftrightarrow> (\<exists>row. row_of d i row \<and> ai_status row = I_executing \<and>
     ai_executionClaimId row = Some (gi_executionClaimId inp))"

text \<open>An invocation has lost its intent for good when the intent is finished or its lease is gone.\<close>

definition lost :: "db \<Rightarrow> gateway_input \<Rightarrow> action_intent \<Rightarrow> bool" where
  "lost d inp i \<longleftrightarrow> (\<exists>row. row_of d i row \<and> terminalActionIntent row) \<or>
     \<not> holds d (ai_executionId i) (gi_executionClaimId inp)"

definition stake :: "gateway_config \<Rightarrow> gateway_state \<Rightarrow> gateway_input \<Rightarrow> action_intent \<Rightarrow> bool" where
  "stake cfg g inp i \<longleftrightarrow> intent_call i = invocation inp \<and> digest_ok cfg i \<and> gi_executionClaimId inp \<in> gs_used g \<and>
     (held (gs_db g) inp i \<or> lost (gs_db g) inp i)"

definition unsent :: "gateway_state \<Rightarrow> gateway_input \<Rightarrow> action_intent \<Rightarrow> bool" where
  "unsent g inp i \<longleftrightarrow> calls_for inp (gs_calls g) = [] \<and> (\<forall>row. row_of (gs_db g) i row \<longrightarrow> ai_dispatchStartedAt row = None)"

definition knows :: "gateway_config \<Rightarrow> registry \<Rightarrow> gateway_state \<Rightarrow> gateway_input \<Rightarrow> phase \<Rightarrow> bool" where
  "knows cfg reg g inp ph = (case ph of
       Idle \<Rightarrow> True
     | Seen i \<Rightarrow> intent_call i = invocation inp \<and> (\<exists>row. row_of (gs_db g) i row)
     | Fresh i \<Rightarrow> stake cfg g inp i \<and> (\<exists>row. row_of (gs_db g) i row) \<and>
         (one_shot reg inp \<and> held (gs_db g) inp i \<longrightarrow> unsent g inp i)
     | Begun i \<Rightarrow> stake cfg g inp i \<and>
         (\<exists>row. row_of (gs_db g) i row \<and> consented (gs_db g) row \<and> ai_dispatchStartedAt row \<noteq> None) \<and>
         (one_shot reg inp \<longrightarrow> calls_for inp (gs_calls g) = []))"

definition engaged :: "gateway_state \<Rightarrow> gateway_input \<Rightarrow> phase \<Rightarrow> bool" where
  "engaged g inp ph = (case ph of Fresh i \<Rightarrow> held (gs_db g) inp i | Begun _ \<Rightarrow> True | _ \<Rightarrow> False)"

text \<open>
  What holds of every call of a side effect that was sent: a reviewer approved the intent it
  belongs to, the digest approved is the digest of its envelope, and the parameters are those of
  the envelope.
\<close>

definition call_ok :: "gateway_config \<Rightarrow> registry \<Rightarrow> db \<Rightarrow> gateway_input \<Rightarrow> provider_call \<Rightarrow> bool" where
  "call_ok cfg reg d inp c \<longleftrightarrow> (is_execute c \<longrightarrow> (\<exists>s i ps pre credential.
     operation_of reg inp = Some s \<and> i \<in> set (actionIntents d) \<and> intent_call i = invocation inp \<and> consented d i \<and>
     digest_ok cfg i \<and> ai_dispatchStartedAt i \<noteq> None \<and>
     so_parametersSchema s (ev_parameters (ai_canonicalEnvelope i)) = Some ps \<and>
     so_preconditionsSchema s (ev_providerPreconditions (ai_canonicalEnvelope i)) = Some pre \<and>
     c = Execute (so_id s) ps pre credential (gi_invocationIdempotencyKey inp)))"

definition ledger_inv :: "gateway_state \<Rightarrow> bool" where
  "ledger_inv g \<longleftrightarrow> intent_inv (gs_db g) \<and> distinct (map ex_id (executions (gs_db g))) \<and> list_all row_ok (executions (gs_db g)) \<and>
     distinct (map wt_id (waitTimers (gs_db g))) \<and> (\<forall>xid who. holds (gs_db g) xid who \<longrightarrow> who \<in> gs_used g)"

definition thread_ok ::
  "gateway_config \<Rightarrow> registry \<Rightarrow> (uuid \<Rightarrow> string \<Rightarrow> string) \<Rightarrow> gateway_state \<Rightarrow> gateway_input \<times> gateway_result program \<Rightarrow> phase \<Rightarrow> bool" where
  "thread_ok cfg reg node_operation g t ph \<longleftrightarrow>
     gi_operationId (fst t) = node_operation (gi_executionId (fst t)) (gi_nodeId (fst t)) \<and>
     behaves cfg (operation_of reg (fst t)) (fst t) ph (snd t) \<and> knows cfg reg g (fst t) ph"

definition threads_inv ::
  "gateway_config \<Rightarrow> registry \<Rightarrow> (uuid \<Rightarrow> string \<Rightarrow> string) \<Rightarrow> gateway_state \<Rightarrow> (nat \<Rightarrow> phase) \<Rightarrow> bool" where
  "threads_inv cfg reg node_operation g ph \<longleftrightarrow>
     (\<forall>j < length (gs_threads g). thread_ok cfg reg node_operation g (gs_threads g ! j) (ph j)) \<and>
     (\<forall>j < length (gs_threads g). \<forall>k < length (gs_threads g). j \<noteq> k \<longrightarrow>
        invocation (fst (gs_threads g ! j)) = invocation (fst (gs_threads g ! k)) \<longrightarrow> one_shot reg (fst (gs_threads g ! j)) \<longrightarrow>
        \<not> (engaged g (fst (gs_threads g ! j)) (ph j) \<and> engaged g (fst (gs_threads g ! k)) (ph k)))"

definition calls_inv ::
  "gateway_config \<Rightarrow> registry \<Rightarrow> (uuid \<Rightarrow> string \<Rightarrow> string) \<Rightarrow> gateway_state \<Rightarrow> bool" where
  "calls_inv cfg reg node_operation g \<longleftrightarrow> (\<forall>(inp, c) \<in> set (gs_calls g).
     gi_operationId inp = node_operation (gi_executionId inp) (gi_nodeId inp) \<and> call_ok cfg reg (gs_db g) inp c \<and>
     (one_shot reg inp \<longrightarrow> length (calls_for inp (gs_calls g)) \<le> 1))"

definition gateway_inv ::
  "gateway_config \<Rightarrow> registry \<Rightarrow> (uuid \<Rightarrow> string \<Rightarrow> string) \<Rightarrow> gateway_state \<Rightarrow> bool" where
  "gateway_inv cfg reg node_operation g \<longleftrightarrow>
     ledger_inv g \<and> calls_inv cfg reg node_operation g \<and> (\<exists>ph. threads_inv cfg reg node_operation g ph)"

section \<open>What a transaction of anybody leaves of that knowledge\<close>

definition evolves :: "timestamp \<Rightarrow> string option \<Rightarrow> db \<Rightarrow> db \<Rightarrow> bool" where
  "evolves now a d d' \<longleftrightarrow>
     (\<forall>row \<in> set (actionIntents d). \<exists>row' \<in> set (actionIntents d').
        intent_key row' = intent_key row \<and> (row' = row \<or> intent_row_step d now a row row')) \<and>
     (\<forall>i i'. consented d i \<longrightarrow> intent_key i' = intent_key i \<longrightarrow> consented d' i')"

definition calm :: "db \<Rightarrow> db \<Rightarrow> action_intent \<Rightarrow> bool" where
  "calm d d' i \<longleftrightarrow> (\<forall>row row'. row_of d i row \<longrightarrow> row_of d' i row' \<longrightarrow> ai_providerAttemptCount row' = ai_providerAttemptCount row)"

lemma system_evolves:
  assumes "intent_inv d" "system_step now a d d'"
  shows "evolves now a d d'"
proof -
  have ids: "distinct (map ai_id (actionIntents d))" using assms(1) by (simp add: intent_inv_def)
  have "\<exists>row' \<in> set (actionIntents d'). intent_key row' = intent_key row \<and> (row' = row \<or> intent_row_step d now a row row')"
    if row: "row \<in> set (actionIntents d)" for row
    using system_step_intents [OF assms(2) ids]
  proof (elim disjE exE conjE)
    fix p g
    assume e: "actionIntents d' = fst (update_where p g (actionIntents d))"
      and s: "\<forall>i \<in> set (actionIntents d). p i \<longrightarrow> intent_row_step d now a i (g i)"
    show ?thesis
    proof (cases "p row")
      case True
      then have "intent_row_step d now a row (g row)" "g row \<in> set (actionIntents d')"
        using row s by (auto simp: e set_update_where)
      then show ?thesis using row_step_key by blast
    qed (use row in \<open>auto simp: e set_update_where\<close>)
  qed (use row in auto)
  then show ?thesis using consented_keeps [OF assms(2) ids] by (auto simp: evolves_def)
qed

lemma frame_evolves: "intent_frame d' = intent_frame d \<Longrightarrow> evolves now a d d'"
  by (auto simp: evolves_def intent_frame_def consented_def intent_key_def)

lemma rows_unique: "intent_inv d \<Longrightarrow> row_of d i r \<Longrightarrow> row_of d i r' \<Longrightarrow> r = r'"
  unfolding row_of_def intent_inv_def by (metis distinct_rows_eq key_call)

lemma leases_unique:
  assumes "distinct (map ex_id (executions d))" "holds d xid who" "holds d xid who'"
  shows "who = who'"
proof -
  from assms(2,3) obtain x y where "x \<in> set (executions d)" "y \<in> set (executions d)" "ex_id x = ex_id y"
    "ex_leasedBy x = Some who" "ex_leasedBy y = Some who'" by (auto simp: holds_def)
  then show ?thesis using distinct_rows_eq [OF assms(1), of x y] by simp
qed

lemma lessee_holds: "lessee d now who i \<Longrightarrow> holds d (ai_executionId i) who"
  by (auto simp: lessee_def holds_def)

lemma same_execution: "intent_key row = intent_key i \<Longrightarrow> ai_executionId row = ai_executionId i"
  by (simp add: intent_key_def)

lemma evolves_row:
  assumes "evolves now a d d'" "row_of d i row"
  obtains row' where "row_of d' i row'" "row' = row \<or> intent_row_step d now a row row'"
  using assms unfolding evolves_def row_of_def by metis

lemma row_step_held:
  assumes "intent_row_step d now a row row'" "ai_status row' = I_executing" "ai_executionClaimId row' = Some who"
  shows "ai_status row = I_executing \<and> ai_executionClaimId row = Some who \<and>
      ai_providerAttemptCount row' = ai_providerAttemptCount row + 1 \<or> lessee d now who row \<and>
      \<not> (ai_status row = I_executing \<and> ai_executionClaimId row = Some who)"
  using assms by cases (auto split: if_splits)

lemma row_step_taken:
  assumes "intent_row_step d now a row row'" "ai_status row = I_executing" "ai_executionClaimId row = Some who"
  shows "terminalActionIntent row' \<or> ai_status row' = I_executing \<and> ai_executionClaimId row' = Some who \<or>
    (\<exists>who'. who' \<noteq> who \<and> lessee d now who' row)"
  using assms by cases (auto simp: terminalActionIntent_def)

lemma held_evolves:
  assumes "intent_inv d" "intent_inv d'" "distinct (map ex_id (executions d))" "evolves now a d d'"
    "fresh_leases used d d'" "gi_executionClaimId inp \<in> used" "row_of d i row" "held d inp i \<or> lost d inp i"
  shows "held d' inp i \<or> lost d' inp i" "held d' inp i \<Longrightarrow> held d inp i"
    "held d' inp i \<Longrightarrow> calm d d' i \<Longrightarrow> row_of d' i row"
proof -
  let ?who = "gi_executionClaimId inp"
  from assms(4,7) obtain row' where row': "row_of d' i row'" and step: "row' = row \<or> intent_row_step d now a row row'"
    by (rule evolves_row)
  have at: "held d inp i \<longleftrightarrow> ai_status row = I_executing \<and> ai_executionClaimId row = Some ?who"
    unfolding held_def using rows_unique [OF assms(1) _ assms(7)] assms(7) by blast
  have at': "held d' inp i \<longleftrightarrow> ai_status row' = I_executing \<and> ai_executionClaimId row' = Some ?who"
    unfolding held_def using rows_unique [OF assms(2) _ row'] row' by blast
  have gone: "lost d' inp i" if "\<not> holds d (ai_executionId i) ?who"
    using that assms(5,6) by (auto simp: lost_def fresh_leases_def)
  have over: "lost d inp i \<longleftrightarrow> terminalActionIntent row \<or> \<not> holds d (ai_executionId i) ?who"
    unfolding lost_def using rows_unique [OF assms(1) _ assms(7)] assms(7) by blast
  have final: "row' = row" if "terminalActionIntent row" using that step row_step_open by blast
  have xid: "ai_executionId row = ai_executionId i" using assms(7) same_execution [of row i] by (simp add: row_of_def)
  show "held d' inp i \<or> lost d' inp i"
  proof (cases "held d inp i")
    case True
    then show ?thesis
      using step at at' row' gone leases_unique [OF assms(3)] lessee_holds [of d now _ row] xid
        row_step_taken [of d now a row row' ?who] by (metis lost_def)
  next
    case False
    then show ?thesis using assms(8) over final gone row' by (auto simp: lost_def)
  qed
  show before: "held d inp i" if "held d' inp i"
  proof (cases "row' = row")
    case False
    then have s: "intent_row_step d now a row row'" using step by blast
    from row_step_held [OF s] that at' have "ai_status row = I_executing \<and> ai_executionClaimId row = Some ?who \<or> lessee d now ?who row"
      by blast
    then show ?thesis
      using at over assms(8) lessee_holds [of d now ?who row] xid row_step_open [OF s] by auto
  qed (use that at at' in simp)
  show "row_of d' i row" if "held d' inp i" "calm d d' i"
  proof (cases "row' = row")
    case False
    then have "intent_row_step d now a row row'" using step by blast
    from row_step_held [OF this] that(1) at' before [OF that(1)] at that(2) assms(7) row' show ?thesis by (auto simp: calm_def)
  qed (use row' in simp)
qed

lemma with_db_simps [simp]:
  "gs_db (with_db g d') = d'" "gs_calls (with_db g d') = gs_calls g" "gs_threads (with_db g d') = gs_threads g"
  by (auto simp: with_db_def)

lemma with_db_used: "who \<in> gs_used g \<Longrightarrow> who \<in> gs_used (with_db g d')"
  by (auto simp: with_db_def)

lemma with_db_holds: "holds d' xid who \<Longrightarrow> who \<in> gs_used (with_db g d')"
  by (auto simp: with_db_def)

lemma row_step_dispatched:
  assumes "intent_row_step d now a row row'" "ai_dispatchStartedAt row \<noteq> None"
  shows "ai_dispatchStartedAt row' \<noteq> None"
  using assms by cases auto

lemma evolves_dispatched:
  assumes "evolves now a d d'" "row_of d i row" "consented d row" "ai_dispatchStartedAt row \<noteq> None"
  shows "\<exists>row'. row_of d' i row' \<and> consented d' row' \<and> ai_dispatchStartedAt row' \<noteq> None"
proof -
  from assms(1,2) obtain row' where row': "row_of d' i row'" "row' = row \<or> intent_row_step d now a row row'"
    by (rule evolves_row)
  moreover have "intent_key row' = intent_key row" using row'(1) assms(2) by (simp add: row_of_def)
  then have "consented d' row'" using assms(1,3) by (auto simp: evolves_def)
  ultimately show ?thesis using row_step_dispatched assms(4) by blast
qed

lemma knows_evolves:
  assumes "ledger_inv g" "intent_inv d'" "evolves now a (gs_db g) d'" "fresh_leases (gs_used g) (gs_db g) d'"
    "knows cfg reg g inp ph" "\<And>i. ph = Fresh i \<Longrightarrow> one_shot reg inp \<Longrightarrow> held (gs_db g) inp i \<Longrightarrow> calm (gs_db g) d' i"
  shows "knows cfg reg (with_db g d') inp ph" "engaged (with_db g d') inp ph \<Longrightarrow> engaged g inp ph"
proof -
  have inv: "intent_inv (gs_db g)" "distinct (map ex_id (executions (gs_db g)))" using assms(1) by (auto simp: ledger_inv_def)
  have kept: "stake cfg (with_db g d') inp i" "held d' inp i \<Longrightarrow> held (gs_db g) inp i"
    "held d' inp i \<Longrightarrow> calm (gs_db g) d' i \<Longrightarrow> row_of d' i row"
    if s: "stake cfg g inp i" "row_of (gs_db g) i row" for i row
  proof -
    have c: "gi_executionClaimId inp \<in> gs_used g" "held (gs_db g) inp i \<or> lost (gs_db g) inp i"
      using s(1) by (auto simp: stake_def)
    note h = held_evolves [OF inv(1) assms(2) inv(2) assms(3,4) c(1) s(2) c(2)]
    show "stake cfg (with_db g d') inp i" using s(1) h(1) with_db_used [OF c(1)] by (auto simp: stake_def)
    show "held (gs_db g) inp i" if "held d' inp i" using h(2) that .
    show "row_of d' i row" if "held d' inp i" "calm (gs_db g) d' i" using h(3) that .
  qed
  have found: "\<exists>row. row_of d' i row" if "row_of (gs_db g) i row" for i row
    using evolves_row [OF assms(3) that] by blast
  show "knows cfg reg (with_db g d') inp ph"
  proof (cases ph)
    case (Seen i)
    then show ?thesis using assms(5) found by (auto simp: knows_def)
  next
    case (Fresh i)
    then obtain row where k: "stake cfg g inp i" "row_of (gs_db g) i row"
      "one_shot reg inp \<and> held (gs_db g) inp i \<longrightarrow> unsent g inp i" using assms(5) by (auto simp: knows_def)
    have "unsent (with_db g d') inp i" if "one_shot reg inp" "held d' inp i"
    proof -
      have "row_of d' i row" using kept(3) [OF k(1,2)] assms(6) [OF Fresh that(1)] kept(2) [OF k(1,2) that(2)] that by blast
      moreover have "unsent g inp i" using k(3) that kept(2) [OF k(1,2)] by blast
      ultimately show ?thesis
        unfolding unsent_def with_db_simps using rows_unique [OF assms(2), of i row] k(2) by blast
    qed
    then show ?thesis using Fresh k kept(1) found by (auto simp: knows_def)
  next
    case (Begun i)
    then show ?thesis using assms(5) kept(1) evolves_dispatched [OF assms(3)] by (fastforce simp: knows_def)
  qed (simp add: knows_def)
  show "engaged g inp ph" if "engaged (with_db g d') inp ph"
    using that assms(5) kept(2) by (auto simp: engaged_def knows_def split: phase.splits)
qed

lemma call_ok_evolves:
  assumes "evolves now a d d'" "call_ok cfg reg d inp c"
  shows "call_ok cfg reg d' inp c"
proof (cases "is_execute c")
  case True
  with assms(2) obtain s i ps pre credential where o: "operation_of reg inp = Some s" "i \<in> set (actionIntents d)"
    "intent_call i = invocation inp" "consented d i" "digest_ok cfg i" "ai_dispatchStartedAt i \<noteq> None"
    "so_parametersSchema s (ev_parameters (ai_canonicalEnvelope i)) = Some ps"
    "so_preconditionsSchema s (ev_providerPreconditions (ai_canonicalEnvelope i)) = Some pre"
    "c = Execute (so_id s) ps pre credential (gi_invocationIdempotencyKey inp)"
    by (auto simp: call_ok_def)
  have "row_of d i i" using o(2) by (simp add: row_of_def)
  from evolves_dispatched [OF assms(1) this o(4,6)] obtain row where row: "row_of d' i row" "consented d' row"
    "ai_dispatchStartedAt row \<noteq> None" by blast
  have "ai_canonicalEnvelope row = ai_canonicalEnvelope i" "ai_canonicalDigest row = ai_canonicalDigest i" "intent_call row = intent_call i"
    using row(1) by (auto simp: row_of_def intent_key_def intent_call_def)
  then have "\<exists>s i ps pre credential. operation_of reg inp = Some s \<and> i \<in> set (actionIntents d') \<and> intent_call i = invocation inp \<and>
     consented d' i \<and> digest_ok cfg i \<and> ai_dispatchStartedAt i \<noteq> None \<and>
     so_parametersSchema s (ev_parameters (ai_canonicalEnvelope i)) = Some ps \<and>
     so_preconditionsSchema s (ev_providerPreconditions (ai_canonicalEnvelope i)) = Some pre \<and>
     c = Execute (so_id s) ps pre credential (gi_invocationIdempotencyKey inp)"
    using o row by (intro exI [of _ s] exI [of _ row] exI [of _ ps] exI [of _ pre] exI [of _ credential])
      (auto simp: row_of_def digest_ok_def)
  then show ?thesis by (simp add: call_ok_def)
qed (simp add: call_ok_def)

lemma calls_inv_evolves:
  assumes "evolves now a (gs_db g) d'" "calls_inv cfg reg node_operation g"
  shows "calls_inv cfg reg node_operation (with_db g d')"
  using assms(2) call_ok_evolves [OF assms(1)] by (auto simp: calls_inv_def)

lemma system_calm:
  assumes "intent_inv d" "system_step now a d d'" "a = None \<or> attempts d' = attempts d"
  shows "calm d d' i"
  unfolding calm_def
proof (intro allI impI)
  fix row row'
  assume row: "row_of d i row" "row_of d' i row'"
  have ids: "distinct (map ai_id (actionIntents d))" using assms(1) by (simp add: intent_inv_def)
  have ids': "distinct (map ai_id (actionIntents d'))" using system_step_inv [OF assms(1,2)] by (simp add: intent_inv_def)
  have same: "ai_id row' = ai_id row" using row key_call [of row' row] by (simp add: row_of_def)
  have mem: "row \<in> set (actionIntents d)" "row' \<in> set (actionIntents d')" using row by (auto simp: row_of_def)
  show "ai_providerAttemptCount row' = ai_providerAttemptCount row"
    using system_step_intents [OF assms(2) ids]
  proof (elim disjE exE conjE)
    fix p g
    assume e: "actionIntents d' = fst (update_where p g (actionIntents d))"
      and s: "\<forall>i \<in> set (actionIntents d). p i \<longrightarrow> intent_row_step d now a i (g i)"
    have kept: "ai_providerAttemptCount (g x) = ai_providerAttemptCount x" if "x \<in> set (actionIntents d)" "p x" for x
      using assms(3)
    proof
      assume "a = None"
      then have "intent_row_step d now None x (g x)" using s that by blast
      then show ?thesis by cases auto
    next
      assume "attempts d' = attempts d"
      then have "map (\<lambda>y. ai_providerAttemptCount (if p y then g y else y)) (actionIntents d) = map ai_providerAttemptCount (actionIntents d)"
        by (simp add: attempts_def e update_where_def comp_def)
      then show ?thesis using that by (fastforce simp: map_eq_conv)
    qed
    from mem(2) obtain x where x: "x \<in> set (actionIntents d)" "row' = (if p x then g x else x)"
      by (auto simp: e update_where_def)
    have "ai_id row' = ai_id x"
    proof (cases "p x")
      case True
      then have "intent_row_step d now a x (g x)" using s x(1) by blast
      then show ?thesis using x(2) True key_call [OF row_step_key] by simp
    qed (simp add: x(2))
    then have "x = row" using same by (intro distinct_rows_eq [OF ids x(1) mem(1)]) simp
    then show ?thesis using x kept by auto
  next
    fix j
    assume "actionIntents d' = actionIntents d @ [j]"
    then have "row' = row" using mem(1) same by (intro distinct_rows_eq [OF ids' mem(2)]) auto
    then show ?thesis by simp
  qed
qed


section \<open>The steps keep the invariant\<close>

lemma intent_inv_frame:
  assumes "intent_frame d' = intent_frame d" "intent_inv d"
  shows "intent_inv d'"
proof -
  have t: "approvalRequests d' = approvalRequests d" "approvalDecisions d' = approvalDecisions d" "actionIntents d' = actionIntents d"
    using assms(1) by (auto simp: intent_frame_def)
  then have "approval_inv d'" using assms(2) by (simp add: intent_inv_def approval_inv_def)
  moreover have "consented d' = consented d" using t by (simp add: consented_def fun_eq_iff)
  ultimately show ?thesis using assms(2) t by (simp add: intent_inv_def)
qed

lemma ledger_with_db:
  assumes "ledger_inv g" "intent_inv d'" "distinct (map ex_id (executions d')) \<and> list_all row_ok (executions d')"
    "distinct (map wt_id (waitTimers d'))"
  shows "ledger_inv (with_db g d')"
  using assms with_db_holds by (auto simp: ledger_inv_def)

lemma ledger_same:
  assumes "ledger_inv g" "intent_inv d'" "executions d' = executions (gs_db g) \<and> waitTimers d' = waitTimers (gs_db g)"
  shows "ledger_inv (with_db g d')"
  by (rule ledger_with_db [OF assms(1,2)]) (use assms(1,3) in \<open>auto simp: ledger_inv_def\<close>)

lemma store_ledger:
  assumes "ledger_inv g" "store_step now a (gs_db g) d'"
  shows "ledger_inv (with_db g d')"
proof (rule ledger_with_db [OF assms(1)])
  have l: "distinct (map ex_id (executions (gs_db g)))" "list_all row_ok (executions (gs_db g))"
    "distinct (map wt_id (waitTimers (gs_db g)))" "intent_inv (gs_db g)" using assms(1) by (auto simp: ledger_inv_def)
  show "intent_inv d'" using system_step_inv [OF l(4) sys_store [OF assms(2)]] .
  show "distinct (map ex_id (executions d')) \<and> list_all row_ok (executions d')"
    using store_step_rows [OF assms(2) l(3)] rows_inv_moves [OF _ l(1,2)] rows_inv_adds [OF _ l(1,2)] by blast
  show "distinct (map wt_id (waitTimers d'))" using store_step_timers [OF assms(2) l(3)] .
qed

lemma intent_ledger:
  assumes "ledger_inv g" "intent_step now a (gs_db g) d'"
  shows "ledger_inv (with_db g d')"
proof -
  have inv: "intent_inv (gs_db g)" using assms(1) by (simp add: ledger_inv_def)
  then have "distinct (map ai_id (actionIntents (gs_db g)))" by (simp add: intent_inv_def)
  from intent_step_executions [OF assms(2) this] show ?thesis
    using ledger_same [OF assms(1) system_step_inv [OF inv sys_intent [OF assms(2)]]] store_ledger [OF assms(1) do_approval] by blast
qed

lemma frame_ledger: "ledger_inv g \<Longrightarrow> intent_frame d' = intent_frame (gs_db g) \<Longrightarrow> ledger_inv (with_db g d')"
  by (rule ledger_same) (auto simp: intent_frame_def ledger_inv_def intro: intent_inv_frame)

lemma same_leases: "executions d' = executions d \<Longrightarrow> fresh_leases used d d'"
  by (simp add: fresh_leases_def holds_def)

lemma environment_keeps:
  assumes "gateway_inv cfg reg node_operation g" "ledger_inv (with_db g d')" "evolves now a (gs_db g) d'"
    "fresh_leases (gs_used g) (gs_db g) d'" "\<And>i. calm (gs_db g) d' i"
  shows "gateway_inv cfg reg node_operation (with_db g d')"
proof -
  from assms(1) obtain ph where inv: "ledger_inv g" "calls_inv cfg reg node_operation g" "threads_inv cfg reg node_operation g ph"
    by (auto simp: gateway_inv_def)
  have "intent_inv d'" using assms(2) by (simp add: ledger_inv_def)
  note k = knows_evolves [OF inv(1) this assms(3,4) _ assms(5)]
  have "knows cfg reg g (fst (gs_threads g ! j)) (ph j)" if "j < length (gs_threads g)" for j
    using inv(3) that by (simp add: threads_inv_def thread_ok_def)
  with k have "knows cfg reg (with_db g d') (fst (gs_threads g ! j)) (ph j)"
    "engaged (with_db g d') (fst (gs_threads g ! j)) (ph j) \<Longrightarrow> engaged g (fst (gs_threads g ! j)) (ph j)"
    if "j < length (gs_threads g)" for j using that by blast+
  then have "threads_inv cfg reg node_operation (with_db g d') ph"
    using inv(3) unfolding threads_inv_def thread_ok_def with_db_simps by blast
  then show ?thesis using assms(2) calls_inv_evolves [OF assms(3) inv(2)] by (auto simp: gateway_inv_def)
qed

text \<open>What one transaction of an invocation does, and what the invocation knows then.\<close>

definition moved ::
  "gateway_config \<Rightarrow> side_effect_operation option \<Rightarrow> gateway_input \<Rightarrow> moment \<Rightarrow> db \<Rightarrow> db \<Rightarrow> phase \<Rightarrow> phase \<Rightarrow> bool" where
  "moved cfg opt inp m d d' ph ph' \<longleftrightarrow>
     settles (gi_executionClaimId inp) m d d' \<and> (ph' = ph \<or> ph' = Idle) \<or>
     d' = d \<and> ph' = found_phase (getActionIntentConsent (gi_workspaceId inp) (gi_executionId inp) (gi_nodeId inp)
       (gi_invocationIdempotencyKey inp) d) \<or>
     (\<exists>s i scopes v. opt = Some s \<and> ph = Seen i \<and> digest_ok cfg i \<and>
        claim_txn cfg s (gi_executionClaimId inp) scopes (ai_id i) m d = Inr (d', v) \<and> ph' = claimed_phase s v) \<or>
     (\<exists>s i scopes v. opt = Some s \<and> ph = Fresh i \<and>
        begin_txn cfg s (gi_executionClaimId inp) scopes (ai_id i) m d = Inr (d', v) \<and>
        ph' = (if v = None then Idle else Begun i))"

lemma transact_moves:
  assumes "behaves cfg opt inp ph (Transact f k)"
  shows "\<exists>ph'. behaves cfg opt inp ph' (k m d) \<and> moved cfg opt inp m d (f m d) ph ph'"
  using assms
proof (induction ph "Transact f k")
  case (b_weaken ph)
  then show ?case unfolding moved_def by blast
next
  case (b_settle ph)
  then show ?case unfolding moved_def by blast
next
  case (b_find ph)
  then show ?case unfolding moved_def by (metis (mono_tags, lifting))
next
  case (b_claim s i F scopes g)
  have fk: "f = txn_db F" "k = txn_next F g" using b_claim by auto
  show ?case
  proof (cases "F m d")
    case (Inl e)
    then have "f m d = d" "k m d = Throw (Db_error e)" by (simp_all add: fk txn_db_def txn_next_def)
    then show ?thesis by (intro exI [of _ Idle]) (simp add: moved_def settles_def b_throw)
  next
    case (Inr r)
    obtain d' v where r: "r = (d', v)" by fastforce
    then have "f m d = d'" "k m d = g v" using Inr by (simp_all add: fk txn_db_def txn_next_def)
    then show ?thesis using b_claim(1-4) Inr r unfolding moved_def by metis
  qed
next
  case (b_begin s F scopes i g)
  have fk: "f = txn_db F" "k = txn_next F g" using b_begin by auto
  show ?case
  proof (cases "F m d")
    case (Inl e)
    then have "f m d = d" "k m d = Throw (Db_error e)" by (simp_all add: fk txn_db_def txn_next_def)
    then show ?thesis by (intro exI [of _ Idle]) (simp add: moved_def settles_def b_throw)
  next
    case (Inr r)
    obtain d' v where r: "r = (d', v)" by fastforce
    then have e: "f m d = d'" "k m d = g v" using Inr by (simp_all add: fk txn_db_def txn_next_def)
    have "behaves cfg opt inp (if v = None then Idle else Begun i) (g v)" by (cases v) (simp_all add: b_begin(3,5))
    moreover have "moved cfg opt inp m d (f m d) (Fresh i) (if v = None then Idle else Begun i)"
      unfolding moved_def
      by (rule disjI2, rule disjI2, rule disjI2, rule exI [of _ s], rule exI [of _ i], rule exI [of _ scopes], rule exI [of _ v])
         (use b_begin(1,2) Inr r e in simp)
    ultimately show ?thesis using e by (intro exI conjI) simp_all
  qed
qed


lemma knows_threads [simp]:
  "knows cfg reg (g\<lparr>gs_threads := ts\<rparr>) inp ph = knows cfg reg g inp ph"
  "engaged (g\<lparr>gs_threads := ts\<rparr>) inp ph = engaged g inp ph"
  by (simp_all add: knows_def engaged_def stake_def unsent_def cong: phase.case_cong)

lemma one_shot_same:
  assumes "gi_operationId inp = node_operation (gi_executionId inp) (gi_nodeId inp)"
    "gi_operationId inp' = node_operation (gi_executionId inp') (gi_nodeId inp')" "invocation inp = invocation inp'"
  shows "one_shot reg inp = one_shot reg inp'"
  using assms by (simp add: one_shot_def invocation_def)

lemma thread_facts:
  assumes "threads_inv cfg reg node_operation g ph" "j < length (gs_threads g)" "fst (gs_threads g ! j) = inp"
  shows "knows cfg reg g inp (ph j)" "behaves cfg (operation_of reg inp) inp (ph j) (snd (gs_threads g ! j))"
    "gi_operationId inp = node_operation (gi_executionId inp) (gi_nodeId inp)"
  using assms by (auto simp: threads_inv_def thread_ok_def)

lemma thread_alone:
  assumes "threads_inv cfg reg node_operation g ph" "j < length (gs_threads g)" "fst (gs_threads g ! j) = inp"
    "k < length (gs_threads g)" "k \<noteq> j" "invocation (fst (gs_threads g ! k)) = invocation inp" "one_shot reg inp"
    "engaged g inp (ph j)" "engaged g (fst (gs_threads g ! k)) (ph k)"
  shows False
  using assms unfolding threads_inv_def by metis

text \<open>One invocation acts on the database; the others only watch.\<close>

lemma thread_moves:
  assumes inv: "ledger_inv g" "calls_inv cfg reg node_operation g" "threads_inv cfg reg node_operation g ph"
    and j: "j < length (gs_threads g)" "fst (gs_threads g ! j) = inp"
    and move: "ledger_inv (with_db g d')" "evolves now a (gs_db g) d'" "fresh_leases (gs_used g) (gs_db g) d'"
    and own: "behaves cfg (operation_of reg inp) inp ph' p'" "knows cfg reg (with_db g d') inp ph'"
    and others: "\<And>k i. k < length (gs_threads g) \<Longrightarrow> k \<noteq> j \<Longrightarrow> ph k = Fresh i \<Longrightarrow>
      one_shot reg (fst (gs_threads g ! k)) \<Longrightarrow> held (gs_db g) (fst (gs_threads g ! k)) i \<Longrightarrow> calm (gs_db g) d' i"
    and cross: "\<And>k. k < length (gs_threads g) \<Longrightarrow> k \<noteq> j \<Longrightarrow> invocation (fst (gs_threads g ! k)) = invocation inp \<Longrightarrow>
      one_shot reg inp \<Longrightarrow> engaged (with_db g d') inp ph' \<Longrightarrow> engaged (with_db g d') (fst (gs_threads g ! k)) (ph k) \<Longrightarrow>
      knows cfg reg (with_db g d') (fst (gs_threads g ! k)) (ph k) \<Longrightarrow> engaged g (fst (gs_threads g ! k)) (ph k) \<Longrightarrow> False"
  shows "gateway_inv cfg reg node_operation ((with_db g d')\<lparr>gs_threads := (gs_threads g)[j := (inp, p')]\<rparr>)"
proof -
  let ?g = "(with_db g d')\<lparr>gs_threads := (gs_threads g)[j := (inp, p')]\<rparr>" and ?n = "length (gs_threads g)"
  define inps where "inps k = fst (gs_threads g ! k)" for k
  have jn: "inps j = inp" using j(2) by (simp add: inps_def)
  have old: "gi_operationId (inps k) = node_operation (gi_executionId (inps k)) (gi_nodeId (inps k))"
    "behaves cfg (operation_of reg (inps k)) (inps k) (ph k) (snd (gs_threads g ! k))" "knows cfg reg g (inps k) (ph k)"
    if "k < ?n" for k using inv(3) that by (auto simp: threads_inv_def thread_ok_def inps_def)
  have excl: "\<not> (engaged g (inps k) (ph k) \<and> engaged g (inps l) (ph l))"
    if "k < ?n" "l < ?n" "k \<noteq> l" "invocation (inps k) = invocation (inps l)" "one_shot reg (inps k)" for k l
    using inv(3) that by (auto simp: threads_inv_def inps_def)
  have "intent_inv d'" using move(1) by (simp add: ledger_inv_def)
  note k = knows_evolves [OF inv(1) this move(2,3)]
  have other: "knows cfg reg (with_db g d') (inps k) (ph k)"
    "engaged (with_db g d') (inps k) (ph k) \<Longrightarrow> engaged g (inps k) (ph k)" if "k < ?n" "k \<noteq> j" for k
    using k [OF old(3) [OF that(1)] others [OF that, folded inps_def]] by blast+
  have at: "fst (gs_threads ?g ! k) = inps k" if "k < ?n" for k
    using that j jn by (cases "k = j") (simp_all add: inps_def)
  have alone: "\<not> (engaged (with_db g d') inp ph' \<and> engaged (with_db g d') (inps k) (ph k))"
    if "k < ?n" "k \<noteq> j" "invocation (inps k) = invocation inp" "one_shot reg inp" for k
    using cross [OF that(1,2), folded inps_def] other [OF that(1,2)] that(3,4) by blast
  have "thread_ok cfg reg node_operation ?g (gs_threads ?g ! k) ((ph(j := ph')) k)" if "k < ?n" for k
    using that old other own j jn by (cases "k = j") (auto simp: thread_ok_def inps_def)
  moreover have "\<not> (engaged ?g (inps k) ((ph(j := ph')) k) \<and> engaged ?g (inps l) ((ph(j := ph')) l))"
    if kl: "k < ?n" "l < ?n" "k \<noteq> l" "invocation (inps k) = invocation (inps l)" "one_shot reg (inps k)" for k l
  proof -
    have os: "one_shot reg (inps l)" using one_shot_same [OF old(1) [OF kl(1)] old(1) [OF kl(2)] kl(4)] kl(5) by simp
    show ?thesis
      using kl os alone [of k] alone [of l] other [of k] other [of l] excl [OF kl] jn
      by (cases "k = j"; cases "l = j") auto
  qed
  ultimately have "threads_inv cfg reg node_operation ?g (ph(j := ph'))"
    unfolding threads_inv_def using at by simp
  moreover have "calls_inv cfg reg node_operation ?g" using calls_inv_evolves [OF move(2) inv(2)] by (simp add: calls_inv_def)
  moreover have "ledger_inv ?g" using move(1) by (simp add: ledger_inv_def)
  ultimately show ?thesis by (auto simp: gateway_inv_def)
qed


text \<open>Transactions that settle an intent, and attempts to dispatch that are refused.\<close>

definition calm_step :: "gateway_state \<Rightarrow> db \<Rightarrow> bool" where
  "calm_step g d' \<longleftrightarrow> ledger_inv (with_db g d') \<and> (\<exists>now a. evolves now a (gs_db g) d') \<and>
     fresh_leases (gs_used g) (gs_db g) d' \<and> (\<forall>i. calm (gs_db g) d' i)"

lemma calm_frame: "ledger_inv g \<Longrightarrow> intent_frame d' = intent_frame (gs_db g) \<Longrightarrow> calm_step g d'"
proof -
  assume g: "ledger_inv g" and f: "intent_frame d' = intent_frame (gs_db g)"
  have "row_of d' = row_of (gs_db g)" "executions d' = executions (gs_db g)"
    using f by (auto simp: intent_frame_def row_of_def fun_eq_iff)
  moreover have "calm (gs_db g) d' i" for i
    using rows_unique [of "gs_db g" i] g calculation(1) by (auto simp: calm_def ledger_inv_def)
  ultimately show ?thesis
    using frame_ledger [OF g f] frame_evolves [OF f] same_leases by (auto simp: calm_step_def)
qed

lemma calm_intent:
  assumes "ledger_inv g" "intent_step now a (gs_db g) d'" "executions d' = executions (gs_db g)"
    "a = None \<or> attempts d' = attempts (gs_db g)"
  shows "calm_step g d'"
proof -
  have inv: "intent_inv (gs_db g)" using assms(1) by (simp add: ledger_inv_def)
  have "evolves now a (gs_db g) d'" using system_evolves [OF inv sys_intent [OF assms(2)]] .
  then show ?thesis
    using intent_ledger [OF assms(1,2)] same_leases [OF assms(3)] system_calm [OF inv sys_intent [OF assms(2)] assms(4)]
    by (auto simp: calm_step_def)
qed

lemma settle_calm:
  assumes "ledger_inv g" "settles who m (gs_db g) d'" "fresh_intent (mo_ids m) (gs_db g)"
  shows "calm_step g d'"
proof -
  have "intent_inv (gs_db g)" using assms(1) by (simp add: ledger_inv_def)
  then have ids: "distinct (map ai_id (actionIntents (gs_db g)))" by (simp add: intent_inv_def)
  from assms(2) consider "intent_frame d' = intent_frame (gs_db g)"
    | (create) octets inp res where "createActionIntent octets (mo_ids m) (mo_now m) inp (gs_db g) = Inr (d', res)"
    | (reject) octets iid res where "rejectActionIntent octets (mo_ids m) (mo_now m) iid (gs_db g) = Inr (d', res)"
    | (complete) octets iid v res where "completeActionIntent octets (mo_ids m) iid who v (mo_now m) (gs_db g) = Inr (d', res)"
    | (fail) octets iid err status res where "status \<in> {I_failed, I_stale, I_outcome_unknown}"
        "failActionIntent octets (mo_ids m) iid who err status (mo_now m) (gs_db g) = Inr (d', res)"
    unfolding settles_def by blast
  then show ?thesis
  proof cases
    case create
    have "executions d' = executions (gs_db g)" using create_intent_effect [OF create] by (auto simp: adds_intent_def)
    then show ?thesis using calm_intent [OF assms(1) is_create [OF assms(3) create]] by simp
  next
    case reject
    have "executions d' = executions (gs_db g)" using reject_moves [OF reject] by (auto simp: moves_intents_def)
    then show ?thesis using calm_intent [OF assms(1) is_reject [OF reject]] by simp
  next
    case complete
    have "executions d' = executions (gs_db g)" using complete_moves [OF complete ids] by (auto simp: moves_intents_def)
    then show ?thesis using calm_intent [OF assms(1) is_complete [OF complete]] complete_attempts [OF complete] by simp
  next
    case fail
    have "executions d' = executions (gs_db g)" using fail_moves [OF fail(2,1) ids] by (auto simp: moves_intents_def)
    then show ?thesis using calm_intent [OF assms(1) is_fail [OF fail(2,1)]] fail_attempts [OF fail(2)] by simp
  qed (rule calm_frame [OF assms(1)])
qed

lemma calm_step_keeps:
  assumes "ledger_inv g" "calls_inv cfg reg node_operation g" "threads_inv cfg reg node_operation g ph"
    "j < length (gs_threads g)" "fst (gs_threads g ! j) = inp" "calm_step g d'"
    "behaves cfg (operation_of reg inp) inp ph' p'" "ph' = ph j \<or> ph' = Idle"
  shows "gateway_inv cfg reg node_operation ((with_db g d')\<lparr>gs_threads := (gs_threads g)[j := (inp, p')]\<rparr>)"
proof -
  from assms(6) obtain now a where step: "ledger_inv (with_db g d')" "evolves now a (gs_db g) d'"
    "fresh_leases (gs_used g) (gs_db g) d'" "\<And>i. calm (gs_db g) d' i" by (auto simp: calm_step_def)
  have "intent_inv d'" using step(1) by (simp add: ledger_inv_def)
  moreover have old: "knows cfg reg g inp (ph j)" using thread_facts(1) [OF assms(3-5)] .
  ultimately have k: "knows cfg reg (with_db g d') inp (ph j)" "engaged (with_db g d') inp (ph j) \<Longrightarrow> engaged g inp (ph j)"
    using knows_evolves [OF assms(1) _ step(2,3) old step(4)] by blast+
  show ?thesis
  proof (rule thread_moves [OF assms(1-5) step(1-3) assms(7)])
    show "knows cfg reg (with_db g d') inp ph'" using k(1) assms(8) by (auto simp: knows_def)
    fix l
    assume l: "l < length (gs_threads g)" "l \<noteq> j" "invocation (fst (gs_threads g ! l)) = invocation inp" "one_shot reg inp"
      "engaged (with_db g d') inp ph'" "engaged g (fst (gs_threads g ! l)) (ph l)"
    then have "engaged g inp (ph j)" using k(2) assms(8) by (auto simp: engaged_def)
    then show False using thread_alone [OF assms(3-5) l(1-4)] l(6) by blast
  qed (rule step(4))
qed

lemma find_keeps:
  assumes "ledger_inv g" "calls_inv cfg reg node_operation g" "threads_inv cfg reg node_operation g ph"
    "j < length (gs_threads g)" "fst (gs_threads g ! j) = inp"
    "ph' = found_phase (getActionIntentConsent (gi_workspaceId inp) (gi_executionId inp) (gi_nodeId inp)
       (gi_invocationIdempotencyKey inp) (gs_db g))"
    "behaves cfg (operation_of reg inp) inp ph' p'"
  shows "gateway_inv cfg reg node_operation ((with_db g (gs_db g))\<lparr>gs_threads := (gs_threads g)[j := (inp, p')]\<rparr>)"
proof -
  have "calm_step g (gs_db g)" using calm_frame [OF assms(1)] by blast
  then obtain now a where step: "ledger_inv (with_db g (gs_db g))" "evolves now a (gs_db g) (gs_db g)"
    "fresh_leases (gs_used g) (gs_db g) (gs_db g)" "\<And>i. calm (gs_db g) (gs_db g) i" by (auto simp: calm_step_def)
  have ph': "ph' = Idle \<or> (\<exists>i \<in> set (actionIntents (gs_db g)). ph' = Seen i \<and> intent_call i = invocation inp)"
  proof (cases "getActionIntentConsent (gi_workspaceId inp) (gi_executionId inp) (gi_nodeId inp)
       (gi_invocationIdempotencyKey inp) (gs_db g)")
    case (Some c)
    then have "c \<in> set (concat (map (\<lambda>i. map (\<lambda>r. (i, r, getApprovalDecision (ar_id r) (gs_db g)))
         (filter (\<lambda>r. ar_id r = ai_approvalRequestId i) (approvalRequests (gs_db g))))
       (filter (\<lambda>i. ai_workspaceId i = gi_workspaceId inp \<and> ai_executionId i = gi_executionId inp \<and>
          ai_nodeId i = gi_nodeId inp \<and> ai_invocationIdempotencyKey i = gi_invocationIdempotencyKey inp) (actionIntents (gs_db g)))))"
      unfolding getActionIntentConsent_def by (rule first_row_Some)
    with Some assms(6) show ?thesis by (auto simp: found_phase_def intent_call_def invocation_def)
  qed (simp add: assms(6) found_phase_def)
  moreover have "row_of (gs_db g) i i" if "i \<in> set (actionIntents (gs_db g))" for i using that by (simp add: row_of_def)
  ultimately have knows: "knows cfg reg (with_db g (gs_db g)) inp ph'" by (auto simp: knows_def intro!: exI)
  have "\<not> engaged (with_db g (gs_db g)) inp ph'" using ph' by (auto simp: engaged_def)
  then show ?thesis by (intro thread_moves [OF assms(1-5) step(1-3) assms(7) knows]) (use step(4) in auto)
qed


lemma row_at:
  assumes "intent_inv d" "row_of d i row" "x \<in> set (actionIntents d)" "ai_id x = ai_id i"
  shows "x = row"
proof (rule distinct_rows_eq)
  show "distinct (map ai_id (actionIntents d))" using assms(1) by (simp add: intent_inv_def)
  show "ai_id x = ai_id row" using assms(2,4) key_call [of row i] by (simp add: row_of_def)
qed (use assms in \<open>auto simp: row_of_def\<close>)

lemma call_at:
  assumes "intent_inv d" "x \<in> set (actionIntents d)" "y \<in> set (actionIntents d)" "intent_call x = intent_call y"
  shows "x = y"
proof (rule distinct_rows_eq [OF _ assms(2,3,4)])
  show "distinct (map intent_call (actionIntents d))" using assms(1) by (simp add: intent_inv_def)
qed

lemma sent_dispatched:
  assumes "calls_inv cfg reg node_operation g" "calls_for inp (gs_calls g) \<noteq> []"
  shows "\<exists>i \<in> set (actionIntents (gs_db g)). intent_call i = invocation inp \<and> ai_dispatchStartedAt i \<noteq> None"
proof -
  obtain inp' c where c: "(inp', c) \<in> set (gs_calls g)" "is_execute c" "invocation inp' = invocation inp"
    using assms(2) by (fastforce simp: calls_for_def filter_empty_conv)
  then have "call_ok cfg reg (gs_db g) inp' c" using assms(1) by (auto simp: calls_inv_def)
  then show ?thesis using c by (auto simp: call_ok_def)
qed

lemma take_intent_simps [simp]:
  "ai_status (take_intent now who i) = I_executing" "ai_executionClaimId (take_intent now who i) = Some who"
  "ai_dispatchStartedAt (take_intent now who i) = ai_dispatchStartedAt i" "intent_key (take_intent now who i) = intent_key i"
  "intent_call (take_intent now who i) = intent_call i"
  by (simp_all add: take_intent_def intent_key_def intent_call_def)

lemma key_digest: "intent_key i = intent_key j \<Longrightarrow> digest_ok cfg i = digest_ok cfg j"
  by (simp add: intent_key_def digest_ok_def)

text \<open>A claim that is granted makes its claimant the only one that holds the intent.\<close>

lemma claim_keeps:
  assumes "ledger_inv g" "calls_inv cfg reg node_operation g" "threads_inv cfg reg node_operation g ph"
    "j < length (gs_threads g)" "fst (gs_threads g ! j) = inp" "operation_of reg inp = Some s" "ph j = Seen i" "digest_ok cfg i"
    "claim_txn cfg s (gi_executionClaimId inp) scopes (ai_id i) m (gs_db g) = Inr (d', v)"
    "behaves cfg (operation_of reg inp) inp (claimed_phase s v) p'"
  shows "gateway_inv cfg reg node_operation ((with_db g d')\<lparr>gs_threads := (gs_threads g)[j := (inp, p')]\<rparr>)"
proof (cases "claimed_phase s v")
  case (Fresh w)
  let ?who = "gi_executionClaimId inp" and ?d = "gs_db g"
  have inv: "intent_inv ?d" using assms(1) by (simp add: ledger_inv_def)
  then have ids: "distinct (map ai_id (actionIntents ?d))" by (simp add: intent_inv_def)
  from Fresh obtain r c where v: "v = Some r" "r = Cl_claimed w c \<or> r = Cl_recovered w c" "r = Cl_recovered w c \<longrightarrow> may_dispatch s w"
    by (auto simp: claimed_phase_def split: option.splits claim_result.splits if_splits)
  from claim_takes [OF assms(9) [unfolded claim_txn_def v(1)] inv v(2)] obtain row where
    t: "takes (mo_now m) ?who (ai_id i) ?d d' row w" and "r = Cl_claimed w c \<longrightarrow> ai_dispatchStartedAt w = None"
    by auto
  then have fresh: "may_dispatch s w" using v(2,3) by (auto simp: may_dispatch_def)
  have mv: "intent_step (mo_now m) (Some ?who) ?d d'" "executions d' = executions ?d" "attempts d' = attempts ?d"
    using is_claim [OF assms(9) [unfolded claim_txn_def]] claim_moves [OF assms(9) [unfolded claim_txn_def] ids]
      claim_attempts [OF assms(9) [unfolded claim_txn_def]] by (auto simp: moves_intents_def)
  have "calm_step g d'" using calm_intent [OF assms(1) mv(1,2)] mv(3) by simp
  then obtain now a where step: "ledger_inv (with_db g d')" "evolves now a ?d d'"
    "fresh_leases (gs_used g) ?d d'" "\<And>i. calm ?d d' i" by (auto simp: calm_step_def)
  have inv': "intent_inv d'" using step(1) by (simp add: ledger_inv_def)
  have "knows cfg reg g inp (Seen i)" using thread_facts(1) [OF assms(3-5)] assms(7) by simp
  then obtain seen where seen: "row_of ?d i seen" "intent_call i = invocation inp" by (auto simp: knows_def)
  have "row = seen" using row_at [OF inv seen(1)] t by (auto simp: takes_def)
  then have key: "intent_key w = intent_key i" using seen(1) t by (auto simp: takes_def row_of_def)
  have w: "row_of d' w w" "ai_status w = I_executing" "ai_executionClaimId w = Some ?who" "intent_call w = invocation inp"
    "digest_ok cfg w" "ai_dispatchStartedAt w = ai_dispatchStartedAt row"
    using t key seen(2) key_call [OF key] key_digest [OF key] assms(8) by (auto simp: takes_def row_of_def)
  have "holds ?d (ai_executionId row) ?who" using t lessee_holds by (auto simp: takes_def)
  then have used: "?who \<in> gs_used (with_db g d')" using assms(1) with_db_used by (auto simp: ledger_inv_def)
  have none: "ai_dispatchStartedAt row = None" if "one_shot reg inp"
    using that assms(6) fresh w(6) by (auto simp: one_shot_def may_dispatch_def)
  have row: "row \<in> set (actionIntents ?d)" "intent_call row = invocation inp"
    using t w(4) by (auto simp: takes_def)
  have unsent: "unsent (with_db g d') inp w" if "one_shot reg inp"
  proof -
    have "calls_for inp (gs_calls g) = []"
      using sent_dispatched [OF assms(2), of inp] call_at [OF inv row(1)] row(2) none [OF that] by metis
    then show ?thesis using rows_unique [OF inv' w(1)] none [OF that] w(6) by (auto simp: unsent_def)
  qed
  have "held d' inp w" using w(1-3) by (auto simp: held_def)
  then have knows: "knows cfg reg (with_db g d') inp (Fresh w)"
    using w used unsent by (auto simp: knows_def stake_def)
  show ?thesis
  proof (rule thread_moves [OF assms(1-5) step(1-3) assms(10) [unfolded Fresh] knows])
    fix k
    let ?inp = "fst (gs_threads g ! k)"
    assume k: "invocation ?inp = invocation inp" "one_shot reg inp" "engaged (with_db g d') ?inp (ph k)"
      "knows cfg reg (with_db g d') ?inp (ph k)" "engaged g ?inp (ph k)" "k < length (gs_threads g)"
    have same: "x = w" if "row_of d' q x" "intent_call q = invocation ?inp" for q x
      using call_at [OF inv' _ _ , of x w] w(1,4) that k(1) key_call [of x q] by (auto simp: row_of_def)
    show False
    proof (cases "ph k")
      case ph: (Fresh q)
      from k(4) ph have q: "intent_call q = invocation ?inp" by (simp add: knows_def stake_def)
      from k(3) ph obtain x where x: "row_of d' q x" "ai_executionClaimId x = Some (gi_executionClaimId ?inp)"
        by (auto simp: engaged_def held_def)
      then have who: "gi_executionClaimId ?inp = ?who" using same [OF x(1) q] w(3) by simp
      from k(5) ph obtain y where y: "row_of ?d q y" "ai_status y = I_executing" "ai_executionClaimId y = Some ?who"
        using who by (auto simp: engaged_def held_def)
      have "y = row" using call_at [OF inv _ row(1), of y] y(1) q k(1) row(2) key_call [of y q] by (auto simp: row_of_def)
      then show False using y t by (auto simp: takes_def)
    next
      case (Begun q)
      then obtain x where "row_of d' q x" "ai_dispatchStartedAt x \<noteq> None" "intent_call q = invocation ?inp"
        using k(4) by (auto simp: knows_def stake_def)
      then show False using same w(6) none [OF k(2)] by auto
    qed (use k(3) in \<open>auto simp: engaged_def\<close>)
  qed (rule step(4))
next
  case Idle
  let ?d = "gs_db g"
  have "distinct (map ai_id (actionIntents ?d))" using assms(1) by (simp add: ledger_inv_def intent_inv_def)
  then have "intent_step (mo_now m) (Some (gi_executionClaimId inp)) ?d d'" "executions d' = executions ?d" "attempts d' = attempts ?d"
    using is_claim [OF assms(9) [unfolded claim_txn_def]] claim_moves [OF assms(9) [unfolded claim_txn_def]]
      claim_attempts [OF assms(9) [unfolded claim_txn_def]] by (auto simp: moves_intents_def)
  then show ?thesis using calm_step_keeps [OF assms(1-5) calm_intent [OF assms(1)] assms(10)] Idle by simp
qed (auto simp: claimed_phase_def split: option.splits claim_result.splits if_splits)


lemma start_dispatch_key [simp]: "intent_key (start_dispatch now i) = intent_key i"
  by (simp add: intent_key_def start_dispatch_def)

text \<open>A dispatch is recorded before it is sent, by the invocation that holds the intent.\<close>

lemma begin_keeps:
  assumes "ledger_inv g" "calls_inv cfg reg node_operation g" "threads_inv cfg reg node_operation g ph"
    "j < length (gs_threads g)" "fst (gs_threads g ! j) = inp" "ph j = Fresh i"
    "begin_txn cfg s (gi_executionClaimId inp) scopes (ai_id i) m (gs_db g) = Inr (d', v)"
    "behaves cfg (operation_of reg inp) inp (if v = None then Idle else Begun i) p'"
  shows "gateway_inv cfg reg node_operation ((with_db g d')\<lparr>gs_threads := (gs_threads g)[j := (inp, p')]\<rparr>)"
proof -
  let ?who = "gi_executionClaimId inp" and ?d = "gs_db g"
  have inv: "intent_inv ?d" using assms(1) by (simp add: ledger_inv_def)
  then have ids: "distinct (map ai_id (actionIntents ?d))" by (simp add: intent_inv_def)
  note b = assms(7) [unfolded begin_txn_def]
  have mv: "intent_step (mo_now m) (Some ?who) ?d d'" "executions d' = executions ?d"
    using is_begin [OF b] begin_moves [OF b ids] by (auto simp: moves_intents_def)
  show ?thesis
  proof (cases v)
    case None
    have "attempts d' = attempts ?d" using begin_none_attempts b None by blast
    then have "calm_step g d'" using calm_intent [OF assms(1) mv] by simp
    then show ?thesis using calm_step_keeps [OF assms(1-5) _ assms(8)] None by simp
  next
    case (Some y)
    have k: "knows cfg reg g inp (Fresh i)" using thread_facts(1) [OF assms(3-5)] assms(6) by simp
    then obtain row where k: "stake cfg g inp i" "row_of ?d i row" "one_shot reg inp \<and> held ?d inp i \<longrightarrow> unsent g inp i"
      by (auto simp: knows_def)
    from begin_starts [OF b [unfolded Some] ids] obtain r where r: "r \<in> set (actionIntents ?d)" "ai_id r = ai_id i"
      "ai_status r = I_executing" "ai_executionClaimId r = Some ?who" "consented ?d r"
      "actionIntents d' = map (\<lambda>x. if x = r then start_dispatch (mo_now m) r else x) (actionIntents ?d)" by auto
    have row: "r = row" using row_at [OF inv k(2) r(1,2)] .
    have held: "held ?d inp i" using k(2) row r(3,4) by (auto simp: held_def)
    have step: "ledger_inv (with_db g d')" "evolves (mo_now m) (Some ?who) ?d d'" "fresh_leases (gs_used g) ?d d'"
      using intent_ledger [OF assms(1) mv(1)] system_evolves [OF inv sys_intent [OF mv(1)]] same_leases [OF mv(2)] by auto
    have inv': "intent_inv d'" using step(1) by (simp add: ledger_inv_def)
    let ?r = "start_dispatch (mo_now m) r"
    have r': "row_of d' i ?r" using r(1,6) k(2) row by (auto simp: row_of_def)
    have "consented d' ?r" using step(2) r(5) by (auto simp: evolves_def)
    moreover have "stake cfg (with_db g d') inp i"
      using k(1) r' r(3,4) with_db_used [of ?who g d'] by (auto simp: stake_def held_def)
    moreover have "calls_for inp (gs_calls g) = []" if "one_shot reg inp" using k(3) held that by (auto simp: unsent_def)
    ultimately have knows: "knows cfg reg (with_db g d') inp (Begun i)"
      unfolding knows_def phase.case with_db_simps using r' start_dispatch_simps(4) [of "mo_now m" r] by blast
    have engaged: "engaged g inp (ph j)" using held assms(6) by (simp add: engaged_def)
    have calm: "calm ?d d' q"
      if q: "l < length (gs_threads g)" "l \<noteq> j" "ph l = Fresh q" "one_shot reg (fst (gs_threads g ! l))" "held ?d (fst (gs_threads g ! l)) q"
      for l q
      unfolding calm_def
    proof (intro allI impI)
      fix x x'
      assume x: "row_of ?d q x" "row_of d' q x'"
      note facts = thread_facts [OF assms(3) q(1) refl]
      show "ai_providerAttemptCount x' = ai_providerAttemptCount x"
      proof (cases "x = r")
        case True
        have "intent_call q = invocation (fst (gs_threads g ! l))" using facts(1) q(3) by (simp add: knows_def stake_def)
        moreover have "intent_call q = intent_call i"
          using x(1) k(2) True row key_call [of x q] key_call [of row i] by (simp add: row_of_def)
        ultimately have same: "invocation (fst (gs_threads g ! l)) = invocation inp" using k(1) by (simp add: stake_def)
        then have "one_shot reg inp"
          using one_shot_same [OF facts(3) thread_facts(3) [OF assms(3-5)]] q(4) by simp
        moreover have "engaged g (fst (gs_threads g ! l)) (ph l)" using q(3,5) by (simp add: engaged_def)
        ultimately show ?thesis using thread_alone [OF assms(3-5) q(1,2) same] engaged by blast
      next
        case False
        then have "row_of d' q x" using x(1) r(6) by (auto simp: row_of_def)
        then show ?thesis using rows_unique [OF inv' x(2)] by simp
      qed
    qed
    show ?thesis
    proof (rule thread_moves [OF assms(1-5) step _ knows])
      show "behaves cfg (operation_of reg inp) inp (Begun i) p'" using assms(8) Some by simp
      show "calm ?d d' q" if "l < length (gs_threads g)" "l \<noteq> j" "ph l = Fresh q" "one_shot reg (fst (gs_threads g ! l))"
        "held ?d (fst (gs_threads g ! l)) q" for l q using calm that .
      show False if "l < length (gs_threads g)" "l \<noteq> j" "invocation (fst (gs_threads g ! l)) = invocation inp" "one_shot reg inp"
        "engaged g (fst (gs_threads g ! l)) (ph l)" for l
        using thread_alone [OF assms(3-5) that(1-4) engaged that(5)] .
    qed
  qed
qed

lemma transact_keeps:
  assumes "gateway_inv cfg reg node_operation g" "j < length (gs_threads g)" "gs_threads g ! j = (inp, Transact f k)"
    "fresh_intent (mo_ids m) (gs_db g)"
  shows "gateway_inv cfg reg node_operation
    ((with_db g (f m (gs_db g)))\<lparr>gs_threads := (gs_threads g)[j := (inp, k m (gs_db g))]\<rparr>)"
proof -
  from assms(1) obtain ph where inv: "ledger_inv g" "calls_inv cfg reg node_operation g" "threads_inv cfg reg node_operation g ph"
    by (auto simp: gateway_inv_def)
  have j: "fst (gs_threads g ! j) = inp" using assms(3) by simp
  have "behaves cfg (operation_of reg inp) inp (ph j) (Transact f k)" using thread_facts(2) [OF inv(3) assms(2) j] assms(3) by simp
  from transact_moves [OF this, of m "gs_db g"] obtain ph' where
    b: "behaves cfg (operation_of reg inp) inp ph' (k m (gs_db g))" and
    mv: "moved cfg (operation_of reg inp) inp m (gs_db g) (f m (gs_db g)) (ph j) ph'" by blast
  note keep = inv assms(2) j
  from mv consider
      (settle) "settles (gi_executionClaimId inp) m (gs_db g) (f m (gs_db g))" "ph' = ph j \<or> ph' = Idle"
    | (find) "f m (gs_db g) = gs_db g" "ph' = found_phase (getActionIntentConsent (gi_workspaceId inp) (gi_executionId inp)
        (gi_nodeId inp) (gi_invocationIdempotencyKey inp) (gs_db g))"
    | (claim) s i scopes v where "operation_of reg inp = Some s" "ph j = Seen i" "digest_ok cfg i"
        "claim_txn cfg s (gi_executionClaimId inp) scopes (ai_id i) m (gs_db g) = Inr (f m (gs_db g), v)" "ph' = claimed_phase s v"
    | (dispatch) s i scopes v where "ph j = Fresh i"
        "begin_txn cfg s (gi_executionClaimId inp) scopes (ai_id i) m (gs_db g) = Inr (f m (gs_db g), v)"
        "ph' = (if v = None then Idle else Begun i)"
    unfolding moved_def by blast
  then show ?thesis
  proof cases
    case settle
    show ?thesis using calm_step_keeps [OF keep settle_calm [OF inv(1) settle(1) assms(4)] b settle(2)] .
  next
    case find
    show ?thesis using find_keeps [OF keep find(2) b] find(1) by simp
  next
    case claim
    show ?thesis using claim_keeps [OF keep claim(1-4) b [unfolded claim(5)]] .
  next
    case dispatch
    show ?thesis using begin_keeps [OF keep dispatch(1,2) b [unfolded dispatch(3)]] .
  qed
qed


text \<open>What a call of a provider does: it is sent when the phase says so, and changes nothing else.\<close>

lemma call_moves:
  assumes "behaves cfg opt inp ph (Call c k)"
  shows "\<exists>ph'. behaves cfg opt inp ph' (k r) \<and> (\<not> is_execute c \<and> (ph' = ph \<or> ph' = Idle) \<or>
    (\<exists>s i ps pre credential. opt = Some s \<and> ph = Begun i \<and> ph' = called_phase s i \<and>
       so_parametersSchema s (ev_parameters (ai_canonicalEnvelope i)) = Some ps \<and>
       so_preconditionsSchema s (ev_providerPreconditions (ai_canonicalEnvelope i)) = Some pre \<and>
       c = Execute (so_id s) ps pre credential (ai_invocationIdempotencyKey i)))"
  using assms
proof (induction ph "Call c k")
  case (b_weaken ph)
  then show ?case by blast
next
  case (b_execute s i ps pre credential)
  then show ?case by (intro exI [of _ "called_phase s i"]) auto
next
  case (b_call ph)
  then show ?case by blast
qed

lemma fetch_moves:
  assumes "behaves cfg opt inp ph (Fetch q k)"
  shows "\<exists>ph'. behaves cfg opt inp ph' (k r) \<and> (ph' = ph \<or> ph' = Idle)"
  using assms by (induction ph "Fetch q k") auto

lemma calls_for_snoc:
  "calls_for inp (cs @ [(inp', c)]) = calls_for inp cs @ (if is_execute c \<and> invocation inp' = invocation inp then [(inp', c)] else [])"
  by (simp add: calls_for_def)

text \<open>Nothing of what others know depends on a call that is not theirs.\<close>

lemma knows_call:
  assumes "knows cfg reg g inp ph" "\<not> (is_execute c \<and> invocation inp' = invocation inp \<and> one_shot reg inp \<and> engaged g inp ph)"
  shows "knows cfg reg (g\<lparr>gs_calls := gs_calls g @ [(inp', c)]\<rparr>) inp ph"
proof (cases ph)
  case (Fresh i)
  then show ?thesis
    using assms by (auto simp: knows_def stake_def unsent_def calls_for_snoc engaged_def)
next
  case (Begun i)
  then show ?thesis using assms by (auto simp: knows_def stake_def calls_for_snoc engaged_def)
qed (use assms in \<open>auto simp: knows_def\<close>)

lemma engaged_calls [simp]: "engaged (g\<lparr>gs_calls := cs\<rparr>) inp ph = engaged g inp ph"
  by (simp add: engaged_def cong: phase.case_cong)

lemma reply_keeps:
  assumes inv: "ledger_inv g" "threads_inv cfg reg node_operation g ph" "j < length (gs_threads g)" "fst (gs_threads g ! j) = inp"
    and own: "behaves cfg (operation_of reg inp) inp ph' p'" "knows cfg reg (g\<lparr>gs_calls := cs\<rparr>) inp ph'"
      "one_shot reg inp \<Longrightarrow> engaged g inp ph' \<Longrightarrow> engaged g inp (ph j)"
    and others: "\<And>k. k < length (gs_threads g) \<Longrightarrow> k \<noteq> j \<Longrightarrow>
      knows cfg reg (g\<lparr>gs_calls := cs\<rparr>) (fst (gs_threads g ! k)) (ph k)"
    and calls: "calls_inv cfg reg node_operation (g\<lparr>gs_calls := cs\<rparr>)"
  shows "gateway_inv cfg reg node_operation (g\<lparr>gs_threads := (gs_threads g)[j := (inp, p')], gs_calls := cs\<rparr>)"
proof -
  let ?h = "g\<lparr>gs_calls := cs\<rparr>" and ?n = "length (gs_threads g)"
  let ?g = "?h\<lparr>gs_threads := (gs_threads g)[j := (inp, p')]\<rparr>"
  define inps where "inps k = fst (gs_threads g ! k)" for k
  have jn: "inps j = inp" using inv(4) by (simp add: inps_def)
  have at: "fst (gs_threads ?g ! k) = inps k" if "k < ?n" for k
    using that inv(3) jn by (cases "k = j") (simp_all add: inps_def)
  have "thread_ok cfg reg node_operation ?g (gs_threads ?g ! k) ((ph(j := ph')) k)" if "k < ?n" for k
  proof (cases "k = j")
    case True
    then show ?thesis
      using own(1,2) inv(3) thread_facts(3) [OF inv(2-4)]
      by (simp del: gateway_state.update_defs add: thread_ok_def)
  next
    case False
    then show ?thesis using thread_facts [OF inv(2) that refl] others [OF that] by (simp add: thread_ok_def)
  qed
  moreover have "\<not> (engaged ?g (inps k) ((ph(j := ph')) k) \<and> engaged ?g (inps l) ((ph(j := ph')) l))"
    if kl: "k < ?n" "l < ?n" "k \<noteq> l" "invocation (inps k) = invocation (inps l)" "one_shot reg (inps k)" for k l
  proof -
    have "one_shot reg (inps l)"
      using one_shot_same [OF thread_facts(3) [OF inv(2) kl(1) refl] thread_facts(3) [OF inv(2) kl(2) refl]] kl(4,5)
      by (simp add: inps_def)
    moreover have "\<not> (engaged g (inps k) (ph k) \<and> engaged g (inps l) (ph l))"
      using thread_alone [OF inv(2) kl(2) refl kl(1) kl(3), folded inps_def] kl(4) calculation by blast
    ultimately show ?thesis using kl own(3) jn by (cases "k = j"; cases "l = j") auto
  qed
  ultimately have "threads_inv cfg reg node_operation ?g (ph(j := ph'))"
    unfolding threads_inv_def using at by simp
  moreover have "calls_inv cfg reg node_operation ?g" using calls by (simp add: calls_inv_def)
  moreover have "ledger_inv ?g" using inv(1) by (simp add: ledger_inv_def)
  ultimately have "gateway_inv cfg reg node_operation ?g" unfolding gateway_inv_def by blast
  moreover have "?g = g\<lparr>gs_threads := (gs_threads g)[j := (inp, p')], gs_calls := cs\<rparr>" by simp
  ultimately show ?thesis by simp
qed

lemma calls_for_same: "invocation inp = invocation inp' \<Longrightarrow> calls_for inp cs = calls_for inp' cs"
  by (simp add: calls_for_def)

lemma calls_inv_snoc:
  assumes "calls_inv cfg reg node_operation g" "gi_operationId inp = node_operation (gi_executionId inp) (gi_nodeId inp)"
    "call_ok cfg reg (gs_db g) inp c" "is_execute c \<Longrightarrow> one_shot reg inp \<Longrightarrow> calls_for inp (gs_calls g) = []"
  shows "calls_inv cfg reg node_operation (g\<lparr>gs_calls := gs_calls g @ [(inp, c)]\<rparr>)"
  unfolding calls_inv_def
proof (intro ballI, clarify)
  fix inp' c'
  assume e: "(inp', c') \<in> set (gs_calls (g\<lparr>gs_calls := gs_calls g @ [(inp, c)]\<rparr>))"
  then have new: "(inp', c') = (inp, c) \<or> (inp', c') \<in> set (gs_calls g)" by auto
  have op: "gi_operationId inp' = node_operation (gi_executionId inp') (gi_nodeId inp') \<and> call_ok cfg reg (gs_db g) inp' c'"
    using new assms(1-3) by (auto simp: calls_inv_def)
  have "length (calls_for inp' (gs_calls g @ [(inp, c)])) \<le> 1" if os: "one_shot reg inp'"
  proof (cases "is_execute c \<and> invocation inp = invocation inp'")
    case True
    then have "one_shot reg inp" using one_shot_same [OF assms(2) conjunct1 [OF op]] os by simp
    then show ?thesis using True assms(4) calls_for_same [of inp inp'] by (simp add: calls_for_snoc)
  next
    case False
    show ?thesis
    proof (cases "(inp', c') \<in> set (gs_calls g)")
      case True
      then show ?thesis using False os assms(1) by (auto simp: calls_inv_def calls_for_snoc)
    next
      case no: False
      then have "\<not> is_execute c" "inp' = inp" using False new by auto
      moreover have "calls_for inp (gs_calls g) = [] \<or> length (calls_for inp (gs_calls g)) \<le> 1"
      proof (cases "calls_for inp (gs_calls g)")
        case (Cons e es)
        then have "e \<in> set (calls_for inp (gs_calls g))" by simp
        then have m: "e \<in> set (gs_calls g)" "invocation (fst e) = invocation inp" by (auto simp: calls_for_def)
        have "one_shot reg (fst e) = one_shot reg inp"
          using m assms(1,2) by (intro one_shot_same [of _ node_operation]) (auto simp: calls_inv_def)
        then have "length (calls_for (fst e) (gs_calls g)) \<le> 1"
          using m assms(1) os \<open>inp' = inp\<close> by (auto simp: calls_inv_def)
        then show ?thesis using calls_for_same [OF m(2)] by simp
      qed simp
      ultimately show ?thesis by (auto simp: calls_for_snoc)
    qed
  qed
  then show "gi_operationId inp' = node_operation (gi_executionId inp') (gi_nodeId inp') \<and>
      call_ok cfg reg (gs_db (g\<lparr>gs_calls := gs_calls g @ [(inp, c)]\<rparr>)) inp' c' \<and>
      (one_shot reg inp' \<longrightarrow> length (calls_for inp' (gs_calls (g\<lparr>gs_calls := gs_calls g @ [(inp, c)]\<rparr>))) \<le> 1)"
    using op by simp
qed

lemma begun_call:
  assumes "knows cfg reg g inp (Begun i)" "operation_of reg inp = Some s"
    "so_parametersSchema s (ev_parameters (ai_canonicalEnvelope i)) = Some ps"
    "so_preconditionsSchema s (ev_providerPreconditions (ai_canonicalEnvelope i)) = Some pre"
  shows "call_ok cfg reg (gs_db g) inp (Execute (so_id s) ps pre credential (ai_invocationIdempotencyKey i))"
proof -
  from assms(1) obtain row where row: "row_of (gs_db g) i row" "consented (gs_db g) row" "ai_dispatchStartedAt row \<noteq> None"
    and i: "intent_call i = invocation inp" "digest_ok cfg i" by (auto simp: knows_def stake_def)
  have "ai_canonicalEnvelope row = ai_canonicalEnvelope i" "intent_call row = intent_call i"
    using row(1) by (auto simp: row_of_def intent_key_def intent_call_def)
  moreover have "digest_ok cfg row" using i(2) key_digest [of row i] row(1) by (simp add: row_of_def)
  moreover have "ai_invocationIdempotencyKey i = gi_invocationIdempotencyKey inp" using i(1) by (simp add: intent_call_def invocation_def)
  ultimately show ?thesis
    unfolding call_ok_def using row assms(2-4) i(1)
    by (intro impI exI [of _ s] exI [of _ row] exI [of _ ps] exI [of _ pre] exI [of _ credential]) (auto simp: row_of_def)
qed

lemma call_keeps:
  assumes "gateway_inv cfg reg node_operation g" "j < length (gs_threads g)" "gs_threads g ! j = (inp, Call c k)"
  shows "gateway_inv cfg reg node_operation
    (g\<lparr>gs_threads := (gs_threads g)[j := (inp, k r)], gs_calls := gs_calls g @ [(inp, c)]\<rparr>)"
proof -
  from assms(1) obtain ph where inv: "ledger_inv g" "calls_inv cfg reg node_operation g" "threads_inv cfg reg node_operation g ph"
    by (auto simp: gateway_inv_def)
  have j: "fst (gs_threads g ! j) = inp" using assms(3) by simp
  note facts = thread_facts [OF inv(3) assms(2) j]
  have "behaves cfg (operation_of reg inp) inp (ph j) (Call c k)" using facts(2) assms(3) by simp
  from call_moves [OF this, of r] obtain ph' where b: "behaves cfg (operation_of reg inp) inp ph' (k r)" and
    mv: "\<not> is_execute c \<and> (ph' = ph j \<or> ph' = Idle) \<or>
      (\<exists>s i ps pre credential. operation_of reg inp = Some s \<and> ph j = Begun i \<and> ph' = called_phase s i \<and>
         so_parametersSchema s (ev_parameters (ai_canonicalEnvelope i)) = Some ps \<and>
         so_preconditionsSchema s (ev_providerPreconditions (ai_canonicalEnvelope i)) = Some pre \<and>
         c = Execute (so_id s) ps pre credential (ai_invocationIdempotencyKey i))" by blast
  from mv consider (quiet) "\<not> is_execute c" "ph' = ph j \<or> ph' = Idle"
    | (sent) s i ps pre credential where "operation_of reg inp = Some s" "ph j = Begun i" "ph' = called_phase s i"
        "so_parametersSchema s (ev_parameters (ai_canonicalEnvelope i)) = Some ps"
        "so_preconditionsSchema s (ev_providerPreconditions (ai_canonicalEnvelope i)) = Some pre"
        "c = Execute (so_id s) ps pre credential (ai_invocationIdempotencyKey i)"
    by blast
  then show ?thesis
  proof cases
    case quiet
    have kept: "knows cfg reg (g\<lparr>gs_calls := gs_calls g @ [(inp, c)]\<rparr>) inp' q" if "knows cfg reg g inp' q" for inp' q
      using knows_call [OF that] quiet(1) by blast
    show ?thesis
    proof (rule reply_keeps [OF inv(1,3) assms(2) j b])
      show "knows cfg reg (g\<lparr>gs_calls := gs_calls g @ [(inp, c)]\<rparr>) inp ph'"
        using kept [OF facts(1)] quiet(2) by (auto simp: knows_def)
      show "engaged g inp (ph j)" if "engaged g inp ph'" using that quiet(2) by (auto simp: engaged_def)
      show "calls_inv cfg reg node_operation (g\<lparr>gs_calls := gs_calls g @ [(inp, c)]\<rparr>)"
        by (rule calls_inv_snoc [OF inv(2) facts(3)]) (use quiet(1) in \<open>auto simp: call_ok_def\<close>)
      show "knows cfg reg (g\<lparr>gs_calls := gs_calls g @ [(inp, c)]\<rparr>) (fst (gs_threads g ! l)) (ph l)"
        if "l < length (gs_threads g)" "l \<noteq> j" for l
        by (rule kept [OF thread_facts(1) [OF inv(3) that(1) refl]])
    qed
  next
    case e: (sent s i ps pre credential)
    have begun: "knows cfg reg g inp (Begun i)" using facts(1) e(2) by simp
    have engaged: "engaged g inp (ph j)" using e(2) by (simp add: engaged_def)
    show ?thesis
    proof (rule reply_keeps [OF inv(1,3) assms(2) j b])
      have "knows cfg reg (g\<lparr>gs_calls := gs_calls g @ [(inp, c)]\<rparr>) inp (Fresh i)" if "so_retrySafety s = Provider_idempotency"
      proof -
        have "\<not> one_shot reg inp" using that e(1) by (simp add: one_shot_def)
        then show ?thesis using begun by (auto simp: knows_def stake_def)
      qed
      then show "knows cfg reg (g\<lparr>gs_calls := gs_calls g @ [(inp, c)]\<rparr>) inp ph'"
        by (auto simp: e(3) called_phase_def) (simp add: knows_def)
      show "engaged g inp (ph j)" using engaged .
      show "calls_inv cfg reg node_operation (g\<lparr>gs_calls := gs_calls g @ [(inp, c)]\<rparr>)"
        by (rule calls_inv_snoc [OF inv(2) facts(3)])
           (use begun_call [OF begun e(1,4,5), of credential] begun in \<open>auto simp: e(6) knows_def\<close>)
      show "knows cfg reg (g\<lparr>gs_calls := gs_calls g @ [(inp, c)]\<rparr>) (fst (gs_threads g ! l)) (ph l)"
        if l: "l < length (gs_threads g)" "l \<noteq> j" for l
      proof (rule knows_call [OF thread_facts(1) [OF inv(3) l(1) refl]], clarify)
        assume s: "invocation inp = invocation (fst (gs_threads g ! l))" "one_shot reg (fst (gs_threads g ! l))"
          "engaged g (fst (gs_threads g ! l)) (ph l)"
        have "one_shot reg inp" using one_shot_same [OF facts(3) thread_facts(3) [OF inv(3) l(1) refl] s(1)] s(2) by simp
        then show False using thread_alone [OF inv(3) assms(2) j l] s(1,3) engaged by simp
      qed
    qed
  qed
qed


lemma fetch_keeps:
  assumes "gateway_inv cfg reg node_operation g" "j < length (gs_threads g)" "gs_threads g ! j = (inp, Fetch q k)"
  shows "gateway_inv cfg reg node_operation (g\<lparr>gs_threads := (gs_threads g)[j := (inp, k r)]\<rparr>)"
proof -
  from assms(1) obtain ph where inv: "ledger_inv g" "calls_inv cfg reg node_operation g" "threads_inv cfg reg node_operation g ph"
    by (auto simp: gateway_inv_def)
  have j: "fst (gs_threads g ! j) = inp" using assms(3) by simp
  note facts = thread_facts [OF inv(3) assms(2) j]
  have "behaves cfg (operation_of reg inp) inp (ph j) (Fetch q k)" using facts(2) assms(3) by simp
  from fetch_moves [OF this, of r] obtain ph' where b: "behaves cfg (operation_of reg inp) inp ph' (k r)" "ph' = ph j \<or> ph' = Idle"
    by blast
  have "gateway_inv cfg reg node_operation (g\<lparr>gs_threads := (gs_threads g)[j := (inp, k r)], gs_calls := gs_calls g\<rparr>)"
  proof (rule reply_keeps [OF inv(1,3) assms(2) j b(1)])
    show "knows cfg reg (g\<lparr>gs_calls := gs_calls g\<rparr>) inp ph'" using facts(1) b(2) by (auto simp: knows_def)
    show "engaged g inp (ph j)" if "engaged g inp ph'" using that b(2) by (auto simp: engaged_def)
    show "knows cfg reg (g\<lparr>gs_calls := gs_calls g\<rparr>) (fst (gs_threads g ! l)) (ph l)" if "l < length (gs_threads g)" for l
      using thread_facts(1) [OF inv(3) that refl] by simp
  qed (use inv(2) in simp)
  then show ?thesis by simp
qed

lemma invoke_keeps:
  assumes "gateway_inv cfg reg node_operation g" "gi_operationId inp = node_operation (gi_executionId inp) (gi_nodeId inp)"
  shows "gateway_inv cfg reg node_operation (g\<lparr>gs_threads := gs_threads g @ [(inp, execute cfg n reg inp)]\<rparr>)"
proof -
  let ?n = "length (gs_threads g)" and ?g = "g\<lparr>gs_threads := gs_threads g @ [(inp, execute cfg n reg inp)]\<rparr>"
  from assms(1) obtain ph where inv: "ledger_inv g" "calls_inv cfg reg node_operation g" "threads_inv cfg reg node_operation g ph"
    by (auto simp: gateway_inv_def)
  have "knows cfg reg g inp Idle" by (simp add: knows_def)
  then have new: "thread_ok cfg reg node_operation ?g (inp, execute cfg n reg inp) Idle"
    using assms(2) behaves_execute [of cfg reg inp n] by (simp add: thread_ok_def)
  have idle: "\<not> engaged g inp Idle" by (simp add: engaged_def)
  have "threads_inv cfg reg node_operation ?g (ph(?n := Idle))"
    unfolding threads_inv_def
  proof (intro conjI allI impI)
    show "thread_ok cfg reg node_operation ?g (gs_threads ?g ! k) ((ph(?n := Idle)) k)" if "k < length (gs_threads ?g)" for k
    proof (cases "k = ?n")
      case False
      then have k: "k < ?n" using that by simp
      then have "thread_ok cfg reg node_operation g (gs_threads g ! k) (ph k)" using inv(3) by (simp add: threads_inv_def)
      then have "thread_ok cfg reg node_operation ?g (gs_threads g ! k) (ph k)" unfolding thread_ok_def knows_threads .
      with k False show ?thesis by (simp add: nth_append)
    qed (use new in \<open>simp add: nth_append\<close>)
    show "\<not> (engaged ?g (fst (gs_threads ?g ! k)) ((ph(?n := Idle)) k) \<and> engaged ?g (fst (gs_threads ?g ! l)) ((ph(?n := Idle)) l))"
      if "k < length (gs_threads ?g)" "l < length (gs_threads ?g)" "k \<noteq> l"
        "invocation (fst (gs_threads ?g ! k)) = invocation (fst (gs_threads ?g ! l))" "one_shot reg (fst (gs_threads ?g ! k))" for k l
      using that idle thread_alone [OF inv(3), of k _ l] by (cases "k = ?n"; cases "l = ?n") (auto simp: nth_append)
  qed
  moreover have "ledger_inv ?g" "calls_inv cfg reg node_operation ?g" using inv(1,2) by (simp_all add: ledger_inv_def calls_inv_def)
  ultimately show ?thesis by (auto simp: gateway_inv_def)
qed

lemma gateway_step_inv:
  assumes "gateway_step cfg reg node_operation g g'" "gateway_inv cfg reg node_operation g"
  shows "gateway_inv cfg reg node_operation g'"
  using assms(1)
proof cases
  have led: "ledger_inv g" "intent_inv (gs_db g)" using assms(2) by (auto simp: gateway_inv_def ledger_inv_def)
  case (gw_store now a d')
  have "actionIntents d' = actionIntents (gs_db g)"
    using store_step_approvals [OF gw_store(2)] approval_step_intents by (fastforce simp: approval_tables_def)
  then have "attempts d' = attempts (gs_db g)" by (simp add: attempts_def)
  then show ?thesis
    unfolding gw_store(1)
    using environment_keeps [OF assms(2) store_ledger [OF led(1) gw_store(2)] system_evolves [OF led(2) sys_store [OF gw_store(2)]] gw_store(3)]
      system_calm [OF led(2) sys_store [OF gw_store(2)]] by blast
next
  have led: "ledger_inv g" "intent_inv (gs_db g)" using assms(2) by (auto simp: gateway_inv_def ledger_inv_def)
  case (gw_intent now d')
  then show ?thesis
    using environment_keeps [OF assms(2) intent_ledger [OF led(1) gw_intent(2)] system_evolves [OF led(2) sys_intent [OF gw_intent(2)]] gw_intent(3)]
      system_calm [OF led(2) sys_intent [OF gw_intent(2)]] by blast
next
  have led: "ledger_inv g" using assms(2) by (simp add: gateway_inv_def)
  case (gw_other d')
  then show ?thesis using calm_frame [OF led gw_other(2)] environment_keeps [OF assms(2)] by (auto simp: calm_step_def)
qed (use assms(2) invoke_keeps transact_keeps call_keeps fetch_keeps in simp_all)

lemma gateway_run_inv:
  assumes "(gateway_step cfg reg node_operation)\<^sup>*\<^sup>* g g'" "gateway_inv cfg reg node_operation g"
  shows "gateway_inv cfg reg node_operation g'"
  using assms by (induction rule: rtranclp_induct) (auto intro: gateway_step_inv)

lemma idle_inv: "ledger_inv g \<Longrightarrow> gs_threads g = [] \<Longrightarrow> gs_calls g = [] \<Longrightarrow> gateway_inv cfg reg node_operation g"
  by (auto simp: gateway_inv_def threads_inv_def calls_inv_def)


text \<open>
  C9. The connector gateway under concurrency. Start with no invocation running and let any number
  of invocations run, interleaved in any way with each other and with workers, reviewers, pollers
  and revocations, where every lease is taken under a new claim identifier. Then each side effect
  that was sent to a provider belongs to the intent of that invocation; a person approved that
  intent; the digest approved is the digest of the stored envelope; the arguments sent are those of
  the envelope, with the idempotency key of the invocation. An operation whose provider does not
  deduplicate is sent at most once, whatever crashes and takeovers happen.
\<close>

theorem side_effects_approved_once:
  assumes "ledger_inv g0" "gs_threads g0 = []" "gs_calls g0 = []" "(gateway_step cfg reg node_operation)\<^sup>*\<^sup>* g0 g"
    "(inp, Execute oid ps pre credential key) \<in> set (gs_calls g)"
  shows "\<exists>s i. registeredSideEffectOperation reg (gi_operationId inp) = Some s \<and> oid = so_id s \<and>
    i \<in> set (actionIntents (gs_db g)) \<and>
    ai_executionId i = gi_executionId inp \<and> ai_nodeId i = gi_nodeId inp \<and> ai_invocationIdempotencyKey i = gi_invocationIdempotencyKey inp \<and>
    consented (gs_db g) i \<and>
    digestActionIntent (gc_sha cfg) (gc_shown cfg) (envelope_json (ai_canonicalEnvelope i)) = Some (ai_canonicalDigest i) \<and>
    so_parametersSchema s (ev_parameters (ai_canonicalEnvelope i)) = Some ps \<and>
    so_preconditionsSchema s (ev_providerPreconditions (ai_canonicalEnvelope i)) = Some pre \<and>
    key = gi_invocationIdempotencyKey inp \<and>
    (so_retrySafety s = No_retry \<longrightarrow> length (calls_for inp (gs_calls g)) = 1)"
proof -
  have "gateway_inv cfg reg node_operation g" using gateway_run_inv [OF assms(4) idle_inv [OF assms(1-3)]] .
  then have c: "call_ok cfg reg (gs_db g) inp (Execute oid ps pre credential key)"
    "one_shot reg inp \<longrightarrow> length (calls_for inp (gs_calls g)) \<le> 1"
    using assms(5) by (auto simp: gateway_inv_def calls_inv_def)
  have "(inp, Execute oid ps pre credential key) \<in> set (calls_for inp (gs_calls g))"
    using assms(5) by (simp add: calls_for_def is_execute_def)
  then have "length (calls_for inp (gs_calls g)) \<noteq> 0" by auto
  then have once: "length (calls_for inp (gs_calls g)) = 1" if "one_shot reg inp" using c(2) that by linarith
  from c(1) obtain s i where "operation_of reg inp = Some s" "i \<in> set (actionIntents (gs_db g))" "intent_call i = invocation inp"
    "consented (gs_db g) i" "digest_ok cfg i" "so_parametersSchema s (ev_parameters (ai_canonicalEnvelope i)) = Some ps"
    "so_preconditionsSchema s (ev_providerPreconditions (ai_canonicalEnvelope i)) = Some pre" "oid = so_id s"
    "key = gi_invocationIdempotencyKey inp"
    by (auto simp: call_ok_def is_execute_def)
  with once show ?thesis
    by (intro exI [of _ s] exI [of _ i]) (auto simp: intent_call_def invocation_def digest_ok_def one_shot_def)
qed

section \<open>One invocation alone\<close>

text \<open>What a program does when nobody interferes and the clock stands still: its outcome, the database, the calls.\<close>

primrec run_alone ::
  "moment \<Rightarrow> (provider_call \<Rightarrow> thrown + jsval) \<Rightarrow> (http_request \<Rightarrow> thrown + http_response) \<Rightarrow> 'a program \<Rightarrow> db \<Rightarrow>
     (thrown + 'a) option \<times> db \<times> provider_call list" where
  "run_alone m ask web (Return v) = (\<lambda>d. (Some (Inr v), d, []))"
| "run_alone m ask web Stuck = (\<lambda>d. (None, d, []))"
| "run_alone m ask web (Throw e) = (\<lambda>d. (Some (Inl e), d, []))"
| "run_alone m ask web (Transact f g) = (\<lambda>d. run_alone m ask web (g m d) (f m d))"
| "run_alone m ask web (Call c g) = (\<lambda>d. case run_alone m ask web (g (ask c)) d of (r, d', cs) \<Rightarrow> (r, d', c # cs))"
| "run_alone m ask web (Fetch q g) = (\<lambda>d. run_alone m ask web (g (web q)) d)"

text \<open>The identifiers of the moment stay unused.\<close>

primrec unused_ids ::
  "moment \<Rightarrow> (provider_call \<Rightarrow> thrown + jsval) \<Rightarrow> (http_request \<Rightarrow> thrown + http_response) \<Rightarrow> 'a program \<Rightarrow> db \<Rightarrow> bool" where
  "unused_ids m ask web (Return v) = (\<lambda>d. True)"
| "unused_ids m ask web Stuck = (\<lambda>d. True)"
| "unused_ids m ask web (Throw e) = (\<lambda>d. True)"
| "unused_ids m ask web (Transact f g) = (\<lambda>d. fresh_intent (mo_ids m) d \<and> unused_ids m ask web (g m d) (f m d))"
| "unused_ids m ask web (Call c g) = unused_ids m ask web (g (ask c))"
| "unused_ids m ask web (Fetch q g) = unused_ids m ask web (g (web q))"

lemma run_alone_steps:
  assumes "unused_ids m ask web p (gs_db g)" "j < length (gs_threads g)" "gs_threads g ! j = (inp, p)"
    "run_alone m ask web p (gs_db g) = (r, d', cs)"
  shows "\<exists>g'. (gateway_step cfg reg node_operation)\<^sup>*\<^sup>* g g' \<and> gs_db g' = d' \<and> gs_calls g' = gs_calls g @ map (Pair inp) cs"
  using assms
proof (induction p arbitrary: g cs)
  case (Transact f k)
  let ?g = "(with_db g (f m (gs_db g)))\<lparr>gs_threads := (gs_threads g)[j := (inp, k m (gs_db g))]\<rparr>"
  have step: "gateway_step cfg reg node_operation g ?g" using Transact.prems by (intro gw_transact) auto
  have "\<exists>g'. (gateway_step cfg reg node_operation)\<^sup>*\<^sup>* ?g g' \<and> gs_db g' = d' \<and> gs_calls g' = gs_calls ?g @ map (Pair inp) cs"
    using Transact.prems by (intro Transact.IH [of "k m" "k m (gs_db g)"]) auto
  then show ?case using step by (auto intro: converse_rtranclp_into_rtranclp)
next
  case (Call c k)
  let ?g = "g\<lparr>gs_threads := (gs_threads g)[j := (inp, k (ask c))], gs_calls := gs_calls g @ [(inp, c)]\<rparr>"
  have step: "gateway_step cfg reg node_operation g ?g" using Call.prems by (intro gw_call) auto
  obtain cs' where cs: "cs = c # cs'" "run_alone m ask web (k (ask c)) (gs_db g) = (r, d', cs')"
    using Call.prems(4) by (auto split: prod.splits)
  have "\<exists>g'. (gateway_step cfg reg node_operation)\<^sup>*\<^sup>* ?g g' \<and> gs_db g' = d' \<and> gs_calls g' = gs_calls ?g @ map (Pair inp) cs'"
    using Call.prems cs(2) by (intro Call.IH) auto
  then show ?case using step cs(1) by (auto intro: converse_rtranclp_into_rtranclp)
next
  case (Fetch q k)
  let ?g = "g\<lparr>gs_threads := (gs_threads g)[j := (inp, k (web q))]\<rparr>"
  have step: "gateway_step cfg reg node_operation g ?g" using Fetch.prems by (intro gw_fetch) auto
  have "\<exists>g'. (gateway_step cfg reg node_operation)\<^sup>*\<^sup>* ?g g' \<and> gs_db g' = d' \<and> gs_calls g' = gs_calls ?g @ map (Pair inp) cs"
    using Fetch.prems by (intro Fetch.IH) auto
  then show ?case using step by (auto intro: converse_rtranclp_into_rtranclp)
qed auto

definition demo_config :: gateway_config where
  "demo_config = \<lparr>gc_octets = (\<lambda>_. 0), gc_sha = (\<lambda>_. sample_digest), gc_shown = (\<lambda>_. ''1''),
     gc_decrypt = (\<lambda>_ _. Some (JObj [(''accountId'', JStr ''acc''), (''accessToken'', JStr ''token''), (''expiresAt'', JNull)])),
     gc_encrypt = (\<lambda>_ _. ''k''), gc_datetime = (\<lambda>_. None), gc_collate = id, gc_parse_json = (\<lambda>_. None),
     gc_parse_url = (\<lambda>_. None), gc_jwt = (\<lambda>_ _ _. None), gc_clientId = None, gc_clientSecret = None, gc_tokenUrl = None\<rparr>"

definition demo_operation :: side_effect_operation where
  "demo_operation = \<lparr>so_id = ''create'', so_revision = ''1'', so_provider = ''github'', so_actionFamily = ''issues'',
     so_requiredScopes = [''repo''], so_installationPermissions = None, so_inputSchema = Some, so_parametersSchema = Some,
     so_preconditionsSchema = Some, so_resultSchema = Some, so_providerErrorSchema = Some, so_retrySafety = No_retry,
     so_normalize = (\<lambda>_. Some \<lparr>ns_target = JNull, ns_parameters = JNull, ns_providerPreconditions = JNull\<rparr>),
     so_display = (\<lambda>_. Some (JObj [(''title'', JStr ''Open an issue'')])),
     so_normalizeProviderError = (\<lambda>_. \<lparr>ce_code = ''provider_failed'', ce_message = ''failed'', ce_outcomeUnknown = False\<rparr>)\<rparr>"

definition demo_registry :: registry where
  "demo_registry oid = (if oid = ''create'' then Some (Side_effect_operation demo_operation) else None)"

definition demo_invocation :: gateway_input where
  "demo_invocation = \<lparr>gi_executionId = ''x1'', gi_workspaceId = ''ws'', gi_nodeId = ''issue'', gi_connectionId = ''cn'',
     gi_operationId = ''create'', gi_operationInput = JNull, gi_invocationIdempotencyKey = ''key'', gi_executionClaimId = ''w1''\<rparr>"

definition demo_moment :: moment where
  "demo_moment = \<lparr>mo_now = 60000, mo_aborted = False, mo_ids = sample_ids, mo_fact = ''f3''\<rparr>"


lemma execute_shape: "is_execute c \<Longrightarrow> \<exists>oid ps pre credential key. c = Execute oid ps pre credential key"
  by (cases c) (simp_all add: is_execute_def)

definition demo_answer :: "provider_call \<Rightarrow> thrown + jsval" where
  "demo_answer c = (if is_execute c then Inr JNull else Inr (JBool True))"

definition demo_state :: gateway_state where
  "demo_state = \<lparr>gs_db = approved_store, gs_used = {''w1''}, gs_threads = [], gs_calls = []\<rparr>"

lemma demo_ledger: "ledger_inv demo_state"
  unfolding ledger_inv_def
proof (intro conjI)
  show "intent_inv (gs_db demo_state)" using approved_store_inv by (simp add: demo_state_def)
qed (auto simp: demo_state_def approved_store_def empty_db_def example_row_def new_row_def row_ok_def is_terminal_def
    terminalStatuses_def holds_def)

theorem side_effects_approved_once_witness:
  "\<exists>g ps pre credential key i. (gateway_step demo_config demo_registry (\<lambda>_ _. ''create''))\<^sup>*\<^sup>* demo_state g \<and>
     (demo_invocation, Execute ''create'' ps pre credential key) \<in> set (gs_calls g) \<and>
     i \<in> set (actionIntents (gs_db g)) \<and> consented (gs_db g) i \<and> length (calls_for demo_invocation (gs_calls g)) = 1"
proof -
  let ?p = "execute demo_config 1 demo_registry demo_invocation" and ?web = "\<lambda>_. Inl Invalid_grant_error"
  let ?step = "gateway_step demo_config demo_registry (\<lambda>_ _. ''create'')"
  let ?g = "demo_state\<lparr>gs_threads := [(demo_invocation, ?p)]\<rparr>"
  have start: "?step demo_state ?g"
    using gw_invoke [of demo_invocation "\<lambda>_ _. ''create''" demo_config demo_registry demo_state 1]
    by (simp add: demo_invocation_def demo_state_def)
  have "unused_ids demo_moment demo_answer ?web ?p approved_store" by code_simp
  moreover obtain r d cs where r: "run_alone demo_moment demo_answer ?web ?p approved_store = (r, d, cs)" by (metis prod_cases3)
  ultimately obtain g where g: "?step\<^sup>*\<^sup>* ?g g" "gs_calls g = map (Pair demo_invocation) cs"
    using run_alone_steps [of demo_moment demo_answer ?web ?p ?g 0 demo_invocation r d cs demo_config demo_registry "\<lambda>_ _. ''create''"]
    by (auto simp: demo_state_def)
  have "map is_execute (snd (snd (run_alone demo_moment demo_answer ?web ?p approved_store))) = [False, True]" by code_simp
  then have "True \<in> is_execute ` set cs" unfolding r by (metis insertCI list.set(2) list.set_map snd_conv)
  then obtain c where "c \<in> set cs" "is_execute c" by auto
  then obtain oid ps pre credential key where "Execute oid ps pre credential key \<in> set cs"
    using execute_shape [of c] by blast
  then have c: "(demo_invocation, Execute oid ps pre credential key) \<in> set (gs_calls g)" using g(2) by auto
  have run: "?step\<^sup>*\<^sup>* demo_state g" using start g(1) by (rule converse_rtranclp_into_rtranclp)
  from side_effects_approved_once [OF demo_ledger _ _ run c] obtain s i where
    "registeredSideEffectOperation demo_registry (gi_operationId demo_invocation) = Some s" "oid = so_id s"
    "i \<in> set (actionIntents (gs_db g))" "consented (gs_db g) i"
    "so_retrySafety s = No_retry \<longrightarrow> length (calls_for demo_invocation (gs_calls g)) = 1"
    by (auto simp: demo_state_def)
  moreover from this(1) have "s = demo_operation"
    by (simp add: registeredSideEffectOperation_def demo_registry_def demo_invocation_def demo_operation_def)
  moreover have "so_id demo_operation = ''create''" "so_retrySafety demo_operation = No_retry" by (simp_all add: demo_operation_def)
  ultimately show ?thesis using run c by metis
qed


end
