(* ===== verification/Gateway_Errors.thy ===== *)
theory Gateway_Errors
  imports Gateway_Protocol
begin

text \<open>
  What the gateway lets through to its caller: the outcomes a program can have for any answers of
  the database, of providers and of the network, and which errors are among them.
\<close>

section \<open>Outcomes\<close>

inductive outcome :: "'a program \<Rightarrow> thrown + 'a \<Rightarrow> bool" where
  o_return: "outcome (Return v) (Inr v)"
| o_throw: "outcome (Throw e) (Inl e)"
| o_transact: "outcome (g m d) r \<Longrightarrow> outcome (Transact f g) r"
| o_call: "outcome (g v) r \<Longrightarrow> outcome (Call c g) r"
| o_fetch: "outcome (g w) r \<Longrightarrow> outcome (Fetch q g) r"

inductive_simps outcome_simps [simp]:
  "outcome (Return v) r" "outcome (Throw e) r" "outcome Stuck r" "outcome (Transact f g) r" "outcome (Call c g) r"
  "outcome (Fetch q g) r"

lemma outcome_andThen:
  "outcome (andThen p k) r \<longleftrightarrow> (\<exists>e. outcome p (Inl e) \<and> r = Inl e) \<or> (\<exists>v. outcome p (Inr v) \<and> outcome (k v) r)"
proof (induction p)
  case (Transact f g)
  have "outcome (andThen (g m d) k) r \<longleftrightarrow>
      (\<exists>e. outcome (g m d) (Inl e) \<and> r = Inl e) \<or> (\<exists>v. outcome (g m d) (Inr v) \<and> outcome (k v) r)" for m d
    using Transact by blast
  then show ?case unfolding andThen.simps outcome_simps by blast
next
  case (Call c g)
  have "outcome (andThen (g v) k) r \<longleftrightarrow>
      (\<exists>e. outcome (g v) (Inl e) \<and> r = Inl e) \<or> (\<exists>w. outcome (g v) (Inr w) \<and> outcome (k w) r)" for v
    using Call by blast
  then show ?case unfolding andThen.simps outcome_simps by blast
next
  case (Fetch q g)
  have "outcome (andThen (g v) k) r \<longleftrightarrow>
      (\<exists>e. outcome (g v) (Inl e) \<and> r = Inl e) \<or> (\<exists>w. outcome (g v) (Inr w) \<and> outcome (k w) r)" for v
    using Fetch by blast
  then show ?case unfolding andThen.simps outcome_simps by blast
qed auto

lemma outcome_tried: "outcome (tried p) r \<longleftrightarrow> (\<exists>r'. r = Inr r' \<and> outcome p r')"
proof (induction p)
  case (Transact f g)
  have "outcome (tried (g m d)) r \<longleftrightarrow> (\<exists>r'. r = Inr r' \<and> outcome (g m d) r')" for m d using Transact by blast
  then show ?case by auto
next
  case (Call c g)
  have "outcome (tried (g v)) r \<longleftrightarrow> (\<exists>r'. r = Inr r' \<and> outcome (g v) r')" for v using Call by blast
  then show ?case by auto
next
  case (Fetch q g)
  have "outcome (tried (g v)) r \<longleftrightarrow> (\<exists>r'. r = Inr r' \<and> outcome (g v) r')" for v using Fetch by blast
  then show ?case by auto
qed auto

section \<open>Errors of side effects\<close>

text \<open>Errors of the gateway itself, of the database, and programming errors; never an error a provider threw.\<close>

definition contained :: "thrown \<Rightarrow> bool" where
  "contained e = (case e of Provider_error _ \<Rightarrow> False | Invalid_grant_error \<Rightarrow> False | _ \<Rightarrow> True)"

definition safe_errors :: "'a program \<Rightarrow> bool" where
  "safe_errors p \<longleftrightarrow> (\<forall>e. outcome p (Inl e) \<longrightarrow> contained e)"

named_theorems safe_intros

lemma safe_andThen [safe_intros]: "safe_errors p \<Longrightarrow> (\<And>v. outcome p (Inr v) \<Longrightarrow> safe_errors (k v)) \<Longrightarrow> safe_errors (andThen p k)"
  by (auto simp: safe_errors_def outcome_andThen)

lemma safe_basic [safe_intros]: "safe_errors (Return v)" "contained e \<Longrightarrow> safe_errors (Throw e)" "safe_errors (tried p)"
  "safe_errors Stuck"
  by (auto simp: safe_errors_def outcome_tried)

lemma safe_observe [safe_intros]: "safe_errors (observe f)" "safe_errors (lookup_db h)"
  by (auto simp: safe_errors_def observe_def lookup_db_def)

lemma safe_txn [safe_intros]: "safe_errors (txn f)"
proof -
  have "outcome (case f m d of Inl x \<Rightarrow> Throw (Db_error x) | Inr (d', v) \<Rightarrow> Return v) (Inl e) \<Longrightarrow> contained e" for m d e
    by (cases "f m d") (auto simp: contained_def)
  then show ?thesis unfolding safe_errors_def txn_def outcome_simps by blast
qed

lemma safe_call: "(\<And>v. safe_errors (g v)) \<Longrightarrow> safe_errors (Call c g)"
  by (auto simp: safe_errors_def)

lemma safe_of_result: "(\<And>e. r = Inl e \<Longrightarrow> contained e) \<Longrightarrow> safe_errors (of_result r)"
  by (cases r) (auto simp: of_result_def safe_errors_def)

lemma contained_simps [simp]: "contained (Gateway_error a b)" "contained (Js_error a)" "contained (Db_error x)" "contained gateway_rejected"
  by (simp_all add: contained_def gateway_rejected_def)

lemma safe_scopes [safe_intros]: "safe_errors (of_result (side_effect_scopes s kind))"
  by (rule safe_of_result)
     (auto simp: side_effect_scopes_def requiredConnectionScopes_def split: authorization_kind.splits option.splits)

lemma safe_fail [safe_intros]: "safe_errors (failSideEffect cfg i who err status)"
  unfolding failSideEffect_def by (intro safe_intros) (auto intro: safe_basic split: option.split)

lemma safe_dispatch: "safe_errors (dispatch_loop cfg s i who ps pre credential maximum attempt)"
proof (induction cfg s i who ps pre credential maximum attempt rule: dispatch_loop.induct)
  case (1 cfg s i who ps pre credential maximum attempt)
  have "safe_errors (completeDispatch cfg i who v)" for v
    unfolding completeDispatch_def by (intro safe_intros) (auto intro: safe_basic split: option.split)
  then have "safe_errors (call_execute s i ps pre credential (\<lambda>res. case res of
      Inr result \<Rightarrow> completeDispatch cfg i who result
    | Inl e \<Rightarrow> (case so_providerErrorSchema s (so_normalizeProviderError s e) of
        None \<Rightarrow> Throw (Js_error ''ZodError'')
      | Some err \<Rightarrow> andThen (observe mo_aborted) (\<lambda>stop.
          if retryProviderRequest s (ce_outcomeUnknown err) (attempt + 1) maximum stop
          then dispatch_loop cfg s i who ps pre credential maximum (attempt + 1)
          else failSideEffect cfg i who err (providerFailureStatus (ce_code err) (ce_outcomeUnknown err))))))"
    unfolding call_execute_def using 1
    by (intro safe_call) (auto intro!: safe_intros split: sum.split option.split)
  then show ?case
    unfolding dispatch_loop.simps [of cfg s i who ps pre credential maximum attempt] beginDispatch_def
    by (auto intro!: safe_intros split: option.split)
qed

lemma safe_preconditions: "safe_errors (requireCurrentProviderPreconditions cfg s i ps pre credential who)"
  unfolding requireCurrentProviderPreconditions_def
  by (rule safe_call) (auto intro!: safe_intros split: sum.split)

lemma safe_claimed: "safe_errors (resolveActionIntentClaim cfg n s inp dec v)"
proof -
  have "safe_errors (invokeSideEffect cfg s i credential who)" for i credential who
    by (auto simp: invokeSideEffect_def intro!: safe_intros safe_dispatch safe_preconditions split: option.split)
  then have "safe_errors (dispatchClaimedSideEffect cfg n s inp recovered i c)" for recovered i c
    by (auto simp: dispatchClaimedSideEffect_def intro!: safe_intros split: sum.split)
  then show ?thesis
    by (auto simp: resolveActionIntentClaim_def resolveTerminalActionIntent_def
        intro!: safe_intros split: claim_result.split option.split)
qed

lemma safe_consent: "safe_errors (resolveSideEffectConsent cfg n s inp c)"
proof -
  have "safe_errors (of_result (verifyConsentDigest cfg s i r))" for i r
    by (rule safe_of_result) (auto simp: verifyConsentDigest_def throw_if_def split: option.splits if_splits)
  then show ?thesis
    unfolding resolveSideEffectConsent_def executeApprovedSideEffect_def
    by (auto intro!: safe_intros safe_claimed split: prod.split option.split)
qed

lemma safe_request: "safe_errors (requestConsent cfg n s inp p kind)"
proof -
  have "safe_errors (of_result (creation_failure v))" for v
    by (rule safe_of_result) (auto simp: creation_failure_def split: create_intent_result.splits)
  then show ?thesis
    unfolding requestConsent_def consentFor_def by (auto intro!: safe_intros safe_consent split: option.split)
qed

lemma run_alone_outcome: "run_alone m ask web p d = (Some r, d', cs) \<Longrightarrow> outcome p r"
proof (induction p arbitrary: d d' cs)
  case (Transact f g)
  then have "outcome (g m d) r" by (metis rangeI run_alone.simps(4))
  then show ?case by (rule o_transact)
next
  case (Call c g)
  then obtain cs' where "run_alone m ask web (g (ask c)) d = (Some r, d', cs')" by (auto split: prod.splits)
  then have "outcome (g (ask c)) r" by (rule Call.IH [OF rangeI])
  then show ?case by (rule o_call)
next
  case (Fetch q g)
  then have "outcome (g (web q)) r" by (metis rangeI run_alone.simps(6))
  then show ?case by (rule o_fetch)
qed auto

text \<open>
  C34. Whatever a provider throws at a side effect, whatever the network and the database answer, the
  caller of the gateway sees an error of the gateway with a code, an error of the database or an
  internal error; the value a provider threw, which may quote the request and its credential,
  never gets out.
\<close>

theorem provider_errors_contained:
  assumes "outcome (executeSideEffect cfg n s inp) (Inl e)"
  shows "\<exists>msg code x. e = Gateway_error msg code \<or> e = Js_error msg \<or> e = Db_error x"
proof -
  have "safe_errors (of_result (prepareSideEffect cfg s inp))"
    by (rule safe_of_result) (auto simp: prepareSideEffect_def Let_def split: option.splits)
  then have "safe_errors (executeSideEffect cfg n s inp)"
    unfolding executeSideEffect_def consentFor_def readAuthority_def
    by (auto intro!: safe_intros safe_consent safe_request split: option.split)
  then have "contained e" using assms by (simp add: safe_errors_def)
  then show ?thesis by (cases e) (auto simp: contained_def)
qed

theorem provider_errors_contained_witness:
  "\<exists>e msg code x. outcome (executeSideEffect demo_config 1 demo_operation demo_invocation) (Inl e) \<and>
     (e = Gateway_error msg code \<or> e = Js_error msg \<or> e = Db_error x)"
proof -
  let ?p = "executeSideEffect demo_config 1 demo_operation demo_invocation"
  let ?ask = "\<lambda>_. Inl (Provider_error JNull)" and ?web = "\<lambda>_. Inl Invalid_grant_error"
  obtain r d cs where r: "run_alone demo_moment ?ask ?web ?p approved_store = (r, d, cs)" by (metis prod_cases3)
  have "case fst (run_alone demo_moment ?ask ?web ?p approved_store) of Some (Inl _) \<Rightarrow> True | _ \<Rightarrow> False" by code_simp
  then obtain e where "r = Some (Inl e)" unfolding r by (auto split: option.splits sum.splits)
  then have out: "outcome ?p (Inl e)" using r run_alone_outcome by blast
  show ?thesis using out provider_errors_contained [OF out] by blast
qed

end
