(* ===== verification/Spec2Isabelle.thy ===== *)
theory Spec2Isabelle
  imports Execution_Paging Node_Laws Runs Intent_Digest Connection_Protocol Gateway_Errors
begin

text \<open>
  \<^bold>\<open>Linea: a verification of the workflow engine.\<close>

  Linea runs workflows: graphs of nodes that a user draws in a builder, publishes, and that
  workers execute step by step with a checkpoint in PostgreSQL after every node, so that another
  worker can take over at any moment. This library models the parts that decide what a run does:
  the document format and its validation, the walk over the graph, the database transactions
  that share executions among workers, the interpreter and its node handlers.

  \<^bold>\<open>Parts of the program and the theories that model them\<close>

  \<^item> \<^verbatim>\<open>Linea_Prelude\<close>: collections of facts, error results (\<open>bindE\<close>, \<open>throw_if\<close>, \<open>for_each\<close>), insertion-ordered
    maps (\<open>omap_set\<close>, JavaScript's \<^verbatim>\<open>Map\<close>), rows of a table (\<open>update_where\<close>, \<open>first_row\<close>), sequences of steps
    (\<open>run_steps\<close>).
  \<^item> \<^verbatim>\<open>Js_Value\<close>: JavaScript values, with \<^verbatim>\<open>NaN\<close> and infinities, property lookup including inherited names,
    strict equality, object update in property order, string functions and \<^verbatim>\<open>Number(string)\<close>. Numbers are
    rationals: rounding to 53 bits is not modelled.
  \<^item> \<^verbatim>\<open>Workflow_Graph\<close>, \<^verbatim>\<open>Node_Configs\<close>: the Zod schemas of \<^verbatim>\<open>packages/runtime/src/workflow-json/schema.ts\<close> and of
    the node definitions as partial parsers, the canonical form that is hashed (\<^verbatim>\<open>hash.ts\<close>), retry policies,
    agent definitions.
  \<^item> \<^verbatim>\<open>Validate_Graph\<close>: \<^verbatim>\<open>validate-graph.ts\<close>, every check in order; the depth-first search and the analysis of
    required branch choices take fuel, and the validator gives them enough (\<open>visit_fuel\<close>,
    \<open>requiredChoices_fuel\<close>).
  \<^item> \<^verbatim>\<open>Walker\<close>: the generator of \<^verbatim>\<open>interpreter/walker.ts\<close> as a suspended state and its resumption.
  \<^item> \<^verbatim>\<open>Store_Schema\<close>: the tables as records and lists of rows, with the columns the modelled statements use.
  \<^item> \<^verbatim>\<open>Outbox\<close>, \<^verbatim>\<open>Execution_Store\<close>: one function per repository operation, each an atomic transaction on the
    database (\<^verbatim>\<open>outbox-message\<close>, \<^verbatim>\<open>execution\<close>, \<^verbatim>\<open>checkpoint\<close>, \<^verbatim>\<open>wait-timer\<close> and \<^verbatim>\<open>end-subject\<close> repositories). The clock,
    generated identifiers and rows locked by other transactions are arguments.
  \<^item> \<^verbatim>\<open>Approvals\<close>: the repository of approval requests and decisions, with reviewer authority, idempotent
    public requests, audit facts and the cancellation of an execution; its step relation and invariant.
  \<^item> \<^verbatim>\<open>Store_Protocol\<close>: the operations of all processes as one step relation, its invariant, the life cycle it
    refines, leases, and the poller of wait timers.
  \<^item> \<^verbatim>\<open>Action_Intents\<close>, \<^verbatim>\<open>Intent_Protocol\<close>: side effects of connectors that wait for consent, one function per transaction
    of \<^verbatim>\<open>action-intent.repository.ts\<close>; their life cycle, and all transactions of the store together (\<open>system_step\<close>).
  \<^item> \<^verbatim>\<open>Intent_Digest\<close>: the canonical text and digest of an action (\<^verbatim>\<open>connectors/src/action-intent-canonicalization.ts\<close>) and the
    text a reviewer is shown. The hash, the encoding to octets and the spelling of numbers are parameters.
  \<^item> \<^verbatim>\<open>Connections\<close>, \<^verbatim>\<open>Connection_Protocol\<close>: \<^verbatim>\<open>connection.repository.ts\<close>: authorization requests, stored
    credentials with versions, reads that hold a credential, revocation and its deliveries to the
    provider; the two life cycles, the invariant, and who may read a credential. Ciphertexts are opaque.
  \<^item> \<^verbatim>\<open>Connector_Credentials\<close>: credentials as the gateway resolves them (\<^verbatim>\<open>google-credential-refresh.ts\<close>,
    \<^verbatim>\<open>github-installation-credential.ts\<close>, \<^verbatim>\<open>bounded-response.ts\<close>). Code that awaits is a \<open>program\<close>: it suspends at each
    transaction, each call of a provider and each request, and anything may happen in between.
  \<^item> \<^verbatim>\<open>Connector_Gateway\<close>: every method of \<^verbatim>\<open>connector-gateway.ts\<close>, for any registry of operations: reads under an
    authority, side effects that wait for consent, dispatch, retry and failure, refresh of credentials.
  \<^item> \<^verbatim>\<open>Gateway_Logic\<close>, \<^verbatim>\<open>Gateway_Protocol\<close>: what an invocation does in which order (\<open>behaves\<close>), and all
    invocations interleaved with the other transactions of the store (\<open>gateway_step\<close>).
  \<^item> \<^verbatim>\<open>Gateway_Errors\<close>: the outcomes of a program and the errors among them.
  \<^item> \<^verbatim>\<open>Execution_Paging\<close>: the keyset-paged listings.
  \<^item> \<^verbatim>\<open>Ai_Registry\<close>: models, providers and prices of \<^verbatim>\<open>packages/ai\<close>.
  \<^item> \<^verbatim>\<open>Checkpoints\<close>: \<^verbatim>\<open>checkpoints.service.ts\<close>; what a JSON column keeps of a value (\<open>jsonb\<close>).
  \<^item> \<^verbatim>\<open>Interpreter\<close>: \<^verbatim>\<open>interpreter.service.ts\<close>, with retries, timeouts, accounting and checkpoints. A node handler
    acts on a \<open>world\<close> (database, clock, abort flag), and between any two actions of the worker an
    arbitrary \<open>env\<close> acts too: other workers, pollers, heartbeats.
  \<^item> \<^verbatim>\<open>Datetime\<close>, \<^verbatim>\<open>Node_Handlers\<close>: the handlers of \<^verbatim>\<open>graph/nodes\<close> that compute or wait. The calendar functions of
    \<^verbatim>\<open>Date\<close> are modelled; parsing a date text and time zones are parameters (\<open>date_libs\<close>). Handlers that
    call external services are a parameter (\<open>services\<close>).
  \<^item> \<^verbatim>\<open>Node_Laws\<close>: laws of the branch, merge and variables nodes.
  \<^item> \<^verbatim>\<open>Runs\<close>: \<^verbatim>\<open>runs.service.ts\<close> and the lease heartbeat: claim, run, pause or complete, fail.

  \<^bold>\<open>What is shown\<close>

  \<^item> Validation accepts exactly the well-formed graphs, reports real cycles and conflicts, and never
    runs out of fuel; every node of an accepted graph can run.
  \<^item> The walker hands out ready nodes only, each once, ends, and does not depend on where a run is cut
    and resumed.
  \<^item> A lease fences: no operation of another worker changes an execution whose lease is live. Every
    transaction is a step of the life cycle. A paused execution always has a timer or a
    pending approval request that will wake it.
  \<^item> No side effect is dispatched that a reviewer has not approved, digest for digest.
  \<^item> A side effect that reached a provider was approved, with the arguments the digest covers; without
    deduplication by the provider it was sent at most once, whatever crashed. No error of a provider gets out.
  \<^item> The text that is hashed determines the action, and storing it in a JSON column does not change it.
  \<^item> A credential is only handed out for the connection, owner and version it was stored for; an
    authorization completes once and only by the process that claimed it.
  \<^item> An approval request is settled once, by a person before its deadline or by the system after it.
  \<^item> The outbox keeps its constraints; only a claimant changes a claimed message.
  \<^item> Every run ends; a run that completes is a walk; what a run leaves in the database is what the next
    worker resumes from, under interference that respects the lease (\<open>undisturbed\<close>, locale
    \<open>fenced_worker\<close>, interpreted for the worker with its heartbeat).
  \<^item> Paging skips and repeats nothing; prices are consistent; calendar arithmetic is invertible.

  \<^bold>\<open>Fuel and bounds\<close>

  Fuel is used where the source loops or recurses without a structural measure: the two searches
  of the validator, the interpreter's loop (\<open>run\<close> takes the number of nodes; \<open>run_total\<close> shows
  that it is enough) and the loop over resolved pauses (\<open>run_until_settled\<close>), which the source does not bound:
  there fuel is an argument. So is the number of lost races after which \<open>resolveCredential\<close> is \<open>Stuck\<close>:
  the properties hold for each number. Integer columns are checked for their 32-bit range where a statement
  can exceed it; token counts are JavaScript numbers.

  \<^bold>\<open>Not modelled\<close>

  The web, mobile and docs applications, user interface packages and SDKs; HTTP controllers,
  authentication, encryption and sandboxing; provider and mail clients and the network methods of
  connector operations (they only call external services); queues and process timers; log lines; the texts of Zod errors, which are
  abbreviated; rounding of floating-point numbers.
\<close>

end
